(* ===== verification/BubbleHub_Prelude.thy ===== *)
theory BubbleHub_Prelude
  imports Complex_Main
    "HOL-Library.AList"
    "HOL-Library.Multiset"
    "HOL-Library.Char_ord"
    "HOL-Library.List_Lexorder"
    "HOL-Library.Product_Lexorder"
begin

text \<open>
  The vocabulary every component of the development shares: Python exceptions as values, the
  dynamically typed values that come out of \<^verbatim>\<open>json.loads\<close>, and the methods of Python's
  \<^verbatim>\<open>str\<close>, \<^verbatim>\<open>int\<close> and \<^verbatim>\<open>dict\<close> that the sources under \<^verbatim>\<open>src/bubblehub\<close> call.

  Strings are lists of \<^typ>\<open>char\<close>, read as the code points 0 to 255; the character classes
  (\<^verbatim>\<open>isspace\<close>, \<^verbatim>\<open>isdigit\<close>, \<^verbatim>\<open>lower\<close>) are Python's on that range. Integers are unbounded, as
  in Python. A finite float is the rational it denotes together with the text
  \<^verbatim>\<open>repr\<close> gives for it (the shortest-digits algorithm of CPython is not part of the program).
\<close>

section \<open>Collections of facts\<close>

named_theorems str_simps \<open>laws of the string methods\<close>
named_theorems res_simps \<open>laws of results and exceptions\<close>

section \<open>Exceptions and results\<close>

datatype exn =
    ValueError string
  | JSONDecodeError string
  | UnicodeDecodeError string
  | KeyError string
  | IndexError string
  | TypeError string
  | AttributeError string
  | OverflowError string
  | RuntimeError string
  | LibBubbleError string
  | DownloadError string
  | RequestException string
  | BadParameter string
  | OSError string
  | FileNotFoundError string
  | PermissionError string
  | ProcessLookupError string
  | TyperExit int
  | CalledProcessError string
  | StructError string
  | SystemExit string

type_synonym 'a result = "exn + 'a"

text \<open>Sequencing: the first exception ends the computation.\<close>

definition bindr :: "'a result \<Rightarrow> ('a \<Rightarrow> 'b result) \<Rightarrow> 'b result" where
  "bindr m f = (case m of Inl e \<Rightarrow> Inl e | Inr x \<Rightarrow> f x)"

lemma bindr_simps [simp, res_simps]:
  "bindr (Inl e) f = Inl e"
  "bindr (Inr x) f = f x"
  by (simp_all add: bindr_def)

lemma bindr_eq_Inr [res_simps]: "bindr m f = Inr y \<longleftrightarrow> (\<exists>x. m = Inr x \<and> f x = Inr y)"
  by (cases m) simp_all

lemma bindr_eq_Inl [res_simps]:
  "bindr m f = Inl e \<longleftrightarrow> m = Inl e \<or> (\<exists>x. m = Inr x \<and> f x = Inl e)"
  by (cases m) simp_all

lemma map_sum_InrD: "map_sum f g m = Inr y \<Longrightarrow> \<exists>x. m = Inr x \<and> g x = y"
  by (cases m) auto

lemma bindr_split: "P (bindr m f) = ((\<forall>e. m = Inl e \<longrightarrow> P (Inl e)) \<and> (\<forall>x. m = Inr x \<longrightarrow> P (f x)))"
  by (cases m) simp_all

text \<open>Mapping a fallible operation over a list, left to right, as a comprehension does.\<close>

fun mapr :: "('a \<Rightarrow> 'b result) \<Rightarrow> 'a list \<Rightarrow> 'b list result" where
  "mapr f [] = Inr []"
| "mapr f (x # xs) = bindr (f x) (\<lambda>y. bindr (mapr f xs) (\<lambda>ys. Inr (y # ys)))"

lemma mapr_Inr: "(\<And>x. x \<in> set xs \<Longrightarrow> f x = Inr (g x)) \<Longrightarrow> mapr f xs = Inr (map g xs)"
  by (induction xs) auto

text \<open>
  State passing: a program takes the state and returns its outcome together with the state it leaves,
  also when it raises.
\<close>

type_synonym ('s, 'a) prog = "'s \<Rightarrow> 'a result \<times> 's"

definition bindn :: "('s, 'a) prog \<Rightarrow> ('a \<Rightarrow> ('s, 'b) prog) \<Rightarrow> ('s, 'b) prog" where
  "bindn m f = (\<lambda>h. case m h of (Inl e, h') \<Rightarrow> (Inl e, h') | (Inr x, h') \<Rightarrow> f x h')"

definition returnn :: "'a \<Rightarrow> ('s, 'a) prog" where
  "returnn x = (\<lambda>h. (Inr x, h))"

definition raisen :: "exn \<Rightarrow> ('s, 'a) prog" where
  "raisen e = (\<lambda>h. (Inl e, h))"

definition liftn :: "'a result \<Rightarrow> ('s, 'a) prog" where
  "liftn r = (\<lambda>h. (r, h))"

text \<open>\<^verbatim>\<open>try: m finally: cleanup\<close>: an exception of the cleanup replaces whatever \<^verbatim>\<open>m\<close> did.\<close>

definition finallyn :: "('s, 'a) prog \<Rightarrow> ('s, unit) prog \<Rightarrow> ('s, 'a) prog" where
  "finallyn m cleanup = (\<lambda>h. case m h of (r, h') \<Rightarrow>
     (case cleanup h' of (Inl e, h'') \<Rightarrow> (Inl e, h'') | (Inr _, h'') \<Rightarrow> (r, h'')))"

named_theorems native_simps \<open>unfolding of state-passing programs\<close>

lemma bindn_simps [native_simps]:
  "bindn m f h = (case m h of (Inl e, h') \<Rightarrow> (Inl e, h') | (Inr x, h') \<Rightarrow> f x h')"
  "returnn x h = (Inr x, h)" "raisen e h = (Inl e, h)" "liftn r h = (r, h)"
  by (simp_all add: bindn_def returnn_def raisen_def liftn_def)

named_theorems keeps_rules \<open>parts of the state a program leaves alone\<close>

definition keeps :: "('s \<Rightarrow> 'b) \<Rightarrow> ('s, 'a) prog \<Rightarrow> bool" where
  "keeps f m \<longleftrightarrow> (\<forall>s. f (snd (m s)) = f s)"

lemma keepsD: "keeps f m \<Longrightarrow> m s = (r, s') \<Longrightarrow> f s' = f s"
  unfolding keeps_def by (metis snd_conv)

lemma keeps_basic [keeps_rules]: "keeps f (returnn x)" "keeps f (raisen e)" "keeps f (liftn r)"
  by (simp_all add: keeps_def native_simps)

lemma keeps_bindn [keeps_rules]: "keeps f m \<Longrightarrow> (\<And>x. keeps f (k x)) \<Longrightarrow> keeps f (bindn m k)"
  unfolding keeps_def by (auto simp: native_simps split: prod.splits sum.splits) (metis snd_conv)+

lemma keeps_state: "(\<And>s0. keeps f (m s0)) \<Longrightarrow> keeps f (\<lambda>s. m s s)"
  unfolding keeps_def by blast

lemma keeps_prod [keeps_rules]: "(\<And>x y. keeps f (k x y)) \<Longrightarrow> keeps f (case p of (x, y) \<Rightarrow> k x y)"
  by (cases p) simp

lemma keeps_if [keeps_rules]: "(b \<Longrightarrow> keeps f m) \<Longrightarrow> (\<not> b \<Longrightarrow> keeps f m') \<Longrightarrow> keeps f (if b then m else m')"
  by simp

lemma keeps_finally [keeps_rules]: "keeps f m \<Longrightarrow> keeps f c \<Longrightarrow> keeps f (finallyn m c)"
  unfolding keeps_def finallyn_def by (auto split: prod.splits sum.splits) (metis snd_conv)+

named_theorems yields_rules \<open>what a program returns when it returns\<close>

definition yields :: "('a \<Rightarrow> bool) \<Rightarrow> ('s, 'a) prog \<Rightarrow> bool" where
  "yields Q m \<longleftrightarrow> (\<forall>s x s'. m s = (Inr x, s') \<longrightarrow> Q x)"

lemma yieldsD: "yields Q m \<Longrightarrow> m s = (Inr x, s') \<Longrightarrow> Q x"
  by (auto simp: yields_def)

lemma yields_after: "yields R m \<Longrightarrow> (\<And>x. R x \<Longrightarrow> yields Q (k x)) \<Longrightarrow> yields Q (bindn m k)"
  unfolding yields_def by (simp add: native_simps split: prod.splits sum.splits) blast

lemma yields_basic [yields_rules]: "Q x \<Longrightarrow> yields Q (returnn x)" "yields Q (raisen e)" "(\<And>x. r = Inr x \<Longrightarrow> Q x) \<Longrightarrow> yields Q (liftn r)"
  by (simp_all add: yields_def native_simps)

lemma yields_bindn [yields_rules]: "(\<And>x. yields Q (k x)) \<Longrightarrow> yields Q (bindn m k)"
  using yields_after[of "\<lambda>_. True" m Q k] by (simp add: yields_def)

lemma yields_prod [yields_rules]: "(\<And>x y. p = (x, y) \<Longrightarrow> yields Q (k x y)) \<Longrightarrow> yields Q (case p of (x, y) \<Rightarrow> k x y)"
  by (cases p) simp

lemma bindn_Inr:
  assumes "bindn m f h = (Inr y, h')"
  obtains x h1 where "m h = (Inr x, h1)" "f x h1 = (Inr y, h')"
  using assms by (auto simp: bindn_def split: prod.splits sum.splits)

text \<open>
  The \<^verbatim>\<open>except\<close> clauses: the decoding errors are subclasses of \<^verbatim>\<open>ValueError\<close>; the file-system
  ones of \<^verbatim>\<open>OSError\<close>. \<^verbatim>\<open>typer.Exit\<close> and \<^verbatim>\<open>typer.BadParameter\<close> are ordinary exceptions
  (subclasses of \<^verbatim>\<open>RuntimeError\<close> and of click's \<^verbatim>\<open>UsageError\<close>).
\<close>

fun is_value_error :: "exn \<Rightarrow> bool" where
  "is_value_error (ValueError _) = True"
| "is_value_error (JSONDecodeError _) = True"
| "is_value_error (UnicodeDecodeError _) = True"
| "is_value_error _ = False"

fun is_type_or_value_error :: "exn \<Rightarrow> bool" where
  "is_type_or_value_error (TypeError _) = True"
| "is_type_or_value_error e = is_value_error e"

fun is_os_error :: "exn \<Rightarrow> bool" where
  "is_os_error (OSError _) = True"
| "is_os_error (FileNotFoundError _) = True"
| "is_os_error (PermissionError _) = True"
| "is_os_error (ProcessLookupError _) = True"
| "is_os_error (RequestException _) = True"
| "is_os_error _ = False"

section \<open>Characters and strings\<close>

abbreviation code :: "char \<Rightarrow> nat" where "code \<equiv> of_char"

definition is_digit :: "char \<Rightarrow> bool" where
  "is_digit c \<longleftrightarrow> 48 \<le> code c \<and> code c \<le> 57"

definition digit_val :: "char \<Rightarrow> nat" where
  "digit_val c = code c - 48"

definition is_space :: "char \<Rightarrow> bool" where
  "is_space c \<longleftrightarrow> (let n = code c in
     9 \<le> n \<and> n \<le> 13 \<or> 28 \<le> n \<and> n \<le> 32 \<or> n = 133 \<or> n = 160)"

definition lower_char :: "char \<Rightarrow> char" where
  "lower_char c = (let n = code c in
     if 65 \<le> n \<and> n \<le> 90 \<or> 192 \<le> n \<and> n \<le> 222 \<and> n \<noteq> 215 then char_of (n + 32) else c)"

definition lower :: "string \<Rightarrow> string" where
  "lower s = map lower_char s"

definition lstrip :: "string \<Rightarrow> string" where
  "lstrip s = dropWhile is_space s"

definition rstrip :: "string \<Rightarrow> string" where
  "rstrip s = rev (dropWhile is_space (rev s))"

definition strip :: "string \<Rightarrow> string" where
  "strip s = rstrip (lstrip s)"

text \<open>\<^verbatim>\<open>s.strip(c)\<close> and \<^verbatim>\<open>s.rstrip(c)\<close> for a single character \<^verbatim>\<open>c\<close>.\<close>

definition rstrip_char :: "char \<Rightarrow> string \<Rightarrow> string" where
  "rstrip_char c s = rev (dropWhile ((=) c) (rev s))"

definition strip_char :: "char \<Rightarrow> string \<Rightarrow> string" where
  "strip_char c s = rstrip_char c (dropWhile ((=) c) s)"

definition startswith :: "string \<Rightarrow> string \<Rightarrow> bool" where
  "startswith p s \<longleftrightarrow> take (length p) s = p"

definition endswith :: "string \<Rightarrow> string \<Rightarrow> bool" where
  "endswith p s \<longleftrightarrow> length p \<le> length s \<and> drop (length s - length p) s = p"

fun contains :: "string \<Rightarrow> string \<Rightarrow> bool" where
  "contains p [] = (p = [])"
| "contains p (c # s) = (startswith p (c # s) \<or> contains p s)"

text \<open>\<^verbatim>\<open>sep.join(xs)\<close>, \<^verbatim>\<open>s.split(c)\<close>, \<^verbatim>\<open>s.split()\<close>.\<close>

fun join :: "string \<Rightarrow> string list \<Rightarrow> string" where
  "join sep [] = []"
| "join sep [x] = x"
| "join sep (x # y # ys) = x @ sep @ join sep (y # ys)"

fun split_by :: "(char \<Rightarrow> bool) \<Rightarrow> string \<Rightarrow> string list" where
  "split_by p [] = [[]]"
| "split_by p (c # s) =
     (if p c then [] # split_by p s
      else (case split_by p s of [] \<Rightarrow> [[c]] | w # ws \<Rightarrow> (c # w) # ws))"

definition split_on :: "char \<Rightarrow> string \<Rightarrow> string list" where
  "split_on c s = split_by ((=) c) s"

definition split_ws :: "string \<Rightarrow> string list" where
  "split_ws s = filter (\<lambda>w. w \<noteq> []) (split_by is_space s)"

text \<open>\<^verbatim>\<open>s.partition(c)\<close> without the separator: the text before and after the first \<^verbatim>\<open>c\<close>.\<close>

definition before_char :: "char \<Rightarrow> string \<Rightarrow> string" where
  "before_char c s = takeWhile (\<lambda>x. x \<noteq> c) s"

definition after_char :: "char \<Rightarrow> string \<Rightarrow> string" where
  "after_char c s = drop 1 (dropWhile (\<lambda>x. x \<noteq> c) s)"

definition has_char :: "char \<Rightarrow> string \<Rightarrow> bool" where
  "has_char c s \<longleftrightarrow> c \<in> set s"

definition is_linebreak :: "char \<Rightarrow> bool" where
  "is_linebreak c \<longleftrightarrow> (let n = code c in 10 \<le> n \<and> n \<le> 13 \<or> 28 \<le> n \<and> n \<le> 30 \<or> n = 133)"

text \<open>
  \<^verbatim>\<open>s.splitlines()\<close>: a carriage return directly before a newline makes one break, and text
  after the last break is a line only when it is not empty.
\<close>

fun merge_crlf :: "string \<Rightarrow> string" where
  "merge_crlf (c # d # s) =
     (if code c = 13 \<and> code d = 10 then d # merge_crlf s else c # merge_crlf (d # s))"
| "merge_crlf s = s"

definition splitlines :: "string \<Rightarrow> string list" where
  "splitlines s = (let ls = split_by is_linebreak (merge_crlf s)
     in if last ls = [] then butlast ls else ls)"

text \<open>The text between single quotes, as the f-strings of the sources write names.\<close>

definition squote :: "string \<Rightarrow> string" where
  "squote s = [CHR 0x27] @ s @ [CHR 0x27]"

definition ch_nl :: char where "ch_nl = CHR 0x0A"
definition ch_cr :: char where "ch_cr = CHR 0x0D"
definition ch_esc :: char where "ch_esc = CHR 0x1B"

subsection \<open>Laws of the string methods\<close>

lemma lower_char_idem: "lower_char (lower_char c) = lower_char c"
proof -
  have "code c < 256" by (metis nat_of_char_less_256)
  then show ?thesis by (auto simp: lower_char_def Let_def)
qed

lemma lower_idem [simp, str_simps]: "lower (lower s) = lower s"
  by (simp add: lower_def lower_char_idem)

lemma lower_Nil [simp, str_simps]: "lower [] = []"
  by (simp add: lower_def)

lemma lower_length [simp, str_simps]: "length (lower s) = length s"
  by (simp add: lower_def)

lemma lower_append: "lower (s @ t) = lower s @ lower t"
  by (simp add: lower_def)

lemma rstrip_Nil [simp]: "rstrip [] = []"
  by (simp add: rstrip_def)

lemma lstrip_Nil [simp]: "lstrip [] = []"
  by (simp add: lstrip_def)

lemma strip_Nil [simp, str_simps]: "strip [] = []"
  by (simp add: strip_def)

lemma rstrip_snoc: "rstrip (s @ [c]) = (if is_space c then rstrip s else s @ [c])"
  by (simp add: rstrip_def)

lemma lstrip_Cons: "lstrip (c # s) = (if is_space c then lstrip s else c # s)"
  by (simp add: lstrip_def)

lemma lstrip_id: "lstrip s = s \<longleftrightarrow> s = [] \<or> \<not> is_space (hd s)"
proof (cases s)
  case (Cons c t)
  have "length (lstrip t) \<le> length t" by (simp add: lstrip_def length_dropWhile_le)
  then show ?thesis using Cons by (auto simp: lstrip_Cons)
qed simp

lemma rstrip_id: "rstrip s = s \<longleftrightarrow> s = [] \<or> \<not> is_space (last s)"
proof -
  have "rstrip s = s \<longleftrightarrow> lstrip (rev s) = rev s"
    by (simp add: rstrip_def lstrip_def rev_swap)
  then show ?thesis by (auto simp: lstrip_id hd_rev)
qed

lemma lstrip_head: "lstrip s \<noteq> [] \<Longrightarrow> \<not> is_space (hd (lstrip s))"
  by (simp add: lstrip_def hd_dropWhile)

lemma rstrip_last: "rstrip s \<noteq> [] \<Longrightarrow> \<not> is_space (last (rstrip s))"
  by (simp add: rstrip_def last_rev hd_dropWhile)

lemma rstrip_hd: "rstrip s \<noteq> [] \<Longrightarrow> hd (rstrip s) = hd s"
proof (induction s rule: rev_induct)
  case (snoc c s)
  then show ?case by (cases "rstrip s = []") (auto simp: rstrip_snoc hd_append split: if_splits)
qed simp

text \<open>A stripped string: the form every message content of the HTTP front end has.\<close>

definition stripped :: "string \<Rightarrow> bool" where
  "stripped s \<longleftrightarrow> s = [] \<or> \<not> is_space (hd s) \<and> \<not> is_space (last s)"

lemma stripped_strip [simp, str_simps]: "stripped (strip s)"
proof (cases "strip s = []")
  case False
  then have "hd (strip s) = hd (lstrip s)" "lstrip s \<noteq> []"
    by (auto simp: strip_def rstrip_hd)
  with False show ?thesis
    by (auto simp: stripped_def strip_def rstrip_last lstrip_head)
qed (simp add: stripped_def)

lemma strip_stripped: "stripped s \<Longrightarrow> strip s = s"
  by (metis lstrip_id rstrip_id rstrip_Nil strip_def stripped_def)

lemma strip_idem [simp, str_simps]: "strip (strip s) = strip s"
  by (rule strip_stripped) simp

lemma stripped_append: "stripped s \<Longrightarrow> s \<noteq> [] \<Longrightarrow> stripped t \<Longrightarrow> t \<noteq> [] \<Longrightarrow> stripped (s @ u @ t)"
  by (auto simp: stripped_def)

lemma startswith_append [simp, str_simps]: "startswith p (p @ s)"
  by (simp add: startswith_def)

lemma startswith_iff: "startswith p s \<longleftrightarrow> (\<exists>t. s = p @ t)"
  by (metis append_take_drop_id startswith_append startswith_def)

lemma startswith_Nil [simp]: "startswith [] s"
  by (simp add: startswith_def)

lemma endswith_iff: "endswith p s \<longleftrightarrow> (\<exists>t. s = t @ p)"
  by (auto simp: endswith_def) (metis append_take_drop_id)

lemma split_by_not_Nil [simp]: "split_by p s \<noteq> []"
  by (induction s) (auto split: list.splits)

lemma split_on_not_Nil [simp]: "split_on c s \<noteq> []"
  by (simp add: split_on_def)

lemma join_Cons: "ys \<noteq> [] \<Longrightarrow> join sep (x # ys) = x @ sep @ join sep ys"
  by (cases ys) simp_all

lemma join_split_on: "join [c] (split_on c s) = s"
proof -
  have "join [c] (split_by ((=) c) s) = s"
  proof (induction s)
    case (Cons d s)
    then show ?case
      by (cases "split_by ((=) c) s"; cases "tl (split_by ((=) c) s)") (auto simp: join_Cons)
  qed simp
  then show ?thesis by (simp add: split_on_def)
qed

lemma split_by_none: "(\<And>c. c \<in> set s \<Longrightarrow> \<not> p c) \<Longrightarrow> split_by p s = [s]"
  by (induction s) auto

lemma split_by_append_sep:
  "(\<And>c. c \<in> set s \<Longrightarrow> \<not> p c) \<Longrightarrow> p d \<Longrightarrow> split_by p (s @ d # t) = s # split_by p t"
  by (induction s) auto

lemma split_on_join:
  assumes "xs \<noteq> []" "\<And>x. x \<in> set xs \<Longrightarrow> c \<notin> set x"
  shows "split_on c (join [c] xs) = xs"
  using assms
proof (induction xs rule: list_nonempty_induct)
  case (single x)
  then show ?case by (auto simp: split_on_def intro!: split_by_none)
next
  case (cons x xs)
  then have IH: "split_by ((=) c) (join [c] xs) = xs" by (simp add: split_on_def)
  have "c \<notin> set x" using cons.prems by simp
  then have "split_by ((=) c) (x @ c # join [c] xs) = x # xs"
    using IH by (subst split_by_append_sep) auto
  with cons show ?case by (simp add: split_on_def join_Cons)
qed

lemma split_by_pieces: "w \<in> set (split_by p s) \<Longrightarrow> c \<in> set w \<Longrightarrow> \<not> p c \<and> c \<in> set s"
proof (induction s arbitrary: w)
  case (Cons d s)
  then show ?case by (cases "split_by p s") (fastforce split: if_splits)+
qed simp

section \<open>Integers and their decimal text\<close>

text \<open>
  \<^verbatim>\<open>int(s)\<close> on a string: surrounding white space, one optional sign, decimal digits with
  single underscores between them. \<^verbatim>\<open>str(n)\<close> on an integer.
\<close>

fun parse_digits :: "nat \<Rightarrow> string \<Rightarrow> nat option" where
  "parse_digits acc [] = Some acc"
| "parse_digits acc (c # cs) =
     (if is_digit c then parse_digits (10 * acc + digit_val c) cs
      else if code c = 95 then
        (case cs of [] \<Rightarrow> None
         | d # ds \<Rightarrow> if is_digit d then parse_digits (10 * acc + digit_val d) ds else None)
      else None)"

fun parse_nat :: "string \<Rightarrow> nat option" where
  "parse_nat [] = None"
| "parse_nat (c # cs) = (if is_digit c then parse_digits (digit_val c) cs else None)"

definition parse_int :: "string \<Rightarrow> int option" where
  "parse_int s = (case strip s of
       [] \<Rightarrow> None
     | c # cs \<Rightarrow>
         if code c = 45 then map_option (\<lambda>n. - int n) (parse_nat cs)
         else if code c = 43 then map_option int (parse_nat cs)
         else map_option int (parse_nat (c # cs)))"

definition digit_char :: "nat \<Rightarrow> char" where
  "digit_char n = char_of (n + 48)"

fun show_nat :: "nat \<Rightarrow> string" where
  "show_nat n = (if n < 10 then [digit_char n] else show_nat (n div 10) @ [digit_char (n mod 10)])"

declare show_nat.simps [simp del]

definition show_int :: "int \<Rightarrow> string" where
  "show_int i = (if i < 0 then ''-'' @ show_nat (nat (- i)) else show_nat (nat i))"

lemma code_digit_char: "n < 10 \<Longrightarrow> code (digit_char n) = n + 48"
  by (simp add: digit_char_def)

lemma is_digit_digit_char [simp]: "n < 10 \<Longrightarrow> is_digit (digit_char n)"
  by (simp add: is_digit_def code_digit_char)

lemma digit_val_digit_char [simp]: "n < 10 \<Longrightarrow> digit_val (digit_char n) = n"
  by (simp add: digit_val_def code_digit_char)

lemma digit_not_space: "is_digit c \<Longrightarrow> \<not> is_space c"
  by (auto simp: is_digit_def is_space_def Let_def)

lemma parse_digits_snoc:
  "parse_digits acc s = Some n \<Longrightarrow> is_digit c \<Longrightarrow> parse_digits acc (s @ [c]) = Some (10 * n + digit_val c)"
  by (induction acc s rule: parse_digits.induct) (auto split: if_splits list.splits)

lemma show_nat_not_Nil [simp]: "show_nat n \<noteq> []"
  by (subst show_nat.simps) simp

lemma parse_nat_snoc:
  "parse_nat s = Some n \<Longrightarrow> is_digit c \<Longrightarrow> parse_nat (s @ [c]) = Some (10 * n + digit_val c)"
  by (cases s) (auto simp: parse_digits_snoc split: if_splits)

lemma parse_show_nat [simp]: "parse_nat (show_nat n) = Some n"
proof (induction n rule: show_nat.induct)
  case (1 n)
  show ?case
  proof (cases "n < 10")
    case True
    then show ?thesis by (subst show_nat.simps) simp
  next
    case False
    with 1 have "parse_nat (show_nat (n div 10)) = Some (n div 10)" by simp
    with False show ?thesis
      by (subst show_nat.simps) (simp add: parse_nat_snoc)
  qed
qed

lemma show_nat_digits: "c \<in> set (show_nat n) \<Longrightarrow> is_digit c"
proof (induction n rule: show_nat.induct)
  case (1 n)
  then show ?case by (auto simp: show_nat.simps[of n] split: if_splits)
qed

lemma stripped_show_nat: "stripped (show_nat n)"
  using show_nat_digits[of _ n] digit_not_space by (auto simp: stripped_def)

lemma stripped_show_int [simp]: "stripped (show_int i)"
proof (cases "i < 0")
  case True
  have "\<not> is_space (last (show_nat (nat (- i))))"
    using show_nat_digits digit_not_space last_in_set show_nat_not_Nil by blast
  moreover have "\<not> is_space CHR ''-''" by (simp add: is_space_def)
  ultimately show ?thesis using True by (simp add: show_int_def stripped_def)
qed (simp add: show_int_def stripped_show_nat)

text \<open>Printing then parsing an integer gives it back.\<close>

lemma parse_show_int [simp]: "parse_int (show_int i) = Some i"
proof -
  have s: "strip (show_int i) = show_int i" by (simp add: strip_stripped)
  show ?thesis
  proof (cases "i < 0")
    case True
    then show ?thesis unfolding parse_int_def s by (simp add: show_int_def)
  next
    case False
    obtain c cs where c: "show_nat (nat i) = c # cs" by (meson neq_Nil_conv show_nat_not_Nil)
    then have "is_digit c" using show_nat_digits[of c "nat i"] by simp
    then have "code c \<noteq> 45 \<and> code c \<noteq> 43" by (auto simp: is_digit_def)
    moreover have "parse_nat (c # cs) = Some (nat i)" using parse_show_nat[of "nat i"] c by simp
    ultimately show ?thesis unfolding parse_int_def s using False c
      by (simp add: show_int_def del: parse_nat.simps)
  qed
qed

section \<open>Dynamically typed values\<close>

text \<open>
  What \<^verbatim>\<open>json.loads\<close> returns. A dict keeps its insertion order, so it is the association list of
  its items (keys distinct).
\<close>

datatype pyfloat = Finite rat string | PosInf | NegInf | NotANumber

datatype pyval =
    PNone
  | PBool bool
  | PInt int
  | PFloat pyfloat
  | PStr string
  | PList "pyval list"
  | PDict "(string \<times> pyval) list"

type_synonym pydict = "(string \<times> pyval) list"

fun truthy :: "pyval \<Rightarrow> bool" where
  "truthy PNone = False"
| "truthy (PBool b) = b"
| "truthy (PInt i) = (i \<noteq> 0)"
| "truthy (PFloat (Finite q _)) = (q \<noteq> 0)"
| "truthy (PFloat _) = True"
| "truthy (PStr s) = (s \<noteq> [])"
| "truthy (PList xs) = (xs \<noteq> [])"
| "truthy (PDict d) = (d \<noteq> [])"

text \<open>The value of \<^verbatim>\<open>a or b\<close>.\<close>

definition py_or :: "pyval \<Rightarrow> pyval \<Rightarrow> pyval" where
  "py_or a b = (if truthy a then a else b)"

text \<open>\<^verbatim>\<open>d.get(k)\<close>, \<^verbatim>\<open>d.get(k, default)\<close> and \<^verbatim>\<open>d[k] = v\<close>.\<close>

definition dget :: "pydict \<Rightarrow> string \<Rightarrow> pyval" where
  "dget d k = (case map_of d k of None \<Rightarrow> PNone | Some v \<Rightarrow> v)"

definition dget_or :: "pydict \<Rightarrow> string \<Rightarrow> pyval \<Rightarrow> pyval" where
  "dget_or d k x = (case map_of d k of None \<Rightarrow> x | Some v \<Rightarrow> v)"

definition dput :: "string \<Rightarrow> 'v \<Rightarrow> (string \<times> 'v) list \<Rightarrow> (string \<times> 'v) list" where
  "dput k v d = AList.update k v d"

lemma map_of_dput [simp]: "map_of (dput k v d) = (map_of d)(k \<mapsto> v)"
  by (simp add: dput_def update_conv')

lemma distinct_dput: "distinct (map fst d) \<Longrightarrow> distinct (map fst (dput k v d))"
  by (simp add: dput_def distinct_update)

text \<open>\<^verbatim>\<open>repr\<close> of a string: double quotes only when the text has a single quote and no double one.\<close>

definition hex_digit :: "nat \<Rightarrow> char" where
  "hex_digit n = char_of (if n < 10 then n + 48 else n + 87)"

definition repr_char :: "nat \<Rightarrow> char \<Rightarrow> string" where
  "repr_char quote c = (let n = code c in
     if n = quote \<or> n = 92 then [CHR 0x5C, c]
     else if n = 10 then [CHR 0x5C, CHR ''n'']
     else if n = 13 then [CHR 0x5C, CHR ''r'']
     else if n = 9 then [CHR 0x5C, CHR ''t'']
     else if n < 32 \<or> 127 \<le> n \<and> n \<le> 160 \<or> n = 173
       then [CHR 0x5C, CHR ''x'', hex_digit (n div 16), hex_digit (n mod 16)]
     else [c])"

definition repr_str :: "string \<Rightarrow> string" where
  "repr_str s = (let q = (if CHR 0x27 \<in> set s \<and> CHR 0x22 \<notin> set s then 34 else 39)
     in [char_of q] @ concat (map (repr_char q) s) @ [char_of q])"

fun repr_float :: "pyfloat \<Rightarrow> string" where
  "repr_float (Finite _ t) = t"
| "repr_float PosInf = ''inf''"
| "repr_float NegInf = ''-inf''"
| "repr_float NotANumber = ''nan''"

lemma size_dict_item [termination_simp]:
  "kv \<in> set d \<Longrightarrow> size (snd kv) < Suc (size_list (size_prod (\<lambda>x. 0) size) d)"
  using size_list_estimation'[of kv d "size (snd kv)" "size_prod (\<lambda>x. 0) size"]
  by (simp add: size_prod_simp less_Suc_eq_le)

fun py_repr :: "pyval \<Rightarrow> string" where
  "py_repr PNone = ''None''"
| "py_repr (PBool b) = (if b then ''True'' else ''False'')"
| "py_repr (PInt i) = show_int i"
| "py_repr (PFloat f) = repr_float f"
| "py_repr (PStr s) = repr_str s"
| "py_repr (PList xs) = ''['' @ join '', '' (map py_repr xs) @ '']''"
| "py_repr (PDict d) =
     ''{'' @ join '', '' (map (\<lambda>kv. repr_str (fst kv) @ '': '' @ py_repr (snd kv)) d) @ ''}''"

text \<open>\<^verbatim>\<open>str(value)\<close>\<close>

fun py_str :: "pyval \<Rightarrow> string" where
  "py_str (PStr s) = s"
| "py_str v = py_repr v"

text \<open>
  \<^verbatim>\<open>int(value)\<close>: truncation on floats, and the exception each kind of value raises (the message of
  the \<^verbatim>\<open>TypeError\<close>, which no caller reads, without the name of the type).
\<close>

definition trunc_rat :: "rat \<Rightarrow> int" where
  "trunc_rat q = (if 0 \<le> q then \<lfloor>q\<rfloor> else \<lceil>q\<rceil>)"

fun py_int :: "pyval \<Rightarrow> int result" where
  "py_int (PBool b) = Inr (if b then 1 else 0)"
| "py_int (PInt i) = Inr i"
| "py_int (PFloat (Finite q _)) = Inr (trunc_rat q)"
| "py_int (PFloat NotANumber) = Inl (ValueError ''cannot convert float NaN to integer'')"
| "py_int (PFloat _) = Inl (OverflowError ''cannot convert float infinity to integer'')"
| "py_int (PStr s) = (case parse_int s of Some i \<Rightarrow> Inr i
     | None \<Rightarrow> Inl (ValueError (''invalid literal for int() with base 10: '' @ repr_str s)))"
| "py_int _ = Inl (TypeError ''int() argument must be a string, a bytes-like object or a real number'')"

text \<open>
  \<^verbatim>\<open>str(exc)\<close>: the message, except that a \<^verbatim>\<open>KeyError\<close> shows the \<^verbatim>\<open>repr\<close> of its key.
\<close>

fun exn_text :: "exn \<Rightarrow> string" where
  "exn_text (KeyError s) = repr_str s"
| "exn_text (TyperExit n) = show_int n"
| "exn_text (ValueError s) = s"
| "exn_text (JSONDecodeError s) = s"
| "exn_text (UnicodeDecodeError s) = s"
| "exn_text (IndexError s) = s"
| "exn_text (TypeError s) = s"
| "exn_text (AttributeError s) = s"
| "exn_text (OverflowError s) = s"
| "exn_text (RuntimeError s) = s"
| "exn_text (LibBubbleError s) = s"
| "exn_text (DownloadError s) = s"
| "exn_text (RequestException s) = s"
| "exn_text (BadParameter s) = s"
| "exn_text (OSError s) = s"
| "exn_text (FileNotFoundError s) = s"
| "exn_text (PermissionError s) = s"
| "exn_text (ProcessLookupError s) = s"
| "exn_text (CalledProcessError s) = s"
| "exn_text (StructError s) = s"
| "exn_text (SystemExit s) = s"

section \<open>The process environment\<close>

text \<open>\<^verbatim>\<open>os.environ\<close> and the \<^verbatim>\<open>env\<close> dicts built from it: a map from names to texts.\<close>

type_synonym env = "string \<rightharpoonup> string"

definition env_get :: "env \<Rightarrow> string \<Rightarrow> string \<Rightarrow> string" where
  "env_get e k d = (case e k of None \<Rightarrow> d | Some v \<Rightarrow> v)"

text \<open>\<^verbatim>\<open>if os.environ.get(k)\<close>: set and not empty.\<close>

definition env_nonempty :: "env \<Rightarrow> string \<Rightarrow> string option" where
  "env_nonempty e k = (case e k of Some (c # cs) \<Rightarrow> Some (c # cs) | _ \<Rightarrow> None)"

lemma env_nonempty_Some: "env_nonempty e k = Some v \<longleftrightarrow> e k = Some v \<and> v \<noteq> []"
  by (auto simp: env_nonempty_def neq_Nil_conv split: option.splits list.splits)

section \<open>Agent identifiers\<close>

text \<open>
  \<^verbatim>\<open>_AGENT_ID_RE.fullmatch\<close>: the prefix \<^verbatim>\<open>agt-\<close>, then one or more of \<^verbatim>\<open>A-Z a-z 0-9 _ -\<close>. The same
  pattern stands in \<^verbatim>\<open>cli/run.py\<close>, \<^verbatim>\<open>app/agents.py\<close> and \<^verbatim>\<open>cli/manifest.py\<close>.
\<close>

definition is_alnum_ascii :: "char \<Rightarrow> bool" where
  "is_alnum_ascii c \<longleftrightarrow> (let n = code c in
     48 \<le> n \<and> n \<le> 57 \<or> 65 \<le> n \<and> n \<le> 90 \<or> 97 \<le> n \<and> n \<le> 122)"

definition is_id_char :: "char \<Rightarrow> bool" where
  "is_id_char c \<longleftrightarrow> is_alnum_ascii c \<or> code c = 95 \<or> code c = 45"

definition is_valid_agent_id :: "string \<Rightarrow> bool" where
  "is_valid_agent_id s \<longleftrightarrow> startswith ''agt-'' s \<and> 4 < length s \<and> list_all is_id_char (drop 4 s)"

text \<open>A valid identifier is one path component: no separator, no dot, not empty.\<close>

lemma valid_agent_id_chars:
  assumes v: "is_valid_agent_id s" and c: "c \<in> set s"
  shows "is_id_char c"
proof -
  from v obtain t where s: "s = ''agt-'' @ t" by (auto simp: is_valid_agent_id_def startswith_iff)
  with v have "list_all is_id_char t" by (simp add: is_valid_agent_id_def)
  moreover have "list_all is_id_char ''agt-''" by (simp add: is_id_char_def is_alnum_ascii_def)
  ultimately show ?thesis using s c by (auto simp: list_all_iff)
qed

lemma valid_agent_id_no_sep:
  assumes "is_valid_agent_id s"
  shows "CHR ''/'' \<notin> set s" "CHR ''.'' \<notin> set s" "s \<noteq> []"
proof -
  have "\<not> is_id_char CHR ''/''" "\<not> is_id_char CHR ''.''"
    by (simp_all add: is_id_char_def is_alnum_ascii_def)
  then show "CHR ''/'' \<notin> set s" "CHR ''.'' \<notin> set s"
    using valid_agent_id_chars[OF assms] by blast+
  show "s \<noteq> []" using assms by (auto simp: is_valid_agent_id_def)
qed

end
