(* ===== verification/Model_Registry.thy ===== *)
theory Model_Registry
  imports BubbleHub_Prelude
begin

text \<open>
  \<^verbatim>\<open>bubblehub/engine/registry.py\<close> and \<^verbatim>\<open>bubblehub/engine/selector.py\<close>: the model registry, the
  resolution of a specialty to its candidate models, and the tier of a machine. Sizes in GB are
  rationals: every size the program compares is a decimal from the configuration or a byte count
  divided by \<open>2 ^ 30\<close>. The configuration is taken after YAML parsing, with the types the
  dataclasses annotate; a key that is absent is \<^const>\<open>None\<close>.
\<close>

section \<open>Model and specialty records\<close>

text \<open>The keyword arguments of one entry of \<^verbatim>\<open>models:\<close>.\<close>

datatype backends_arg = BackendsNone | BackendsStr string | BackendsSeq "string list"

record model_kwargs =
  mk_name :: string
  mk_flavor :: string
  mk_capability :: string
  mk_tier :: string
  mk_backend :: string
  mk_repo_id :: string
  mk_filename :: "string option"
  mk_ram_gb :: rat
  mk_vram_gb :: rat
  mk_context_tokens :: "int option"
  mk_placement :: "string option"
  mk_gpu_backends :: "backends_arg option"
  mk_gpu_layers :: "int option"

record model_spec =
  ms_name :: string
  ms_flavor :: string
  ms_capability :: string
  ms_tier :: string
  ms_backend :: string
  ms_repo_id :: string
  ms_filename :: "string option"
  ms_ram_gb :: rat
  ms_vram_gb :: rat
  ms_context_tokens :: int
  ms_placement :: string
  ms_gpu_backends :: "string list"
  ms_gpu_layers :: "int option"

fun seq_backends :: "backends_arg \<Rightarrow> string list" where
  "seq_backends BackendsNone = []"
| "seq_backends (BackendsStr s) = [strip item. item \<leftarrow> split_on CHR '','' s, strip item \<noteq> []]"
| "seq_backends (BackendsSeq xs) = xs"

text \<open>\<^verbatim>\<open>ModelSpec.__post_init__\<close>: the placement and the GPU backends of a new record.\<close>

definition post_init_placement :: "string \<Rightarrow> rat \<Rightarrow> string" where
  "post_init_placement placement vram =
     (if placement = ''auto'' then (if 0 < vram then ''gpu'' else ''cpu'') else placement)"

definition post_init_backends :: "string \<Rightarrow> string \<Rightarrow> backends_arg \<Rightarrow> string list" where
  "post_init_backends placement backend arg =
     (let normalized = seq_backends arg in
      if placement = ''gpu'' \<and> normalized = [] then
        (if backend = ''vllm'' then [''vllm'']
         else if backend = ''llama'' then [''cuda-llama'', ''rocm-llama'', ''vulkan-llama'', ''sycl-llama'']
         else normalized)
      else normalized)"

definition model_spec_init :: "model_kwargs \<Rightarrow> model_spec" where
  "model_spec_init k =
     (let placement = post_init_placement (case mk_placement k of None \<Rightarrow> ''auto'' | Some p \<Rightarrow> p) (mk_vram_gb k)
      in \<lparr>ms_name = mk_name k, ms_flavor = mk_flavor k, ms_capability = mk_capability k,
          ms_tier = mk_tier k, ms_backend = mk_backend k, ms_repo_id = mk_repo_id k,
          ms_filename = mk_filename k, ms_ram_gb = mk_ram_gb k, ms_vram_gb = mk_vram_gb k,
          ms_context_tokens = (case mk_context_tokens k of None \<Rightarrow> 4096 | Some n \<Rightarrow> n),
          ms_placement = placement,
          ms_gpu_backends = post_init_backends placement (mk_backend k)
             (case mk_gpu_backends k of None \<Rightarrow> BackendsSeq [] | Some b \<Rightarrow> b),
          ms_gpu_layers = mk_gpu_layers k\<rparr>)"

record specialty_kwargs =
  sk_capability :: string
  sk_flavor :: "string option"
  sk_lora :: "string option"
  sk_min_context_tokens :: "int option"
  sk_model :: "string option"

record specialty =
  sp_name :: string
  sp_capability :: string
  sp_flavor :: "string option"
  sp_lora :: "string option"
  sp_min_context_tokens :: "int option"
  sp_model :: "string option"

definition specialty_init :: "string \<Rightarrow> specialty_kwargs \<Rightarrow> specialty" where
  "specialty_init name k =
     \<lparr>sp_name = name, sp_capability = sk_capability k, sp_flavor = sk_flavor k, sp_lora = sk_lora k,
      sp_min_context_tokens = sk_min_context_tokens k, sp_model = sk_model k\<rparr>"

section \<open>The registry and its configuration files\<close>

record registry =
  reg_models :: "model_spec list"
  reg_specialties :: "(string \<times> specialty) list"

record config =
  cfg_models :: "model_kwargs list option"
  cfg_specialties :: "(string \<times> specialty_kwargs) list option"
  cfg_other :: pydict

definition config_empty :: "config \<Rightarrow> bool" where
  "config_empty c \<longleftrightarrow> cfg_models c = None \<and> cfg_specialties c = None \<and> cfg_other c = []"

text \<open>\<^verbatim>\<open>dict.update\<close> on association lists: existing keys keep their place.\<close>

definition dict_update :: "(string \<times> 'v) list \<Rightarrow> (string \<times> 'v) list \<Rightarrow> (string \<times> 'v) list" where
  "dict_update base upd = fold (\<lambda>(k, v) d. dput k v d) upd base"

definition merge_config :: "config \<Rightarrow> config option \<Rightarrow> config" where
  "merge_config base override =
     (case override of
        None \<Rightarrow> base
      | Some ov \<Rightarrow>
          if config_empty ov then base
          else
            (let merged = base;
                 merged = (case cfg_models ov of
                     None \<Rightarrow> merged
                   | Some ms \<Rightarrow> merged\<lparr>cfg_models := Some ms\<rparr>);
                 merged = (case cfg_specialties ov of
                     None \<Rightarrow> merged
                   | Some sps \<Rightarrow> merged\<lparr>cfg_specialties := Some (dict_update
                        (case cfg_specialties base of None \<Rightarrow> [] | Some b \<Rightarrow> b) sps)\<rparr>)
             in merged))"

definition registry_from_dict :: "config \<Rightarrow> registry" where
  "registry_from_dict data =
     \<lparr>reg_models = map model_spec_init (case cfg_models data of None \<Rightarrow> [] | Some ms \<Rightarrow> ms),
      reg_specialties = map (\<lambda>(name, spec). (name, specialty_init name spec))
        (case cfg_specialties data of None \<Rightarrow> [] | Some sps \<Rightarrow> sps)\<rparr>"

text \<open>
  \<^verbatim>\<open>ModelRegistry.load_default\<close>: the bundled file, then \<^verbatim>\<open>~/.config/bubblehub/models.yaml\<close> when it
  exists, then the file \<^verbatim>\<open>BUBBLEHUB_MODELS_CONFIG\<close> names when that is set. The outer \<^const>\<open>None\<close> is
  \<open>absent\<close>, the inner one an empty YAML document.
\<close>

definition load_default :: "config \<Rightarrow> config option option \<Rightarrow> config option option \<Rightarrow> registry" where
  "load_default bundled home_override explicit =
     (let data = bundled;
          data = (case home_override of None \<Rightarrow> data | Some ov \<Rightarrow> merge_config data ov);
          data = (case explicit of None \<Rightarrow> data | Some ov \<Rightarrow> merge_config data ov)
      in registry_from_dict data)"

section \<open>Resolving a specialty\<close>

definition model_backend_supported :: "model_spec \<Rightarrow> string list option \<Rightarrow> bool" where
  "model_backend_supported m supported =
     (if ms_placement m \<noteq> ''gpu'' \<or> ms_vram_gb m \<le> 0 then True
      else (case supported of
          None \<Rightarrow> True
        | Some bs \<Rightarrow> list_ex (\<lambda>b. b \<in> set bs) (ms_gpu_backends m)))"

definition placement_rank :: "model_spec \<Rightarrow> nat" where
  "placement_rank m =
     (if ms_placement m \<noteq> ''gpu'' \<or> ms_vram_gb m \<le> 0 then 2
      else if ms_backend m = ''vllm'' then 0
      else 1)"

text \<open>\<^verbatim>\<open>rank = {tier: idx ...}\<close> keeps the last index of a repeated tier; \<^verbatim>\<open>rank.get(tier, 999)\<close>.\<close>

definition tier_rank :: "string list \<Rightarrow> string \<Rightarrow> nat" where
  "tier_rank order t =
     (case map_of (rev (zip order [0..<length order])) t of None \<Rightarrow> 999 | Some i \<Rightarrow> i)"

definition candidate_key :: "string list \<Rightarrow> model_spec \<Rightarrow> nat \<times> nat \<times> string" where
  "candidate_key order m = (placement_rank m, tier_rank order (ms_tier m), ms_name m)"

text \<open>\<^verbatim>\<open>x or y\<close> on an optional string: an empty string counts as absent.\<close>

definition str_or :: "string option \<Rightarrow> string option \<Rightarrow> string option" where
  "str_or a b = (case a of Some (c # cs) \<Rightarrow> a | _ \<Rightarrow> b)"

record resolve_args =
  ra_tier_order :: "string list"
  ra_flavor :: "string option"
  ra_capability :: "string option"
  ra_max_ram_gb :: "rat option"
  ra_max_vram_gb :: "rat option"
  ra_supported :: "string list option"

definition resolve_model_name :: "registry \<Rightarrow> string \<Rightarrow> string \<Rightarrow> resolve_args \<Rightarrow> model_spec result" where
  "resolve_model_name reg name specialty args =
     (case filter (\<lambda>m. ms_name m = name) (reg_models reg) of
        [] \<Rightarrow> Inl (KeyError (''specialty '' @ squote specialty @ '' selects unknown model '' @ squote name))
      | m # _ \<Rightarrow>
          if (case ra_max_ram_gb args of None \<Rightarrow> False | Some r \<Rightarrow> r < ms_ram_gb m)
            then Inl (KeyError (''model '' @ squote name @ '' exceeds available RAM for specialty '' @ squote specialty))
          else if (case ra_max_vram_gb args of None \<Rightarrow> False | Some r \<Rightarrow> r < ms_vram_gb m)
            then Inl (KeyError (''model '' @ squote name @ '' exceeds available VRAM for specialty '' @ squote specialty))
          else if \<not> model_backend_supported m (ra_supported args)
            then Inl (KeyError (''model '' @ squote name @ '' requires an unsupported GPU backend for specialty '' @ squote specialty))
          else Inr m)"

text \<open>The candidates of a specialty that pins no model: the filters in the order the code has them.\<close>

definition open_candidates :: "registry \<Rightarrow> specialty \<Rightarrow> resolve_args \<Rightarrow> model_spec list" where
  "open_candidates reg sp args =
     (let target_capability = (case str_or (ra_capability args) None of
              None \<Rightarrow> sp_capability sp | Some c \<Rightarrow> c);
          target_flavor = str_or (ra_flavor args) (sp_flavor sp);
          candidates = filter (\<lambda>m. ms_capability m = target_capability
              \<and> (target_flavor = None \<or> target_flavor = Some (ms_flavor m))
              \<and> (case sp_min_context_tokens sp of None \<Rightarrow> True
                 | Some n \<Rightarrow> n \<le> ms_context_tokens m)) (reg_models reg);
          candidates = (case ra_max_ram_gb args of None \<Rightarrow> candidates
              | Some r \<Rightarrow> filter (\<lambda>m. ms_ram_gb m \<le> r) candidates);
          candidates = (case ra_max_vram_gb args of None \<Rightarrow> candidates
              | Some r \<Rightarrow> filter (\<lambda>m. ms_vram_gb m \<le> r) candidates);
          candidates = filter (\<lambda>m. model_backend_supported m (ra_supported args)) candidates
      in if candidates = [] then []
         else sort_key (candidate_key (ra_tier_order args)) candidates)"

definition resolve_candidates :: "registry \<Rightarrow> string \<Rightarrow> resolve_args \<Rightarrow> model_spec list result" where
  "resolve_candidates reg name args =
     (case map_of (reg_specialties reg) name of
        None \<Rightarrow> Inl (KeyError (''unknown specialty '' @ squote name))
      | Some sp \<Rightarrow>
          (case sp_model sp of
             Some pinned \<Rightarrow> bindr (resolve_model_name reg pinned name args) (\<lambda>m. Inr [m])
           | None \<Rightarrow> Inr (open_candidates reg sp args)))"

definition resolve_specialty :: "registry \<Rightarrow> string \<Rightarrow> resolve_args \<Rightarrow> model_spec result" where
  "resolve_specialty reg name args =
     bindr (resolve_candidates reg name args) (\<lambda>candidates.
       case candidates of
         [] \<Rightarrow> Inl (KeyError (''no model matches specialty '' @ squote name @ '' for available RAM/VRAM''))
       | m # _ \<Rightarrow> Inr m)"

section \<open>The machine's tier\<close>

record machine_tier =
  mt_name :: string
  mt_order :: "string list"

definition gib :: "int \<Rightarrow> rat" where
  "gib n = of_int n / 1024 ^ 3"

text \<open>\<^verbatim>\<open>select_tier\<close> reads only the two byte counts of the hardware record.\<close>

definition select_tier :: "int \<Rightarrow> int \<Rightarrow> machine_tier" where
  "select_tier ram_bytes vram_bytes =
     (let ram_gb = gib ram_bytes; vram_gb = gib vram_bytes in
      if ram_gb < 8 then \<lparr>mt_name = ''tiny'', mt_order = [''tiny'']\<rparr>
      else if 16 \<le> vram_gb \<or> 32 \<le> ram_gb
        then \<lparr>mt_name = ''large'', mt_order = [''large'', ''medium'', ''small'', ''tiny'']\<rparr>
      else if 16 \<le> ram_gb
        then \<lparr>mt_name = ''medium'', mt_order = [''medium'', ''small'', ''tiny'']\<rparr>
      else \<lparr>mt_name = ''small'', mt_order = [''small'', ''tiny'']\<rparr>)"

section \<open>The contract of a ranked selection\<close>

text \<open>
  What the clients of the registry rely on: the selection is a rearrangement of the eligible part
  of the pool, in ascending order of the key.
\<close>

locale ranked_selection =
  fixes pool :: "'m list"
    and eligible :: "'m \<Rightarrow> bool"
    and key :: "'m \<Rightarrow> 'k::linorder"
    and selection :: "'m list"
  assumes selection_perm: "mset selection = mset (filter eligible pool)"
    and selection_sorted: "sorted (map key selection)"
begin

lemma selection_set: "set selection = {m \<in> set pool. eligible m}"
  using selection_perm by (metis mset_eq_setD set_filter)

lemma selection_Nil: "selection = [] \<longleftrightarrow> (\<forall>m \<in> set pool. \<not> eligible m)"
  using selection_set by (metis (mono_tags, lifting) empty_Collect_eq set_empty)

lemma first_eligible: "selection = m # ms \<Longrightarrow> m \<in> set pool \<and> eligible m"
  using selection_set by auto

lemma first_least: "selection = m # ms \<Longrightarrow> m' \<in> set pool \<Longrightarrow> eligible m' \<Longrightarrow> key m \<le> key m'"
  using selection_set selection_sorted by force

end

text \<open>The specification of eligibility: one predicate in place of the chain of filters.\<close>

definition model_fits :: "specialty \<Rightarrow> resolve_args \<Rightarrow> model_spec \<Rightarrow> bool" where
  "model_fits sp args m \<longleftrightarrow>
     ms_capability m = (case str_or (ra_capability args) None of None \<Rightarrow> sp_capability sp | Some c \<Rightarrow> c)
     \<and> (case str_or (ra_flavor args) (sp_flavor sp) of None \<Rightarrow> True | Some f \<Rightarrow> ms_flavor m = f)
     \<and> (case sp_min_context_tokens sp of None \<Rightarrow> True | Some n \<Rightarrow> n \<le> ms_context_tokens m)
     \<and> (case ra_max_ram_gb args of None \<Rightarrow> True | Some r \<Rightarrow> ms_ram_gb m \<le> r)
     \<and> (case ra_max_vram_gb args of None \<Rightarrow> True | Some r \<Rightarrow> ms_vram_gb m \<le> r)
     \<and> model_backend_supported m (ra_supported args)"

lemma case_option_eq: "(case x of None \<Rightarrow> True | Some f \<Rightarrow> a = f) \<longleftrightarrow> x = None \<or> x = Some a"
  by (cases x) auto

lemma sort_key_Nil_if: "(if xs = [] then [] else sort_key f xs) = sort_key f xs"
  by simp

lemma open_candidates_eq:
  "open_candidates reg sp args
     = sort_key (candidate_key (ra_tier_order args)) (filter (model_fits sp args) (reg_models reg))"
  unfolding open_candidates_def Let_def sort_key_Nil_if model_fits_def case_option_eq
  by (cases "ra_max_ram_gb args"; cases "ra_max_vram_gb args")
    (simp_all only: option.case filter_filter conj_assoc simp_thms)

interpretation cand: ranked_selection "reg_models reg" "model_fits sp args"
  "candidate_key (ra_tier_order args)" "open_candidates reg sp args"
  for reg sp args
  by unfold_locales (simp_all add: open_candidates_eq)

section \<open>The bundled configuration\<close>

text \<open>\<^verbatim>\<open>bubblehub/config/models.yaml\<close>, the first file \<^verbatim>\<open>load_default\<close> reads.\<close>

definition yaml_model ::
  "string \<Rightarrow> string \<Rightarrow> string \<Rightarrow> string \<Rightarrow> string \<Rightarrow> string \<Rightarrow> string option \<Rightarrow> rat \<Rightarrow> rat \<Rightarrow> int \<Rightarrow> model_kwargs" where
  "yaml_model name flavor capability tier backend repo filename ram vram ctx =
     \<lparr>mk_name = name, mk_flavor = flavor, mk_capability = capability, mk_tier = tier,
      mk_backend = backend, mk_repo_id = repo, mk_filename = filename, mk_ram_gb = ram,
      mk_vram_gb = vram, mk_context_tokens = Some ctx, mk_placement = None,
      mk_gpu_backends = None, mk_gpu_layers = None\<rparr>"

definition yaml_specialty :: "string \<Rightarrow> string option \<Rightarrow> int option \<Rightarrow> specialty_kwargs" where
  "yaml_specialty capability flavor ctx =
     \<lparr>sk_capability = capability, sk_flavor = flavor, sk_lora = None,
      sk_min_context_tokens = ctx, sk_model = None\<rparr>"

definition bundled_config :: config where
  "bundled_config =
     \<lparr>cfg_models = Some
       [yaml_model ''qwen-instruct-tiny'' ''qwen'' ''instruct'' ''tiny'' ''llama''
          ''bartowski/Qwen2.5-3B-Instruct-GGUF'' (Some ''Qwen2.5-3B-Instruct-Q4_K_M.gguf'') 5 0 32768,
        yaml_model ''mistral-instruct-small'' ''mistral'' ''instruct'' ''small'' ''llama''
          ''bartowski/Mistral-7B-Instruct-v0.3-GGUF'' (Some ''Mistral-7B-Instruct-v0.3-Q4_K_M.gguf'') 9 0 32768,
        (yaml_model ''qwen-instruct-gpu-small'' ''qwen'' ''instruct'' ''small'' ''llama''
          ''bartowski/Qwen2.5-7B-Instruct-GGUF'' (Some ''Qwen2.5-7B-Instruct-Q4_K_M.gguf'') 10 8 32768)
          \<lparr>mk_placement := Some ''gpu'',
           mk_gpu_backends := Some (BackendsSeq [''cuda-llama'', ''rocm-llama'', ''vulkan-llama'', ''sycl-llama'']),
           mk_gpu_layers := Some (- 1)\<rparr>,
        yaml_model ''nemotron-instruct-medium'' ''nemotron'' ''instruct'' ''medium'' ''llama''
          ''bartowski/Nemotron-Mini-4B-Instruct-GGUF'' (Some ''Nemotron-Mini-4B-Instruct-Q8_0.gguf'') 12 0 4096,
        yaml_model ''qwen-code-small'' ''qwen'' ''code'' ''small'' ''llama''
          ''bartowski/Qwen2.5-Coder-7B-Instruct-GGUF'' (Some ''Qwen2.5-Coder-7B-Instruct-Q4_K_M.gguf'') 9 0 32768,
        yaml_model ''mistral-code-medium'' ''mistral'' ''code'' ''medium'' ''llama''
          ''bartowski/Mistral-7B-Instruct-v0.3-GGUF'' (Some ''Mistral-7B-Instruct-v0.3-Q5_K_M.gguf'') 12 0 32768,
        (yaml_model ''qwen-vision-small'' ''qwen'' ''vision'' ''small'' ''vllm''
          ''Qwen/Qwen2-VL-2B-Instruct'' None 10 8 32768)
          \<lparr>mk_placement := Some ''gpu'', mk_gpu_backends := Some (BackendsSeq [''vllm''])\<rparr>,
        (yaml_model ''qwen-instruct-large'' ''qwen'' ''instruct'' ''large'' ''vllm''
          ''Qwen/Qwen2.5-14B-Instruct'' None 24 16 32768)
          \<lparr>mk_placement := Some ''gpu'', mk_gpu_backends := Some (BackendsSeq [''vllm''])\<rparr>],
      cfg_specialties = Some
       [(''default-instruct'', yaml_specialty ''instruct'' None (Some 8192)),
        (''code-review'', yaml_specialty ''code'' None None),
        (''doc-ocr'', yaml_specialty ''vision'' None None),
        (''qwen-instruct'', yaml_specialty ''instruct'' (Some ''qwen'') None),
        (''mistral-instruct'', yaml_specialty ''instruct'' (Some ''mistral'') None),
        (''nemotron-instruct'', yaml_specialty ''instruct'' (Some ''nemotron'') None)],
      cfg_other = [(''inference'', PDict [(''host'', PStr ''127.0.0.1''), (''port'', PInt 8000),
                                       (''default_specialty'', PStr ''default-instruct'')])]\<rparr>"

definition host_args :: "string list \<Rightarrow> rat \<Rightarrow> rat \<Rightarrow> string list \<Rightarrow> resolve_args" where
  "host_args order ram vram backends =
     \<lparr>ra_tier_order = order, ra_flavor = None, ra_capability = None, ra_max_ram_gb = Some ram,
      ra_max_vram_gb = Some vram, ra_supported = Some backends\<rparr>"

section \<open>Laws of the resolution\<close>

lemma resolve_candidates_open:
  assumes "map_of (reg_specialties reg) name = Some sp" "sp_model sp = None"
  shows "resolve_candidates reg name args = Inr (open_candidates reg sp args)"
  using assms by (simp add: resolve_candidates_def)

lemma resolve_specialty_Inr:
  "resolve_specialty reg name args = Inr m \<longleftrightarrow> (\<exists>ms. resolve_candidates reg name args = Inr (m # ms))"
  by (auto simp: resolve_specialty_def bindr_def split: sum.splits list.splits)

text \<open>What every selected model satisfies, pinned or not: the limits of the call.\<close>

definition within_limits :: "resolve_args \<Rightarrow> model_spec \<Rightarrow> bool" where
  "within_limits args m \<longleftrightarrow>
     (\<forall>r. ra_max_ram_gb args = Some r \<longrightarrow> ms_ram_gb m \<le> r)
     \<and> (\<forall>r. ra_max_vram_gb args = Some r \<longrightarrow> ms_vram_gb m \<le> r)
     \<and> model_backend_supported m (ra_supported args)"

lemma model_fits_within_limits: "model_fits sp args m \<Longrightarrow> within_limits args m"
  by (auto simp: model_fits_def within_limits_def)

lemma resolve_model_name_Inr:
  assumes "resolve_model_name reg name sp args = Inr m"
  shows "m \<in> set (reg_models reg)" "ms_name m = name" "within_limits args m"
proof -
  from assms obtain ms where ms: "filter (\<lambda>m. ms_name m = name) (reg_models reg) = m # ms"
    by (auto simp: resolve_model_name_def split: list.splits if_splits)
  then have "m \<in> set (filter (\<lambda>m. ms_name m = name) (reg_models reg))" by simp
  then show "m \<in> set (reg_models reg)" "ms_name m = name" by simp_all
  from assms ms show "within_limits args m"
    by (auto simp: resolve_model_name_def within_limits_def not_less split: if_splits option.splits)
qed

lemma resolve_candidates_within:
  assumes "resolve_candidates reg name args = Inr ms" "m \<in> set ms"
  shows "m \<in> set (reg_models reg) \<and> within_limits args m"
proof -
  from assms(1) obtain sp where sp: "map_of (reg_specialties reg) name = Some sp"
    by (auto simp: resolve_candidates_def split: option.splits)
  show ?thesis
  proof (cases "sp_model sp")
    case None
    with assms sp show ?thesis
      using cand.selection_set[of reg sp args] model_fits_within_limits
      by (auto simp: resolve_candidates_open)
  next
    case (Some pinned)
    with assms sp have "resolve_model_name reg pinned name args = Inr m"
      by (auto simp: resolve_candidates_def bindr_eq_Inr)
    then show ?thesis using resolve_model_name_Inr by blast
  qed
qed




lemma map_of_dict_update: "map_of (dict_update base upd) = map_of base ++ map_of (rev upd)"
proof (induction upd arbitrary: base)
  case (Cons kv upd)
  obtain k v where kv: "kv = (k, v)" by (cases kv)
  have "dict_update base (kv # upd) = dict_update (dput k v base) upd"
    by (simp add: kv dict_update_def)
  then have "map_of (dict_update base (kv # upd)) = map_of (dput k v base) ++ map_of (rev upd)"
    by (simp only: Cons.IH)
  also have "\<dots> = (map_of base)(k \<mapsto> v) ++ map_of (rev upd)" by (simp only: map_of_dput)
  also have "\<dots> = map_of base ++ map_of (rev (kv # upd))"
    by (rule ext) (simp add: kv map_add_def split: option.split)
  finally show ?case .
qed (simp add: dict_update_def)

lemma distinct_dict_update: "distinct (map fst base) \<Longrightarrow> distinct (map fst (dict_update base upd))"
  by (induction upd arbitrary: base) (auto simp: dict_update_def distinct_dput)

section \<open>Properties\<close>

text \<open>
  C6. Resolving a specialty that pins no model returns exactly the models that fit it, each as
  often as the registry lists it, in ascending order of placement, tier rank and name: no fitting
  model is lost and no other one appears.
\<close>

theorem resolve_candidates_exact:
  assumes "map_of (reg_specialties reg) name = Some sp" "sp_model sp = None"
  shows "\<exists>ms. resolve_candidates reg name args = Inr ms
     \<and> mset ms = filter_mset (model_fits sp args) (mset (reg_models reg))
     \<and> sorted (map (candidate_key (ra_tier_order args)) ms)"
  using resolve_candidates_open[OF assms, of args] cand.selection_perm[of reg sp args]
    cand.selection_sorted[of args reg sp]
  by simp

lemma resolve_candidates_exact_witness:
  "\<exists>ms. resolve_candidates (registry_from_dict bundled_config) ''code-review'' (host_args [''small''] 16 0 []) = Inr ms
     \<and> mset ms = filter_mset (model_fits (specialty_init ''code-review'' (yaml_specialty ''code'' None None))
                   (host_args [''small''] 16 0 [])) (mset (reg_models (registry_from_dict bundled_config)))
     \<and> sorted (map (candidate_key (ra_tier_order (host_args [''small''] 16 0 []))) ms)"
  by (rule resolve_candidates_exact)
    (simp_all add: registry_from_dict_def bundled_config_def specialty_init_def yaml_specialty_def)



text \<open>
  Whatever the specialty, pinned or open, a model that is returned is one of the registry's,
  needs no more RAM and VRAM than the call allows and, when it runs on a GPU, has a supported
  backend.
\<close>

theorem resolve_specialty_within_limits:
  assumes "resolve_specialty reg name args = Inr m"
  shows "m \<in> set (reg_models reg) \<and> within_limits args m"
  using assms resolve_candidates_within by (auto simp: resolve_specialty_Inr)

lemma resolve_specialty_within_limits_witness:
  "\<exists>m \<in> set (reg_models (registry_from_dict bundled_config)).
     within_limits (host_args [''small'', ''tiny''] 128 0 []) m"
proof -
  have "map_sum id (\<lambda>_. ()) (resolve_specialty (registry_from_dict bundled_config) ''default-instruct''
      (host_args [''small'', ''tiny''] 128 0 [])) = Inr ()"
    by code_simp
  then obtain m where "resolve_specialty (registry_from_dict bundled_config) ''default-instruct''
      (host_args [''small'', ''tiny''] 128 0 []) = Inr m"
    by (blast dest: map_sum_InrD)
  from resolve_specialty_within_limits[OF this] show ?thesis by blast
qed

text \<open>
  A pinned specialty resolves to its model or to one \<^verbatim>\<open>KeyError\<close>, and resolves exactly when the
  registry has a model of that name whose first entry is within the limits.
\<close>

theorem pinned_specialty_result:
  assumes "map_of (reg_specialties reg) name = Some sp" "sp_model sp = Some pinned"
  shows "(case filter (\<lambda>m. ms_name m = pinned) (reg_models reg) of
           [] \<Rightarrow> resolve_candidates reg name args
             = Inl (KeyError (''specialty '' @ squote name @ '' selects unknown model '' @ squote pinned))
         | m # _ \<Rightarrow> if within_limits args m then resolve_candidates reg name args = Inr [m]
             else (\<exists>msg. resolve_candidates reg name args = Inl (KeyError msg)))"
  using assms
  by (auto simp: resolve_candidates_def resolve_model_name_def within_limits_def not_less
      split: list.splits option.splits)

lemma pinned_specialty_result_witness:
  "\<exists>msg. resolve_candidates
     \<lparr>reg_models = [model_spec_init (yaml_model ''m'' ''qwen'' ''instruct'' ''large'' ''vllm'' ''r'' None 24 16 4096)],
      reg_specialties = [(''big'', \<lparr>sp_name = ''big'', sp_capability = ''instruct'', sp_flavor = None,
        sp_lora = None, sp_min_context_tokens = None, sp_model = Some ''m''\<rparr>)]\<rparr>
     ''big'' (host_args [''small''] 16 0 []) = Inl (KeyError msg)"
proof -
  let ?m = "model_spec_init (yaml_model ''m'' ''qwen'' ''instruct'' ''large'' ''vllm'' ''r'' None 24 16 4096)"
  let ?sp = "\<lparr>sp_name = ''big'', sp_capability = ''instruct'', sp_flavor = None,
        sp_lora = None, sp_min_context_tokens = None, sp_model = Some ''m''\<rparr>"
  let ?reg = "\<lparr>reg_models = [?m], reg_specialties = [(''big'', ?sp)]\<rparr>"
  have sp: "map_of (reg_specialties ?reg) ''big'' = Some ?sp" "sp_model ?sp = Some ''m''"
    by simp_all
  have "ms_name ?m = ''m''" "\<not> within_limits (host_args [''small''] 16 0 []) ?m"
    by (simp_all add: model_spec_init_def yaml_model_def within_limits_def host_args_def Let_def)
  with pinned_specialty_result[OF sp, of "host_args [''small''] 16 0 []"] show ?thesis by simp
qed

text \<open>
  Merging a configuration file: its specialties shadow the base ones of the same name and all
  others stay; its model list, when it has one, replaces the base list; an empty file changes
  nothing.
\<close>

theorem merge_config_lookup:
  "map_of (reg_specialties (registry_from_dict (merge_config base (Some ov)))) name =
     (case map_of (rev (case cfg_specialties ov of None \<Rightarrow> [] | Some sps \<Rightarrow> sps)) name of
        Some spec \<Rightarrow> Some (specialty_init name spec)
      | None \<Rightarrow> map_of (reg_specialties (registry_from_dict base)) name)
   \<and> reg_models (registry_from_dict (merge_config base (Some ov))) =
     (case cfg_models ov of Some ms \<Rightarrow> map model_spec_init ms
      | None \<Rightarrow> reg_models (registry_from_dict base))
   \<and> merge_config base None = base"
proof -
  have m: "map_of (map (\<lambda>(name, spec). (name, specialty_init name spec)) xs) name
     = map_option (specialty_init name) (map_of xs name)" for xs
    by (induction xs) auto
  show ?thesis
    by (auto simp: merge_config_def registry_from_dict_def config_empty_def Let_def m
        map_of_dict_update map_add_def split: option.splits)
qed

text \<open>
  \<^verbatim>\<open>ModelSpec.__post_init__\<close> settles the placement: the record never says \<^verbatim>\<open>auto\<close>, automatic
  placement puts a model on the GPU exactly when it needs VRAM, and a \<^verbatim>\<open>llama\<close> or \<^verbatim>\<open>vllm\<close> model on the
  GPU always has a backend to be matched against the hardware.
\<close>

theorem model_spec_init_settled:
  "ms_placement (model_spec_init k) \<noteq> ''auto''
   \<and> (mk_placement k \<in> {None, Some ''auto''} \<longrightarrow>
        (ms_placement (model_spec_init k) = ''gpu'' \<longleftrightarrow> 0 < ms_vram_gb (model_spec_init k)))
   \<and> (ms_placement (model_spec_init k) = ''gpu'' \<and> mk_backend k \<in> {''vllm'', ''llama''} \<longrightarrow>
        ms_gpu_backends (model_spec_init k) \<noteq> [])"
  by (auto simp: model_spec_init_def post_init_placement_def post_init_backends_def Let_def
      split: option.splits)

lemma model_spec_init_settled_witness:
  "ms_gpu_backends (model_spec_init (yaml_model ''m'' ''f'' ''code'' ''small'' ''llama'' ''r'' None 10 8 4096)) \<noteq> []"
proof -
  have "ms_placement (model_spec_init (yaml_model ''m'' ''f'' ''code'' ''small'' ''llama'' ''r'' None 10 8 4096)) = ''gpu''"
    by code_simp
  moreover have "mk_backend (yaml_model ''m'' ''f'' ''code'' ''small'' ''llama'' ''r'' None 10 8 4096) \<in> {''vllm'', ''llama''}"
    by (simp add: yaml_model_def)
  ultimately show ?thesis
    using model_spec_init_settled[of "yaml_model ''m'' ''f'' ''code'' ''small'' ''llama'' ''r'' None 10 8 4096"]
    by blast
qed

text \<open>
  The machine's tier: its order begins with the tier itself and is a tail of
  \<^verbatim>\<open>large, medium, small, tiny\<close>, and a machine with at least as much RAM and VRAM never gets a
  shorter list.
\<close>

theorem select_tier_monotone:
  "(\<exists>pre. [''large'', ''medium'', ''small'', ''tiny''] = pre @ mt_order (select_tier r v))
   \<and> (\<exists>rest. mt_order (select_tier r v) = mt_name (select_tier r v) # rest)
   \<and> (r \<le> r' \<and> v \<le> v' \<longrightarrow> (\<exists>pre. mt_order (select_tier r' v') = pre @ mt_order (select_tier r v)))"
proof -
  have g: "a \<le> b \<Longrightarrow> gib a \<le> gib b" for a b by (simp add: gib_def divide_right_mono)
  show ?thesis
    using g[of r r'] g[of v v'] unfolding select_tier_def Let_def
    by (auto split: if_splits)
qed

lemma select_tier_monotone_witness:
  "\<exists>pre. mt_order (select_tier 64000000000 0) = pre @ mt_order (select_tier 8000000000 0)"
  using select_tier_monotone[of 8000000000 0 64000000000 0] by simp

end
