(* ===== verification/Chat_Messages.thy ===== *)
theory Chat_Messages
  imports BubbleHub_Prelude
begin

text \<open>
  The message normalisation of \<^verbatim>\<open>bubblehub/http_api.py\<close>: the client's \<^verbatim>\<open>messages\<close>, \<^verbatim>\<open>input\<close> and
  embeddings \<^verbatim>\<open>input\<close> values (anything JSON can hold) become the role-ordered conversation, or the
  list of texts, that the engine is called with.
\<close>

section \<open>Text and role of one message\<close>

record chat_message =
  cm_role :: string
  cm_content :: string

definition part_text :: "pydict \<Rightarrow> string" where
  "part_text item = py_str (py_or (dget item ''text'')
     (py_or (dget item ''input_text'') (py_or (dget item ''output_text'') (PStr ''''))))"

fun content_part :: "pyval \<Rightarrow> string" where
  "content_part (PDict item) = part_text item"
| "content_part item = py_str item"

fun content_to_text :: "pyval \<Rightarrow> string" where
  "content_to_text (PStr s) = s"
| "content_to_text (PDict value) = part_text value"
| "content_to_text (PList items) = join [ch_nl] (filter (\<lambda>part. part \<noteq> []) (map content_part items))"
| "content_to_text value = py_str value"

definition normalize_role :: "pyval \<Rightarrow> string" where
  "normalize_role value =
     (let role = lower (py_str (py_or value (PStr ''user''))) in
      if role = ''developer'' then ''system''
      else if role \<in> set [''system'', ''user'', ''assistant''] then role
      else ''user'')"

definition failed_turn_text :: string where
  "failed_turn_text = ''[assistant turn failed before producing content]''"

definition overflow_text :: string where
  "overflow_text = ''context overflow: prompt too large for the model. try /reset (or /new) to start a fresh session, or use a larger-context model.''"

definition is_failed_assistant_content :: "string \<Rightarrow> bool" where
  "is_failed_assistant_content content \<longleftrightarrow> lower (strip content) \<in> set [failed_turn_text, overflow_text]"

section \<open>Collecting the messages\<close>

text \<open>
  One turn of the loop of \<^verbatim>\<open>normalize_chat_messages\<close>; its state is the pair of
  \<^verbatim>\<open>messages\<close> and \<^verbatim>\<open>system_parts\<close>.
\<close>

definition is_tool_role :: "pydict \<Rightarrow> bool" where
  "is_tool_role item \<longleftrightarrow> lower (py_str (dget_or item ''role'' (PStr ''''))) \<in> set [''tool'', ''function'']"

definition tool_name :: "pydict \<Rightarrow> string" where
  "tool_name item = py_str (py_or (dget item ''name'') (py_or (dget item ''tool_call_id'') (PStr ''tool'')))"

fun collect_item :: "pyval \<Rightarrow> chat_message list \<times> string list \<Rightarrow> chat_message list \<times> string list" where
  "collect_item (PStr s) (messages, system_parts) =
     (let content = strip s in
      if content \<noteq> [] then (messages @ [\<lparr>cm_role = ''user'', cm_content = content\<rparr>], system_parts)
      else (messages, system_parts))"
| "collect_item (PDict item) (messages, system_parts) =
     (let role = normalize_role (dget item ''role'');
          content = strip (content_to_text (dget_or item ''content'' (PStr ''''))) in
      if content = [] \<and> role = ''assistant'' then (messages, system_parts)
      else if role = ''assistant'' \<and> is_failed_assistant_content content then (messages, system_parts)
      else if content = [] then (messages, system_parts)
      else
        (let content = (if is_tool_role item
             then ''Tool result ('' @ tool_name item @ ''):'' @ [ch_nl] @ content else content) in
         if role = ''system'' then (messages, system_parts @ [content])
         else (messages @ [\<lparr>cm_role = role, cm_content = content\<rparr>], system_parts)))"
| "collect_item _ st = st"

definition collect_messages :: "pyval list \<Rightarrow> chat_message list \<times> string list" where
  "collect_messages value = fold collect_item value ([], [])"

section \<open>Ordering the roles\<close>

definition paragraph_sep :: string where "paragraph_sep = [ch_nl, ch_nl]"

definition order_message :: "chat_message \<Rightarrow> chat_message list \<Rightarrow> chat_message list" where
  "order_message message ordered =
     (if cm_role message = ''assistant'' \<and> \<not> list_ex (\<lambda>item. cm_role item = ''user'') ordered then ordered
      else if ordered \<noteq> [] \<and> cm_role (last ordered) = cm_role message then
        butlast ordered @ [(last ordered)
          \<lparr>cm_content := cm_content (last ordered) @ paragraph_sep @ cm_content message\<rparr>]
      else ordered @ [\<lparr>cm_role = cm_role message, cm_content = cm_content message\<rparr>])"

definition normalize_message_order :: "chat_message list \<Rightarrow> string list \<Rightarrow> chat_message list" where
  "normalize_message_order messages system_parts =
     fold order_message messages
       (if system_parts \<noteq> []
        then [\<lparr>cm_role = ''system'', cm_content = join paragraph_sep system_parts\<rparr>] else [])"

definition normalize_chat_messages :: "pyval list \<Rightarrow> chat_message list result" where
  "normalize_chat_messages value =
     (case collect_messages value of (messages, system_parts) \<Rightarrow>
        (let ordered = normalize_message_order messages system_parts in
         if ordered \<noteq> [] then Inr ordered
         else Inl (ValueError ''messages must contain at least one text message'')))"

definition messages_from_responses_input :: "pyval \<Rightarrow> chat_message list result" where
  "messages_from_responses_input value =
     (case value of
        PStr s \<Rightarrow> Inr [\<lparr>cm_role = ''user'', cm_content = s\<rparr>]
      | PList xs \<Rightarrow> normalize_chat_messages xs
      | _ \<Rightarrow> Inl (ValueError ''responses input must be a string or a list of messages''))"

section \<open>Embeddings input\<close>

fun is_str :: "pyval \<Rightarrow> bool" where "is_str (PStr _) = True" | "is_str _ = False"

text \<open>\<^verbatim>\<open>isinstance(x, int)\<close> holds for booleans too.\<close>

fun is_int :: "pyval \<Rightarrow> bool" where
  "is_int (PInt _) = True" | "is_int (PBool _) = True" | "is_int _ = False"

fun is_list :: "pyval \<Rightarrow> bool" where "is_list (PList _) = True" | "is_list _ = False"

fun list_items :: "pyval \<Rightarrow> pyval list" where
  "list_items (PList xs) = xs" | "list_items _ = []"

definition normalize_embeddings_input :: "pyval \<Rightarrow> string list result" where
  "normalize_embeddings_input value =
     (let bad = Inl (ValueError ''embeddings input must be a string, list of strings, or token list'') in
      case value of
        PStr s \<Rightarrow> Inr [s]
      | PList xs \<Rightarrow>
          if list_all is_str xs then Inr (map py_str xs)
          else if list_all is_int xs then Inr [join '' '' (map py_str xs)]
          else if list_all is_list xs then Inr (map (\<lambda>item. join '' '' (map py_str (list_items item))) xs)
          else bad
      | _ \<Rightarrow> bad)"

section \<open>Well-formed conversations\<close>

text \<open>
  What the engine needs of a conversation: at most one system message, at the head; no two
  neighbours with the same role; no assistant turn before the first user turn; every text non-empty
  and stripped, and no placeholder of a failed assistant turn.
\<close>

definition role_order :: "string list \<Rightarrow> bool" where
  "role_order rs \<longleftrightarrow> distinct_adj rs \<and> ''system'' \<notin> set (tl rs)
     \<and> ''assistant'' \<notin> set (takeWhile (\<lambda>r. r \<noteq> ''user'') rs)"

definition good_message :: "chat_message \<Rightarrow> bool" where
  "good_message m \<longleftrightarrow> cm_role m \<in> {''system'', ''user'', ''assistant''} \<and> cm_content m \<noteq> []
     \<and> stripped (cm_content m)
     \<and> \<not> (cm_role m = ''assistant'' \<and> is_failed_assistant_content (cm_content m))"

definition well_formed :: "chat_message list \<Rightarrow> bool" where
  "well_formed ms \<longleftrightarrow> list_all good_message ms \<and> role_order (map cm_role ms)"

lemma normalize_role_range: "normalize_role v \<in> {''system'', ''user'', ''assistant''}"
  by (auto simp: normalize_role_def Let_def)

lemma ch_nl_space: "is_space ch_nl"
  by (simp add: is_space_def ch_nl_def)

lemma failed_texts_no_newline: "is_failed_assistant_content c \<Longrightarrow> ch_nl \<notin> set (strip c)"
proof
  assume f: "is_failed_assistant_content c" and "ch_nl \<in> set (strip c)"
  moreover have "lower_char ch_nl = ch_nl" by (simp add: lower_char_def ch_nl_def)
  ultimately have "ch_nl \<in> set (lower (strip c))" by (force simp: lower_def)
  with f have "ch_nl \<in> set failed_turn_text \<or> ch_nl \<in> set overflow_text"
    by (auto simp: is_failed_assistant_content_def)
  moreover have "ch_nl \<notin> set failed_turn_text" "ch_nl \<notin> set overflow_text"
    by (simp_all add: failed_turn_text_def overflow_text_def ch_nl_def)
  ultimately show False by blast
qed

lemma paragraph_not_failed:
  assumes "stripped c" "stripped d" "c \<noteq> []" "d \<noteq> []"
  shows "\<not> is_failed_assistant_content (c @ paragraph_sep @ d)"
proof
  assume "is_failed_assistant_content (c @ paragraph_sep @ d)"
  moreover have "strip (c @ paragraph_sep @ d) = c @ paragraph_sep @ d"
    using assms by (intro strip_stripped stripped_append)
  ultimately show False
    using failed_texts_no_newline by (fastforce simp: paragraph_sep_def)
qed

lemma good_paragraphs:
  "cs \<noteq> [] \<Longrightarrow> list_all (\<lambda>c. c \<noteq> [] \<and> stripped c) cs \<Longrightarrow>
     join paragraph_sep cs \<noteq> [] \<and> stripped (join paragraph_sep cs)"
proof (induction cs rule: list_nonempty_induct)
  case (cons c cs)
  then show ?case by (simp add: join_Cons stripped_append)
qed simp

section \<open>Collecting keeps messages good\<close>

definition collected_ok :: "chat_message list \<times> string list \<Rightarrow> bool" where
  "collected_ok st \<longleftrightarrow> list_all (\<lambda>m. good_message m \<and> cm_role m \<noteq> ''system'') (fst st)
     \<and> list_all (\<lambda>c. c \<noteq> [] \<and> stripped c) (snd st)"

lemma tool_result_good:
  "c \<noteq> [] \<Longrightarrow> stripped c \<Longrightarrow> stripped (''Tool result ('' @ n @ ''):'' @ [ch_nl] @ c)"
proof -
  assume c: "c \<noteq> []" "stripped c"
  have "\<not> is_space CHR ''T''" by (simp add: is_space_def)
  with c show ?thesis by (auto simp: stripped_def)
qed

lemma tool_role_user: "is_tool_role item \<Longrightarrow> normalize_role (dget item ''role'') = ''user''"
proof -
  assume t: "is_tool_role item"
  then obtain v where v: "map_of item ''role'' = Some v"
    by (cases "map_of item ''role''") (auto simp: is_tool_role_def dget_or_def)
  with t have l: "lower (py_str v) \<in> {''tool'', ''function''}"
    by (simp add: is_tool_role_def dget_or_def)
  show ?thesis
  proof (cases "truthy v")
    case True
    with v l show ?thesis by (auto simp: normalize_role_def dget_def py_or_def Let_def)
  next
    case False
    with v show ?thesis
      by (simp add: normalize_role_def dget_def py_or_def Let_def lower_def lower_char_def)
  qed
qed

lemma collect_item_ok: "collected_ok st \<Longrightarrow> collected_ok (collect_item v st)"
proof (induction v st rule: collect_item.induct)
  case (1 s messages system_parts)
  then show ?case by (auto simp: collected_ok_def good_message_def Let_def)
next
  case (2 item messages system_parts)
  let ?role = "normalize_role (dget item ''role'')"
  let ?content = "strip (content_to_text (dget_or item ''content'' (PStr '''')))"
  from 2 normalize_role_range[of "dget item ''role''"] tool_role_user[of item] show ?case
    by (auto simp: collected_ok_def good_message_def Let_def tool_result_good[simplified] Cons_eq_append_conv)
qed auto

lemma collect_messages_ok: "collected_ok (collect_messages value)"
proof -
  have "collected_ok st \<Longrightarrow> collected_ok (fold collect_item value st)" for st
  proof (induction "value" arbitrary: st)
    case (Cons v vs)
    from Cons.prems have "collected_ok (collect_item v st)" by (rule collect_item_ok)
    then have "collected_ok (fold collect_item vs (collect_item v st))" by (rule Cons.IH)
    then show ?case by simp
  qed simp
  then show ?thesis by (simp add: collect_messages_def collected_ok_def)
qed

section \<open>Ordering keeps the conversation well formed\<close>

lemma map_role_merge:
  "ms \<noteq> [] \<Longrightarrow> map cm_role (butlast ms @ [(last ms)\<lparr>cm_content := c\<rparr>]) = map cm_role ms"
  by (induction ms rule: rev_induct) auto

lemma role_order_snoc:
  assumes "role_order rs" "rs \<noteq> [] \<longrightarrow> last rs \<noteq> r" "r \<noteq> ''system'' \<or> rs = []"
    "r = ''assistant'' \<longrightarrow> ''user'' \<in> set rs"
  shows "role_order (rs @ [r])"
proof -
  have "distinct_adj (rs @ [r])"
    using assms(1,2) by (auto simp: role_order_def distinct_adj_append_iff)
  moreover have "''system'' \<notin> set (tl (rs @ [r]))"
  proof (cases rs)
    case Cons
    then have "''system'' \<notin> set (tl rs)" "r \<noteq> ''system''" using assms(1,3) by (auto simp: role_order_def)
    with Cons show ?thesis by simp
  qed simp
  moreover have "''assistant'' \<notin> set (takeWhile (\<lambda>r. r \<noteq> ''user'') (rs @ [r]))"
  proof (cases "''user'' \<in> set rs")
    case True
    then have "takeWhile (\<lambda>r. r \<noteq> ''user'') (rs @ [r]) = takeWhile (\<lambda>r. r \<noteq> ''user'') rs"
      by (intro takeWhile_append1) auto
    with assms(1) show ?thesis by (simp add: role_order_def)
  next
    case False
    then have all: "r' \<noteq> ''user''" if "r' \<in> set rs" for r' using that by blast
    have "takeWhile (\<lambda>r. r \<noteq> ''user'') (rs @ [r]) = rs @ takeWhile (\<lambda>r. r \<noteq> ''user'') [r]"
      by (rule takeWhile_append2) (rule all)
    moreover have "takeWhile (\<lambda>r. r \<noteq> ''user'') rs = rs"
      using all by (simp add: takeWhile_eq_all_conv)
    with assms(1) have "''assistant'' \<notin> set rs" by (simp add: role_order_def)
    ultimately show ?thesis using assms(4) False by auto
  qed
  ultimately show ?thesis unfolding role_order_def by blast
qed

lemma list_ex_role: "list_ex (\<lambda>item. cm_role item = r) ms \<longleftrightarrow> r \<in> set (map cm_role ms)"
  by (induction ms) auto

lemma order_message_well_formed:
  assumes wf: "well_formed ordered" and m: "good_message m" "cm_role m \<noteq> ''system''"
  shows "well_formed (order_message m ordered)"
proof -
  consider
      (drop) "cm_role m = ''assistant''" "\<not> list_ex (\<lambda>item. cm_role item = ''user'') ordered"
    | (merge) "\<not> (cm_role m = ''assistant'' \<and> \<not> list_ex (\<lambda>item. cm_role item = ''user'') ordered)"
        "ordered \<noteq> []" "cm_role (last ordered) = cm_role m"
    | (append) "\<not> (cm_role m = ''assistant'' \<and> \<not> list_ex (\<lambda>item. cm_role item = ''user'') ordered)"
        "ordered = [] \<or> cm_role (last ordered) \<noteq> cm_role m"
    by blast
  then show ?thesis
  proof cases
    case drop
    with wf show ?thesis by (simp add: order_message_def)
  next
    case merge
    have "list_all good_message ordered" using wf by (simp add: well_formed_def)
    then have l: "good_message (last ordered)" "list_all good_message (butlast ordered)"
      using merge(2) by (auto simp: list_all_iff dest: in_set_butlastD)
    have "good_message ((last ordered)\<lparr>cm_content :=
        cm_content (last ordered) @ paragraph_sep @ cm_content m\<rparr>)"
      using l(1) m paragraph_not_failed by (auto simp: good_message_def intro: stripped_append)
    with l merge wf show ?thesis
      by (simp add: order_message_def well_formed_def map_role_merge del: map_append)
  next
    case append
    then have o: "order_message m ordered = ordered @ [\<lparr>cm_role = cm_role m, cm_content = cm_content m\<rparr>]"
      by (auto simp: order_message_def)
    have "role_order (map cm_role ordered @ [cm_role m])"
      using append wf m
      by (intro role_order_snoc) (auto simp: well_formed_def last_map list_ex_role simp del: set_map)
    moreover have "good_message \<lparr>cm_role = cm_role m, cm_content = cm_content m\<rparr>"
      using m(1) by (simp add: good_message_def)
    ultimately show ?thesis using wf by (simp add: o well_formed_def)
  qed
qed

lemma fold_order_well_formed:
  "well_formed acc \<Longrightarrow> list_all (\<lambda>m. good_message m \<and> cm_role m \<noteq> ''system'') ms \<Longrightarrow>
     well_formed (fold order_message ms acc)"
  by (induction ms arbitrary: acc) (auto intro: order_message_well_formed)

lemma normalize_message_order_well_formed:
  assumes "collected_ok (messages, system_parts)"
  shows "well_formed (normalize_message_order messages system_parts)"
proof -
  have "well_formed (if system_parts \<noteq> []
      then [\<lparr>cm_role = ''system'', cm_content = join paragraph_sep system_parts\<rparr>] else [])"
    using assms good_paragraphs[of system_parts]
    by (auto simp: well_formed_def good_message_def role_order_def collected_ok_def)
  then show ?thesis
    using assms unfolding normalize_message_order_def collected_ok_def
    by (intro fold_order_well_formed) auto
qed

section \<open>Re-reading a normalised conversation\<close>

text \<open>A normalised message as the client would send it back.\<close>

definition encode_message :: "chat_message \<Rightarrow> pyval" where
  "encode_message m = PDict [(''role'', PStr (cm_role m)), (''content'', PStr (cm_content m))]"

lemma normalize_role_fixed:
  "r \<in> {''system'', ''user'', ''assistant''} \<Longrightarrow> normalize_role (PStr r) = r"
  by (auto simp: normalize_role_def py_or_def Let_def lower_def lower_char_def)

lemma not_tool_role:
  "r \<in> {''system'', ''user'', ''assistant''} \<Longrightarrow> \<not> is_tool_role [(''role'', PStr r), (''content'', v)]"
  by (auto simp: is_tool_role_def dget_or_def lower_def lower_char_def)

lemma collect_encoded:
  assumes "good_message m"
  shows "collect_item (encode_message m) (ms, sp) =
     (if cm_role m = ''system'' then (ms, sp @ [cm_content m]) else (ms @ [m], sp))"
proof -
  have r: "normalize_role (PStr (cm_role m)) = cm_role m"
    using assms normalize_role_fixed by (simp add: good_message_def)
  have t: "\<not> is_tool_role [(''role'', PStr (cm_role m)), (''content'', PStr (cm_content m))]"
    using assms not_tool_role by (simp add: good_message_def)
  have c: "strip (cm_content m) = cm_content m" "cm_content m \<noteq> []"
    "\<not> (cm_role m = ''assistant'' \<and> is_failed_assistant_content (cm_content m))"
    using assms by (auto simp: good_message_def strip_stripped)
  show ?thesis
    using c t by (auto simp: encode_message_def dget_def dget_or_def r Let_def)
qed

lemma collect_encoded_list:
  "list_all (\<lambda>m. good_message m \<and> cm_role m \<noteq> ''system'') ms \<Longrightarrow>
     fold collect_item (map encode_message ms) (acc, sp) = (acc @ ms, sp)"
  by (induction ms arbitrary: acc) (auto simp: collect_encoded)

lemma order_message_append:
  assumes "role_order (map cm_role (acc @ [m]))"
  shows "order_message m acc = acc @ [m]"
proof -
  have "\<not> (cm_role m = ''assistant'' \<and> ''user'' \<notin> set (map cm_role acc))"
  proof
    assume a: "cm_role m = ''assistant'' \<and> ''user'' \<notin> set (map cm_role acc)"
    then have "\<forall>r \<in> set (map cm_role acc). r \<noteq> ''user''" by metis
    then have "takeWhile (\<lambda>r. r \<noteq> ''user'') (map cm_role acc @ [cm_role m]) = map cm_role acc @ [''assistant'']"
      using a by (subst takeWhile_append2) (simp_all only: takeWhile.simps, simp_all)
    with assms show False by (simp add: role_order_def)
  qed
  moreover have "acc \<noteq> [] \<Longrightarrow> cm_role (last acc) \<noteq> cm_role m"
    using assms by (auto simp: role_order_def distinct_adj_append_iff last_map)
  ultimately show ?thesis
    by (auto simp: order_message_def list_ex_role simp del: set_map)
qed

lemma role_order_prefix: "role_order (rs @ ss) \<Longrightarrow> role_order rs"
proof -
  assume o: "role_order (rs @ ss)"
  have "set (tl rs) \<subseteq> set (tl (rs @ ss))" by (cases rs) auto
  moreover have "set (takeWhile p rs) \<subseteq> set (takeWhile p (rs @ ss))" for p
    by (induction rs) auto
  ultimately show ?thesis
    using o unfolding role_order_def distinct_adj_append_iff by blast
qed

lemma fold_order_append:
  "role_order (map cm_role (acc @ ms)) \<Longrightarrow> fold order_message ms acc = acc @ ms"
proof (induction ms arbitrary: acc)
  case (Cons m ms)
  then have "role_order (map cm_role (acc @ [m]))"
    using role_order_prefix[of "map cm_role (acc @ [m])" "map cm_role ms"] by simp
  then have "order_message m acc = acc @ [m]" by (rule order_message_append)
  with Cons.IH[of "acc @ [m]"] Cons.prems show ?case by simp
qed simp

lemma well_formed_reread:
  assumes wf: "well_formed ms" and ne: "ms \<noteq> []"
  shows "normalize_chat_messages (map encode_message ms) = Inr ms"
proof -
  obtain m rest where ms: "ms = m # rest" using ne by (cases ms) auto
  have good: "good_message m" "list_all (\<lambda>m. good_message m \<and> cm_role m \<noteq> ''system'') rest"
    using wf by (auto simp: ms well_formed_def role_order_def list_all_iff image_iff)
  show ?thesis
  proof (cases "cm_role m = ''system''")
    case True
    have "collect_messages (map encode_message ms) = (rest, [cm_content m])"
      using good True collect_encoded_list[of rest "[]"] by (simp add: collect_messages_def ms collect_encoded)
    moreover have "fold order_message rest [m] = m # rest"
      using wf fold_order_append[of "[m]" rest] by (simp add: ms well_formed_def)
    moreover have "\<lparr>cm_role = ''system'', cm_content = cm_content m\<rparr> = m" using True by simp
    ultimately show ?thesis
      by (simp add: normalize_chat_messages_def normalize_message_order_def ms)
  next
    case False
    then have "collect_messages (map encode_message ms) = (ms, [])"
      using good collect_encoded_list[of ms "[]"] by (simp add: collect_messages_def ms)
    moreover have "fold order_message ms [] = ms"
      using wf fold_order_append[of "[]" ms] by (simp add: well_formed_def)
    ultimately show ?thesis
      using ne by (simp add: normalize_chat_messages_def normalize_message_order_def)
  qed
qed

section \<open>The text that is kept\<close>

definition role_text :: "string \<Rightarrow> chat_message list \<Rightarrow> string" where
  "role_text r ms = join paragraph_sep (map cm_content (filter (\<lambda>m. cm_role m = r) ms))"

lemma join_append: "xs \<noteq> [] \<Longrightarrow> ys \<noteq> [] \<Longrightarrow> join sep (xs @ ys) = join sep xs @ sep @ join sep ys"
  by (induction xs rule: list_nonempty_induct) (auto simp: join_Cons)

lemma join_merge_last: "join sep (xs @ [c @ sep @ d]) = join sep (xs @ [c, d])"
  by (cases "xs = []") (simp_all add: join_append)

lemma role_text_append:
  "role_text r (xs @ zs) =
     (if r \<notin> set (map cm_role xs) then role_text r zs
      else if r \<notin> set (map cm_role zs) then role_text r xs
      else role_text r xs @ paragraph_sep @ role_text r zs)"
proof -
  have e: "r \<notin> set (map cm_role ms) \<longleftrightarrow> filter (\<lambda>m. cm_role m = r) ms = []" for ms
    by (induction ms) auto
  show ?thesis unfolding e role_text_def by (simp add: join_append)
qed

lemma order_message_user_text:
  "role_text ''user'' (order_message m acc) = role_text ''user'' (acc @ [m])"
proof (cases "acc \<noteq> [] \<and> cm_role (last acc) = cm_role m")
  case True
  then obtain init l where acc: "acc = init @ [l]" by (metis append_butlast_last_id)
  with True show ?thesis
    by (auto simp: order_message_def role_text_def join_merge_last)
next
  case False
  then show ?thesis by (auto simp: order_message_def role_text_def)
qed

lemma order_message_user_role:
  "''user'' \<in> set (map cm_role (order_message m acc)) \<longleftrightarrow> ''user'' \<in> set (map cm_role (acc @ [m]))"
  by (cases acc rule: rev_cases) (auto simp: order_message_def)

lemma fold_order_user_text:
  "role_text ''user'' (fold order_message ms acc) = role_text ''user'' (acc @ ms)"
proof (induction ms arbitrary: acc)
  case (Cons m ms)
  have "role_text ''user'' (fold order_message (m # ms) acc) = role_text ''user'' (order_message m acc @ ms)"
    using Cons.IH by simp
  also have "\<dots> = role_text ''user'' ((acc @ [m]) @ ms)"
    unfolding role_text_append[of _ _ ms] order_message_user_role order_message_user_text ..
  finally show ?case by simp
qed simp

lemma fold_order_Nil:
  "list_all (\<lambda>m. good_message m \<and> cm_role m \<noteq> ''system'') ms \<Longrightarrow>
     fold order_message ms acc = [] \<longleftrightarrow> acc = [] \<and> ''user'' \<notin> set (map cm_role ms)"
proof (induction ms arbitrary: acc)
  case (Cons m ms)
  have "order_message m acc = [] \<longleftrightarrow> acc = [] \<and> cm_role m \<noteq> ''user''"
    using Cons.prems by (auto simp: order_message_def good_message_def)
  with Cons show ?case by auto
qed simp

section \<open>The contract of a source of conversations\<close>

text \<open>
  What the request handlers rely on: a reading of a request that succeeds yields a conversation
  that satisfies \<open>ok\<close> and is not empty, and one that fails is a \<^verbatim>\<open>ValueError\<close> (so a 400 answer).
\<close>

locale conversation_source =
  fixes read :: "'r \<Rightarrow> chat_message list result"
    and ok :: "chat_message list \<Rightarrow> bool"
  assumes read_ok: "read r = Inr ms \<Longrightarrow> ok ms"
    and read_nonempty: "read r = Inr ms \<Longrightarrow> ms \<noteq> []"
    and read_error: "read r = Inl e \<Longrightarrow> is_value_error e"
begin

lemma read_total: "(\<exists>ms. read r = Inr ms \<and> ok ms \<and> ms \<noteq> []) \<or> (\<exists>e. read r = Inl e \<and> is_value_error e)"
  using read_ok read_nonempty read_error by (cases "read r") auto

end

lemma normalize_chat_messages_Inr:
  assumes "normalize_chat_messages value = Inr ms"
  shows "well_formed ms \<and> ms \<noteq> []"
proof -
  obtain messages system_parts where c: "collect_messages value = (messages, system_parts)" by fastforce
  then have "well_formed (normalize_message_order messages system_parts)"
    using collect_messages_ok[of "value"] by (intro normalize_message_order_well_formed) simp
  with assms c show ?thesis by (auto simp: normalize_chat_messages_def Let_def split: if_splits)
qed

interpretation chat_source: conversation_source normalize_chat_messages well_formed
  by unfold_locales
    (auto dest: normalize_chat_messages_Inr,
     auto simp: normalize_chat_messages_def Let_def split: prod.splits if_splits)

text \<open>The text form of \<^verbatim>\<open>input\<close> is passed on as it is: it need not be stripped, nor non-empty.\<close>

definition well_formed_or_text :: "chat_message list \<Rightarrow> bool" where
  "well_formed_or_text ms \<longleftrightarrow> well_formed ms \<or> (\<exists>s. ms = [\<lparr>cm_role = ''user'', cm_content = s\<rparr>])"

interpretation responses_source: conversation_source messages_from_responses_input well_formed_or_text
proof unfold_locales
  fix r ms assume "messages_from_responses_input r = Inr ms"
  then show "well_formed_or_text ms" "ms \<noteq> []"
    by (auto simp: messages_from_responses_input_def well_formed_or_text_def
        dest: normalize_chat_messages_Inr split: pyval.splits)
next
  fix r e assume "messages_from_responses_input r = Inl e"
  then show "is_value_error e"
    by (auto simp: messages_from_responses_input_def dest: chat_source.read_error split: pyval.splits)
qed

section \<open>Properties\<close>

text \<open>
  C7. Whatever JSON values the client sends as messages, a conversation that is accepted is well
  formed: one system message at most and at its head, roles alternating, no assistant turn before
  the first user turn, every text non-empty and stripped; and a rejected one is a \<^verbatim>\<open>ValueError\<close>.
\<close>

theorem normalize_chat_messages_sound:
  "case normalize_chat_messages value of
     Inr ms \<Rightarrow> well_formed ms \<and> ms \<noteq> []
   | Inl e \<Rightarrow> is_value_error e"
  using chat_source.read_total[of "value"] by auto

text \<open>
  Normalising is idempotent: the normalised conversation, sent back as messages, is accepted
  unchanged.
\<close>

theorem normalize_chat_messages_idempotent:
  assumes "normalize_chat_messages value = Inr ms"
  shows "normalize_chat_messages (map encode_message ms) = Inr ms"
  using assms by (intro well_formed_reread) (auto dest: chat_source.read_ok chat_source.read_nonempty)

lemma normalize_chat_messages_idempotent_witness:
  "normalize_chat_messages (map encode_message
     [\<lparr>cm_role = ''system'', cm_content = ''be concise''\<rparr>, \<lparr>cm_role = ''user'', cm_content = ''hi''\<rparr>])
   = Inr [\<lparr>cm_role = ''system'', cm_content = ''be concise''\<rparr>, \<lparr>cm_role = ''user'', cm_content = ''hi''\<rparr>]"
proof (rule normalize_chat_messages_idempotent)
  show "normalize_chat_messages
      [PStr ''  hi '', PDict [(''role'', PStr ''developer''), (''content'', PStr ''be concise'')]]
    = Inr [\<lparr>cm_role = ''system'', cm_content = ''be concise''\<rparr>, \<lparr>cm_role = ''user'', cm_content = ''hi''\<rparr>]"
    by code_simp
qed

text \<open>
  No user or system text is lost or reordered: the user texts of the answer, joined, are the
  collected user texts, joined, and all system parts stand in the first message.
\<close>

theorem normalize_keeps_text:
  assumes "collect_messages value = (messages, system_parts)"
    and "normalize_chat_messages value = Inr ms"
  shows "role_text ''user'' ms = role_text ''user'' messages
     \<and> (system_parts \<noteq> [] \<longrightarrow>
          hd ms = \<lparr>cm_role = ''system'', cm_content = join paragraph_sep system_parts\<rparr>)"
proof -
  let ?sys = "\<lparr>cm_role = ''system'', cm_content = join paragraph_sep system_parts\<rparr>"
  have ms: "ms = fold order_message messages (if system_parts \<noteq> [] then [?sys] else [])"
    using assms by (auto simp: normalize_chat_messages_def normalize_message_order_def Let_def split: if_splits)
  have ok: "list_all (\<lambda>m. good_message m \<and> cm_role m \<noteq> ''system'') messages"
    using collect_messages_ok[of "value"] assms(1) by (simp add: collected_ok_def)
  have hd: "hd (fold order_message messages acc) = ?sys"
    if "acc \<noteq> []" "hd acc = ?sys" for acc
    using that ok
  proof (induction messages arbitrary: acc)
    case (Cons m messages)
    have "order_message m acc \<noteq> [] \<and> hd (order_message m acc) = ?sys"
      using Cons.prems by (cases acc; cases "tl acc") (auto simp: order_message_def)
    with Cons show ?case by simp
  qed simp
  show ?thesis
    using hd[of "[?sys]"] by (auto simp: ms fold_order_user_text role_text_append)
qed

lemma normalize_keeps_text_witness:
  "role_text ''user'' [\<lparr>cm_role = ''user'', cm_content = ''a'' @ paragraph_sep @ ''b''\<rparr>]
     = role_text ''user'' [\<lparr>cm_role = ''user'', cm_content = ''a''\<rparr>, \<lparr>cm_role = ''user'', cm_content = ''b''\<rparr>]"
proof -
  have "collect_messages [PStr ''a'', PStr ''b'']
     = ([\<lparr>cm_role = ''user'', cm_content = ''a''\<rparr>, \<lparr>cm_role = ''user'', cm_content = ''b''\<rparr>], [])"
    by code_simp
  moreover have "normalize_chat_messages [PStr ''a'', PStr ''b'']
     = Inr [\<lparr>cm_role = ''user'', cm_content = ''a'' @ paragraph_sep @ ''b''\<rparr>]"
    by code_simp
  ultimately show ?thesis using normalize_keeps_text by blast
qed

text \<open>
  The request is refused exactly when no system text and no user text was collected, and then
  with one fixed message; assistant turns alone are not a conversation.
\<close>

theorem normalize_chat_messages_refused:
  assumes "collect_messages value = (messages, system_parts)"
  shows "normalize_chat_messages value = Inl (ValueError ''messages must contain at least one text message'')
     \<longleftrightarrow> system_parts = [] \<and> ''user'' \<notin> set (map cm_role messages)"
proof -
  have ok: "list_all (\<lambda>m. good_message m \<and> cm_role m \<noteq> ''system'') messages"
    using collect_messages_ok[of "value"] assms by (simp add: collected_ok_def)
  show ?thesis
    using assms fold_order_Nil[OF ok]
    by (auto simp: normalize_chat_messages_def normalize_message_order_def Let_def)
qed

lemma normalize_chat_messages_refused_witness:
  "normalize_chat_messages [PDict [(''role'', PStr ''assistant''), (''content'', PStr ''hello'')]]
     = Inl (ValueError ''messages must contain at least one text message'')"
proof -
  have "collect_messages [PDict [(''role'', PStr ''assistant''), (''content'', PStr ''hello'')]]
     = ([\<lparr>cm_role = ''assistant'', cm_content = ''hello''\<rparr>], [])"
    by code_simp
  from normalize_chat_messages_refused[OF this] show ?thesis by simp
qed

text \<open>
  A message whose content is JSON \<^verbatim>\<open>null\<close>, as OpenAI clients send it with an assistant turn that
  only calls tools, is not empty for the code: after a user turn it becomes an assistant turn with
  the text \<^verbatim>\<open>None\<close>, and a user turn with null content asks the model \<^verbatim>\<open>None\<close>.
\<close>

theorem null_content_becomes_None:
  "normalize_chat_messages
     [PDict [(''role'', PStr ''user''), (''content'', PStr ''hi'')],
      PDict [(''role'', PStr ''assistant''), (''content'', PNone)]]
   = Inr [\<lparr>cm_role = ''user'', cm_content = ''hi''\<rparr>, \<lparr>cm_role = ''assistant'', cm_content = ''None''\<rparr>]
   \<and> normalize_chat_messages [PDict [(''role'', PStr ''user''), (''content'', PNone)]]
   = Inr [\<lparr>cm_role = ''user'', cm_content = ''None''\<rparr>]"
  by code_simp

end
