(* ===== verification/Json_Text.thy ===== *)
theory Json_Text
  imports BubbleHub_Prelude
begin

text \<open>
  \<^verbatim>\<open>json.dumps\<close>, \<^verbatim>\<open>json.loads\<close> and the UTF-8 codec, as the HTTP front end, the control API, the
  engine session and the bindings to the native library use them: \<^verbatim>\<open>json.dumps\<close> with the default
  separators, with \<^verbatim>\<open>separators=(",", ":")\<close>, with \<^verbatim>\<open>indent=2\<close> and with \<^verbatim>\<open>sort_keys=True\<close>. The text of
  a \<^verbatim>\<open>JSONDecodeError\<close> is kept without its position; a \<^verbatim>\<open>\u\<close> escape or a UTF-8 sequence of a code
  point above 255 is read as a question mark, because the strings of this development end there; a
  fraction is read as the exact rational its digits denote.
\<close>

section \<open>Writing\<close>

record dump_style =
  ds_item :: string
  ds_key :: string
  ds_indent :: "nat option"

definition default_style :: dump_style where
  "default_style = \<lparr>ds_item = '', '', ds_key = '': '', ds_indent = None\<rparr>"

definition compact_style :: dump_style where
  "compact_style = \<lparr>ds_item = '','', ds_key = '':'', ds_indent = None\<rparr>"

definition indent_style :: dump_style where
  "indent_style = \<lparr>ds_item = '','', ds_key = '': '', ds_indent = Some 2\<rparr>"

definition dump_char :: "char \<Rightarrow> string" where
  "dump_char c = (let n = code c in
     if n = 34 then [CHR 0x5C, CHR 0x22]
     else if n = 92 then [CHR 0x5C, CHR 0x5C]
     else if n = 8 then [CHR 0x5C, CHR ''b'']
     else if n = 9 then [CHR 0x5C, CHR ''t'']
     else if n = 10 then [CHR 0x5C, CHR ''n'']
     else if n = 12 then [CHR 0x5C, CHR ''f'']
     else if n = 13 then [CHR 0x5C, CHR ''r'']
     else if n < 32 \<or> 126 < n
       then [CHR 0x5C, CHR ''u'', CHR ''0'', CHR ''0'', hex_digit (n div 16), hex_digit (n mod 16)]
     else [c])"

definition dump_string :: "string \<Rightarrow> string" where
  "dump_string s = [CHR 0x22] @ concat (map dump_char s) @ [CHR 0x22]"

fun dump_float :: "pyfloat \<Rightarrow> string" where
  "dump_float (Finite _ t) = t"
| "dump_float PosInf = ''Infinity''"
| "dump_float NegInf = ''-Infinity''"
| "dump_float NotANumber = ''NaN''"

definition line_break :: "dump_style \<Rightarrow> nat \<Rightarrow> string" where
  "line_break st level = (case ds_indent st of None \<Rightarrow> []
     | Some n \<Rightarrow> ch_nl # replicate (n * level) CHR '' '')"

fun dumps_at :: "dump_style \<Rightarrow> nat \<Rightarrow> pyval \<Rightarrow> string" where
  "dumps_at st l PNone = ''null''"
| "dumps_at st l (PBool b) = (if b then ''true'' else ''false'')"
| "dumps_at st l (PInt i) = show_int i"
| "dumps_at st l (PFloat f) = dump_float f"
| "dumps_at st l (PStr s) = dump_string s"
| "dumps_at st l (PList xs) =
     (if xs = [] then ''[]''
      else ''['' @ line_break st (Suc l)
        @ join (ds_item st @ line_break st (Suc l)) (map (dumps_at st (Suc l)) xs)
        @ line_break st l @ '']'')"
| "dumps_at st l (PDict d) =
     (if d = [] then ''{}''
      else ''{'' @ line_break st (Suc l)
        @ join (ds_item st @ line_break st (Suc l))
            (map (\<lambda>kv. dump_string (fst kv) @ ds_key st @ dumps_at st (Suc l) (snd kv)) d)
        @ line_break st l @ ''}'')"

definition json_dumps :: "pyval \<Rightarrow> string" where
  "json_dumps v = dumps_at default_style 0 v"

definition json_dumps_compact :: "pyval \<Rightarrow> string" where
  "json_dumps_compact v = dumps_at compact_style 0 v"

text \<open>\<^verbatim>\<open>sort_keys=True\<close>: the items of every dict in the order of their keys.\<close>

fun sort_keys :: "pyval \<Rightarrow> pyval" where
  "sort_keys (PList xs) = PList (map sort_keys xs)"
| "sort_keys (PDict d) = PDict (sort_key fst (map (\<lambda>kv. (fst kv, sort_keys (snd kv))) d))"
| "sort_keys v = v"

definition json_dumps_sorted :: "pyval \<Rightarrow> string" where
  "json_dumps_sorted v = dumps_at default_style 0 (sort_keys v)"

definition json_dumps_indent :: "pyval \<Rightarrow> string" where
  "json_dumps_indent v = dumps_at indent_style 0 (sort_keys v)"

section \<open>Reading\<close>

definition is_json_ws :: "char \<Rightarrow> bool" where
  "is_json_ws c \<longleftrightarrow> code c \<in> set [32, 9, 10, 13]"

definition skip_ws :: "string \<Rightarrow> string" where
  "skip_ws s = dropWhile is_json_ws s"

definition hex_val :: "char \<Rightarrow> nat option" where
  "hex_val c = (let n = code c in
     if 48 \<le> n \<and> n \<le> 57 then Some (n - 48)
     else if 97 \<le> n \<and> n \<le> 102 then Some (n - 87)
     else if 65 \<le> n \<and> n \<le> 70 then Some (n - 55) else None)"

definition hex4 :: "char \<Rightarrow> char \<Rightarrow> char \<Rightarrow> char \<Rightarrow> nat option" where
  "hex4 a b c d = (case (hex_val a, hex_val b, hex_val c, hex_val d) of
     (Some w, Some x, Some y, Some z) \<Rightarrow> Some (((w * 16 + x) * 16 + y) * 16 + z) | _ \<Rightarrow> None)"

definition code_point :: "nat \<Rightarrow> char" where
  "code_point n = (if n < 256 then char_of n else CHR ''?'')"

definition unescape :: "char \<Rightarrow> char option" where
  "unescape e = map_of [(CHR 0x22, CHR 0x22), (CHR 0x5C, CHR 0x5C), (CHR ''/'', CHR ''/''),
     (CHR ''b'', CHR 0x08), (CHR ''f'', CHR 0x0C), (CHR ''n'', CHR 0x0A), (CHR ''r'', CHR 0x0D),
     (CHR ''t'', CHR 0x09)] e"

definition push_char :: "char \<Rightarrow> (string \<times> string) option \<Rightarrow> (string \<times> string) option" where
  "push_char c r = map_option (\<lambda>(s, rest). (c # s, rest)) r"

text \<open>After the opening quote: the value of the string and the text behind the closing quote.\<close>

fun parse_string :: "string \<Rightarrow> (string \<times> string) option" where
  "parse_string [] = None"
| "parse_string (c # s) =
     (if code c = 34 then Some ([], s)
      else if code c = 92 then
        (case s of
           e # t \<Rightarrow>
             if e = CHR ''u'' then
               (case t of
                  h1 # h2 # h3 # h4 # r \<Rightarrow>
                    (case hex4 h1 h2 h3 h4 of Some n \<Rightarrow> push_char (code_point n) (parse_string r)
                     | None \<Rightarrow> None)
                | _ \<Rightarrow> None)
             else (case unescape e of Some x \<Rightarrow> push_char x (parse_string t) | None \<Rightarrow> None)
         | [] \<Rightarrow> None)
      else if code c < 32 then None
      else push_char c (parse_string s))"

text \<open>A number: an optional minus, digits without a leading zero, an optional fraction and exponent.\<close>

definition digits_val :: "string \<Rightarrow> nat" where
  "digits_val ds = foldl (\<lambda>n d. 10 * n + digit_val d) 0 ds"

definition split_digits :: "string \<Rightarrow> string \<times> string" where
  "split_digits s = (takeWhile is_digit s, dropWhile is_digit s)"

definition parse_frac :: "string \<Rightarrow> string \<times> string" where
  "parse_frac s = (case s of
     c # t \<Rightarrow> if c = CHR ''.'' \<and> fst (split_digits t) \<noteq> [] then split_digits t else ([], s)
   | [] \<Rightarrow> ([], s))"

definition parse_exp :: "string \<Rightarrow> (int \<times> string) option" where
  "parse_exp s = (case s of
     c # t \<Rightarrow>
       if c \<in> set ''eE'' then
         (let sg = (case t of d # _ \<Rightarrow> d \<in> set ''+-'' | [] \<Rightarrow> False);
              (ds, r) = split_digits (if sg then tl t else t) in
          if ds = [] then None
          else Some ((if sg \<and> hd t = CHR ''-'' then - 1 else 1) * int (digits_val ds), r))
       else None
   | [] \<Rightarrow> None)"

definition pow10 :: "int \<Rightarrow> rat" where
  "pow10 e = (if 0 \<le> e then 10 ^ nat e else inverse (10 ^ nat (- e)))"

text \<open>
  From the midpoint behind the largest double on, a value rounds to infinity; a value of at most 308
  decimal digits (\<open>n\<close>) before the point is below it.
\<close>

definition double_bound :: rat where
  "double_bound = 2 ^ 1024 - 2 ^ 970"

definition mk_float :: "int \<Rightarrow> rat \<Rightarrow> string \<Rightarrow> pyfloat" where
  "mk_float n q t =
     (if n \<le> 308 then Finite q t
      else if \<bar>q\<bar> < double_bound then Finite q t
      else if 0 < q then PosInf else NegInf)"

definition parse_int_part :: "string \<Rightarrow> (string \<times> string) option" where
  "parse_int_part s = (case s of
     c # t \<Rightarrow> if c = CHR ''0'' then Some (''0'', t)
       else if is_digit c then Some (split_digits s) else None
   | [] \<Rightarrow> None)"

definition parse_number :: "string \<Rightarrow> (pyval \<times> string) option" where
  "parse_number s =
     (let neg = (s \<noteq> [] \<and> hd s = CHR ''-''); t = (if neg then tl s else s) in
      if neg \<and> startswith ''Infinity'' t then Some (PFloat NegInf, drop 8 t)
      else (case parse_int_part t of None \<Rightarrow> None
        | Some (ip, r) \<Rightarrow>
            (let (fp, r') = parse_frac r;
                 sign = (if neg then - 1 else 1 :: int) in
             case parse_exp r' of
               None \<Rightarrow>
                 if fp = [] then Some (PInt (sign * int (digits_val ip)), r')
                 else Some (PFloat (mk_float (int (length ip)) (of_int (sign * int (digits_val (ip @ fp))) * pow10 (- int (length fp)))
                   (take (length s - length r') s)), r')
             | Some (e, r'') \<Rightarrow>
                 Some (PFloat (mk_float (int (length ip) + e) (of_int (sign * int (digits_val (ip @ fp))) * pow10 (e - int (length fp)))
                   (take (length s - length r'') s)), r''))))"

definition push_item :: "'a \<Rightarrow> ('a list \<times> string) option \<Rightarrow> ('a list \<times> string) option" where
  "push_item x r = map_option (\<lambda>(xs, rest). (x # xs, rest)) r"

text \<open>A dict from its pairs: the last value of a repeated key, at the place of the first.\<close>

definition dict_of :: "(string \<times> pyval) list \<Rightarrow> pydict" where
  "dict_of kvs = fold (\<lambda>(k, v) d. dput k v d) kvs []"

text \<open>
  The scanner. Each recursive call reads a shorter text; for the elements behind a comma that is
  tested, so that the recursion is well founded as it stands.
\<close>

definition parse_literal :: "string \<Rightarrow> (pyval \<times> string) option" where
  "parse_literal s =
     (if startswith ''null'' s then Some (PNone, drop 4 s)
      else if startswith ''true'' s then Some (PBool True, drop 4 s)
      else if startswith ''false'' s then Some (PBool False, drop 5 s)
      else if startswith ''NaN'' s then Some (PFloat NotANumber, drop 3 s)
      else if startswith ''Infinity'' s then Some (PFloat PosInf, drop 8 s)
      else parse_number s)"

lemma skip_ws_length: "length (skip_ws s) \<le> length s"
  by (simp add: skip_ws_def length_dropWhile_le)

function (sequential) parse_value :: "string \<Rightarrow> (pyval \<times> string) option"
  and parse_items :: "string \<Rightarrow> (pyval list \<times> string) option"
  and parse_members :: "string \<Rightarrow> ((string \<times> pyval) list \<times> string) option" where
  "parse_value [] = None"
| "parse_value (c # s) =
     (if code c = 34 then map_option (\<lambda>(v, r). (PStr v, r)) (parse_string s)
      else if c = CHR ''['' then
        (case skip_ws s of
           [] \<Rightarrow> None
         | d # r \<Rightarrow> if d = CHR '']'' then Some (PList [], r)
             else map_option (\<lambda>(vs, r'). (PList vs, r')) (parse_items (skip_ws s)))
      else if c = CHR ''{'' then
        (case skip_ws s of
           [] \<Rightarrow> None
         | d # r \<Rightarrow> if d = CHR ''}'' then Some (PDict [], r)
             else map_option (\<lambda>(kvs, r'). (PDict (dict_of kvs), r')) (parse_members (skip_ws s)))
      else parse_literal (c # s))"
| "parse_items s =
     (case parse_value s of
        None \<Rightarrow> None
      | Some (v, r) \<Rightarrow>
          (case skip_ws r of
             [] \<Rightarrow> None
           | d # t \<Rightarrow> if d = CHR '']'' then Some ([v], t)
               else if d = CHR '','' \<and> length t < length s then push_item v (parse_items (skip_ws t))
               else None))"
| "parse_members s =
     (case s of
        [] \<Rightarrow> None
      | q # s' \<Rightarrow>
          if code q = 34 then
            (case parse_string s' of
               None \<Rightarrow> None
             | Some (k, r) \<Rightarrow>
                 (case skip_ws r of
                    [] \<Rightarrow> None
                  | d # t \<Rightarrow>
                      if d = CHR '':'' \<and> length t < length s then
                        (case parse_value (skip_ws t) of
                           None \<Rightarrow> None
                         | Some (v, r') \<Rightarrow>
                             (case skip_ws r' of
                                [] \<Rightarrow> None
                              | e # u \<Rightarrow> if e = CHR ''}'' then Some ([(k, v)], u)
                                  else if e = CHR '','' \<and> length u < length s
                                    then push_item (k, v) (parse_members (skip_ws u))
                                  else None))
                      else None))
          else None)"
  by pat_completeness auto

termination
proof (relation "measure (\<lambda>x. case x of Inl s \<Rightarrow> 2 * length s
    | Inr (Inl s) \<Rightarrow> 2 * length s + 1 | Inr (Inr s) \<Rightarrow> 2 * length s + 1)", goal_cases)
  case (2 c s d r)
  then show ?case using skip_ws_length[of s] by simp
next
  case (3 c s d r)
  then show ?case using skip_ws_length[of s] by simp
next
  case (5 s x v r d t)
  then show ?case using skip_ws_length[of t] by simp
next
  case (6 s q s' x k r d t)
  then show ?case using skip_ws_length[of t] by simp
next
  case (7 s q s' x k r d t y v r' e u)
  then show ?case using skip_ws_length[of u] by simp
qed simp_all

definition json_loads :: "string \<Rightarrow> pyval result" where
  "json_loads s = (case parse_value (skip_ws s) of
     None \<Rightarrow> Inl (JSONDecodeError ''Expecting value'')
   | Some (v, r) \<Rightarrow> if skip_ws r = [] then Inr v else Inl (JSONDecodeError ''Extra data''))"

declare parse_value.simps [simp del] parse_items.simps [simp del] parse_members.simps [simp del]

section \<open>Reading back what was written\<close>

text \<open>
  The values of the round trip: the keys of a dict are distinct (they are, in Python) and no finite
  fraction occurs, whose digits are CPython's.
\<close>

fun json_clean :: "pyval \<Rightarrow> bool" where
  "json_clean (PFloat (Finite _ _)) = False"
| "json_clean (PList xs) = list_all json_clean xs"
| "json_clean (PDict d) = (distinct (map fst d) \<and> list_all (\<lambda>kv. json_clean (snd kv)) d)"
| "json_clean _ = True"

definition style_ok :: "dump_style \<Rightarrow> bool" where
  "style_ok st \<longleftrightarrow> (\<exists>w. ds_item st = CHR '','' # w \<and> list_all is_json_ws w)
     \<and> (\<exists>w. ds_key st = CHR '':'' # w \<and> list_all is_json_ws w)"

lemma style_ok_used: "style_ok default_style" "style_ok compact_style" "style_ok indent_style"
  by (auto simp: style_ok_def default_style_def compact_style_def indent_style_def is_json_ws_def)

lemma skip_ws_append: "list_all is_json_ws w \<Longrightarrow> skip_ws (w @ s) = skip_ws s"
  by (simp add: skip_ws_def list_all_iff)

lemma skip_ws_Cons: "\<not> is_json_ws c \<Longrightarrow> skip_ws (c # s) = c # s"
  by (simp add: skip_ws_def)

lemma line_break_ws: "list_all is_json_ws (line_break st l)"
  by (auto simp: line_break_def is_json_ws_def ch_nl_def list_all_iff split: option.splits)

lemma code_of_hex_digit: "n < 10 \<Longrightarrow> code (hex_digit n) = n + 48" "10 \<le> n \<Longrightarrow> n < 16 \<Longrightarrow> code (hex_digit n) = n + 87"
  by (simp_all add: hex_digit_def)

lemma hex_val_digit: "n < 16 \<Longrightarrow> hex_val (hex_digit n) = Some n"
  by (cases "n < 10") (auto simp: hex_val_def code_of_hex_digit Let_def)

lemma hex4_byte: "n < 256 \<Longrightarrow> hex4 CHR ''0'' CHR ''0'' (hex_digit (n div 16)) (hex_digit (n mod 16)) = Some n"
proof -
  assume n: "n < 256"
  have "hex_val CHR ''0'' = Some 0" by (simp add: hex_val_def)
  moreover have "n div 16 < 16" using n by (simp add: less_mult_imp_div_less)
  ultimately show ?thesis by (simp add: hex4_def hex_val_digit)
qed

lemma code_eq_char: "code c = n \<Longrightarrow> c = char_of n"
  by (metis char_of_char)

lemma char_of_json [simp]:
  "char_of (34::nat) = CHR 0x22" "char_of (92::nat) = CHR 0x5C" "char_of (8::nat) = CHR 0x08"
  "char_of (9::nat) = CHR 0x09" "char_of (10::nat) = CHR 0x0A" "char_of (12::nat) = CHR 0x0C"
  "char_of (13::nat) = CHR 0x0D" "char_of (32::nat) = CHR '' ''"
  by code_simp+

lemma parse_dump_char: "parse_string (dump_char c @ t) = push_char c (parse_string t)"
proof -
  have b: "code c < 256" by (metis nat_of_char_less_256)
  consider "code c = 34" | "code c = 92" | "code c = 8" | "code c = 9" | "code c = 10" | "code c = 12"
    | "code c = 13" | (u) "code c \<notin> {34, 92, 8, 9, 10, 12, 13}" "code c < 32 \<or> 126 < code c"
    | (plain) "code c \<notin> {34, 92}" "32 \<le> code c" "code c \<le> 126" by force
  then show ?thesis
  proof cases
    case u
    then show ?thesis
      using hex4_byte[OF b] by (auto simp: dump_char_def Let_def code_point_def b)
  next
    case plain
    then show ?thesis by (auto simp: dump_char_def Let_def)
  qed (auto simp: dump_char_def Let_def unescape_def dest!: code_eq_char)
qed

lemma parse_dump_chars: "parse_string (concat (map dump_char s) @ CHR 0x22 # r) = Some (s, r)"
  by (induction s) (simp_all add: parse_dump_char push_char_def)

lemma parse_dump_string: "parse_value (dump_string s @ r) = Some (PStr s, r)"
  by (simp add: dump_string_def parse_value.simps parse_dump_chars)

text \<open>What may follow a value: white space, a comma or a closing bracket.\<close>

definition value_end :: "string \<Rightarrow> bool" where
  "value_end s \<longleftrightarrow> s = [] \<or> is_json_ws (hd s) \<or> hd s \<in> set '',]}''"

lemma value_end_head: "value_end (c # s) \<Longrightarrow> \<not> is_digit c \<and> c \<notin> set ''.eE''"
  by (auto simp: value_end_def is_json_ws_def is_digit_def dest!: code_eq_char)

lemma foldl_digits: "parse_digits n ds = Some m \<Longrightarrow> list_all is_digit ds \<Longrightarrow> foldl (\<lambda>n d. 10 * n + digit_val d) n ds = m"
  by (induction n ds rule: parse_digits.induct) (auto split: if_splits)

lemma digits_val_show_nat: "digits_val (show_nat n) = n"
proof -
  obtain c cs where c: "show_nat n = c # cs" by (meson neq_Nil_conv show_nat_not_Nil)
  have d: "list_all is_digit (c # cs)" using show_nat_digits[of _ n] c by (auto simp: list_all_iff)
  have "parse_nat (c # cs) = Some n" using parse_show_nat[of n] c by simp
  with d have "parse_digits (digit_val c) cs = Some n" by simp
  with d show ?thesis by (simp add: digits_val_def c foldl_digits)
qed

lemma show_nat_head: "show_nat n = c # cs \<Longrightarrow> c = CHR ''0'' \<Longrightarrow> cs = []"
proof (induction n arbitrary: cs rule: show_nat.induct)
  case (1 n)
  show ?case
  proof (cases "n < 10")
    case True
    with 1 show ?thesis by (simp add: show_nat.simps[of n])
  next
    case False
    obtain d ds where d: "show_nat (n div 10) = d # ds" by (meson neq_Nil_conv show_nat_not_Nil)
    with False 1 have "d = CHR ''0''" by (simp add: show_nat.simps[of n])
    with 1 False d have "show_nat (n div 10) = ''0''" by simp
    then have "parse_nat (show_nat (n div 10)) = parse_nat ''0''" by simp
    then have "n div 10 = 0" by (simp only: parse_show_nat) (simp add: is_digit_def digit_val_def)
    with False show ?thesis by simp
  qed
qed

lemma parse_int_part_show:
  assumes e: "value_end r" shows "parse_int_part (show_nat n @ r) = Some (show_nat n, r)"
proof -
  obtain c cs where c: "show_nat n = c # cs" by (meson neq_Nil_conv show_nat_not_Nil)
  have d: "is_digit c" "list_all is_digit cs" using show_nat_digits[of _ n] c by (auto simp: list_all_iff)
  have r: "takeWhile is_digit r = []" "dropWhile is_digit r = r"
    using e value_end_head by (cases r; fastforce)+
  show ?thesis
  proof (cases "c = CHR ''0''")
    case True
    with show_nat_head[OF c] c show ?thesis by (simp add: parse_int_part_def)
  next
    case False
    with c d r show ?thesis
      by (simp add: parse_int_part_def split_digits_def list_all_iff takeWhile_append2 dropWhile_append2)
  qed
qed

lemma parse_tail_end: "value_end r \<Longrightarrow> parse_frac r = ([], r) \<and> parse_exp r = None"
  by (cases r) (auto simp: parse_frac_def parse_exp_def dest!: value_end_head)

lemma parse_number_show: "value_end r \<Longrightarrow> parse_number (show_int i @ r) = Some (PInt i, r)"
proof -
  assume e: "value_end r"
  obtain c cs where c: "show_nat (nat i) = c # cs" by (meson neq_Nil_conv show_nat_not_Nil)
  then have "c \<noteq> CHR ''-''" using show_nat_digits[of c "nat i"] by (auto simp: is_digit_def)
  moreover have "\<not> startswith ''Infinity'' (show_nat n @ r)" for n
  proof -
    obtain c cs where c: "show_nat n = c # cs" by (meson neq_Nil_conv show_nat_not_Nil)
    then have "is_digit c" using show_nat_digits[of c n] by simp
    with c show ?thesis by (auto simp: startswith_iff is_digit_def)
  qed
  moreover have "parse_int_part (c # cs @ r) = Some (show_nat (nat i), r)"
    using parse_int_part_show[OF e, of "nat i"] c by simp
  ultimately show ?thesis
    using parse_int_part_show[OF e] parse_tail_end[OF e] digits_val_show_nat[of "nat i"] c
    by (cases "i < 0") (auto simp: parse_number_def show_int_def Let_def digits_val_show_nat)
qed

lemma show_int_head: "hd (show_int i) = CHR ''-'' \<or> is_digit (hd (show_int i))" "show_int i \<noteq> []"
  using show_nat_digits[of _ "nat i"] by (auto simp: show_int_def intro: hd_in_set)

lemma startswith_Cons: "startswith (p # ps) (c # s) \<longleftrightarrow> c = p \<and> startswith ps s"
  by (simp add: startswith_def)

lemma parse_value_int: "value_end r \<Longrightarrow> parse_value (show_int i @ r) = Some (PInt i, r)"
proof -
  assume e: "value_end r"
  obtain c cs where c: "show_int i = c # cs" by (meson neq_Nil_conv show_int_head(2))
  with show_int_head[of i] have h: "c = CHR ''-'' \<or> is_digit c" by simp
  have "c \<noteq> CHR ''n'' \<and> c \<noteq> CHR ''t'' \<and> c \<noteq> CHR ''f'' \<and> c \<noteq> CHR ''N'' \<and> c \<noteq> CHR ''I''"
    using h by (auto simp: is_digit_def)
  then have "parse_literal (c # cs @ r) = parse_number (c # cs @ r)"
    by (simp add: parse_literal_def startswith_Cons)
  with h c parse_number_show[OF e, of i] show ?thesis
    by (auto simp: parse_value.simps is_digit_def)
qed

text \<open>The first character of a written value: never white space, never a closing bracket.\<close>

definition value_start :: "string \<Rightarrow> bool" where
  "value_start s \<longleftrightarrow> s \<noteq> [] \<and> \<not> is_json_ws (hd s) \<and> hd s \<notin> set '']}''"

lemma digit_start: "is_digit c \<Longrightarrow> \<not> is_json_ws c \<and> c \<notin> set '']}''"
  by (auto simp: is_json_ws_def is_digit_def)

lemma dumps_start: "json_clean v \<Longrightarrow> value_start (dumps_at st l v @ r)"
proof (cases v)
  case (PInt i)
  then show ?thesis
    using show_int_head[of i] digit_start[of "hd (show_int i)"]
    by (auto simp: value_start_def hd_append is_json_ws_def)
next
  case (PFloat f)
  moreover assume "json_clean v"
  ultimately show ?thesis by (cases f) (auto simp: value_start_def is_json_ws_def)
qed (auto simp: value_start_def dump_string_def is_json_ws_def)

lemma skip_ws_start: "value_start s \<Longrightarrow> skip_ws s = s"
  by (cases s) (auto simp: value_start_def skip_ws_Cons)

lemma value_end_simps [simp]:
  "value_end (CHR '','' # r)" "value_end (CHR '']'' # r)" "value_end (CHR ''}'' # r)" "value_end []"
  by (simp_all add: value_end_def)

lemma value_end_break:
  assumes "value_end r" shows "value_end (line_break st l @ r)"
proof (cases "line_break st l")
  case (Cons c cs)
  then show ?thesis using line_break_ws[of st l] by (simp add: value_end_def)
qed (simp add: assms)

lemma not_ws [simp]:
  "\<not> is_json_ws CHR '','' " "\<not> is_json_ws CHR '':''" "\<not> is_json_ws CHR '']''" "\<not> is_json_ws CHR ''}''"
  "\<not> is_json_ws CHR ''{''" "\<not> is_json_ws CHR ''[''" "\<not> is_json_ws CHR 0x22"
  by (simp_all add: is_json_ws_def)

lemma parse_items_written:
  assumes "xs \<noteq> []" and sep: "sep = CHR '','' # w" "list_all is_json_ws w"
    and wr: "\<And>x r. x \<in> set xs \<Longrightarrow> value_end r \<Longrightarrow> parse_value (f x @ r) = Some (x, r)"
    and st: "\<And>x r. x \<in> set xs \<Longrightarrow> value_start (f x @ r)"
  shows "parse_items (join sep (map f xs) @ line_break sty l @ CHR '']'' # r) = Some (xs, r)"
  using assms(1) wr st
proof (induction xs rule: list_nonempty_induct)
  case (single x)
  have "parse_value (f x @ line_break sty l @ CHR '']'' # r) = Some (x, line_break sty l @ CHR '']'' # r)"
    using single.prems by (simp add: value_end_break)
  then show ?case
    by (subst parse_items.simps) (simp add: skip_ws_append line_break_ws skip_ws_Cons)
next
  case (cons x xs)
  let ?rest = "join sep (map f xs) @ line_break sty l @ CHR '']'' # r"
  have v: "parse_value (f x @ CHR '','' # w @ ?rest) = Some (x, CHR '','' # w @ ?rest)"
    using cons.prems by simp
  obtain y ys where xs: "xs = y # ys" using cons.hyps by (cases xs) auto
  then have j: "join sep (map f xs) = f y @ (if ys = [] then [] else sep @ join sep (map f ys))"
    by (cases ys) simp_all
  have "value_start ?rest"
    using cons.prems(2)[of y] by (simp add: j) (simp add: xs)
  then have s: "skip_ws (w @ ?rest) = ?rest" using sep(2) by (simp add: skip_ws_append skip_ws_start)
  have "parse_items ?rest = Some (xs, r)" using cons by simp
  with v s show ?case
    using cons.hyps by (subst parse_items.simps) (simp add: join_Cons sep(1) skip_ws_Cons push_item_def)
qed

lemma parse_members_written:
  assumes "d \<noteq> []" and sep: "sep = CHR '','' # w" "list_all is_json_ws w"
    and ks: "ks = CHR '':'' # w'" "list_all is_json_ws w'"
    and wr: "\<And>kv r. kv \<in> set d \<Longrightarrow> value_end r \<Longrightarrow> parse_value (f (snd kv) @ r) = Some (snd kv, r)"
    and st: "\<And>kv r. kv \<in> set d \<Longrightarrow> value_start (f (snd kv) @ r)"
  shows "parse_members (join sep (map (\<lambda>kv. dump_string (fst kv) @ ks @ f (snd kv)) d)
      @ line_break sty l @ CHR ''}'' # r) = Some (d, r)"
  using assms(1) wr st
proof (induction d rule: list_nonempty_induct)
  case (single kv)
  let ?r = "line_break sty l @ CHR ''}'' # r"
  have v: "parse_value (f (snd kv) @ ?r) = Some (snd kv, ?r)"
    using single.prems by (simp add: value_end_break)
  have s: "skip_ws (w' @ f (snd kv) @ ?r) = f (snd kv) @ ?r"
    using single.prems ks(2) by (simp add: skip_ws_append skip_ws_start)
  show ?case
    using v s ks(1)
    by (subst parse_members.simps)
      (simp add: dump_string_def parse_dump_chars skip_ws_Cons skip_ws_append line_break_ws)
next
  case (cons kv d)
  let ?g = "\<lambda>kv. dump_string (fst kv) @ ks @ f (snd kv)"
  let ?rest = "join sep (map ?g d) @ line_break sty l @ CHR ''}'' # r"
  let ?r = "CHR '','' # w @ ?rest"
  have v: "parse_value (f (snd kv) @ ?r) = Some (snd kv, ?r)" using cons.prems by simp
  have s: "skip_ws (w' @ f (snd kv) @ ?r) = f (snd kv) @ ?r"
    using cons.prems ks(2) by (simp add: skip_ws_append skip_ws_start)
  obtain y ys where d: "d = y # ys" using cons.hyps by (cases d) auto
  then have "join sep (map ?g d) = ?g y @ (if ys = [] then [] else sep @ join sep (map ?g ys))"
    by (cases ys) simp_all
  then have "value_start ?rest" by (simp add: dump_string_def value_start_def)
  then have s': "skip_ws (w @ ?rest) = ?rest" using sep(2) by (simp add: skip_ws_append skip_ws_start)
  have m: "parse_members ?rest = Some (d, r)" using cons by simp
  have eq: "join sep (map ?g (kv # d)) @ line_break sty l @ CHR ''}'' # r
     = CHR 0x22 # concat (map dump_char (fst kv)) @ CHR 0x22 # ks @ f (snd kv) @ ?r"
    using cons.hyps by (simp add: join_Cons sep(1) dump_string_def)
  show ?case
    unfolding eq using v s s' m ks(1)
    by (subst parse_members.simps) (simp add: parse_dump_chars skip_ws_Cons push_item_def)
qed

lemma dict_of_distinct: "distinct (map fst d) \<Longrightarrow> dict_of d = d"
proof -
  have "distinct (map fst (acc @ d)) \<Longrightarrow> fold (\<lambda>(k, v) d. dput k v d) d acc = acc @ d" for acc
  proof (induction d arbitrary: acc)
    case (Cons kv d)
    obtain k v where kv: "kv = (k, v)" by fastforce
    have "k \<notin> set (map fst acc) \<Longrightarrow> dput k v acc = acc @ [(k, v)]"
      by (induction acc) (auto simp: dput_def)
    with Cons kv show ?case by auto
  qed simp
  then show "distinct (map fst d) \<Longrightarrow> dict_of d = d" by (simp add: dict_of_def)
qed

lemma parse_written:
  assumes st: "style_ok st"
  shows "json_clean v \<Longrightarrow> value_end r \<Longrightarrow> parse_value (dumps_at st l v @ r) = Some (v, r)"
proof (induction v arbitrary: l r)
  case PNone
  then show ?case by (simp add: parse_value.simps parse_literal_def startswith_def)
next
  case (PBool b)
  then show ?case by (simp add: parse_value.simps parse_literal_def startswith_def)
next
  case (PInt i)
  then show ?case by (simp add: parse_value_int)
next
  case (PFloat f)
  then show ?case
    by (cases f) (auto simp: parse_value.simps parse_literal_def startswith_def parse_number_def)
next
  case (PStr s)
  then show ?case by (simp add: parse_dump_string)
next
  case (PList xs)
  obtain w where w: "ds_item st = CHR '','' # w" "list_all is_json_ws w" using st by (auto simp: style_ok_def)
  show ?case
  proof (cases "xs = []")
    case True
    then show ?thesis by (simp add: parse_value.simps skip_ws_Cons)
  next
    case False
    let ?sep = "ds_item st @ line_break st (Suc l)"
    let ?t = "join ?sep (map (dumps_at st (Suc l)) xs) @ line_break st l @ CHR '']'' # r"
    have items: "parse_items ?t = Some (xs, r)"
      using False w PList line_break_ws[of st "Suc l"]
      by (intro parse_items_written[where w = "w @ line_break st (Suc l)"])
        (auto simp: list_all_iff intro: dumps_start)
    obtain y ys where xs: "xs = y # ys" using False by (cases xs) auto
    have "value_start (dumps_at st (Suc l) y @ u)" for u using PList.prems xs by (auto intro: dumps_start)
    then have "value_start ?t" using xs by (cases ys) simp_all
    then have sk: "skip_ws (line_break st (Suc l) @ ?t) = ?t" and h: "?t \<noteq> []" "hd ?t \<noteq> CHR '']''"
      by (auto simp: skip_ws_append line_break_ws skip_ws_start value_start_def)
    then obtain c u where cu: "?t = c # u" "c \<noteq> CHR '']''" by (cases ?t) auto
    have "parse_value (CHR ''['' # line_break st (Suc l) @ ?t) = Some (PList xs, r)"
      using items sk cu by (simp add: parse_value.simps)
    with False show ?thesis by simp
  qed
next
  case (PDict d)
  obtain w w' where w: "ds_item st = CHR '','' # w" "list_all is_json_ws w"
      "ds_key st = CHR '':'' # w'" "list_all is_json_ws w'"
    using st by (auto simp: style_ok_def)
  show ?case
  proof (cases "d = []")
    case True
    then show ?thesis by (simp add: parse_value.simps skip_ws_Cons)
  next
    case False
    let ?sep = "ds_item st @ line_break st (Suc l)"
    let ?g = "\<lambda>kv. dump_string (fst kv) @ ds_key st @ dumps_at st (Suc l) (snd kv)"
    let ?t = "join ?sep (map ?g d) @ line_break st l @ CHR ''}'' # r"
    have clean: "json_clean (snd kv)" if "kv \<in> set d" for kv using that PDict.prems by (auto simp: list_all_iff)
    have mem: "snd kv \<in> Basic_BNFs.snds kv" for kv :: "string \<times> pyval" by (cases kv) auto
    have members: "parse_members ?t = Some (d, r)"
      using False w clean line_break_ws[of st "Suc l"] PDict.IH[OF _ mem]
      by (intro parse_members_written[where w = "w @ line_break st (Suc l)" and w' = w'])
        (auto simp: list_all_iff intro: dumps_start)
    obtain y ys where d: "d = y # ys" using False by (cases d) auto
    have "value_start ?t" using d by (cases ys) (simp_all add: dump_string_def value_start_def)
    then have sk: "skip_ws (line_break st (Suc l) @ ?t) = ?t" and h: "?t \<noteq> []" "hd ?t \<noteq> CHR ''}''"
      by (auto simp: skip_ws_append line_break_ws skip_ws_start value_start_def)
    then obtain c u where cu: "?t = c # u" "c \<noteq> CHR ''}''" by (cases ?t) auto
    have "parse_value (CHR ''{'' # line_break st (Suc l) @ ?t) = Some (PDict d, r)"
      using members sk cu PDict.prems by (simp add: parse_value.simps dict_of_distinct)
    with False show ?thesis by simp
  qed
qed

lemma loads_dumps_at:
  assumes "style_ok st" "json_clean v"
  shows "json_loads (dumps_at st l v) = Inr v"
proof -
  have "parse_value (dumps_at st l v) = Some (v, [])"
    using parse_written[OF assms, of "[]" l] by simp
  moreover have "skip_ws (dumps_at st l v) = dumps_at st l v"
    using dumps_start[OF assms(2), of st l "[]"] by (simp add: skip_ws_start)
  ultimately show ?thesis by (simp add: json_loads_def skip_ws_def)
qed

lemma json_loads_dumps: "json_clean v \<Longrightarrow> json_loads (json_dumps v) = Inr v"
  unfolding json_dumps_def by (intro loads_dumps_at style_ok_used)

lemma json_loads_compact: "json_clean v \<Longrightarrow> json_loads (json_dumps_compact v) = Inr v"
  unfolding json_dumps_compact_def by (intro loads_dumps_at style_ok_used)

lemma json_loads_error: "json_loads s = Inl e \<Longrightarrow> is_value_error e"
  by (auto simp: json_loads_def split: option.splits if_splits)

section \<open>The shape of the written text\<close>

text \<open>
  \<^verbatim>\<open>ensure_ascii\<close>: the text of a value whose fractions are written in printable characters is
  printable ASCII throughout, hence one line, and its own UTF-8 encoding.
\<close>

definition printable :: "char \<Rightarrow> bool" where
  "printable c \<longleftrightarrow> 32 \<le> code c \<and> code c \<le> 126"

fun floats_printable :: "pyval \<Rightarrow> bool" where
  "floats_printable (PFloat (Finite _ t)) = list_all printable t"
| "floats_printable (PList xs) = list_all floats_printable xs"
| "floats_printable (PDict d) = list_all (\<lambda>kv. floats_printable (snd kv)) d"
| "floats_printable _ = True"

lemma dump_char_printable: "list_all printable (dump_char c)"
proof -
  have "code c < 256" by (metis nat_of_char_less_256)
  then have "code c div 16 < 16" "code c mod 16 < 16" by (simp_all add: less_mult_imp_div_less)
  then have "printable (hex_digit (code c div 16))" "printable (hex_digit (code c mod 16))"
    by (auto simp: printable_def hex_digit_def)
  then show ?thesis by (auto simp: dump_char_def Let_def printable_def)
qed

lemma dump_string_printable: "list_all printable (dump_string s)"
  using dump_char_printable by (auto simp: dump_string_def list_all_iff printable_def)

lemma join_all: "list_all p sep \<Longrightarrow> list_all (list_all p) xs \<Longrightarrow> list_all p (join sep xs)"
  by (induction sep xs rule: join.induct) auto

lemma digit_printable: "is_digit c \<Longrightarrow> printable c"
  by (simp add: is_digit_def printable_def)

lemma show_int_printable: "list_all printable (show_int i)"
proof -
  have "list_all printable (show_nat n)" for n
    using show_nat_digits[of _ n] digit_printable by (auto simp: list_all_iff)
  moreover have "printable CHR ''-''" by (simp add: printable_def)
  ultimately show ?thesis by (simp add: show_int_def)
qed

lemma printable_brackets [simp]:
  "printable CHR ''[''" "printable CHR '']''" "printable CHR ''{''" "printable CHR ''}''"
  by (simp_all add: printable_def)

lemma dumps_at_printable:
  assumes "list_all printable (ds_item st)" "list_all printable (ds_key st)" "ds_indent st = None"
  shows "floats_printable v \<Longrightarrow> list_all printable (dumps_at st l v)"
proof (induction v arbitrary: l)
  case (PFloat f)
  have "list_all printable ''Infinity''" "list_all printable ''-Infinity''" "list_all printable ''NaN''"
    by (simp_all add: printable_def)
  with PFloat show ?case by (cases f) auto
next
  case (PList xs)
  then have "list_all (list_all printable) (map (dumps_at st (Suc l)) xs)" by (auto simp: list_all_iff)
  with assms show ?case by (auto simp: line_break_def intro!: join_all)
next
  case (PDict d)
  have mem: "snd kv \<in> Basic_BNFs.snds kv" for kv :: "string \<times> pyval" by (cases kv) auto
  have "list_all printable (dumps_at st (Suc l) (snd kv))" if "kv \<in> set d" for kv
    using PDict.IH[OF that mem] PDict.prems that by (simp add: list_all_iff)
  then have "list_all (list_all printable)
      (map (\<lambda>kv. dump_string (fst kv) @ ds_key st @ dumps_at st (Suc l) (snd kv)) d)"
    using assms dump_string_printable by (auto simp: list_all_iff)
  with assms show ?case by (auto simp: line_break_def intro!: join_all)
qed (auto simp: show_int_printable dump_string_printable, simp_all add: printable_def)

lemma json_dumps_printable: "floats_printable v \<Longrightarrow> list_all printable (json_dumps v)"
  unfolding json_dumps_def by (rule dumps_at_printable) (auto simp: default_style_def printable_def)

lemma printable_no_newline: "list_all printable s \<Longrightarrow> ch_nl \<notin> set s"
  by (auto simp: list_all_iff printable_def ch_nl_def)

section \<open>UTF-8\<close>

text \<open>
  \<^verbatim>\<open>s.encode("utf-8")\<close> and \<^verbatim>\<open>raw.decode("utf-8")\<close>; byte strings are lists of \<^typ>\<open>char\<close> too. Decoding
  accepts exactly the well-formed sequences of the Unicode standard (no overlong forms, no
  surrogates).
\<close>

definition encode_char :: "char \<Rightarrow> string" where
  "encode_char c = (let n = code c in
     if n < 128 then [c] else [char_of (192 + n div 64), char_of (128 + n mod 64)])"

definition utf8_encode :: "string \<Rightarrow> string" where
  "utf8_encode s = concat (map encode_char s)"

definition tail_byte :: "char \<Rightarrow> bool" where
  "tail_byte c \<longleftrightarrow> 128 \<le> code c \<and> code c < 192"

fun utf8_decode :: "string \<Rightarrow> string option" where
  "utf8_decode [] = Some []"
| "utf8_decode (c # s) =
     (let n = code c in
      if n < 128 then map_option ((#) c) (utf8_decode s)
      else if 194 \<le> n \<and> n < 224 then
        (case s of
           d # t \<Rightarrow> if tail_byte d then
             map_option ((#) (code_point ((n - 192) * 64 + (code d - 128)))) (utf8_decode t) else None
         | [] \<Rightarrow> None)
      else if 224 \<le> n \<and> n < 240 then
        (case s of
           d # e # t \<Rightarrow>
             if tail_byte d \<and> tail_byte e \<and> (n = 224 \<longrightarrow> 160 \<le> code d) \<and> (n = 237 \<longrightarrow> code d < 160)
             then map_option ((#) CHR ''?'') (utf8_decode t) else None
         | _ \<Rightarrow> None)
      else if 240 \<le> n \<and> n < 245 then
        (case s of
           d # e # f # t \<Rightarrow>
             if tail_byte d \<and> tail_byte e \<and> tail_byte f \<and> (n = 240 \<longrightarrow> 144 \<le> code d) \<and> (n = 244 \<longrightarrow> code d < 144)
             then map_option ((#) CHR ''?'') (utf8_decode t) else None
         | _ \<Rightarrow> None)
      else None)"

definition decode_utf8 :: "string \<Rightarrow> string result" where
  "decode_utf8 raw = (case utf8_decode raw of Some s \<Rightarrow> Inr s
     | None \<Rightarrow> Inl (UnicodeDecodeError ''invalid utf-8''))"

lemma decode_encode_char: "utf8_decode (encode_char c @ s) = map_option ((#) c) (utf8_decode s)"
proof (cases "code c < 128")
  case False
  have b: "code c < 256" by (metis nat_of_char_less_256)
  define q r where "q = code c div 64" and "r = code c mod 64"
  have n: "code c = q * 64 + r" "r < 64" by (simp_all add: q_def r_def)
  with False b have q: "2 \<le> q" "q < 4" by simp_all
  have bytes: "code (char_of (192 + q)) = 192 + q" "code (char_of (128 + r)) = 128 + r" using q n by simp_all
  have "code_point (q * 64 + r) = c" using b n(1)[symmetric] by (simp add: code_point_def)
  then show ?thesis
    using False q n bytes by (simp add: encode_char_def Let_def tail_byte_def q_def[symmetric] r_def[symmetric])
qed (simp add: encode_char_def Let_def)

lemma decode_encode [simp]: "utf8_decode (utf8_encode s) = Some s"
  by (induction s) (simp_all add: utf8_encode_def decode_encode_char)

lemma decode_utf8_encode [simp]: "decode_utf8 (utf8_encode s) = Inr s"
  by (simp add: decode_utf8_def)

lemma utf8_encode_printable: "list_all printable s \<Longrightarrow> utf8_encode s = s"
  by (induction s) (auto simp: utf8_encode_def encode_char_def printable_def)

lemma decode_utf8_error: "decode_utf8 raw = Inl e \<Longrightarrow> is_value_error e"
  by (auto simp: decode_utf8_def split: option.splits)

section \<open>Fractions from texts and values\<close>

text \<open>
  \<^verbatim>\<open>float(value)\<close>: white space around, a sign, the words for infinity and for not-a-number in any
  case, digits with single underscores between them, a fraction, an exponent. The exact decimal
  value is kept (no rounding to 53 bits), with the digits as its text; an integer beyond the range
  of a double raises \<^verbatim>\<open>OverflowError\<close>.
\<close>

fun digit_run :: "string \<Rightarrow> string \<times> string" where
  "digit_run (c # d # s) =
     (if is_digit c then
        (if d = CHR ''_'' \<and> s \<noteq> [] \<and> is_digit (hd s) then (let (ds, r) = digit_run s in (c # ds, r))
         else (let (ds, r) = digit_run (d # s) in (c # ds, r)))
      else ([], c # d # s))"
| "digit_run [c] = (if is_digit c then ([c], []) else ([], [c]))"
| "digit_run [] = ([], [])"

definition float_exp :: "string \<Rightarrow> int option" where
  "float_exp s = (case s of
     [] \<Rightarrow> Some 0
   | c # t \<Rightarrow>
       if c \<in> set ''eE'' then
         (let sg = (case t of d # _ \<Rightarrow> d \<in> set ''+-'' | [] \<Rightarrow> False);
              (ds, r) = digit_run (if sg then tl t else t) in
          if ds = [] \<or> r \<noteq> [] then None
          else Some ((if sg \<and> hd t = CHR ''-'' then - 1 else 1) * int (digits_val ds)))
       else None)"

definition float_mantissa :: "string \<Rightarrow> (string \<times> string \<times> string) option" where
  "float_mantissa s =
     (let (ip, r) = digit_run s;
          (fp, r') = (case r of c # t \<Rightarrow> if c = CHR ''.'' then digit_run t else ([], r) | [] \<Rightarrow> ([], r)) in
      if ip = [] \<and> fp = [] then None else Some (ip, fp, r'))"

definition parse_float :: "string \<Rightarrow> pyfloat option" where
  "parse_float text =
     (let s = strip text;
          neg = (s \<noteq> [] \<and> hd s = CHR ''-'');
          t = (if s \<noteq> [] \<and> hd s \<in> set ''+-'' then tl s else s) in
      if lower t \<in> set [''inf'', ''infinity''] then Some (if neg then NegInf else PosInf)
      else if lower t = ''nan'' then Some NotANumber
      else (case float_mantissa t of None \<Rightarrow> None
        | Some (ip, fp, r) \<Rightarrow> (case float_exp r of None \<Rightarrow> None
          | Some e \<Rightarrow> Some (mk_float (int (length ip) + e) (of_int ((if neg then - 1 else 1) * int (digits_val (ip @ fp)))
              * pow10 (e - int (length fp))) s))))"

fun py_float :: "pyval \<Rightarrow> pyfloat result" where
  "py_float (PBool b) = Inr (if b then Finite 1 ''1.0'' else Finite 0 ''0.0'')"
| "py_float (PInt i) = (if length (show_int i) \<le> 308 then Inr (Finite (of_int i) (show_int i @ ''.0''))
     else if \<bar>of_int i\<bar> < double_bound then Inr (Finite (of_int i) (show_int i @ ''.0''))
     else Inl (OverflowError ''int too large to convert to float''))"
| "py_float (PFloat f) = Inr f"
| "py_float (PStr s) = (case parse_float s of Some f \<Rightarrow> Inr f
     | None \<Rightarrow> Inl (ValueError (''could not convert string to float: '' @ repr_str s)))"
| "py_float _ = Inl (TypeError ''float() argument must be a string or a real number'')"

fun float_positive :: "pyfloat \<Rightarrow> bool" where
  "float_positive (Finite q _) = (0 < q)"
| "float_positive PosInf = True"
| "float_positive _ = False"

text \<open>\<^verbatim>\<open>int(f)\<close> of a float.\<close>

definition float_int :: "pyfloat \<Rightarrow> int result" where
  "float_int f = py_int (PFloat f)"

end
