(* ===== verification/Native_Scheduler.thy ===== *)
theory Native_Scheduler
  imports Json_Text
begin

text \<open>
  The bindings to the native scheduler (\<^verbatim>\<open>NativeScheduler\<close> in \<^verbatim>\<open>bubblehub/native.py\<close>) and the client
  over them (\<^verbatim>\<open>SchedulerClient\<close> in \<^verbatim>\<open>bubblehub/node/client.py\<close>). The shared library is written in C:
  it is a parameter, \<open>lib\<close>, whose answers may depend on the whole history of calls; a history is the
  list of the calls made so far with the answers they got, the frees of returned strings included.
\<close>

section \<open>The library and the history of its calls\<close>

record access_request =
  ar_kind :: string
  ar_subject :: string
  ar_method :: string
  ar_path :: string

datatype native_call =
    ConfigureLimits pyfloat pyfloat
  | AdmitModelJob string string int pyfloat pyfloat
  | RegisterAgent string int string int "string option"
  | DeregisterAgent string
  | MarkModelLoaded string string string pyfloat pyfloat int int
  | MarkModelUnloaded string
  | EvictModel string
  | AddQueueItem string string string string int string
  | SnapshotJson
  | InferenceChatJson string
  | AccessPendingJson
  | AccessManifestJson string
  | AccessApplyPolicy string access_request string

datatype free_function = SchedulerFree | AccessFree

datatype native_event =
    StatusReply native_call int
  | TextReply native_call "string option"
  | FreeString free_function

type_synonym history = "native_event list"

record native_lib =
  nl_status :: "history \<Rightarrow> native_call \<Rightarrow> int"
  nl_text :: "history \<Rightarrow> native_call \<Rightarrow> string option"
  nl_admission :: "history \<Rightarrow> native_call \<Rightarrow> int \<times> string \<times> string"

type_synonym 'a native = "(history, 'a) prog"

text \<open>The two shapes of a call: a result code, or a string that is freed on every way out.\<close>

definition status_call :: "native_lib \<Rightarrow> native_call \<Rightarrow> string \<Rightarrow> unit native" where
  "status_call lib c message h =
     (let n = nl_status lib h c in
      (if n \<noteq> 0 then Inl (LibBubbleError message) else Inr (), h @ [StatusReply c n]))"

definition text_call ::
  "native_lib \<Rightarrow> native_call \<Rightarrow> free_function \<Rightarrow> string \<Rightarrow> (pyval \<Rightarrow> 'a result) \<Rightarrow> 'a native" where
  "text_call lib c free null_message check h =
     (let p = nl_text lib h c; h' = h @ [TextReply c p] in
      case p of
        None \<Rightarrow> (Inl (LibBubbleError null_message), h')
      | Some bytes \<Rightarrow>
          (bindr (decode_utf8 bytes) (\<lambda>raw. bindr (json_loads raw) check), h' @ [FreeString free]))"

section \<open>The scheduler's operations\<close>

record admission =
  ad_allowed :: bool
  ad_state :: string
  ad_reason :: string

abbreviation bytes :: "string \<Rightarrow> string" where "bytes \<equiv> utf8_encode"

definition admit_model_job ::
  "native_lib \<Rightarrow> string \<Rightarrow> string \<Rightarrow> int \<Rightarrow> pyfloat \<Rightarrow> pyfloat \<Rightarrow> admission native" where
  "admit_model_job lib specialty model_name niceness ram_gb vram_gb h =
     (let c = AdmitModelJob (bytes specialty) (bytes model_name) niceness ram_gb vram_gb;
          (allowed, state, reason) = nl_admission lib h c in
      bindn (status_call lib c ''native scheduler admission failed'') (\<lambda>_.
        liftn (bindr (decode_utf8 state) (\<lambda>st. bindr (decode_utf8 reason) (\<lambda>re.
          Inr \<lparr>ad_allowed = (allowed \<noteq> 0), ad_state = st, ad_reason = re\<rparr>)))) h)"

text \<open>\<^verbatim>\<open>float(limit or 0)\<close>: an absent limit is 0.\<close>

definition limit_or_zero :: "pyfloat option \<Rightarrow> pyfloat" where
  "limit_or_zero x = (case x of None \<Rightarrow> Finite 0 ''0.0''
     | Some f \<Rightarrow> if truthy (PFloat f) then f else Finite 0 ''0.0'')"

definition configure_limits :: "native_lib \<Rightarrow> pyfloat option \<Rightarrow> pyfloat option \<Rightarrow> unit native" where
  "configure_limits lib ram vram = status_call lib (ConfigureLimits (limit_or_zero ram) (limit_or_zero vram))
     ''native scheduler failed to configure resource limits''"

definition register_agent :: "native_lib \<Rightarrow> string \<Rightarrow> int \<Rightarrow> string \<Rightarrow> int \<Rightarrow> string option \<Rightarrow> unit native" where
  "register_agent lib agent_id pid binary niceness specialty =
     status_call lib (RegisterAgent (bytes agent_id) pid (bytes binary) niceness (map_option bytes specialty))
       ''native scheduler failed to register agent''"

definition deregister_agent :: "native_lib \<Rightarrow> string \<Rightarrow> unit native" where
  "deregister_agent lib agent_id = status_call lib (DeregisterAgent (bytes agent_id))
     ''native scheduler failed to deregister agent''"

definition mark_model_loaded ::
  "native_lib \<Rightarrow> string \<Rightarrow> string \<Rightarrow> string \<Rightarrow> pyfloat \<Rightarrow> pyfloat \<Rightarrow> int \<Rightarrow> int \<Rightarrow> unit native" where
  "mark_model_loaded lib name specialty backend ram_gb vram_gb pid port =
     status_call lib (MarkModelLoaded (bytes name) (bytes specialty) (bytes backend) ram_gb vram_gb pid port)
       ''native scheduler failed to mark model loaded''"

definition mark_model_unloaded :: "native_lib \<Rightarrow> string \<Rightarrow> unit native" where
  "mark_model_unloaded lib name = status_call lib (MarkModelUnloaded (bytes name))
     ''native scheduler failed to mark model unloaded''"

definition evict_model :: "native_lib \<Rightarrow> string \<Rightarrow> unit native" where
  "evict_model lib name = status_call lib (EvictModel (bytes name))
     ''native scheduler failed to evict model''"

definition add_queue_item ::
  "native_lib \<Rightarrow> string \<Rightarrow> string \<Rightarrow> string \<Rightarrow> string \<Rightarrow> int \<Rightarrow> string \<Rightarrow> unit native" where
  "add_queue_item lib job_id kind specialty model_name niceness reason =
     status_call lib (AddQueueItem (bytes job_id) (bytes kind) (bytes specialty) (bytes model_name)
       niceness (bytes reason)) ''native scheduler failed to add queue item''"

fun expect_dict :: "string \<Rightarrow> pyval \<Rightarrow> pydict result" where
  "expect_dict message (PDict d) = Inr d"
| "expect_dict message _ = Inl (LibBubbleError message)"

definition snapshot :: "native_lib \<Rightarrow> pydict native" where
  "snapshot lib = text_call lib SnapshotJson SchedulerFree ''native scheduler failed to build snapshot''
     (expect_dict ''native scheduler returned a non-object snapshot'')"

definition chat_reply :: "pyval \<Rightarrow> pydict result" where
  "chat_reply v = bindr (expect_dict ''native inference returned a non-object response'' v) (\<lambda>data.
     case map_of data ''error'' of Some err \<Rightarrow> Inl (LibBubbleError (py_str err)) | None \<Rightarrow> Inr data)"

definition inference_chat :: "native_lib \<Rightarrow> pydict \<Rightarrow> pydict native" where
  "inference_chat lib request = text_call lib (InferenceChatJson (bytes (json_dumps (PDict request))))
     SchedulerFree ''native inference failed to build response'' chat_reply"

fun pending_reply :: "pyval \<Rightarrow> pydict list result" where
  "pending_reply (PList xs) = Inr (concat (map (\<lambda>x. case x of PDict d \<Rightarrow> [d] | _ \<Rightarrow> []) xs))"
| "pending_reply _ = Inl (LibBubbleError ''native access policy returned a non-list pending response'')"

definition access_pending :: "native_lib \<Rightarrow> pydict list native" where
  "access_pending lib = text_call lib AccessPendingJson AccessFree
     ''native access policy failed to list pending requests'' pending_reply"

definition access_manifest :: "native_lib \<Rightarrow> string \<Rightarrow> pydict native" where
  "access_manifest lib agent_id = text_call lib (AccessManifestJson (bytes agent_id)) AccessFree
     ''native access policy failed to read manifest''
     (expect_dict ''native access policy returned a non-object manifest'')"

text \<open>
  A \<^verbatim>\<open>ctypes.c_char * n\<close> field of \<^verbatim>\<open>AccessRequest\<close> takes at most \<open>n\<close> bytes; more raise \<^verbatim>\<open>ValueError\<close>.
  The fields are set in the order of the structure.
\<close>

definition c_char_field :: "nat \<Rightarrow> string \<Rightarrow> string result" where
  "c_char_field n s = (let b = bytes s in
     if length b \<le> n then Inr b
     else Inl (ValueError (''bytes too long ('' @ show_nat (length b) @ '', maximum length ''
       @ show_nat n @ '')'')))"

definition access_request_of :: "string \<Rightarrow> string \<Rightarrow> string \<Rightarrow> string \<Rightarrow> access_request result" where
  "access_request_of kind subject method path =
     bindr (c_char_field 32 kind) (\<lambda>k. bindr (c_char_field 256 subject) (\<lambda>s.
     bindr (c_char_field 64 method) (\<lambda>m. bindr (c_char_field 512 path) (\<lambda>p.
       Inr \<lparr>ar_kind = k, ar_subject = s, ar_method = m, ar_path = p\<rparr>))))"

definition apply_access_policy ::
  "native_lib \<Rightarrow> string \<Rightarrow> string \<Rightarrow> string \<Rightarrow> string \<Rightarrow> string \<Rightarrow> string \<Rightarrow> unit native" where
  "apply_access_policy lib agent_id kind subject method path policy =
     bindn (liftn (access_request_of kind subject method path)) (\<lambda>request.
       status_call lib (AccessApplyPolicy (bytes agent_id) request (bytes policy))
         ''native access policy failed to apply policy'')"

section \<open>The scheduler client\<close>

text \<open>
  \<^verbatim>\<open>_configured_limits\<close>: the scheduler section of the parsed model configurations (the file
  of the user and the one of the environment variable, when they exist). \<^verbatim>\<open>{**data, **override}\<close>
  is \<open>dict_merge\<close>.
\<close>

definition dict_merge :: "pydict \<Rightarrow> pydict \<Rightarrow> pydict" where
  "dict_merge base ov = fold (\<lambda>(k, v) d. dput k v d) ov base"

fun merge_override :: "pyval \<Rightarrow> pyval option \<Rightarrow> pyval" where
  "merge_override (PDict d) (Some (PDict ov)) = PDict (dict_merge d ov)"
| "merge_override data _ = data"

definition optional_float :: "pyval \<Rightarrow> pyfloat option result" where
  "optional_float v =
     (if v = PNone then Inr None
      else (case py_float v of
         Inl e \<Rightarrow> if is_type_or_value_error e then Inr None else Inl e
       | Inr f \<Rightarrow> Inr (if float_positive f then Some f else None)))"

definition configured_limits ::
  "pyval \<Rightarrow> pyval option \<Rightarrow> pyval option \<Rightarrow> (pyfloat option \<times> pyfloat option) result" where
  "configured_limits bundled home_override explicit =
     (case merge_override (merge_override bundled home_override) explicit of
        PDict data \<Rightarrow>
          (case dget_or data ''scheduler'' (PDict []) of
             PDict scheduler \<Rightarrow>
               bindr (optional_float (dget scheduler ''ram_limit_gb'')) (\<lambda>ram.
               bindr (optional_float (dget scheduler ''vram_limit_gb'')) (\<lambda>vram. Inr (ram, vram)))
           | _ \<Rightarrow> Inr (None, None))
      | _ \<Rightarrow> Inr (None, None))"

definition scheduler_client :: "native_lib \<Rightarrow> (pyfloat option \<times> pyfloat option) result \<Rightarrow> unit native" where
  "scheduler_client lib limits = bindn (liftn limits) (\<lambda>(ram, vram). configure_limits lib ram vram)"

text \<open>\<^verbatim>\<open>SchedulerClient.register_agent\<close>: \<open>hex\<close> is the text of a fresh \<^verbatim>\<open>uuid4\<close>, \<open>own_pid\<close> is \<^verbatim>\<open>os.getpid()\<close>.\<close>

definition client_agent_id :: "string option \<Rightarrow> string \<Rightarrow> string" where
  "client_agent_id agent_id hex =
     (case agent_id of Some (c # cs) \<Rightarrow> c # cs | _ \<Rightarrow> ''agt-'' @ take 10 hex)"

definition client_register_agent ::
  "native_lib \<Rightarrow> string \<Rightarrow> int \<Rightarrow> string \<Rightarrow> int \<Rightarrow> string option \<Rightarrow> int option \<Rightarrow> string option \<Rightarrow> string native" where
  "client_register_agent lib hex own_pid binary niceness specialty pid agent_id =
     (let aid = client_agent_id agent_id hex;
          p = (case pid of None \<Rightarrow> own_pid | Some n \<Rightarrow> if n = 0 then own_pid else n) in
      bindn (register_agent lib aid p binary niceness specialty) (\<lambda>_. returnn aid))"

definition queue_snapshot :: "native_lib \<Rightarrow> pyval list native" where
  "queue_snapshot lib = bindn (snapshot lib) (\<lambda>data.
     returnn (case dget_or data ''queue'' (PList []) of PList q \<Rightarrow> q | _ \<Rightarrow> []))"

definition status_of :: "pydict \<Rightarrow> pydict" where
  "status_of data =
     [(''hardware'', dget_or data ''hardware'' (PDict [])),
      (''limits'', dget_or data ''limits'' (PDict [])),
      (''memory_pressure'', dget_or data ''memory_pressure'' (PStr ''available'')),
      (''agents'', dget_or data ''agents'' (PList [])),
      (''models'', dget_or data ''models'' (PList [])),
      (''queue'', dget_or data ''queue'' (PList []))]"

definition status_snapshot :: "native_lib \<Rightarrow> pydict native" where
  "status_snapshot lib = bindn (snapshot lib) (\<lambda>data. returnn (status_of data))"

definition resource_limits :: "native_lib \<Rightarrow> pydict native" where
  "resource_limits lib = bindn (snapshot lib) (\<lambda>data.
     returnn (case dget_or data ''limits'' (PDict []) of PDict l \<Rightarrow> l | _ \<Rightarrow> []))"

section \<open>Every string is freed once\<close>

fun free_of :: "native_call \<Rightarrow> free_function" where
  "free_of AccessPendingJson = AccessFree"
| "free_of (AccessManifestJson _) = AccessFree"
| "free_of _ = SchedulerFree"

text \<open>A string the library returned is freed right after, by the function that belongs to it; nothing else is.\<close>

fun freed_once :: "history \<Rightarrow> bool" where
  "freed_once [] = True"
| "freed_once (TextReply c (Some s) # h) = (case h of FreeString f # h' \<Rightarrow> f = free_of c \<and> freed_once h' | _ \<Rightarrow> False)"
| "freed_once (FreeString f # h) = False"
| "freed_once (_ # h) = freed_once h"

lemma freed_once_append: "freed_once h \<Longrightarrow> freed_once (h @ d) \<longleftrightarrow> freed_once d"
  by (induction h rule: freed_once.induct) (auto split: list.splits native_event.splits)

text \<open>The contract of an operation on the library: it adds calls to the history and frees what it got.\<close>

locale native_operation =
  fixes op :: "'a native"
  assumes op_freed: "\<exists>d. snd (op h) = h @ d \<and> freed_once d"
begin

lemma op_keeps: "freed_once h \<Longrightarrow> freed_once (snd (op h))"
  using op_freed[of h] freed_once_append by auto

lemma op_extends: "\<exists>d. snd (op h) = h @ d"
  using op_freed by blast

end

lemma status_call_freed: "\<exists>d. snd (status_call lib c m h) = h @ d \<and> freed_once d"
  by (rule exI[of _ "[StatusReply c (nl_status lib h c)]"]) (simp add: status_call_def Let_def)

lemma text_call_freed:
  assumes "f = free_of c"
  shows "\<exists>d. snd (text_call lib c f m check h) = h @ d \<and> freed_once d"
proof (cases "nl_text lib h c")
  case None
  then show ?thesis by (intro exI[of _ "[TextReply c None]"]) (simp add: text_call_def)
next
  case (Some s)
  then show ?thesis
    using assms by (intro exI[of _ "[TextReply c (Some s), FreeString f]"]) (simp add: text_call_def)
qed

lemma bindn_freed:
  assumes m: "\<And>h. \<exists>d. snd (m h) = h @ d \<and> freed_once d"
    and f: "\<And>x h. \<exists>d. snd (f x h) = h @ d \<and> freed_once d"
  shows "\<exists>d. snd (bindn m f h) = h @ d \<and> freed_once d"
proof -
  obtain r d where d: "m h = (r, h @ d)" "freed_once d" using m[of h] by (cases "m h") auto
  show ?thesis
  proof (cases r)
    case (Inl e)
    with d show ?thesis by (simp add: bindn_def)
  next
    case (Inr x)
    obtain d' where "snd (f x (h @ d)) = (h @ d) @ d'" "freed_once d'" using f by blast
    with d Inr freed_once_append[OF d(2)] show ?thesis
      by (intro exI[of _ "d @ d'"]) (simp add: bindn_def)
  qed
qed

lemma pure_freed: "\<exists>d. snd (returnn x h) = h @ d \<and> freed_once d" "\<exists>d. snd (liftn r h) = h @ d \<and> freed_once d"
  by (rule exI[of _ "[]"], simp add: returnn_def liftn_def)+

lemmas freed_rules = status_call_freed text_call_freed bindn_freed pure_freed

interpretation admit_op: native_operation "admit_model_job lib specialty model_name niceness ram vram"
  for lib specialty model_name niceness ram vram
  by unfold_locales (auto simp: admit_model_job_def Let_def split: prod.splits intro!: freed_rules)

interpretation chat_op: native_operation "inference_chat lib request" for lib request
  by unfold_locales (auto simp: inference_chat_def intro!: freed_rules)

interpretation snapshot_op: native_operation "snapshot lib" for lib
  by unfold_locales (auto simp: snapshot_def intro!: freed_rules)

interpretation pending_op: native_operation "access_pending lib" for lib
  by unfold_locales (auto simp: access_pending_def intro!: freed_rules)

interpretation manifest_op: native_operation "access_manifest lib agent_id" for lib agent_id
  by unfold_locales (auto simp: access_manifest_def intro!: freed_rules)

interpretation policy_op: native_operation "apply_access_policy lib agent_id kind subject verb target policy"
  for lib agent_id kind subject verb target policy
  by unfold_locales (auto simp: apply_access_policy_def intro!: freed_rules)

text \<open>All operations of a client as data, run one after the other; an exception does not stop the next.\<close>

datatype client_op =
    OpLimits "pyfloat option" "pyfloat option"
  | OpAdmit string string int pyfloat pyfloat
  | OpRegister string string int "string option" "int option" "string option"
  | OpDeregister string
  | OpLoaded string string string pyfloat pyfloat int int
  | OpUnloaded string
  | OpEvict string
  | OpQueue string string string string int string
  | OpStatus
  | OpQueueSnapshot
  | OpResourceLimits
  | OpChat pydict
  | OpPending
  | OpManifest string
  | OpPolicy string string string string string string

fun run_op :: "native_lib \<Rightarrow> int \<Rightarrow> client_op \<Rightarrow> history \<Rightarrow> history" where
  "run_op lib pid (OpLimits r v) h = snd (configure_limits lib r v h)"
| "run_op lib pid (OpAdmit s m n r v) h = snd (admit_model_job lib s m n r v h)"
| "run_op lib pid (OpRegister hex b n s p a) h = snd (client_register_agent lib hex pid b n s p a h)"
| "run_op lib pid (OpDeregister a) h = snd (deregister_agent lib a h)"
| "run_op lib pid (OpLoaded n s b r v p q) h = snd (mark_model_loaded lib n s b r v p q h)"
| "run_op lib pid (OpUnloaded n) h = snd (mark_model_unloaded lib n h)"
| "run_op lib pid (OpEvict n) h = snd (evict_model lib n h)"
| "run_op lib pid (OpQueue j k s m n r) h = snd (add_queue_item lib j k s m n r h)"
| "run_op lib pid OpStatus h = snd (status_snapshot lib h)"
| "run_op lib pid OpQueueSnapshot h = snd (queue_snapshot lib h)"
| "run_op lib pid OpResourceLimits h = snd (resource_limits lib h)"
| "run_op lib pid (OpChat r) h = snd (inference_chat lib r h)"
| "run_op lib pid OpPending h = snd (access_pending lib h)"
| "run_op lib pid (OpManifest a) h = snd (access_manifest lib a h)"
| "run_op lib pid (OpPolicy a k s m p q) h = snd (apply_access_policy lib a k s m p q h)"

lemma run_op_freed: "\<exists>d. run_op lib pid c h = h @ d \<and> freed_once d"
  by (cases c)
    (auto simp: configure_limits_def deregister_agent_def mark_model_loaded_def mark_model_unloaded_def
      evict_model_def add_queue_item_def client_register_agent_def register_agent_def status_snapshot_def
      queue_snapshot_def resource_limits_def Let_def
      intro!: freed_rules admit_op.op_freed chat_op.op_freed snapshot_op.op_freed pending_op.op_freed
        manifest_op.op_freed policy_op.op_freed)

section \<open>Properties\<close>

text \<open>
  C21. No string of the library leaks and none is freed twice: after any sequence of client
  operations, whatever the library answered, each returned string was freed right after it was read,
  by the function that belongs to it, also when its text was not UTF-8, not JSON or an error.
\<close>

theorem native_strings_freed:
  "freed_once (fold (run_op lib pid) ops [])"
proof -
  have "freed_once h \<Longrightarrow> freed_once (fold (run_op lib pid) ops h)" for h
  proof (induction ops arbitrary: h)
    case (Cons c ops)
    obtain d where "run_op lib pid c h = h @ d" "freed_once d" using run_op_freed by blast
    with Cons show ?case by (simp add: freed_once_append)
  qed simp
  then show ?thesis by simp
qed

text \<open>
  A policy reaches the library exactly when its four fields fit the C structure; otherwise the call
  is a \<^verbatim>\<open>ValueError\<close> and the library is not called at all.
\<close>

theorem apply_access_policy_fields:
  "if length (bytes kind) \<le> 32 \<and> length (bytes subject) \<le> 256 \<and> length (bytes method) \<le> 64
      \<and> length (bytes path) \<le> 512
   then apply_access_policy lib a kind subject method path policy h =
     status_call lib (AccessApplyPolicy (bytes a)
       \<lparr>ar_kind = bytes kind, ar_subject = bytes subject, ar_method = bytes method, ar_path = bytes path\<rparr>
       (bytes policy)) ''native access policy failed to apply policy'' h
   else \<exists>m. apply_access_policy lib a kind subject method path policy h = (Inl (ValueError m), h)"
  by (auto simp: apply_access_policy_def access_request_of_def c_char_field_def Let_def native_simps)

text \<open>
  The identifier the client makes up for a new agent, from the 32 hexadecimal digits of a
  \<^verbatim>\<open>uuid4\<close>, is one that every other part of the program accepts.
\<close>

theorem client_agent_id_valid:
  assumes "length hex = 32" "list_all is_alnum_ascii hex"
  shows "is_valid_agent_id (client_agent_id None hex) \<and> length (client_agent_id None hex) = 14"
  using assms in_set_takeD[of _ 10 hex]
  by (auto simp: client_agent_id_def is_valid_agent_id_def list_all_iff is_id_char_def startswith_def)

lemma client_agent_id_valid_witness:
  "is_valid_agent_id (client_agent_id None (replicate 16 CHR ''a'' @ replicate 16 CHR ''7''))"
proof -
  have "list_all is_alnum_ascii (replicate 16 CHR ''a'' @ replicate 16 CHR ''7'')"
    by (simp add: list_all_iff is_alnum_ascii_def)
  with client_agent_id_valid[of "replicate 16 CHR ''a'' @ replicate 16 CHR ''7''"] show ?thesis by simp
qed

text \<open>
  The limits that are configured are positive or absent: a text that is no number, not-a-number,
  zero and negative values all mean no limit, and the library then gets 0.
\<close>

theorem configured_limits_positive:
  assumes "configured_limits bundled home explicit = Inr (ram, vram)"
  shows "(case ram of None \<Rightarrow> limit_or_zero ram = Finite 0 ''0.0'' | Some r \<Rightarrow> float_positive r)
     \<and> (case vram of None \<Rightarrow> limit_or_zero vram = Finite 0 ''0.0'' | Some v \<Rightarrow> float_positive v)"
proof -
  have o: "optional_float v = Inr (Some f) \<Longrightarrow> float_positive f" for v f
    by (auto simp: optional_float_def split: if_splits sum.splits)
  have "(case ram of None \<Rightarrow> True | Some r \<Rightarrow> float_positive r) \<and> (case vram of None \<Rightarrow> True | Some v \<Rightarrow> float_positive v)"
    using assms o unfolding configured_limits_def
    by (auto simp: bindr_eq_Inr split: pyval.splits option.splits)
  then show ?thesis by (auto simp: limit_or_zero_def split: option.splits)
qed

lemma configured_limits_positive_witness:
  "configured_limits (PDict [(''scheduler'', PDict [(''ram_limit_gb'', PInt 4), (''vram_limit_gb'', PStr ''x'')])]) None None
     = Inr (Some (Finite 4 ''4.0''), None) \<and> float_positive (Finite 4 ''4.0'')"
proof -
  have c: "configured_limits (PDict [(''scheduler'', PDict [(''ram_limit_gb'', PInt 4), (''vram_limit_gb'', PStr ''x'')])]) None None
     = Inr (Some (Finite 4 ''4.0''), None)" by code_simp
  with configured_limits_positive[OF c] show ?thesis by simp
qed

end
