(* ===== verification/Native_Hardware.thy ===== *)
theory Native_Hardware
  imports Json_Text
begin

text \<open>
  Hardware detection and sandbox detection of \<^verbatim>\<open>bubblehub/native.py\<close> and the GPU installer's choice
  of a backend in \<^verbatim>\<open>bubblehub/gpu_setup.py\<close>. The machine is a parameter: the programs on the search
  path, what running them prints, the byte counters of the native library, the environment.
\<close>

section \<open>Profiles\<close>

record gpu_profile =
  gp_vram_bytes :: int
  gp_free_vram_bytes :: int
  gp_vendor :: string
  gp_name :: string
  gp_backend :: string
  gp_backends :: "string list"
  gp_compute :: string
  gp_device :: string

record hardware_info =
  hw_ram_bytes :: int
  hw_vram_bytes :: int
  hw_free_vram_bytes :: int
  hw_gpu_vendor :: string
  hw_gpu_name :: string
  hw_gpu_backend :: string
  hw_gpu_backends :: "string list"
  hw_gpu_compute :: string
  hw_gpu_device :: string

definition supports_backend :: "hardware_info \<Rightarrow> string \<Rightarrow> bool" where
  "supports_backend hw b \<longleftrightarrow> b \<in> set (hw_gpu_backends hw)"

definition mk_gpu_profile ::
  "int \<Rightarrow> int \<Rightarrow> string \<Rightarrow> string \<Rightarrow> string \<Rightarrow> string list \<Rightarrow> string \<Rightarrow> string \<Rightarrow> gpu_profile" where
  "mk_gpu_profile vram free vendor name backend backends compute device =
     \<lparr>gp_vram_bytes = max 0 vram, gp_free_vram_bytes = max 0 free, gp_vendor = vendor, gp_name = name,
      gp_backend = backend, gp_backends = backends, gp_compute = compute, gp_device = device\<rparr>"

section \<open>The machine\<close>

text \<open>
  \<open>hs_run\<close> is \<open>None\<close> when the command cannot be started or times out; otherwise its exit status and
  its standard output. \<open>hs_free_vram\<close> is \<open>None\<close> when the library lacks the symbol.
\<close>

record host =
  hs_which :: "string \<Rightarrow> string option"
  hs_run :: "string list \<Rightarrow> (int \<times> string) option"
  hs_env :: env
  hs_ram :: int
  hs_vram :: int
  hs_free_vram :: "int option"

definition run_text :: "host \<Rightarrow> string list \<Rightarrow> string" where
  "run_text h command = (case hs_run h command of None \<Rightarrow> []
     | Some (returncode, stdout) \<Rightarrow> if returncode = 0 then stdout else [])"

definition env_int :: "env \<Rightarrow> string \<Rightarrow> int option" where
  "env_int e name = (case e name of None \<Rightarrow> None | Some v \<Rightarrow> parse_int v)"

definition split_env_list :: "string option \<Rightarrow> string list" where
  "split_env_list v = (case v of None \<Rightarrow> []
     | Some s \<Rightarrow> [strip item. item \<leftarrow> split_on CHR '','' (map (\<lambda>c. if c = CHR '';'' then CHR '','' else c) s),
                  strip item \<noteq> []])"

definition supports_vllm_compute :: "string \<Rightarrow> bool" where
  "supports_vllm_compute v = (case parse_int (before_char CHR ''.'' v) of None \<Rightarrow> False | Some major \<Rightarrow> 8 \<le> major)"

definition parse_float_or_zero :: "string \<Rightarrow> pyfloat" where
  "parse_float_or_zero s = (case parse_float s of None \<Rightarrow> Finite 0 ''0.0'' | Some f \<Rightarrow> f)"

text \<open>\<^verbatim>\<open>int(mib * 1024**2)\<close>\<close>

fun mib_bytes :: "pyfloat \<Rightarrow> int result" where
  "mib_bytes (Finite q t) = Inr (trunc_rat (q * 1048576))"
| "mib_bytes f = py_int (PFloat f)"

section \<open>Detection\<close>

definition int_or :: "int option \<Rightarrow> int \<Rightarrow> int" where
  "int_or x d = (case x of None \<Rightarrow> d | Some n \<Rightarrow> if n = 0 then d else n)"

text \<open>The backend list with the configured backend put first, and the backend when none is configured.\<close>

definition env_backends :: "string option \<Rightarrow> string list \<Rightarrow> string list" where
  "env_backends backend backends =
     (case backend of None \<Rightarrow> backends
      | Some b \<Rightarrow> if b \<noteq> [] \<and> b \<noteq> ''cpu'' \<and> b \<notin> set backends then b # backends else backends)"

definition env_backend :: "string option \<Rightarrow> string list \<Rightarrow> string" where
  "env_backend backend backends =
     (case backend of Some b \<Rightarrow> b | None \<Rightarrow> (case backends of [] \<Rightarrow> ''cpu'' | b # _ \<Rightarrow> b))"

definition env_vendor :: "string option \<Rightarrow> string list \<Rightarrow> string" where
  "env_vendor vendor backends =
     (case vendor of Some (c # cs) \<Rightarrow> c # cs | _ \<Rightarrow> if backends \<noteq> [] then ''generic'' else ''none'')"

definition gpu_profile_from_env :: "env \<Rightarrow> gpu_profile option" where
  "gpu_profile_from_env e =
     (let backends = split_env_list (e ''BUBBLEHUB_GPU_BACKENDS'');
          vendor = e ''BUBBLEHUB_GPU_VENDOR'';
          backend = e ''BUBBLEHUB_GPU_BACKEND'';
          name = env_get e ''BUBBLEHUB_GPU_NAME'' '''';
          compute = env_get e ''BUBBLEHUB_GPU_COMPUTE_CAPABILITY'' '''';
          device = env_get e ''BUBBLEHUB_GPU_DEVICE'' '''';
          vram = env_int e ''BUBBLEHUB_GPU_VRAM_BYTES'';
          free = env_int e ''BUBBLEHUB_GPU_FREE_VRAM_BYTES'' in
      if vendor = None \<and> backend = None \<and> backends = [] \<and> vram = None \<and> free = None then None
      else
        (let backends = env_backends backend backends;
             backend = env_backend backend backends in
         Some (mk_gpu_profile (int_or vram 0) (int_or free (int_or vram 0))
           (env_vendor vendor backends) name backend backends compute device)))"

definition nvidia_candidate :: "nat \<Rightarrow> string \<Rightarrow> gpu_profile option result" where
  "nvidia_candidate index line =
     (let parts = map strip (split_on CHR '','' line) in
      if length parts < 4 then Inr None
      else
        (let compute = parts ! 3;
             backends = (if supports_vllm_compute compute then [''vllm'', ''cuda-llama''] else [''cuda-llama'']) in
         bindr (mib_bytes (parse_float_or_zero (parts ! 1))) (\<lambda>vram.
         bindr (mib_bytes (parse_float_or_zero (parts ! 2))) (\<lambda>free.
           Inr (Some (mk_gpu_profile vram free ''nvidia'' (parts ! 0) (hd backends) backends compute
             (show_nat index)))))))"

definition better_gpu :: "gpu_profile option \<Rightarrow> gpu_profile option \<Rightarrow> gpu_profile option" where
  "better_gpu best candidate =
     (case candidate of None \<Rightarrow> best
      | Some c \<Rightarrow> (case best of None \<Rightarrow> Some c
          | Some b \<Rightarrow> if gp_free_vram_bytes b < gp_free_vram_bytes c then Some c else Some b))"

fun best_nvidia :: "(nat \<times> string) list \<Rightarrow> gpu_profile option \<Rightarrow> gpu_profile option result" where
  "best_nvidia [] best = Inr best"
| "best_nvidia ((index, line) # rest) best =
     bindr (nvidia_candidate index line) (\<lambda>c. best_nvidia rest (better_gpu best c))"

definition detect_nvidia_gpu :: "host \<Rightarrow> gpu_profile option result" where
  "detect_nvidia_gpu h =
     (if hs_which h ''nvidia-smi'' = None then Inr None
      else
        (let output = run_text h [''nvidia-smi'', ''--query-gpu=name,memory.total,memory.free,compute_cap'',
               ''--format=csv,noheader,nounits''] in
         if output = [] then Inr None
         else best_nvidia (enumerate 0 (splitlines output)) None))"

text \<open>\<^verbatim>\<open>line.split(c, 1)[-1]\<close>: the text after the first \<^verbatim>\<open>c\<close>, or the line.\<close>

definition after_or_all :: "char \<Rightarrow> string \<Rightarrow> string" where
  "after_or_all c s = (if has_char c s then after_char c s else s)"

definition first_value :: "(string \<Rightarrow> bool) \<Rightarrow> char \<Rightarrow> string list \<Rightarrow> string" where
  "first_value p c ls = (case filter p ls of [] \<Rightarrow> [] | l # _ \<Rightarrow> strip (after_or_all c l))"

definition detect_amd_gpu :: "host \<Rightarrow> int \<Rightarrow> int \<Rightarrow> gpu_profile option" where
  "detect_amd_gpu h vram free =
     (if hs_which h ''rocm-smi'' = None \<and> hs_which h ''rocminfo'' = None then None
      else
        (let output = (case hs_which h ''rocm-smi'' of
               Some (c # cs) \<Rightarrow> run_text h [''rocm-smi'', ''--showproductname''] | _ \<Rightarrow> []);
             name = first_value (\<lambda>l. contains ''Card series'' l \<or> contains ''Card model'' l) CHR '':'' (splitlines output) in
         Some (mk_gpu_profile vram (int_or (Some free) vram) ''amd'' name ''rocm-llama'' [''rocm-llama''] '''' '''')))"

definition detect_intel_gpu :: "host \<Rightarrow> int \<Rightarrow> int \<Rightarrow> gpu_profile option" where
  "detect_intel_gpu h vram free =
     (if hs_which h ''sycl-ls'' = None then None
      else if \<not> contains ''gpu'' (lower (run_text h [''sycl-ls''])) then None
      else Some (mk_gpu_profile vram (int_or (Some free) vram) ''intel'' ''SYCL GPU'' ''sycl-llama''
        [''sycl-llama''] '''' ''''))"

definition detect_vulkan_gpu :: "host \<Rightarrow> int \<Rightarrow> int \<Rightarrow> gpu_profile option" where
  "detect_vulkan_gpu h vram free =
     (if hs_which h ''vulkaninfo'' = None then None
      else
        (let output = run_text h [''vulkaninfo'', ''--summary''] in
         if \<not> contains ''deviceName'' output then None
         else Some (mk_gpu_profile vram (int_or (Some free) vram) ''vulkan''
           (first_value (contains ''deviceName'') CHR ''='' (splitlines output)) ''vulkan-llama''
           [''vulkan-llama''] '''' '''')))"

definition detect_gpu_profile :: "host \<Rightarrow> int \<Rightarrow> int \<Rightarrow> gpu_profile result" where
  "detect_gpu_profile h vram free =
     (case gpu_profile_from_env (hs_env h) of
        Some p \<Rightarrow> Inr p
      | None \<Rightarrow> bindr (detect_nvidia_gpu h) (\<lambda>nvidia.
          Inr (case nvidia of Some p \<Rightarrow> p
            | None \<Rightarrow> (case detect_amd_gpu h vram free of Some p \<Rightarrow> p
            | None \<Rightarrow> (case detect_intel_gpu h vram free of Some p \<Rightarrow> p
            | None \<Rightarrow> (case detect_vulkan_gpu h vram free of Some p \<Rightarrow> p
            | None \<Rightarrow> mk_gpu_profile vram free ''none'' '''' ''cpu'' [] '''' ''''))))))"

definition detect_hardware :: "host \<Rightarrow> hardware_info result" where
  "detect_hardware h =
     (let free = (case hs_free_vram h of None \<Rightarrow> 0 | Some n \<Rightarrow> n) in
      bindr (detect_gpu_profile h (hs_vram h) free) (\<lambda>p.
        Inr \<lparr>hw_ram_bytes = hs_ram h, hw_vram_bytes = gp_vram_bytes p,
          hw_free_vram_bytes = gp_free_vram_bytes p, hw_gpu_vendor = gp_vendor p,
          hw_gpu_name = gp_name p, hw_gpu_backend = gp_backend p, hw_gpu_backends = gp_backends p,
          hw_gpu_compute = gp_compute p, hw_gpu_device = gp_device p\<rparr>))"

section \<open>Inside the sandbox\<close>

text \<open>\<open>uid_map\<close> is the outcome of reading \<^verbatim>\<open>/proc/self/uid_map\<close>.\<close>

definition has_sandbox_agent_uid :: "int \<Rightarrow> bool" where
  "has_sandbox_agent_uid euid \<longleftrightarrow> 60000 \<le> euid \<and> euid < 64000"

definition remapped_line :: "string \<Rightarrow> bool" where
  "remapped_line line =
     (case map parse_int (split_ws line) of
        [Some inside, Some outside, Some n] \<Rightarrow> outside \<noteq> inside \<and> n = 1
      | _ \<Rightarrow> False)"

definition has_sandbox_user_namespace :: "int \<Rightarrow> string result \<Rightarrow> bool result" where
  "has_sandbox_user_namespace euid uid_map =
     (case uid_map of
        Inl (PermissionError _) \<Rightarrow> Inr (euid = 0)
      | Inl e \<Rightarrow> if is_os_error e then Inr False else Inl e
      | Inr text \<Rightarrow> Inr (list_ex remapped_line (splitlines text)))"

definition is_sandboxed :: "int \<Rightarrow> string result \<Rightarrow> env \<Rightarrow> bool result" where
  "is_sandboxed euid uid_map e =
     (if has_sandbox_agent_uid euid then Inr True
      else bindr (has_sandbox_user_namespace euid uid_map) (\<lambda>ns.
        Inr (ns \<or> e ''BUBBLEHUB_SANDBOX'' = Some ''1'')))"

section \<open>The GPU installer\<close>

record install_profile =
  ip_backend :: string
  ip_install_vllm :: bool
  ip_supported :: bool
  ip_reason :: string
  ip_hardware :: hardware_info

definition llama_gpu_backends :: "string list" where
  "llama_gpu_backends = [''cuda-llama'', ''rocm-llama'', ''vulkan-llama'', ''sycl-llama'']"

definition gpu_modes :: "string list" where
  "gpu_modes = [''auto'', ''cpu'', ''vllm''] @ llama_gpu_backends"

definition mk_install_profile :: "hardware_info \<Rightarrow> string \<Rightarrow> bool \<Rightarrow> bool \<Rightarrow> string \<Rightarrow> install_profile" where
  "mk_install_profile hw backend vllm supported reason =
     \<lparr>ip_backend = backend, ip_install_vllm = vllm, ip_supported = supported, ip_reason = reason,
      ip_hardware = hw\<rparr>"

definition normalize_mode :: "string \<Rightarrow> string" where
  "normalize_mode mode = (let m = lower (strip mode) in if m = [] then ''auto'' else m)"

definition choose_install_profile :: "hardware_info \<Rightarrow> string \<Rightarrow> install_profile" where
  "choose_install_profile hw mode =
     (let normalized = normalize_mode mode in
      if normalized \<notin> set gpu_modes then
        mk_install_profile hw ''cpu'' False False (''unsupported BUBBLEHUB_GPU mode '' @ squote mode)
      else if normalized = ''cpu'' then
        mk_install_profile hw ''cpu'' False True ''CPU mode forced by BUBBLEHUB_GPU=cpu''
      else if normalized = ''vllm'' then
        mk_install_profile hw ''vllm'' True (supports_backend hw ''vllm'') ''vLLM forced by BUBBLEHUB_GPU=vllm''
      else if normalized \<in> set llama_gpu_backends then
        mk_install_profile hw normalized False (supports_backend hw normalized)
          (normalized @ '' forced by BUBBLEHUB_GPU='' @ normalized)
      else if supports_backend hw ''vllm'' then
        mk_install_profile hw ''vllm'' True True ''vLLM selected automatically''
      else (case filter (supports_backend hw) llama_gpu_backends of
          b # _ \<Rightarrow> mk_install_profile hw b False True (b @ '' selected automatically'')
        | [] \<Rightarrow> mk_install_profile hw ''cpu'' False True ''No supported GPU backend detected''))"

text \<open>
  \<^verbatim>\<open>main\<close> after its arguments are parsed: the exit status and the \<^verbatim>\<open>pip install\<close> targets that were
  run; \<open>pip\<close> gives the exit status of an installation.
\<close>

record gpu_args =
  ga_mode :: string
  ga_wheel :: "string option"
  ga_no_install :: bool

definition install_vllm_extra :: "(string \<Rightarrow> int) \<Rightarrow> string \<Rightarrow> int \<times> string list" where
  "install_vllm_extra pip wheel = (let target = wheel @ ''[vllm]'' in (pip target, [target]))"

definition gpu_setup_main :: "(string \<Rightarrow> int) \<Rightarrow> gpu_args \<Rightarrow> hardware_info result \<Rightarrow> (int \<times> string list) result" where
  "gpu_setup_main pip args hardware = bindr hardware (\<lambda>hw.
     let profile = choose_install_profile hw (ga_mode args) in
     if \<not> ip_supported profile then
       (if ga_mode args = ''auto'' then Inr (0, []) else Inr (1, []))
     else if ip_install_vllm profile \<and> \<not> ga_no_install args then
       (case ga_wheel args of
          Some (c # cs) \<Rightarrow>
            (let (status, pips) = install_vllm_extra pip (c # cs) in
             if status \<noteq> 0 \<and> ga_mode args = ''auto'' then Inr (0, pips) else Inr (status, pips))
        | _ \<Rightarrow> Inr (1, []))
     else Inr (0, []))"

section \<open>Coherent profiles\<close>

text \<open>
  What the model selection relies on: byte counts that are not negative, and a backend that is one
  of the listed ones, the CPU, or the empty text of an environment override.
\<close>

definition coherent_profile :: "gpu_profile \<Rightarrow> bool" where
  "coherent_profile p \<longleftrightarrow> 0 \<le> gp_vram_bytes p \<and> 0 \<le> gp_free_vram_bytes p
     \<and> (gp_backend p \<in> set (gp_backends p) \<or> gp_backend p \<in> {''cpu'', ''''})"

lemma coherent_mk:
  "coherent_profile (mk_gpu_profile v f vendor name b bs c d) \<longleftrightarrow> b \<in> set bs \<or> b \<in> {''cpu'', ''''}"
  by (simp add: coherent_profile_def mk_gpu_profile_def)

lemma if_None_Some: "(if c then None else Some x) = Some p \<longleftrightarrow> \<not> c \<and> x = p"
  by simp

lemma env_backend_listed:
  "env_backend b (env_backends b bs) \<in> set (env_backends b bs) \<or> env_backend b (env_backends b bs) \<in> {''cpu'', ''''}"
  by (auto simp: env_backend_def env_backends_def split: option.splits list.splits)

lemma coherent_env: "gpu_profile_from_env e = Some p \<Longrightarrow> coherent_profile p"
  unfolding gpu_profile_from_env_def Let_def
  by (simp only: if_None_Some, elim conjE, hypsubst, unfold coherent_mk, rule env_backend_listed)

lemma coherent_nvidia_candidate: "nvidia_candidate i line = Inr (Some p) \<Longrightarrow> coherent_profile p"
  by (auto simp: nvidia_candidate_def Let_def coherent_mk bindr_eq_Inr split: if_splits)

lemma coherent_better:
  "(\<And>p. best = Some p \<Longrightarrow> coherent_profile p) \<Longrightarrow> (\<And>p. c = Some p \<Longrightarrow> coherent_profile p) \<Longrightarrow>
     better_gpu best c = Some p \<Longrightarrow> coherent_profile p"
  by (auto simp: better_gpu_def split: option.splits if_splits)

lemma coherent_best_nvidia:
  "best_nvidia ls best = Inr (Some p) \<Longrightarrow> (\<And>q. best = Some q \<Longrightarrow> coherent_profile q) \<Longrightarrow> coherent_profile p"
proof (induction ls best rule: best_nvidia.induct)
  case (2 index line rest best)
  then obtain c where c: "nvidia_candidate index line = Inr c" "best_nvidia rest (better_gpu best c) = Inr (Some p)"
    by (auto simp: bindr_eq_Inr)
  have "coherent_profile q" if "better_gpu best c = Some q" for q
    using coherent_better[OF _ _ that] 2(3) coherent_nvidia_candidate c(1) by blast
  with 2(1)[OF c(2)] show ?case by blast
qed simp

lemma coherent_nvidia: "detect_nvidia_gpu h = Inr (Some p) \<Longrightarrow> coherent_profile p"
  using coherent_best_nvidia[of _ None p] by (auto simp: detect_nvidia_gpu_def Let_def split: if_splits)

lemma coherent_others:
  "detect_amd_gpu h v f = Some p \<Longrightarrow> coherent_profile p"
  "detect_intel_gpu h v f = Some p \<Longrightarrow> coherent_profile p"
  "detect_vulkan_gpu h v f = Some p \<Longrightarrow> coherent_profile p"
  by (auto simp: detect_amd_gpu_def detect_intel_gpu_def detect_vulkan_gpu_def Let_def coherent_mk
      split: if_splits)

lemma coherent_detected: "detect_gpu_profile h v f = Inr p \<Longrightarrow> coherent_profile p"
proof (cases "gpu_profile_from_env (hs_env h)")
  case (Some q)
  moreover assume "detect_gpu_profile h v f = Inr p"
  ultimately show ?thesis using coherent_env by (auto simp: detect_gpu_profile_def)
next
  case None
  moreover assume "detect_gpu_profile h v f = Inr p"
  ultimately show ?thesis
    using coherent_nvidia coherent_others coherent_mk
    by (auto simp: detect_gpu_profile_def bindr_eq_Inr split: option.splits)
qed

section \<open>The best of a list of candidates\<close>

text \<open>
  A scan that keeps the first of the best: \<open>score\<close> is compared strictly, so an earlier candidate
  wins a tie. \<open>best_of\<close> is the contract; \<^const>\<open>better_gpu\<close> implements one step of it.
\<close>

definition best_of :: "('a \<Rightarrow> int) \<Rightarrow> 'a list \<Rightarrow> 'a option \<Rightarrow> bool" where
  "best_of score xs r \<longleftrightarrow> (case r of
     None \<Rightarrow> xs = []
   | Some b \<Rightarrow> \<exists>pre post. xs = pre @ b # post \<and> (\<forall>x \<in> set pre. score x < score b)
       \<and> (\<forall>x \<in> set post. score x \<le> score b))"

locale keep_best =
  fixes score :: "'a \<Rightarrow> int" and step :: "'a option \<Rightarrow> 'a \<Rightarrow> 'a option"
  assumes step_first: "step None c = Some c"
    and step_better: "score b < score c \<Longrightarrow> step (Some b) c = Some c"
    and step_keep: "score c \<le> score b \<Longrightarrow> step (Some b) c = Some b"
begin

lemma step_best: "best_of score xs r \<Longrightarrow> best_of score (xs @ [c]) (step r c)"
proof (cases r)
  case None
  moreover assume "best_of score xs r"
  ultimately show ?thesis by (auto simp: best_of_def step_first Cons_eq_append_conv)
next
  case (Some b)
  moreover assume "best_of score xs r"
  ultimately obtain pre post where xs: "xs = pre @ b # post" "\<forall>x \<in> set pre. score x < score b"
      "\<forall>x \<in> set post. score x \<le> score b"
    by (auto simp: best_of_def)
  show ?thesis
  proof (cases "score b < score c")
    case True
    then have "\<forall>x \<in> set xs. score x < score c" using xs by force
    then have "best_of score (xs @ [c]) (Some c)"
      unfolding best_of_def option.case by (intro exI[of _ xs] exI[of _ "[]"]) simp
    with True Some step_better show ?thesis by simp
  next
    case False
    then have "\<forall>x \<in> set (post @ [c]). score x \<le> score b" using xs by auto
    moreover have "xs @ [c] = pre @ b # (post @ [c])" using xs by simp
    ultimately have "best_of score (xs @ [c]) (Some b)"
      unfolding best_of_def option.case using xs(2) by blast
    with False Some step_keep show ?thesis by simp
  qed
qed

end

interpretation gpu_scan: keep_best gp_free_vram_bytes "\<lambda>r c. better_gpu r (Some c)"
  by unfold_locales (auto simp: better_gpu_def)

text \<open>The lines that count as devices, as the loop reads them.\<close>

fun nvidia_devices :: "(nat \<times> string) list \<Rightarrow> gpu_profile list" where
  "nvidia_devices [] = []"
| "nvidia_devices ((i, l) # rest) =
     (case nvidia_candidate i l of Inr (Some p) \<Rightarrow> p # nvidia_devices rest | _ \<Rightarrow> nvidia_devices rest)"

lemma best_nvidia_best:
  "best_nvidia ls r = Inr r' \<Longrightarrow> best_of gp_free_vram_bytes xs r \<Longrightarrow>
     best_of gp_free_vram_bytes (xs @ nvidia_devices ls) r'"
proof (induction ls r arbitrary: xs rule: best_nvidia.induct)
  case (2 index line rest best)
  then obtain c where c: "nvidia_candidate index line = Inr c" "best_nvidia rest (better_gpu best c) = Inr r'"
    by (auto simp: bindr_eq_Inr)
  show ?case
  proof (cases c)
    case None
    with 2(1)[OF c(2), of xs] 2(3) c(1) show ?thesis by (simp add: better_gpu_def)
  next
    case (Some p)
    with 2(1)[OF c(2), of "xs @ [p]"] gpu_scan.step_best[OF 2(3), of p] c(1) show ?thesis by simp
  qed
qed simp

lemma three_ints:
  "(case xs of [Some a, Some b, Some n] \<Rightarrow> b \<noteq> a \<and> n = (1 :: int) | _ \<Rightarrow> False)
     \<longleftrightarrow> (\<exists>a b. a \<noteq> b \<and> xs = [Some a, Some b, Some 1])"
proof (cases "length xs = 3")
  case True
  then obtain x y z where "xs = [x, y, z]" by (auto simp: numeral_3_eq_3 length_Suc_conv)
  then show ?thesis by (cases x; cases y; cases z) auto
next
  case False
  have "xs = [] \<or> (\<exists>x. xs = [x]) \<or> (\<exists>x y. xs = [x, y]) \<or> (\<exists>x y z w ws. xs = x # y # z # w # ws)"
    using False by (cases xs; cases "tl xs"; cases "tl (tl xs)"; cases "tl (tl (tl xs))") auto
  then show ?thesis by (auto split: option.splits)
qed

section \<open>Properties\<close>

text \<open>
  Hardware that is reported always has byte counts that are not negative and a GPU backend that
  is one of the listed ones, unless it is the CPU or an empty override.
\<close>

theorem detect_hardware_coherent:
  assumes "detect_hardware h = Inr hw"
  shows "0 \<le> hw_vram_bytes hw \<and> 0 \<le> hw_free_vram_bytes hw
    \<and> (supports_backend hw (hw_gpu_backend hw) \<or> hw_gpu_backend hw \<in> {''cpu'', ''''})"
proof -
  from assms obtain free p where p: "detect_gpu_profile h (hs_vram h) free = Inr p"
    and hw: "hw_vram_bytes hw = gp_vram_bytes p" "hw_free_vram_bytes hw = gp_free_vram_bytes p"
      "hw_gpu_backend hw = gp_backend p" "hw_gpu_backends hw = gp_backends p"
    by (auto simp: detect_hardware_def Let_def bindr_eq_Inr)
  from coherent_detected[OF p] show ?thesis by (simp add: hw coherent_profile_def supports_backend_def)
qed

definition two_gpu_host :: host where
  "two_gpu_host = \<lparr>hs_which = (\<lambda>n. if n = ''nvidia-smi'' then Some ''/usr/bin/nvidia-smi'' else None),
     hs_run = (\<lambda>_. Some (0, ''A,8,1,7'' @ [ch_nl] @ ''B,8,2,8'' @ [ch_nl])),
     hs_env = (\<lambda>_. None), hs_ram = 34359738368, hs_vram = 0, hs_free_vram = None\<rparr>"

lemma two_gpu_lines: "splitlines (''A,8,1,7'' @ [ch_nl] @ ''B,8,2,8'' @ [ch_nl]) = [''A,8,1,7'', ''B,8,2,8'']"
  by code_simp

lemma two_gpu_detected:
  "detect_nvidia_gpu two_gpu_host = Inr (Some (mk_gpu_profile 8388608 2097152 ''nvidia'' ''B'' ''vllm''
     [''vllm'', ''cuda-llama''] ''8'' ''1''))"
proof -
  have a: "nvidia_candidate 0 ''A,8,1,7'' = Inr (Some (mk_gpu_profile 8388608 1048576 ''nvidia'' ''A'' ''cuda-llama''
      [''cuda-llama''] ''7'' ''0''))" by code_simp
  have b: "nvidia_candidate (Suc 0) ''B,8,2,8'' = Inr (Some (mk_gpu_profile 8388608 2097152 ''nvidia'' ''B'' ''vllm''
      [''vllm'', ''cuda-llama''] ''8'' ''1''))" by code_simp
  show ?thesis
    using two_gpu_lines
    by (simp add: detect_nvidia_gpu_def Let_def run_text_def two_gpu_host_def a b better_gpu_def mk_gpu_profile_def)
qed

lemma detect_hardware_coherent_witness:
  "\<exists>hw. detect_hardware two_gpu_host = Inr hw \<and> hw_gpu_device hw = ''1'' \<and>
     (supports_backend hw (hw_gpu_backend hw) \<or> hw_gpu_backend hw \<in> {''cpu'', ''''})"
proof -
  have "gpu_profile_from_env (hs_env two_gpu_host) = None"
    by (simp add: gpu_profile_from_env_def two_gpu_host_def split_env_list_def env_int_def)
  then obtain hw where hw: "detect_hardware two_gpu_host = Inr hw" "hw_gpu_device hw = ''1''"
    by (simp add: detect_hardware_def detect_gpu_profile_def two_gpu_detected mk_gpu_profile_def)
  from detect_hardware_coherent[OF hw(1)] hw show ?thesis by blast
qed

text \<open>
  With several NVIDIA devices the one with the most free memory is chosen, the first of them in
  the listing on a tie; none is reported exactly when no line describes a device.
\<close>

theorem detect_nvidia_gpu_best:
  assumes "hs_which h ''nvidia-smi'' \<noteq> None" "detect_nvidia_gpu h = Inr r"
  shows "best_of gp_free_vram_bytes
    (nvidia_devices (enumerate 0 (splitlines (run_text h [''nvidia-smi'',
       ''--query-gpu=name,memory.total,memory.free,compute_cap'', ''--format=csv,noheader,nounits''])))) r"
proof (cases "run_text h [''nvidia-smi'', ''--query-gpu=name,memory.total,memory.free,compute_cap'',
    ''--format=csv,noheader,nounits''] = []")
  case True
  with assms show ?thesis
    by (auto simp: detect_nvidia_gpu_def Let_def splitlines_def best_of_def)
next
  case False
  with assms have "best_nvidia (enumerate 0 (splitlines (run_text h [''nvidia-smi'',
      ''--query-gpu=name,memory.total,memory.free,compute_cap'', ''--format=csv,noheader,nounits'']))) None = Inr r"
    by (auto simp: detect_nvidia_gpu_def Let_def)
  from best_nvidia_best[OF this, of "[]"] show ?thesis by (simp add: best_of_def)
qed

lemma detect_nvidia_gpu_best_witness:
  "\<exists>p. detect_nvidia_gpu two_gpu_host = Inr (Some p) \<and> gp_name p = ''B'' \<and>
     best_of gp_free_vram_bytes (nvidia_devices (enumerate 0 (splitlines (run_text two_gpu_host [''nvidia-smi'',
       ''--query-gpu=name,memory.total,memory.free,compute_cap'', ''--format=csv,noheader,nounits''])))) (Some p)"
proof -
  obtain p where p: "detect_nvidia_gpu two_gpu_host = Inr (Some p)" "gp_name p = ''B''"
    by (simp add: two_gpu_detected mk_gpu_profile_def)
  have "hs_which two_gpu_host ''nvidia-smi'' \<noteq> None" by (simp add: two_gpu_host_def)
  from detect_nvidia_gpu_best[OF this p(1)] p show ?thesis by blast
qed

text \<open>
  The installer never settles on an accelerator the machine lacks: a supported profile is for the
  CPU or for a backend the hardware lists, the vLLM extra is installed for the vLLM backend only, and
  the automatic mode ends with status 0 whatever the installation does, unless no wheel was given.
\<close>

theorem gpu_setup_supported:
  "(let p = choose_install_profile hw mode in
     \<not> (ip_supported p \<and> ip_backend p \<noteq> ''cpu'' \<and> \<not> supports_backend hw (ip_backend p))
     \<and> ip_install_vllm p = (ip_backend p = ''vllm''))
   \<and> (case gpu_setup_main pip \<lparr>ga_mode = ''auto'', ga_wheel = wheel, ga_no_install = no_install\<rparr> (Inr hw) of
        Inl _ \<Rightarrow> False
      | Inr (status, pips) \<Rightarrow> status = 0 \<or> status = 1 \<and> pips = [] \<and> \<not> no_install \<and> wheel \<in> {None, Some ''''})"
proof
  show "let p = choose_install_profile hw mode in
     \<not> (ip_supported p \<and> ip_backend p \<noteq> ''cpu'' \<and> \<not> supports_backend hw (ip_backend p))
     \<and> ip_install_vllm p = (ip_backend p = ''vllm'')"
    by (auto simp: choose_install_profile_def mk_install_profile_def Let_def llama_gpu_backends_def split: list.splits)
  have "ip_supported (choose_install_profile hw ''auto'')"
    by (auto simp: choose_install_profile_def mk_install_profile_def normalize_mode_def Let_def
        gpu_modes_def llama_gpu_backends_def strip_stripped stripped_def is_space_def lower_def lower_char_def
        split: list.splits)
  then show "case gpu_setup_main pip \<lparr>ga_mode = ''auto'', ga_wheel = wheel, ga_no_install = no_install\<rparr> (Inr hw) of
        Inl _ \<Rightarrow> False
      | Inr (status, pips) \<Rightarrow> status = 0 \<or> status = 1 \<and> pips = [] \<and> \<not> no_install \<and> wheel \<in> {None, Some ''''}"
    by (auto simp: gpu_setup_main_def Let_def install_vllm_extra_def split: option.splits list.splits)
qed

text \<open>
  The sandbox test, exactly: an agent uid, or a uid map that maps a single uid to another one (an
  unreadable one counts for root), or the marker in the environment.
\<close>

theorem is_sandboxed_iff:
  "is_sandboxed euid uid_map e = Inr True \<longleftrightarrow>
     (60000 \<le> euid \<and> euid < 64000)
     \<or> (case uid_map of
          Inr text \<Rightarrow> (\<exists>line \<in> set (splitlines text). \<exists>a b. a \<noteq> b
             \<and> map parse_int (split_ws line) = [Some a, Some b, Some 1]) \<or> e ''BUBBLEHUB_SANDBOX'' = Some ''1''
        | Inl err \<Rightarrow> is_os_error err \<and> ((\<exists>m. err = PermissionError m) \<and> euid = 0 \<or> e ''BUBBLEHUB_SANDBOX'' = Some ''1''))"
proof -
  have r: "remapped_line l \<longleftrightarrow> (\<exists>a b. a \<noteq> b \<and> map parse_int (split_ws l) = [Some a, Some b, Some 1])" for l
    unfolding remapped_line_def by (rule three_ints)
  show ?thesis
  proof (cases uid_map)
    case (Inr t)
    then show ?thesis
      by (auto simp: is_sandboxed_def has_sandbox_agent_uid_def has_sandbox_user_namespace_def r list_ex_iff)
  next
    case (Inl err)
    then show ?thesis
      by (cases err) (auto simp: is_sandboxed_def has_sandbox_agent_uid_def has_sandbox_user_namespace_def)
  qed
qed

end
