(* ===== verification/Engine_Session.thy ===== *)
theory Engine_Session
  imports Model_Registry Chat_Messages Native_Scheduler Native_Hardware
begin

text \<open>
  \<^verbatim>\<open>bubblehub/engine/session.py\<close> (opening a session, chatting and embedding, inside and outside the
  sandbox), the cache lookup of \<^verbatim>\<open>engine/downloader.py\<close>, the structured prompts of
  \<^verbatim>\<open>engine/structured.py\<close> and \<^verbatim>\<open>cli/prompt.py\<close>, and the client shims under \<^verbatim>\<open>integrations/\<close>. The
  third-party packages (\<^verbatim>\<open>requests\<close>, \<^verbatim>\<open>huggingface_hub\<close>) are parameters.
\<close>

section \<open>Limits of a request\<close>

definition default_max_output_tokens_int :: int where
  "default_max_output_tokens_int = 512"

text \<open>\<^verbatim>\<open>default_max_output_tokens\<close> of the session: a \<^verbatim>\<open>RuntimeError\<close> for a bad environment value.\<close>

definition session_default_max_tokens :: "env \<Rightarrow> int result" where
  "session_default_max_tokens e =
     (case e ''BUBBLEHUB_MAX_OUTPUT_TOKENS'' of
        None \<Rightarrow> Inr default_max_output_tokens_int
      | Some v \<Rightarrow> (case parse_int v of
            None \<Rightarrow> Inl (RuntimeError ''BUBBLEHUB_MAX_OUTPUT_TOKENS must be an integer'')
          | Some n \<Rightarrow> if n \<le> 0 then Inl (RuntimeError ''BUBBLEHUB_MAX_OUTPUT_TOKENS must be greater than zero'')
              else Inr n))"

definition int_or_zero :: "pyval \<Rightarrow> int result" where
  "int_or_zero v = (case py_int v of Inr n \<Rightarrow> Inr n
     | Inl e \<Rightarrow> if is_type_or_value_error e then Inr 0 else Inl e)"

definition limit_gb :: "pyval \<Rightarrow> int \<Rightarrow> rat result" where
  "limit_gb limit_bytes hardware_bytes = bindr (int_or_zero limit_bytes) (\<lambda>limit.
     Inr (gib (if limit \<le> 0 then hardware_bytes else limit)))"

definition parse_port :: "string \<Rightarrow> int result" where
  "parse_port v = (case parse_int v of
       None \<Rightarrow> Inl (RuntimeError ''BUBBLEHUB_SANDBOX_INFERENCE_PORT must be an integer'')
     | Some port \<Rightarrow> if port \<le> 0 \<or> 65535 < port
         then Inl (RuntimeError ''BUBBLEHUB_SANDBOX_INFERENCE_PORT must be between 1 and 65535'') else Inr port)"

definition sandbox_inference_base_url :: "env \<Rightarrow> string result" where
  "sandbox_inference_base_url e =
     (case (env_nonempty e ''BUBBLEHUB_SANDBOX_INFERENCE_HOST'', env_nonempty e ''BUBBLEHUB_SANDBOX_INFERENCE_PORT'') of
        (Some host, Some port) \<Rightarrow> bindr (parse_port port) (\<lambda>p. Inr (''http://'' @ host @ '':'' @ show_int p))
      | _ \<Rightarrow> Inl (RuntimeError ''BUBBLEHUB_SANDBOX_INFERENCE_HOST and BUBBLEHUB_SANDBOX_INFERENCE_PORT must be set inside the sandbox''))"

section \<open>The model files\<close>

text \<open>
  \<^verbatim>\<open>HfDownloader.ensure_model\<close>. The cache is seen through two tests (a path exists; a directory has
  an entry); \<open>hub\<close> is the download of \<^verbatim>\<open>huggingface_hub\<close>, \<open>None\<close> when the package is missing.
\<close>

record cache_view =
  cv_exists :: "string \<Rightarrow> bool"
  cv_has_entry :: "string \<Rightarrow> bool"
  cv_mkdir :: "string \<Rightarrow> unit result"

type_synonym hub = "(string \<Rightarrow> string option \<Rightarrow> string \<Rightarrow> string result) option"

definition nonempty_filename :: "model_spec \<Rightarrow> string option" where
  "nonempty_filename m = (case ms_filename m of Some (c # cs) \<Rightarrow> Some (c # cs) | _ \<Rightarrow> None)"

definition model_dir :: "string \<Rightarrow> model_spec \<Rightarrow> string" where
  "model_dir cache_dir m = cache_dir @ ''/models/'' @ ms_name m"

definition download_model :: "cache_view \<Rightarrow> hub \<Rightarrow> string \<Rightarrow> model_spec \<Rightarrow> string result" where
  "download_model cv hub cache_dir m =
     (case hub of
        None \<Rightarrow> Inl (DownloadError ''huggingface-hub is required for auto-download'')
      | Some download \<Rightarrow> bindr (cv_mkdir cv (model_dir cache_dir m)) (\<lambda>_.
          case download (ms_repo_id m) (nonempty_filename m) (model_dir cache_dir m) of
            Inr path \<Rightarrow> Inr path
          | Inl _ \<Rightarrow> Inl (DownloadError (''failed to download '' @ ms_repo_id m
              @ ''; set HF_TOKEN for gated models or register a local path in ~/.config/bubblehub/models.yaml''))))"

definition ensure_model :: "env \<Rightarrow> cache_view \<Rightarrow> hub \<Rightarrow> string \<Rightarrow> model_spec \<Rightarrow> string result" where
  "ensure_model e cv hub cache_dir m =
     (let dir = model_dir cache_dir m;
          revalidate = (e ''BUBBLEHUB_VALIDATE_MODEL_CACHE'' = Some ''1'') in
      case nonempty_filename m of
        Some file \<Rightarrow>
          if cv_exists cv (dir @ ''/'' @ file) \<and> \<not> revalidate then Inr (dir @ ''/'' @ file)
          else download_model cv hub cache_dir m
      | None \<Rightarrow>
          if cv_exists cv dir \<and> cv_has_entry cv dir \<and> \<not> revalidate then Inr dir
          else download_model cv hub cache_dir m)"

section \<open>The session\<close>

record engine_session =
  es_specialty :: string
  es_niceness :: int
  es_flavor :: "string option"
  es_capability :: "string option"
  es_resolved :: "(model_spec \<times> string) option"
  es_sandbox_base_url :: "string option"

definition new_session :: "string \<Rightarrow> int \<Rightarrow> string option \<Rightarrow> string option \<Rightarrow> engine_session" where
  "new_session specialty niceness flavor capability =
     \<lparr>es_specialty = specialty, es_niceness = niceness, es_flavor = flavor, es_capability = capability,
      es_resolved = None, es_sandbox_base_url = None\<rparr>"

text \<open>
  What a session reaches: the environment, the native library with the configured limits, the loaded
  registry, the detected hardware, the model cache, and \<open>http_post\<close>, which is \<^verbatim>\<open>requests.post\<close> with
  \<^verbatim>\<open>raise_for_status\<close> and \<^verbatim>\<open>json\<close> on its response; \<open>ew_digits\<close> is the text of a number in JSON.
\<close>

record engine_world =
  ew_env :: env
  ew_lib :: native_lib
  ew_limits :: "(pyfloat option \<times> pyfloat option) result"
  ew_registry :: "registry result"
  ew_hardware :: "hardware_info result"
  ew_cache :: cache_view
  ew_hub :: hub
  ew_cache_dir :: string
  ew_http_post :: "string \<Rightarrow> pyval \<Rightarrow> pyval result"
  ew_digits :: "rat \<Rightarrow> string"

definition is_env_sandboxed :: "env \<Rightarrow> bool" where
  "is_env_sandboxed e \<longleftrightarrow> e ''BUBBLEHUB_SANDBOX'' = Some ''1''"

definition session_args :: "engine_session \<Rightarrow> hardware_info \<Rightarrow> rat \<Rightarrow> rat \<Rightarrow> resolve_args" where
  "session_args s hw ram vram =
     \<lparr>ra_tier_order = mt_order (select_tier (hw_ram_bytes hw) (hw_vram_bytes hw)),
      ra_flavor = es_flavor s, ra_capability = es_capability s, ra_max_ram_gb = Some ram,
      ra_max_vram_gb = Some vram, ra_supported = Some (hw_gpu_backends hw)\<rparr>"

definition choose_model :: "engine_session \<Rightarrow> registry \<Rightarrow> hardware_info \<Rightarrow> pydict \<Rightarrow> model_spec result" where
  "choose_model s reg hw limits =
     bindr (limit_gb (dget limits ''ram_bytes'') (hw_ram_bytes hw)) (\<lambda>ram.
     bindr (limit_gb (dget limits ''vram_bytes'') (hw_vram_bytes hw)) (\<lambda>vram.
     bindr (resolve_candidates reg (es_specialty s) (session_args s hw ram vram)) (\<lambda>candidates.
       case candidates of
         [] \<Rightarrow> Inl (RuntimeError (''no model matches specialty '' @ squote (es_specialty s) @ '' for available RAM/VRAM''))
       | model # _ \<Rightarrow> Inr model)))"

text \<open>\<^verbatim>\<open>__enter__\<close>; a scheduler that is not given is made first (\<^verbatim>\<open>SchedulerClient.local()\<close>).\<close>

definition session_enter :: "engine_world \<Rightarrow> engine_session \<Rightarrow> engine_session native" where
  "session_enter w s =
     (if is_env_sandboxed (ew_env w) then
        liftn (bindr (sandbox_inference_base_url (ew_env w)) (\<lambda>url. Inr (s\<lparr>es_sandbox_base_url := Some url\<rparr>)))
      else
        bindn (scheduler_client (ew_lib w) (ew_limits w)) (\<lambda>_.
        bindn (liftn (ew_registry w)) (\<lambda>reg.
        bindn (liftn (ew_hardware w)) (\<lambda>hw.
        bindn (resource_limits (ew_lib w)) (\<lambda>limits.
        bindn (liftn (choose_model s reg hw limits)) (\<lambda>model.
        bindn (liftn (ensure_model (ew_env w) (ew_cache w) (ew_hub w) (ew_cache_dir w) model)) (\<lambda>path.
          returnn (s\<lparr>es_resolved := Some (model, path)\<rparr>))))))))"

definition json_message :: "chat_message \<Rightarrow> pyval" where
  "json_message m = PDict [(''role'', PStr (cm_role m)), (''content'', PStr (cm_content m))]"

text \<open>\<open>digits\<close> is the text \<^verbatim>\<open>json.dumps\<close> writes for a number of the model table.\<close>

definition chat_request :: "(rat \<Rightarrow> string) \<Rightarrow> engine_session \<Rightarrow> model_spec \<Rightarrow> string \<Rightarrow> chat_message list \<Rightarrow> int \<Rightarrow> pydict" where
  "chat_request digits s model path messages max_tokens =
     [(''specialty'', PStr (es_specialty s)), (''model_name'', PStr (ms_name model)),
      (''backend'', PStr (ms_backend model)), (''model_path'', PStr path),
      (''ram_gb'', PFloat (Finite (ms_ram_gb model) (digits (ms_ram_gb model)))),
      (''vram_gb'', PFloat (Finite (ms_vram_gb model) (digits (ms_vram_gb model)))),
      (''niceness'', PInt (es_niceness s)), (''max_tokens'', PInt max_tokens),
      (''gpu_layers'', PInt (case ms_gpu_layers model of Some n \<Rightarrow> n | None \<Rightarrow> - 999999)),
      (''messages_json'', PStr (json_dumps (PList (map json_message messages))))]"

text \<open>\<^verbatim>\<open>data["choices"][0]["message"]["content"]\<close>: the subscripts and the exceptions they raise.\<close>

fun py_item :: "pyval \<Rightarrow> string \<Rightarrow> pyval result" where
  "py_item (PDict d) k = (case map_of d k of Some v \<Rightarrow> Inr v | None \<Rightarrow> Inl (KeyError k))"
| "py_item _ k = Inl (TypeError ''indices must be integers or slices'')"

fun py_first :: "pyval \<Rightarrow> pyval result" where
  "py_first (PList []) = Inl (IndexError ''list index out of range'')"
| "py_first (PList (x # xs)) = Inr x"
| "py_first (PStr []) = Inl (IndexError ''string index out of range'')"
| "py_first (PStr (c # cs)) = Inr (PStr [c])"
| "py_first (PDict d) = Inl (KeyError ''0'')"
| "py_first _ = Inl (TypeError ''object is not subscriptable'')"

fun is_lookup_error :: "exn \<Rightarrow> bool" where
  "is_lookup_error (KeyError _) = True"
| "is_lookup_error (IndexError _) = True"
| "is_lookup_error (TypeError _) = True"
| "is_lookup_error _ = False"

fun is_key_or_type_error :: "exn \<Rightarrow> bool" where
  "is_key_or_type_error (IndexError _) = False"
| "is_key_or_type_error e = is_lookup_error e"

definition post_sandbox_json :: "engine_world \<Rightarrow> string \<Rightarrow> pyval \<Rightarrow> pyval result" where
  "post_sandbox_json w url payload =
     (case ew_http_post w url payload of
        Inl (RequestException m) \<Rightarrow> Inl (RuntimeError (''sandbox inference request failed: '' @ m))
      | Inl e \<Rightarrow> Inl e
      | Inr (PDict d) \<Rightarrow> Inr (PDict d)
      | Inr _ \<Rightarrow> Inl (RuntimeError ''sandbox inference returned a non-object JSON response''))"

definition sandbox_chat_payload :: "string \<Rightarrow> chat_message list \<Rightarrow> int \<Rightarrow> pyval" where
  "sandbox_chat_payload specialty messages max_tokens =
     PDict [(''model'', PStr specialty), (''bubblehub_specialty'', PStr specialty),
       (''messages'', PList (map json_message messages)), (''max_tokens'', PInt max_tokens),
       (''stream'', PBool False)]"

definition completion_text :: "pyval \<Rightarrow> string result" where
  "completion_text data =
     (case bindr (py_item data ''choices'') (\<lambda>cs. bindr (py_first cs) (\<lambda>c.
             bindr (py_item c ''message'') (\<lambda>m. py_item m ''content''))) of
        Inr v \<Rightarrow> Inr (py_str v)
      | Inl e \<Rightarrow> if is_lookup_error e
          then Inl (RuntimeError ''sandbox inference returned an invalid chat completion response'') else Inl e)"

definition sandbox_chat :: "engine_world \<Rightarrow> string \<Rightarrow> string \<Rightarrow> chat_message list \<Rightarrow> int \<Rightarrow> string result" where
  "sandbox_chat w base_url specialty messages max_tokens =
     bindr (post_sandbox_json w (base_url @ ''/v1/chat/completions'')
       (sandbox_chat_payload specialty messages max_tokens)) completion_text"

text \<open>\<^verbatim>\<open>list(value)\<close> on what JSON can hold: the elements, the characters or the keys.\<close>

fun py_list :: "pyval \<Rightarrow> pyval list result" where
  "py_list (PList xs) = Inr xs"
| "py_list (PStr s) = Inr (map (\<lambda>c. PStr [c]) s)"
| "py_list (PDict d) = Inr (map (PStr \<circ> fst) d)"
| "py_list _ = Inl (TypeError ''object is not iterable'')"

definition embedding_vectors :: "pyval \<Rightarrow> pyval list list result" where
  "embedding_vectors data =
     (case bindr (py_item data ''data'') (\<lambda>items. bindr (py_list items) (mapr (\<lambda>item.
             bindr (py_item item ''embedding'') py_list))) of
        Inr vs \<Rightarrow> Inr vs
      | Inl e \<Rightarrow> if is_key_or_type_error e
          then Inl (RuntimeError ''sandbox inference returned an invalid embeddings response'') else Inl e)"

definition sandbox_embeddings :: "engine_world \<Rightarrow> string \<Rightarrow> string \<Rightarrow> string list \<Rightarrow> pyval list list result" where
  "sandbox_embeddings w base_url specialty inputs =
     bindr (post_sandbox_json w (base_url @ ''/v1/embeddings'')
       (PDict [(''model'', PStr specialty), (''bubblehub_specialty'', PStr specialty),
         (''input'', PList (map PStr inputs))])) embedding_vectors"

definition session_chat ::
  "engine_world \<Rightarrow> engine_session \<Rightarrow> chat_message list \<Rightarrow> int option \<Rightarrow> string native" where
  "session_chat w s messages max_tokens =
     (case es_sandbox_base_url s of
        Some url \<Rightarrow> liftn (bindr (case max_tokens of
              Some n \<Rightarrow> if n \<noteq> 0 then Inr n else session_default_max_tokens (ew_env w)
            | None \<Rightarrow> session_default_max_tokens (ew_env w)) (\<lambda>n.
          sandbox_chat w url (es_specialty s) messages n))
      | None \<Rightarrow> (case es_resolved s of
          None \<Rightarrow> raisen (RuntimeError ''engine session is not started'')
        | Some (model, path) \<Rightarrow>
            bindn (liftn (case max_tokens of Some n \<Rightarrow> Inr n | None \<Rightarrow> session_default_max_tokens (ew_env w))) (\<lambda>n.
            bindn (inference_chat (ew_lib w) (chat_request (ew_digits w) s model path messages n)) (\<lambda>response.
              liftn (bindr (py_item (PDict response) ''content'') (\<lambda>v. Inr (py_str v)))))))"

definition session_embeddings :: "engine_world \<Rightarrow> engine_session \<Rightarrow> string list \<Rightarrow> pyval list list result" where
  "session_embeddings w s inputs =
     (case es_sandbox_base_url s of
        Some url \<Rightarrow> sandbox_embeddings w url (es_specialty s) inputs
      | None \<Rightarrow> Inl (RuntimeError ''native embeddings are not implemented''))"

text \<open>\<^verbatim>\<open>with EngineSession(...) as session: return session.chat(...)\<close>; \<^verbatim>\<open>__exit__\<close> does nothing.\<close>

definition with_session_chat ::
  "engine_world \<Rightarrow> string \<Rightarrow> int \<Rightarrow> chat_message list \<Rightarrow> int option \<Rightarrow> string native" where
  "with_session_chat w specialty niceness messages max_tokens =
     bindn (session_enter w (new_session specialty niceness None None)) (\<lambda>s. session_chat w s messages max_tokens)"

definition with_session_embeddings ::
  "engine_world \<Rightarrow> string \<Rightarrow> int \<Rightarrow> string list \<Rightarrow> pyval list list native" where
  "with_session_embeddings w specialty niceness inputs =
     bindn (session_enter w (new_session specialty niceness None None)) (\<lambda>s. liftn (session_embeddings w s inputs))"

section \<open>Structured prompts\<close>

definition structured_system :: string where
  "structured_system = ''Return only valid JSON matching the shape and value types of this example. Do not include markdown fences or explanation.'' @ paragraph_sep"

definition repair_system :: string where
  "repair_system = ''Repair the assistant output into valid JSON only. It must match this example structure and value types:'' @ paragraph_sep"

definition chat_msg :: "string \<Rightarrow> string \<Rightarrow> chat_message" where
  "chat_msg role content = \<lparr>cm_role = role, cm_content = content\<rparr>"

definition load_example_schema :: "string result \<Rightarrow> pydict result" where
  "load_example_schema file = bindr file (\<lambda>text. bindr (json_loads text) (\<lambda>v.
     case v of PDict d \<Rightarrow> Inr d | _ \<Rightarrow> Inl (ValueError ''structure example must be a JSON object'')))"

definition build_structured_messages :: "pydict \<Rightarrow> string \<Rightarrow> chat_message list" where
  "build_structured_messages example text =
     [chat_msg ''system'' (structured_system @ json_dumps_indent (PDict example)), chat_msg ''user'' text]"

definition build_repair_messages :: "pydict \<Rightarrow> string \<Rightarrow> string \<Rightarrow> chat_message list" where
  "build_repair_messages example original_text invalid_output =
     [chat_msg ''system'' (repair_system @ json_dumps_indent (PDict example)),
      chat_msg ''user'' (''Original request:'' @ [ch_nl] @ original_text @ paragraph_sep
        @ ''Invalid output:'' @ [ch_nl] @ invalid_output)]"

text \<open>
  The fence pattern of \<^verbatim>\<open>parse_json_output\<close>: three backquotes, the optional word \<^verbatim>\<open>json\<close> in any case,
  white space, and the shortest text before three backquotes. The text starts with the fence, so the
  match begins there when there is a closing fence at all; the word is kept in the text when the rest
  cannot match otherwise, which never happens.
\<close>

definition fence :: string where "fence = ''```''"

fun before_fence :: "string \<Rightarrow> string option" where
  "before_fence [] = None"
| "before_fence (c # s) = (if startswith fence (c # s) then Some [] else map_option ((#) c) (before_fence s))"

definition fenced_text :: "string \<Rightarrow> string option" where
  "fenced_text s =
     (let t = drop 3 s; t = (if lower (take 4 t) = ''json'' then drop 4 t else t)
      in before_fence (lstrip t))"

definition parse_json_output :: "string \<Rightarrow> pydict result" where
  "parse_json_output text =
     (let cleaned = strip text;
          cleaned = (if startswith fence cleaned
            then (case fenced_text cleaned of Some t \<Rightarrow> strip t | None \<Rightarrow> cleaned) else cleaned) in
      bindr (json_loads cleaned) (\<lambda>v.
        case v of PDict d \<Rightarrow> Inr d | _ \<Rightarrow> Inl (ValueError ''model returned JSON, but not an object'')))"

text \<open>\<^verbatim>\<open>_run_prompt\<close>: \<open>chat\<close> answers a conversation given the conversations asked before it.\<close>

type_synonym asked = "chat_message list list"

definition run_prompt ::
  "(asked \<Rightarrow> chat_message list \<Rightarrow> string result) \<Rightarrow> string result option \<Rightarrow> string \<Rightarrow> string result \<times> asked" where
  "run_prompt chat structure text =
     (case structure of
        None \<Rightarrow> (let q = [chat_msg ''user'' text] in (chat [] q, [q]))
      | Some file \<Rightarrow>
          (case load_example_schema file of
             Inl e \<Rightarrow> (Inl e, [])
           | Inr example \<Rightarrow>
               (let q1 = build_structured_messages example text in
                case chat [] q1 of
                  Inl e \<Rightarrow> (Inl e, [q1])
                | Inr raw \<Rightarrow>
                    (case parse_json_output raw of
                       Inr parsed \<Rightarrow> (Inr (json_dumps_indent (PDict parsed)), [q1])
                     | Inl _ \<Rightarrow>
                         (let q2 = build_repair_messages example text raw in
                          (bindr (chat [q1] q2) (\<lambda>repaired. bindr (parse_json_output repaired) (\<lambda>parsed.
                             Inr (json_dumps_indent (PDict parsed)))), [q1, q2]))))))"

section \<open>The client shims\<close>

definition first_name :: "string option \<Rightarrow> string option \<Rightarrow> string \<Rightarrow> string" where
  "first_name specialty speciality d = (case str_or specialty (str_or speciality None) of Some s \<Rightarrow> s | None \<Rightarrow> d)"

text \<open>\<^verbatim>\<open>_max_tokens\<close> of the OpenAI shim.\<close>

fun shim_max_tokens :: "pyval list \<Rightarrow> int option result" where
  "shim_max_tokens [] = Inr None"
| "shim_max_tokens (v # vs) =
     (if v = PNone then shim_max_tokens vs
      else (case py_int v of
          Inr n \<Rightarrow> if 0 < n then Inr (Some n) else shim_max_tokens vs
        | Inl e \<Rightarrow> if is_type_or_value_error e then shim_max_tokens vs else Inl e))"

definition openai_max_tokens :: "pydict \<Rightarrow> int option result" where
  "openai_max_tokens kwargs = shim_max_tokens [dget kwargs ''max_tokens'', dget kwargs ''max_completion_tokens'']"

definition openai_create :: "engine_world \<Rightarrow> string \<Rightarrow> int \<Rightarrow> chat_message list \<Rightarrow> pydict \<Rightarrow> string native" where
  "openai_create w specialty niceness messages kwargs =
     bindn (liftn (openai_max_tokens kwargs)) (\<lambda>max_tokens.
       with_session_chat w specialty niceness messages max_tokens)"

text \<open>\<^verbatim>\<open>_Messages.create\<close> of the Anthropic shim, with messages that are dicts.\<close>

definition block_texts :: "pyval list \<Rightarrow> string" where
  "block_texts blocks = join [ch_nl] (concat (map (\<lambda>b. case b of
     PDict d \<Rightarrow> [py_str (dget_or d ''text'' (PStr ''''))] | _ \<Rightarrow> []) blocks))"

definition anthropic_message :: "pydict \<Rightarrow> chat_message" where
  "anthropic_message m =
     chat_msg (py_str (dget_or m ''role'' (PStr ''user'')))
       (case dget_or m ''content'' (PStr '''') of PList blocks \<Rightarrow> block_texts blocks | v \<Rightarrow> py_str v)"

definition anthropic_messages :: "pydict list \<Rightarrow> string option \<Rightarrow> chat_message list" where
  "anthropic_messages messages system =
     (case system of Some (c # cs) \<Rightarrow> [chat_msg ''system'' (c # cs)] | _ \<Rightarrow> []) @ map anthropic_message messages"

definition anthropic_create ::
  "engine_world \<Rightarrow> string \<Rightarrow> int \<Rightarrow> pydict list \<Rightarrow> string option \<Rightarrow> (string \<times> string) list native" where
  "anthropic_create w specialty niceness messages system =
     bindn (with_session_chat w specialty niceness (anthropic_messages messages system) None) (\<lambda>answer.
       returnn [(''text'', answer)])"

text \<open>The message classes of \<^verbatim>\<open>langchain_core\<close>, as \<^verbatim>\<open>_convert_message\<close> tells them apart.\<close>

datatype langchain_message = SystemMessage pyval | HumanMessage pyval | OtherMessage pyval

fun convert_message :: "langchain_message \<Rightarrow> chat_message" where
  "convert_message (SystemMessage v) = chat_msg ''system'' (py_str v)"
| "convert_message (HumanMessage v) = chat_msg ''user'' (py_str v)"
| "convert_message (OtherMessage v) = chat_msg ''assistant'' (py_str v)"

definition langchain_generate :: "engine_world \<Rightarrow> string \<Rightarrow> int \<Rightarrow> langchain_message list \<Rightarrow> string native" where
  "langchain_generate w specialty niceness messages =
     with_session_chat w specialty niceness (map convert_message messages) None"

section \<open>Laws of the session\<close>

lemma first_or_error: "(case xs of [] \<Rightarrow> Inl e | x # _ \<Rightarrow> Inr x) = Inr m \<longleftrightarrow> (\<exists>rest. xs = m # rest)"
  by (cases xs) auto

lemma choose_model_within:
  assumes "choose_model s reg hw limits = Inr m"
  shows "\<exists>ram vram. limit_gb (dget limits ''ram_bytes'') (hw_ram_bytes hw) = Inr ram
    \<and> limit_gb (dget limits ''vram_bytes'') (hw_vram_bytes hw) = Inr vram
    \<and> m \<in> set (reg_models reg) \<and> within_limits (session_args s hw ram vram) m"
proof -
  from assms obtain ram vram rest where
    "limit_gb (dget limits ''ram_bytes'') (hw_ram_bytes hw) = Inr ram"
    "limit_gb (dget limits ''vram_bytes'') (hw_vram_bytes hw) = Inr vram"
    "resolve_candidates reg (es_specialty s) (session_args s hw ram vram) = Inr (m # rest)"
    by (auto simp: choose_model_def bindr_eq_Inr first_or_error)
  then show ?thesis using resolve_candidates_within by (meson list.set_intros(1))
qed

lemma session_enter_local:
  assumes "\<not> is_env_sandboxed (ew_env w)" "session_enter w s h = (Inr s', h')"
  shows "\<exists>reg hw limits m path. ew_registry w = Inr reg \<and> ew_hardware w = Inr hw
    \<and> choose_model s reg hw limits = Inr m \<and> s' = s\<lparr>es_resolved := Some (m, path)\<rparr>"
  using assms
  by (auto simp: session_enter_def liftn_def returnn_def elim!: bindn_Inr) blast

lemma json_messages_clean: "json_clean (PList (map json_message ms))"
  by (auto simp: list_all_iff json_message_def)

text \<open>The limits in a snapshot of the scheduler; a member that is missing or no object gives none.\<close>

definition snapshot_limits :: "pydict \<Rightarrow> pydict" where
  "snapshot_limits data = (case dget data ''limits'' of PDict limits \<Rightarrow> limits | _ \<Rightarrow> [])"

lemma resource_limits_run:
  assumes "resource_limits lib h = (Inr limits, h')"
  shows "\<exists>t data. h' = h @ [TextReply SnapshotJson (Some t), FreeString SchedulerFree]
    \<and> bindr (decode_utf8 t) json_loads = Inr (PDict data) \<and> limits = snapshot_limits data"
proof -
  obtain t where t: "nl_text lib h SnapshotJson = Some t"
    using assms by (cases "nl_text lib h SnapshotJson") (auto simp: resource_limits_def snapshot_def text_call_def native_simps Let_def)
  obtain v where v: "bindr (decode_utf8 t) json_loads = Inr v"
    using assms t by (cases "decode_utf8 t"; cases "bindr (decode_utf8 t) json_loads")
      (auto simp: resource_limits_def snapshot_def text_call_def native_simps Let_def)
  then obtain data where "v = PDict data" "h' = h @ [TextReply SnapshotJson (Some t), FreeString SchedulerFree]"
      "limits = (case dget_or data ''limits'' (PDict []) of PDict l \<Rightarrow> l | _ \<Rightarrow> [])"
    using assms t by (cases "decode_utf8 t"; cases v)
      (auto simp: resource_limits_def snapshot_def text_call_def native_simps Let_def bindr_eq_Inr)
  moreover have "(case dget_or data ''limits'' (PDict []) of PDict l \<Rightarrow> l | _ \<Rightarrow> []) = snapshot_limits data"
    by (simp add: snapshot_limits_def dget_def dget_or_def split: option.split)
  ultimately show ?thesis using v by blast
qed

lemma session_enter_run:
  assumes "\<not> is_env_sandboxed (ew_env w)" "session_enter w s h = (Inr s', h')"
  shows "\<exists>reg hw t data m path configured. ew_registry w = Inr reg \<and> ew_hardware w = Inr hw
    \<and> h' = h @ [StatusReply configured 0, TextReply SnapshotJson (Some t), FreeString SchedulerFree]
    \<and> bindr (decode_utf8 t) json_loads = Inr (PDict data)
    \<and> choose_model s reg hw (snapshot_limits data) = Inr m \<and> s' = s\<lparr>es_resolved := Some (m, path)\<rparr>"
proof -
  have "\<exists>configured h1 limits reg hw m path. scheduler_client (ew_lib w) (ew_limits w) h = (Inr configured, h1)
      \<and> resource_limits (ew_lib w) h1 = (Inr limits, h') \<and> ew_registry w = Inr reg \<and> ew_hardware w = Inr hw
      \<and> choose_model s reg hw limits = Inr m \<and> s' = s\<lparr>es_resolved := Some (m, path)\<rparr>"
    using assms by (auto simp: session_enter_def liftn_def returnn_def elim!: bindn_Inr)
  then obtain configured h1 limits reg hw m path where run: "scheduler_client (ew_lib w) (ew_limits w) h = (Inr configured, h1)"
      "resource_limits (ew_lib w) h1 = (Inr limits, h')" "ew_registry w = Inr reg" "ew_hardware w = Inr hw"
      "choose_model s reg hw limits = Inr m" "s' = s\<lparr>es_resolved := Some (m, path)\<rparr>" by blast
  obtain c where "h1 = h @ [StatusReply c 0]"
    using run(1) by (auto simp: scheduler_client_def configure_limits_def status_call_def native_simps Let_def split: sum.splits if_splits)
  with run resource_limits_run[OF run(2)] show ?thesis by auto
qed

lemma gib_bound: "q \<le> gib n \<Longrightarrow> q * 1024 ^ 3 \<le> of_int n"
  by (simp add: gib_def field_simps)

section \<open>Properties\<close>

text \<open>
  C26. A session that opens outside the sandbox asked the scheduler for its snapshot, and the model it chose
  is one of the registry that needs no more RAM and VRAM than the limits in that snapshot allow: for a
  limit that is not a positive number, than the machine has. Its GPU backend is one the machine has.
\<close>

theorem session_model_within_limits:
  assumes "\<not> is_env_sandboxed (ew_env w)" "session_enter w s h = (Inr s', h')"
  shows "\<exists>reg hw configured snapshot data m path ram vram. ew_registry w = Inr reg \<and> ew_hardware w = Inr hw
    \<and> h' = h @ [StatusReply configured 0, TextReply SnapshotJson (Some snapshot), FreeString SchedulerFree]
    \<and> bindr (decode_utf8 snapshot) json_loads = Inr (PDict data)
    \<and> es_resolved s' = Some (m, path) \<and> m \<in> set (reg_models reg)
    \<and> int_or_zero (dget (snapshot_limits data) ''ram_bytes'') = Inr ram
    \<and> ms_ram_gb m * 1024 ^ 3 \<le> of_int (if 0 < ram then ram else hw_ram_bytes hw)
    \<and> int_or_zero (dget (snapshot_limits data) ''vram_bytes'') = Inr vram
    \<and> ms_vram_gb m * 1024 ^ 3 \<le> of_int (if 0 < vram then vram else hw_vram_bytes hw)
    \<and> model_backend_supported m (Some (hw_gpu_backends hw))"
proof -
  from session_enter_run[OF assms] obtain reg hw t data m path configured where
    w: "ew_registry w = Inr reg" "ew_hardware w = Inr hw" and
    asked: "h' = h @ [StatusReply configured 0, TextReply SnapshotJson (Some t), FreeString SchedulerFree]"
      "bindr (decode_utf8 t) json_loads = Inr (PDict data)" and
    m: "choose_model s reg hw (snapshot_limits data) = Inr m" "s' = s\<lparr>es_resolved := Some (m, path)\<rparr>" by blast
  obtain ram vram where limits: "int_or_zero (dget (snapshot_limits data) ''ram_bytes'') = Inr ram"
      "int_or_zero (dget (snapshot_limits data) ''vram_bytes'') = Inr vram"
    and within: "m \<in> set (reg_models reg)" "ms_ram_gb m \<le> gib (if ram \<le> 0 then hw_ram_bytes hw else ram)"
      "ms_vram_gb m \<le> gib (if vram \<le> 0 then hw_vram_bytes hw else vram)" "model_backend_supported m (Some (hw_gpu_backends hw))"
    using choose_model_within[OF m(1)] by (auto simp: within_limits_def session_args_def limit_gb_def bindr_eq_Inr)
  have "ms_ram_gb m * 1024 ^ 3 \<le> of_int (if 0 < ram then ram else hw_ram_bytes hw)"
      "ms_vram_gb m * 1024 ^ 3 \<le> of_int (if 0 < vram then vram else hw_vram_bytes hw)"
    using within(2,3)[THEN gib_bound] by (simp_all add: not_less split: if_splits)
  with w asked m(2) limits within(1,4) show ?thesis by auto
qed

definition demo_hardware :: hardware_info where
  "demo_hardware = \<lparr>hw_ram_bytes = 17179869184, hw_vram_bytes = 0, hw_free_vram_bytes = 0,
     hw_gpu_vendor = ''none'', hw_gpu_name = '''', hw_gpu_backend = ''cpu'', hw_gpu_backends = [],
     hw_gpu_compute = '''', hw_gpu_device = ''''\<rparr>"

definition demo_registry :: registry where
  "demo_registry = \<lparr>reg_models = [model_spec_init (yaml_model ''tiny'' ''qwen'' ''instruct'' ''tiny'' ''llama'' ''r''
       (Some ''f.gguf'') 5 0 32768)],
     reg_specialties = [(''chat'', specialty_init ''chat'' (yaml_specialty ''instruct'' None None))]\<rparr>"

definition demo_world :: engine_world where
  "demo_world = \<lparr>ew_env = (\<lambda>_. None),
     ew_lib = \<lparr>nl_status = (\<lambda>_ _. 0), nl_text = (\<lambda>_ c. if c = SnapshotJson then Some ''{}'' else None),
       nl_admission = (\<lambda>_ _. (1, '''', ''''))\<rparr>,
     ew_limits = Inr (None, None), ew_registry = Inr demo_registry, ew_hardware = Inr demo_hardware,
     ew_cache = \<lparr>cv_exists = (\<lambda>_. True), cv_has_entry = (\<lambda>_. True), cv_mkdir = (\<lambda>_. Inr ())\<rparr>,
     ew_hub = None, ew_cache_dir = ''/c'', ew_http_post = (\<lambda>_ _. Inl (RequestException ''refused'')),
     ew_digits = (\<lambda>_. ''5'')\<rparr>"

lemma demo_session_enter:
  "\<exists>s' h'. session_enter demo_world (new_session ''chat'' 0 None None) [] = (Inr s', h')"
proof -
  have "map_sum (\<lambda>_. ()) (\<lambda>_. ()) (fst (session_enter demo_world (new_session ''chat'' 0 None None) [])) = Inr ()"
    by code_simp
  then show ?thesis by (cases "session_enter demo_world (new_session ''chat'' 0 None None) []") (auto dest: map_sum_InrD)
qed

lemma session_model_within_limits_witness:
  "\<exists>s' h' m path. session_enter demo_world (new_session ''chat'' 0 None None) [] = (Inr s', h')
     \<and> es_resolved s' = Some (m, path) \<and> m \<in> set (reg_models demo_registry) \<and> ms_ram_gb m * 1024 ^ 3 \<le> 17179869184"
proof -
  obtain s' h' where e: "session_enter demo_world (new_session ''chat'' 0 None None) [] = (Inr s', h')"
    using demo_session_enter by blast
  have "\<not> is_env_sandboxed (ew_env demo_world)" by (simp add: demo_world_def is_env_sandboxed_def)
  moreover have "ew_registry demo_world = Inr demo_registry" "ew_hardware demo_world = Inr demo_hardware"
    by (simp_all add: demo_world_def)
  ultimately obtain configured snapshot data m path ram where
      m: "h' = [StatusReply configured 0, TextReply SnapshotJson (Some snapshot), FreeString SchedulerFree]"
      "bindr (decode_utf8 snapshot) json_loads = Inr (PDict data)" "es_resolved s' = Some (m, path)" "m \<in> set (reg_models demo_registry)"
      "int_or_zero (dget (snapshot_limits data) ''ram_bytes'') = Inr ram"
      "ms_ram_gb m * 1024 ^ 3 \<le> of_int (if 0 < ram then ram else hw_ram_bytes demo_hardware)"
    using session_model_within_limits[OF _ e] by auto
  have "snd (session_enter demo_world (new_session ''chat'' 0 None None) []) ! 1 = TextReply SnapshotJson (Some ''{}'')"
    by code_simp
  with e m(1) have "snapshot = ''{}''" by simp
  moreover have "bindr (decode_utf8 ''{}'') json_loads = Inr (PDict [])" "int_or_zero (dget (snapshot_limits []) ''ram_bytes'') = Inr 0"
    by code_simp+
  ultimately have "ram = 0" using m(2,5) by simp
  then have "ms_ram_gb m * 1024 ^ 3 \<le> 17179869184" using m(6) by (simp add: demo_hardware_def)
  with e m(3,4) show ?thesis by blast
qed

text \<open>
  C27. Inside the sandbox the native library is never called: opening a session and chatting leave the
  history as it was, whatever the answers, and every failure is an error of the sandbox's own kind.
\<close>

theorem sandboxed_session_stays_inside:
  assumes "is_env_sandboxed (ew_env w)"
  shows "snd (with_session_chat w specialty niceness messages max_tokens h) = h
    \<and> snd (with_session_embeddings w specialty niceness inputs h) = h"
  using assms
  by (auto simp: with_session_chat_def with_session_embeddings_def session_enter_def session_chat_def
      native_simps bindr_eq_Inr new_session_def split: sum.splits prod.splits)

lemma sandboxed_session_stays_inside_witness:
  "snd (with_session_chat (demo_world\<lparr>ew_env := [''BUBBLEHUB_SANDBOX'' \<mapsto> ''1'']\<rparr>) ''chat'' 0 [chat_msg ''user'' ''hi''] None []) = []"
proof -
  have "is_env_sandboxed (ew_env (demo_world\<lparr>ew_env := [''BUBBLEHUB_SANDBOX'' \<mapsto> ''1'']\<rparr>))"
    by (simp add: is_env_sandboxed_def)
  from sandboxed_session_stays_inside[OF this] show ?thesis by blast
qed

text \<open>
  The conversation arrives: the text handed to the native library under \<^verbatim>\<open>messages_json\<close> parses
  back to exactly the messages of the call, roles and contents, in order.
\<close>

theorem chat_request_messages_arrive:
  "\<exists>t. map_of (chat_request digits s model path messages n) ''messages_json'' = Some (PStr t)
     \<and> json_loads t = Inr (PList (map json_message messages))"
  using json_loads_dumps[OF json_messages_clean] by (simp add: chat_request_def)

lemma before_fence_found: "CHR 0x60 \<notin> set b \<Longrightarrow> before_fence (b @ fence @ r) = Some b"
proof (induction b)
  case Nil
  then show ?case by (simp add: fence_def startswith_def)
next
  case (Cons c b)
  then have "\<not> startswith fence (c # b @ fence @ r)" by (auto simp: fence_def startswith_def)
  with Cons show ?case by simp
qed

lemma strip_fenced: "strip (fence @ b @ fence) = fence @ b @ fence"
proof (rule strip_stripped)
  have "\<not> is_space CHR 0x60" by (simp add: is_space_def)
  then show "stripped (fence @ b @ fence)" by (simp add: stripped_def fence_def)
qed

text \<open>
  A model answer that wraps its object in a \<^verbatim>\<open>json\<close> code fence, or gives it bare, is read as that
  object.
\<close>

theorem parse_json_output_reads:
  assumes "json_clean (PDict d)" "CHR 0x60 \<notin> set (json_dumps (PDict d))"
  shows "parse_json_output (fence @ ''json'' @ [ch_nl] @ json_dumps (PDict d) @ [ch_nl] @ fence) = Inr d
    \<and> parse_json_output (json_dumps (PDict d)) = Inr d"
proof -
  let ?t = "json_dumps (PDict d)"
  obtain m where t: "?t = CHR ''{'' # m @ [CHR ''}'']"
    by (cases "d = []") (auto simp: json_dumps_def default_style_def line_break_def)
  have ns: "\<not> is_space CHR ''{''" "\<not> is_space CHR ''}''" "is_space ch_nl"
    by (simp_all add: is_space_def ch_nl_def)
  have st: "stripped ?t" using ns by (simp add: t stripped_def)
  have bare: "strip ?t = ?t" using st by (rule strip_stripped)
  have nf: "\<not> startswith fence ?t" by (simp add: t startswith_def fence_def)
  have l: "lstrip ([ch_nl] @ ?t @ [ch_nl] @ fence) = (?t @ [ch_nl]) @ fence @ []"
    using ns by (simp add: lstrip_def t)
  have low: "lower (take 4 (''json'' @ u)) = ''json''" for u
  proof -
    have "take 4 (''json'' @ u) = ''json''" by simp
    moreover have "lower ''json'' = ''json''" by code_simp
    ultimately show ?thesis by metis
  qed
  have q: "CHR 0x60 \<notin> set (?t @ [ch_nl])" using assms(2) by (simp add: ch_nl_def)
  let ?x = "fence @ ''json'' @ [ch_nl] @ ?t @ [ch_nl] @ fence"
  have drops: "drop 3 (fence @ u) = u" "drop 4 (''json'' @ u) = u" for u by (simp_all add: fence_def)
  have f: "fenced_text ?x = Some (?t @ [ch_nl])"
    unfolding fenced_text_def Let_def drops low if_P[OF refl] l by (rule before_fence_found[OF q])
  have "rstrip (?t @ [ch_nl]) = rstrip ?t" using ns by (simp add: rstrip_snoc)
  moreover have "lstrip (?t @ [ch_nl]) = ?t @ [ch_nl]" "lstrip ?t = ?t" using ns by (simp_all add: lstrip_def t)
  ultimately have s: "strip (?t @ [ch_nl]) = ?t" using bare by (simp add: strip_def)
  have x: "strip ?x = ?x" using strip_fenced[of "''json'' @ [ch_nl] @ ?t @ [ch_nl]"] by simp
  have "startswith fence ?x" by (rule startswith_append)
  then have "parse_json_output ?x = Inr d"
    unfolding parse_json_output_def Let_def x f by (simp add: s json_loads_dumps[OF assms(1)])
  moreover have "parse_json_output ?t = Inr d"
    unfolding parse_json_output_def Let_def bare by (simp add: nf json_loads_dumps[OF assms(1)])
  ultimately show ?thesis by blast
qed

lemma parse_json_output_reads_witness:
  "parse_json_output (fence @ ''json'' @ [ch_nl] @ json_dumps (PDict [(''a'', PInt 1)]) @ [ch_nl] @ fence)
     = Inr [(''a'', PInt 1)]"
proof -
  have "json_clean (PDict [(''a'', PInt 1)])" by simp
  moreover have "CHR 0x60 \<notin> set (json_dumps (PDict [(''a'', PInt 1)]))" by code_simp
  ultimately show ?thesis using parse_json_output_reads by blast
qed

text \<open>
  A structured prompt asks the model once when the answer parses and exactly one more time when it
  does not; a second unreadable answer is the error of the prompt, and nothing is asked when the
  example file is bad.
\<close>

theorem run_prompt_retries_once:
  "case load_example_schema file of
     Inl e \<Rightarrow> run_prompt chat (Some file) text = (Inl e, [])
   | Inr example \<Rightarrow>
       (let first = build_structured_messages example text in
        case bindr (chat [] first) parse_json_output of
          Inr parsed \<Rightarrow> run_prompt chat (Some file) text = (Inr (json_dumps_indent (PDict parsed)), [first])
        | Inl e \<Rightarrow>
            (case chat [] first of
               Inl e' \<Rightarrow> run_prompt chat (Some file) text = (Inl e', [first])
             | Inr raw \<Rightarrow>
                 (let again = build_repair_messages example text raw in
                  run_prompt chat (Some file) text =
                    (map_sum id (\<lambda>parsed. json_dumps_indent (PDict parsed)) (bindr (chat [first] again) parse_json_output),
                     [first, again]))))"
  by (auto simp: run_prompt_def Let_def bindr_def split: sum.splits)

end
