(* ===== verification/Http_Api.thy ===== *)
theory Http_Api
  imports Engine_Session
begin

text \<open>
  The OpenAI-compatible HTTP front end of \<^verbatim>\<open>bubblehub/http_api.py\<close>: reading a request, choosing the
  specialty and the token limit, calling the engine and writing the answer, as one JSON object or as
  a stream of server-sent events. A handler is a function of the request and of the history of the
  native library (\<open>Native_Scheduler\<close>); it returns the one response it sends. The identifiers and
  the clock of a response are a parameter; the \<^verbatim>\<open>Server\<close> and \<^verbatim>\<open>Date\<close> headers of
  \<^verbatim>\<open>BaseHTTPRequestHandler\<close> are left out.
\<close>

section \<open>Requests and responses\<close>

record api_config =
  ac_host :: string
  ac_port :: int
  ac_default_specialty :: string
  ac_niceness :: int

record http_request =
  rq_path :: string
  rq_content_length :: "string option"
  rq_body :: string

record http_response =
  rs_status :: int
  rs_headers :: "(string \<times> string) list"
  rs_body :: string

record stamps =
  st_hex :: "nat \<Rightarrow> string"
  st_now :: int

section \<open>Payloads\<close>

text \<open>An \<^verbatim>\<open>id\<close> or a time that is given replaces the fresh one unless it is empty or 0.\<close>

definition chat_completion_payload :: "stamps \<Rightarrow> string \<Rightarrow> string \<Rightarrow> string option \<Rightarrow> int option \<Rightarrow> pydict" where
  "chat_completion_payload st model content response_id created =
     [(''id'', PStr (case str_or response_id None of Some i \<Rightarrow> i | None \<Rightarrow> ''chatcmpl-'' @ st_hex st 0)),
      (''object'', PStr ''chat.completion''),
      (''created'', PInt (int_or created (st_now st))),
      (''model'', PStr model),
      (''choices'', PList [PDict
        [(''index'', PInt 0),
         (''message'', PDict [(''role'', PStr ''assistant''), (''content'', PStr content)]),
         (''finish_reason'', PStr ''stop'')]])]"

definition responses_payload :: "stamps \<Rightarrow> string \<Rightarrow> string \<Rightarrow> string option \<Rightarrow> int option \<Rightarrow> pydict" where
  "responses_payload st model content response_id created =
     (let output_id = ''msg-'' @ st_hex st 0; text_id = ''txt-'' @ st_hex st 1 in
      [(''id'', PStr (case str_or response_id None of Some i \<Rightarrow> i | None \<Rightarrow> ''resp-'' @ st_hex st 2)),
       (''object'', PStr ''response''),
       (''created_at'', PInt (int_or created (st_now st))),
       (''status'', PStr ''completed''),
       (''model'', PStr model),
       (''output'', PList [PDict
         [(''id'', PStr output_id), (''type'', PStr ''message''), (''role'', PStr ''assistant''),
          (''status'', PStr ''completed''),
          (''content'', PList [PDict
            [(''id'', PStr text_id), (''type'', PStr ''output_text''), (''text'', PStr content)]])]]),
       (''output_text'', PStr content)])"

definition count_words :: "string list \<Rightarrow> int" where
  "count_words inputs = sum_list (map (\<lambda>item. int (length (split_ws item))) inputs)"

definition embeddings_payload :: "string \<Rightarrow> pyval list list \<Rightarrow> string list \<Rightarrow> pydict" where
  "embeddings_payload model vectors inputs =
     [(''object'', PStr ''list''), (''model'', PStr model),
      (''data'', PList (map (\<lambda>(index, vector).
         PDict [(''object'', PStr ''embedding''), (''index'', PInt (int index)), (''embedding'', PList vector)])
         (enumerate 0 vectors))),
      (''usage'', PDict [(''prompt_tokens'', PInt (count_words inputs)), (''total_tokens'', PInt (count_words inputs))])]"

section \<open>Specialty, model name and token limit\<close>

definition resolve_specialty_alias :: "registry result \<Rightarrow> string \<Rightarrow> string \<Rightarrow> string result" where
  "resolve_specialty_alias registry v d = bindr registry (\<lambda>reg.
     if map_of (reg_specialties reg) v \<noteq> None then Inr v
     else if startswith ''openai/'' v \<and> map_of (reg_specialties reg) (after_char CHR ''/'' v) \<noteq> None
       then Inr (after_char CHR ''/'' v)
     else Inr d)"

definition specialty_from_body :: "registry result \<Rightarrow> pydict \<Rightarrow> string \<Rightarrow> string result" where
  "specialty_from_body registry body d =
     (let explicit = py_or (dget body ''bubblehub_specialty'') (dget body ''bubblehub_speciality'') in
      if truthy explicit then resolve_specialty_alias registry (py_str explicit) d
      else resolve_specialty_alias registry (py_str (dget_or body ''model'' (PStr ''''))) d)"

definition response_model_name :: "pydict \<Rightarrow> string \<Rightarrow> string" where
  "response_model_name body specialty =
     (let model = dget body ''model'' in if truthy model then py_str model else specialty)"

definition http_default_max_tokens :: "env \<Rightarrow> int result" where
  "http_default_max_tokens e =
     (case e ''BUBBLEHUB_MAX_OUTPUT_TOKENS'' of
        None \<Rightarrow> Inr 512
      | Some v \<Rightarrow> (case parse_int v of
            None \<Rightarrow> Inl (ValueError ''BUBBLEHUB_MAX_OUTPUT_TOKENS must be an integer'')
          | Some parsed \<Rightarrow> if parsed \<le> 0
              then Inl (ValueError ''BUBBLEHUB_MAX_OUTPUT_TOKENS must be greater than zero'') else Inr parsed))"

fun max_output_tokens :: "env \<Rightarrow> pydict \<Rightarrow> string list \<Rightarrow> int result" where
  "max_output_tokens e body [] = http_default_max_tokens e"
| "max_output_tokens e body (field_name # field_names) =
     (let v = dget body field_name in
      if v = PNone then max_output_tokens e body field_names
      else (case py_int v of
          Inl err \<Rightarrow> if is_type_or_value_error err
            then Inl (ValueError (field_name @ '' must be an integer'')) else Inl err
        | Inr parsed \<Rightarrow> if 0 < parsed then Inr parsed else http_default_max_tokens e))"

section \<open>Writing responses\<close>

fun status_phrase :: "int \<Rightarrow> string" where
  "status_phrase n = (if n = 200 then ''OK'' else if n = 400 then ''Bad Request''
     else if n = 404 then ''Not Found'' else ''Bad Gateway'')"

definition send_json :: "pydict \<Rightarrow> int \<Rightarrow> http_response" where
  "send_json payload status =
     (let encoded = utf8_encode (json_dumps (PDict payload)) in
      \<lparr>rs_status = status,
       rs_headers = [(''content-type'', ''application/json''), (''content-length'', show_int (int (length encoded)))],
       rs_body = encoded\<rparr>)"

definition underscored :: "string \<Rightarrow> string" where
  "underscored s = map (\<lambda>c. if c = CHR '' '' then CHR ''_'' else c) s"

definition error_payload :: "int \<Rightarrow> string \<Rightarrow> pydict" where
  "error_payload status message =
     [(''error'', PDict [(''message'', PStr message),
        (''type'', PStr (underscored (lower (status_phrase status)))), (''code'', PInt status)])]"

definition send_error :: "int \<Rightarrow> string \<Rightarrow> http_response" where
  "send_error status message = send_json (error_payload status message) status"

definition sse_frame :: "string \<Rightarrow> string" where
  "sse_frame data = ''data: '' @ data @ [ch_nl, ch_nl]"

definition send_sse :: "pyval list \<Rightarrow> http_response" where
  "send_sse events =
     \<lparr>rs_status = 200,
      rs_headers = [(''content-type'', ''text/event-stream''), (''cache-control'', ''no-cache''), (''connection'', ''close'')],
      rs_body = concat (map (\<lambda>e. utf8_encode (sse_frame (json_dumps e))) events) @ sse_frame ''[DONE]''\<rparr>"

definition chat_chunk :: "stamps \<Rightarrow> string \<Rightarrow> pydict \<Rightarrow> pyval \<Rightarrow> pyval" where
  "chat_chunk st model delta finish =
     PDict [(''id'', PStr (''chatcmpl-'' @ st_hex st 0)), (''object'', PStr ''chat.completion.chunk''),
       (''created'', PInt (st_now st)), (''model'', PStr model),
       (''choices'', PList [PDict [(''index'', PInt 0), (''delta'', PDict delta), (''finish_reason'', finish)]])]"

definition chat_completion_stream :: "stamps \<Rightarrow> string \<Rightarrow> string \<Rightarrow> http_response" where
  "chat_completion_stream st model content =
     send_sse [chat_chunk st model [(''role'', PStr ''assistant'')] PNone,
       chat_chunk st model [(''content'', PStr content)] PNone,
       chat_chunk st model [] (PStr ''stop'')]"

definition responses_events :: "stamps \<Rightarrow> string \<Rightarrow> string \<Rightarrow> pyval list" where
  "responses_events st model content =
     (let response = responses_payload st model content None None in
      [PDict [(''type'', PStr ''response.created''), (''response'', PDict (dput ''output'' (PList []) response))],
       PDict [(''type'', PStr ''response.output_text.delta''), (''item_id'', PStr (''msg-'' @ st_hex st 0)),
         (''output_index'', PInt 0), (''content_index'', PInt 0), (''delta'', PStr content)],
       PDict [(''type'', PStr ''response.completed''), (''response'', PDict response)]])"

definition responses_stream :: "stamps \<Rightarrow> string \<Rightarrow> string \<Rightarrow> http_response" where
  "responses_stream st model content = send_sse (responses_events st model content)"

section \<open>The handlers\<close>

definition server_chat ::
  "engine_world \<Rightarrow> api_config \<Rightarrow> string \<Rightarrow> chat_message list \<Rightarrow> int option \<Rightarrow> string native" where
  "server_chat w cfg specialty messages max_tokens = with_session_chat w specialty (ac_niceness cfg) messages max_tokens"

definition server_embeddings :: "engine_world \<Rightarrow> api_config \<Rightarrow> string \<Rightarrow> string list \<Rightarrow> pyval list list native" where
  "server_embeddings w cfg specialty inputs = with_session_embeddings w specialty (ac_niceness cfg) inputs"

definition server_preload :: "engine_world \<Rightarrow> api_config \<Rightarrow> string option \<Rightarrow> unit native" where
  "server_preload w cfg specialty =
     bindn (session_enter w (new_session (first_name specialty None (ac_default_specialty cfg)) (ac_niceness cfg) None None))
       (\<lambda>_. returnn ())"

definition read_json :: "http_request \<Rightarrow> pydict result" where
  "read_json req =
     (let header = (case rq_content_length req of None \<Rightarrow> ''0'' | Some s \<Rightarrow> s) in
      case py_int (PStr header) of
        Inl e \<Rightarrow> Inl e
      | Inr n \<Rightarrow>
          if n \<le> 0 then Inl (ValueError ''request body is required'')
          else bindr (decode_utf8 (take (nat n) (rq_body req))) (\<lambda>raw. bindr (json_loads raw) (\<lambda>data.
            case data of PDict d \<Rightarrow> Inr d | _ \<Rightarrow> Inl (ValueError ''request body must be a JSON object''))))"

definition handle_chat_completions ::
  "engine_world \<Rightarrow> api_config \<Rightarrow> stamps \<Rightarrow> pydict \<Rightarrow> http_response native" where
  "handle_chat_completions w cfg st body =
     (case dget body ''messages'' of
        PList (m # ms) \<Rightarrow>
          bindn (liftn (normalize_chat_messages (m # ms))) (\<lambda>normalized.
          bindn (liftn (specialty_from_body (ew_registry w) body (ac_default_specialty cfg))) (\<lambda>specialty.
          bindn (liftn (max_output_tokens (ew_env w) body [''max_tokens'', ''max_completion_tokens''])) (\<lambda>max_tokens.
          bindn (server_chat w cfg specialty normalized (Some max_tokens)) (\<lambda>content.
            let model = response_model_name body specialty in
            returnn (if truthy (dget body ''stream'') then chat_completion_stream st model content
              else send_json (chat_completion_payload st model content None None) 200)))))
      | _ \<Rightarrow> raisen (ValueError ''messages must be a non-empty list''))"

definition handle_responses :: "engine_world \<Rightarrow> api_config \<Rightarrow> stamps \<Rightarrow> pydict \<Rightarrow> http_response native" where
  "handle_responses w cfg st body =
     bindn (liftn (messages_from_responses_input (dget body ''input''))) (\<lambda>messages.
     bindn (liftn (specialty_from_body (ew_registry w) body (ac_default_specialty cfg))) (\<lambda>specialty.
     bindn (liftn (max_output_tokens (ew_env w) body [''max_output_tokens'', ''max_tokens''])) (\<lambda>max_tokens.
     bindn (server_chat w cfg specialty messages (Some max_tokens)) (\<lambda>content.
       let model = response_model_name body specialty in
       returnn (if truthy (dget body ''stream'') then responses_stream st model content
         else send_json (responses_payload st model content None None) 200)))))"

definition handle_embeddings :: "engine_world \<Rightarrow> api_config \<Rightarrow> pydict \<Rightarrow> http_response native" where
  "handle_embeddings w cfg body =
     bindn (liftn (normalize_embeddings_input (dget body ''input''))) (\<lambda>inputs.
     bindn (liftn (specialty_from_body (ew_registry w) body (ac_default_specialty cfg))) (\<lambda>specialty.
     bindn (server_embeddings w cfg specialty inputs) (\<lambda>vectors.
       returnn (send_json (embeddings_payload (response_model_name body specialty) vectors inputs) 200))))"

definition unknown_endpoint :: "string \<Rightarrow> http_response" where
  "unknown_endpoint path = send_error 404 (''unknown endpoint: '' @ path)"

definition do_GET :: "http_request \<Rightarrow> http_response" where
  "do_GET req =
     (if rq_path req = ''/health'' then send_json [(''status'', PStr ''ok'')] 200
      else unknown_endpoint (rq_path req))"

definition post_route :: "engine_world \<Rightarrow> api_config \<Rightarrow> stamps \<Rightarrow> string \<Rightarrow> pydict \<Rightarrow> http_response native" where
  "post_route w cfg st path body =
     (if path = ''/v1/chat/completions'' then handle_chat_completions w cfg st body
      else if path = ''/v1/responses'' then handle_responses w cfg st body
      else if path = ''/v1/embeddings'' then handle_embeddings w cfg body
      else returnn (unknown_endpoint path))"

definition do_POST ::
  "engine_world \<Rightarrow> api_config \<Rightarrow> stamps \<Rightarrow> http_request \<Rightarrow> history \<Rightarrow> http_response \<times> history" where
  "do_POST w cfg st req h =
     (case bindn (liftn (read_json req)) (post_route w cfg st (rq_path req)) h of
        (Inr response, h') \<Rightarrow> (response, h')
      | (Inl e, h') \<Rightarrow> (if is_value_error e then send_error 400 (exn_text e) else send_error 502 (exn_text e), h'))"

section \<open>What a client reads\<close>

definition response_json :: "http_response \<Rightarrow> pyval result" where
  "response_json r = bindr (decode_utf8 (rs_body r)) json_loads"

lemma response_json_send: "json_clean (PDict p) \<Longrightarrow> response_json (send_json p n) = Inr (PDict p)"
  by (simp add: response_json_def send_json_def Let_def json_loads_dumps)

lemma error_payload_clean: "json_clean (PDict (error_payload n m))"
  by (simp add: error_payload_def)

lemma chat_payload_clean: "json_clean (PDict (chat_completion_payload st model content i c))"
  by (simp add: chat_completion_payload_def)

lemma responses_payload_clean: "json_clean (PDict (responses_payload st model content i c))"
  by (simp add: responses_payload_def Let_def)

text \<open>A framed response: the length header, when there is one, is the number of bytes of the body.\<close>

definition framed :: "http_response \<Rightarrow> bool" where
  "framed r \<longleftrightarrow> (case map_of (rs_headers r) ''content-length'' of None \<Rightarrow> True
     | Some n \<Rightarrow> n = show_int (int (length (rs_body r))))"

lemma framed_send_json: "framed (send_json p n)"
  by (simp add: framed_def send_json_def Let_def)

lemma framed_send_sse: "framed (send_sse es)"
  by (simp add: framed_def send_sse_def)

lemma send_json_status [simp]: "rs_status (send_json p n) = n"
  by (simp add: send_json_def Let_def)

lemma send_error_status [simp]: "rs_status (send_error n m) = n"
  by (simp add: send_error_def)

lemma send_sse_status [simp]: "rs_status (send_sse es) = 200"
  by (simp add: send_sse_def)

subsection \<open>The contract of a handler\<close>

text \<open>
  A handler of a parsed body: its answers have an allowed status and are framed. Whatever it raises
  becomes a 400 or a 502 answer with a JSON body.
\<close>

locale post_handler =
  fixes handler :: "pydict \<Rightarrow> http_response native"
    and allowed :: "int set"
  assumes answers: "handler body h = (Inr r, h') \<Longrightarrow> rs_status r \<in> allowed \<and> framed r"
begin

definition answer :: "pydict result \<Rightarrow> history \<Rightarrow> http_response \<times> history" where
  "answer body h = (case bindn (liftn body) handler h of
     (Inr response, h') \<Rightarrow> (response, h')
   | (Inl e, h') \<Rightarrow> (if is_value_error e then send_error 400 (exn_text e) else send_error 502 (exn_text e), h'))"

lemma answer_framed: "framed (fst (answer body h)) \<and> rs_status (fst (answer body h)) \<in> allowed \<union> {400, 502}"
  using answers
  by (auto simp: answer_def send_error_def framed_send_json bindn_def liftn_def split: prod.splits sum.splits)

lemma answer_unread: "body = Inl e \<Longrightarrow> snd (answer body h) = h"
  by (simp add: answer_def bindn_def liftn_def)

end

lemma post_route_answers:
  assumes "post_route w cfg st path body h = (Inr r, h')"
  shows "rs_status r \<in> {200, 404} \<and> framed r"
  using assms
  by (auto simp: post_route_def handle_chat_completions_def handle_responses_def handle_embeddings_def
      unknown_endpoint_def send_error_def chat_completion_stream_def responses_stream_def Let_def
      returnn_def raisen_def framed_send_json framed_send_sse
      elim!: bindn_Inr split: if_splits pyval.splits list.splits)

interpretation post: post_handler "post_route w cfg st path" "{200, 404}" for w cfg st path
  by unfold_locales (rule post_route_answers)

lemma do_POST_answer: "do_POST w cfg st req h = post.answer w cfg st (rq_path req) (read_json req) h"
  by (simp add: do_POST_def post.answer_def)

lemma bindr_error:
  "bindr m f = Inl e \<Longrightarrow> (m = Inl e \<Longrightarrow> p e) \<Longrightarrow> (\<And>x. m = Inr x \<Longrightarrow> f x = Inl e \<Longrightarrow> p e) \<Longrightarrow> p e"
  by (cases m) auto

lemma int_text_error: "py_int (PStr s) = Inl e \<Longrightarrow> is_value_error e"
  by (auto split: option.splits)

lemma read_json_error:
  assumes "read_json req = Inl e" shows "is_value_error e"
proof (cases "py_int (PStr (case rq_content_length req of None \<Rightarrow> ''0'' | Some s \<Rightarrow> s))")
  case (Inl e')
  with assms int_text_error show ?thesis by (auto simp: read_json_def Let_def simp del: py_int.simps)
next
  case (Inr n)
  show ?thesis
  proof (cases "n \<le> 0")
    case True
    with assms Inr have "e = ValueError ''request body is required''"
      by (simp add: read_json_def Let_def del: py_int.simps)
    then show ?thesis by simp
  next
    case False
    with assms Inr have "bindr (decode_utf8 (take (nat n) (rq_body req))) (\<lambda>raw. bindr (json_loads raw) (\<lambda>data.
            case data of PDict d \<Rightarrow> Inr d | _ \<Rightarrow> Inl (ValueError ''request body must be a JSON object''))) = Inl e"
      by (simp add: read_json_def Let_def del: py_int.simps)
    then show ?thesis
    proof (rule bindr_error)
      fix raw
      assume "bindr (json_loads raw) (\<lambda>data. case data of PDict d \<Rightarrow> Inr d
          | _ \<Rightarrow> Inl (ValueError ''request body must be a JSON object'')) = Inl e"
      then show ?thesis
      proof (rule bindr_error)
        fix data
        assume "(case data of PDict d \<Rightarrow> Inr d | _ \<Rightarrow> Inl (ValueError ''request body must be a JSON object'')) = Inl e"
        then show ?thesis by (cases data) auto
      qed (rule json_loads_error)
    qed (rule decode_utf8_error)
  qed
qed

subsection \<open>Limits and names\<close>

lemma http_default_max_tokens_positive: "http_default_max_tokens e = Inr n \<Longrightarrow> 0 < n"
  by (auto simp: http_default_max_tokens_def split: option.splits if_splits)

lemma max_output_tokens_positive: "max_output_tokens e body fs = Inr n \<Longrightarrow> 0 < n"
  by (induction e body fs rule: max_output_tokens.induct)
    (auto simp: Let_def http_default_max_tokens_positive split: if_splits sum.splits)

lemma specialty_known:
  assumes "specialty_from_body (Inr reg) body d = Inr s"
  shows "s = d \<or> map_of (reg_specialties reg) s \<noteq> None"
  using assms by (auto simp: specialty_from_body_def resolve_specialty_alias_def Let_def split: if_splits)

subsection \<open>Streams\<close>

definition sse_lines :: "string \<Rightarrow> string list" where
  "sse_lines body = filter (\<lambda>l. l \<noteq> []) (split_on ch_nl body)"

lemma sse_lines_frame:
  assumes "ch_nl \<notin> set data"
  shows "sse_lines (sse_frame data @ rest) = (''data: '' @ data) # sse_lines rest"
proof -
  have n: "\<And>c. c \<in> set (''data: '' @ data) \<Longrightarrow> \<not> (=) ch_nl c" using assms by (auto simp: ch_nl_def)
  have "split_by ((=) ch_nl) ((''data: '' @ data) @ ch_nl # (ch_nl # rest))
      = (''data: '' @ data) # [] # split_by ((=) ch_nl) rest"
    by (subst split_by_append_sep) (use n in auto)
  then show ?thesis by (simp add: sse_lines_def split_on_def sse_frame_def)
qed

lemma utf8_sse_frame: "floats_printable e \<Longrightarrow> utf8_encode (sse_frame (json_dumps e)) = sse_frame (json_dumps e)"
proof -
  have a: "utf8_encode (s @ t) = utf8_encode s @ utf8_encode t" for s t by (simp add: utf8_encode_def)
  have "utf8_encode ''data: '' = ''data: ''" "utf8_encode [ch_nl, ch_nl] = [ch_nl, ch_nl]" by code_simp+
  moreover assume "floats_printable e"
  ultimately show ?thesis
    unfolding sse_frame_def a by (simp add: utf8_encode_printable json_dumps_printable)
qed

lemma sse_lines_send:
  assumes "list_all floats_printable es"
  shows "sse_lines (rs_body (send_sse es)) = map (\<lambda>e. ''data: '' @ json_dumps e) es @ [''data: [DONE]'']"
  using assms
proof (induction es)
  case Nil
  have "ch_nl \<notin> set ''[DONE]''" by (simp add: ch_nl_def)
  from sse_lines_frame[OF this, of "[]"] show ?case by (simp add: send_sse_def sse_lines_def split_on_def)
next
  case (Cons e es)
  then have "ch_nl \<notin> set (json_dumps e)" by (simp add: json_dumps_printable printable_no_newline)
  from sse_lines_frame[OF this] Cons show ?case by (simp add: send_sse_def utf8_sse_frame)
qed

text \<open>The text a streaming client puts together: the content of each delta, until the end mark.\<close>

definition delta_text :: "pyval \<Rightarrow> string" where
  "delta_text event =
     (case bindr (py_item event ''choices'') (\<lambda>cs. bindr (py_first cs) (\<lambda>c.
             bindr (py_item c ''delta'') (\<lambda>d. py_item d ''content''))) of
        Inr v \<Rightarrow> py_str v | Inl _ \<Rightarrow> [])"

definition stream_text :: "http_response \<Rightarrow> string" where
  "stream_text r = concat (map (\<lambda>l. case json_loads (drop 6 l) of Inr v \<Rightarrow> delta_text v | Inl _ \<Rightarrow> [])
     (takeWhile (\<lambda>l. l \<noteq> ''data: [DONE]'') (sse_lines (rs_body r))))"

definition responses_delta :: "pyval \<Rightarrow> string" where
  "responses_delta event =
     (case event of PDict d \<Rightarrow>
        if dget d ''type'' = PStr ''response.output_text.delta'' then py_str (dget d ''delta'') else []
      | _ \<Rightarrow> [])"

definition responses_stream_text :: "http_response \<Rightarrow> string" where
  "responses_stream_text r = concat (map (\<lambda>l. case json_loads (drop 6 l) of Inr v \<Rightarrow> responses_delta v | Inl _ \<Rightarrow> [])
     (takeWhile (\<lambda>l. l \<noteq> ''data: [DONE]'') (sse_lines (rs_body r))))"

lemma not_done: "json_dumps (PDict d) \<noteq> ''[DONE]''"
  by (simp add: json_dumps_def)

lemma takeWhile_end: "\<forall>x \<in> set xs. p x \<Longrightarrow> \<not> p y \<Longrightarrow> takeWhile p (xs @ [y]) = xs"
  by (induction xs) auto

lemma stream_reads:
  assumes "list_all floats_printable es" "list_all json_clean es" "\<forall>e \<in> set es. \<exists>d. e = PDict d"
  shows "concat (map (\<lambda>l. case json_loads (drop 6 l) of Inr v \<Rightarrow> f v | Inl _ \<Rightarrow> [])
     (takeWhile (\<lambda>l. l \<noteq> ''data: [DONE]'') (sse_lines (rs_body (send_sse es))))) = concat (map f es)"
proof -
  have t: "takeWhile (\<lambda>l. l \<noteq> ''data: [DONE]'') (map (\<lambda>e. ''data: '' @ json_dumps e) es @ [''data: [DONE]''])
      = map (\<lambda>e. ''data: '' @ json_dumps e) es"
  proof -
    have "\<forall>l \<in> set (map (\<lambda>e. ''data: '' @ json_dumps e) es). l \<noteq> ''data: [DONE]''"
      using assms(3) not_done by fastforce
    then show ?thesis by (rule takeWhile_end) simp
  qed
  have "concat (map (\<lambda>e. case json_loads (json_dumps e) of Inr v \<Rightarrow> f v | Inl _ \<Rightarrow> []) es) = concat (map f es)"
    using assms(2) by (induction es) (auto simp: json_loads_dumps)
  then show ?thesis unfolding sse_lines_send[OF assms(1)] t by (simp add: comp_def)
qed

section \<open>Properties\<close>

text \<open>
  C24. Every POST is answered: with status 200, 400, 404 or 502 and, when the answer is not a stream, a
  length header that is the length of its body; a body that cannot be read (no length, bad UTF-8, bad
  JSON, no object) is answered with 400 before anything else happens.
\<close>

theorem do_POST_always_answers:
  "framed (fst (do_POST w cfg st req h)) \<and> rs_status (fst (do_POST w cfg st req h)) \<in> {200, 404, 400, 502}
   \<and> (case read_json req of Inr body \<Rightarrow> True
      | Inl e \<Rightarrow> do_POST w cfg st req h = (send_error 400 (exn_text e), h))"
proof -
  have "framed (fst (do_POST w cfg st req h)) \<and> rs_status (fst (do_POST w cfg st req h)) \<in> {200, 404} \<union> {400, 502}"
    unfolding do_POST_answer by (rule post.answer_framed)
  moreover have "do_POST w cfg st req h = (send_error 400 (exn_text e), h)" if "read_json req = Inl e" for e
    using that read_json_error[OF that] by (simp add: do_POST_def native_simps)
  ultimately show ?thesis by (auto split: sum.splits)
qed

text \<open>
  C9. The engine is called by a chat request only after the whole request is validated: either the
  history of the native library is as before and the answer is an error, or the body was read, its
  messages form a well-formed conversation, the specialty is a known one or the configured default, and
  the token limit is positive, and exactly that call was made.
\<close>

theorem chat_reaches_engine_validated:
  assumes "rq_path req = ''/v1/chat/completions''" "ew_registry w = Inr reg"
    and "do_POST w cfg st req h = (resp, h')"
  shows "h' = h \<and> rs_status resp \<in> {400, 502}
    \<or> (\<exists>body ms conversation specialty n. read_json req = Inr body
        \<and> dget body ''messages'' = PList ms \<and> normalize_chat_messages ms = Inr conversation
        \<and> well_formed conversation \<and> conversation \<noteq> []
        \<and> (specialty = ac_default_specialty cfg \<or> map_of (reg_specialties reg) specialty \<noteq> None)
        \<and> 0 < n \<and> h' = snd (server_chat w cfg specialty conversation (Some n) h))"
proof (cases "read_json req")
  case (Inl e)
  with do_POST_always_answers[of w cfg st req h] assms(3) show ?thesis by simp
next
  case (Inr body)
  have post: "do_POST w cfg st req h = (case handle_chat_completions w cfg st body h of
      (Inr response, h') \<Rightarrow> (response, h')
    | (Inl e, h') \<Rightarrow> (if is_value_error e then send_error 400 (exn_text e) else send_error 502 (exn_text e), h'))"
    using Inr assms(1) by (simp add: do_POST_def native_simps post_route_def)
  show ?thesis
  proof (cases "\<exists>ms conversation specialty n. dget body ''messages'' = PList ms \<and> ms \<noteq> []
      \<and> normalize_chat_messages ms = Inr conversation
      \<and> specialty_from_body (ew_registry w) body (ac_default_specialty cfg) = Inr specialty
      \<and> max_output_tokens (ew_env w) body [''max_tokens'', ''max_completion_tokens''] = Inr n")
    case True
    then obtain ms conversation specialty n where c: "dget body ''messages'' = PList ms" "ms \<noteq> []"
        "normalize_chat_messages ms = Inr conversation"
        "specialty_from_body (ew_registry w) body (ac_default_specialty cfg) = Inr specialty"
        "max_output_tokens (ew_env w) body [''max_tokens'', ''max_completion_tokens''] = Inr n" by blast
    obtain m ms' where ms: "ms = m # ms'" using c(2) by (cases ms) auto
    have "snd (handle_chat_completions w cfg st body h) = snd (server_chat w cfg specialty conversation (Some n) h)"
      using c ms by (auto simp: handle_chat_completions_def native_simps Let_def split: prod.splits sum.splits)
    then have "h' = snd (server_chat w cfg specialty conversation (Some n) h)"
      using post assms(3) by (auto split: prod.splits sum.splits)
    moreover have "well_formed conversation \<and> conversation \<noteq> []"
      using c(3) by (rule normalize_chat_messages_Inr)
    moreover have "specialty = ac_default_specialty cfg \<or> map_of (reg_specialties reg) specialty \<noteq> None"
      using c(4) assms(2) by (intro specialty_known) simp
    moreover have "0 < n" using c(5) by (rule max_output_tokens_positive)
    ultimately show ?thesis using Inr c by blast
  next
    case False
    have "\<exists>e. handle_chat_completions w cfg st body h = (Inl e, h)"
    proof (cases "dget body ''messages''")
      case (PList ms)
      show ?thesis
      proof (cases ms)
        case (Cons m ms')
        with PList False show ?thesis
          by (cases "normalize_chat_messages ms";
              cases "specialty_from_body (ew_registry w) body (ac_default_specialty cfg)";
              cases "max_output_tokens (ew_env w) body [''max_tokens'', ''max_completion_tokens'']")
            (auto simp: handle_chat_completions_def native_simps simp del: max_output_tokens.simps)
      qed (simp add: PList handle_chat_completions_def native_simps)
    qed (simp_all add: handle_chat_completions_def native_simps)
    then show ?thesis using post assms(3) by (auto split: if_splits)
  qed
qed

definition demo_config :: api_config where
  "demo_config = \<lparr>ac_host = ''127.0.0.1'', ac_port = 8000, ac_default_specialty = ''chat'', ac_niceness = 0\<rparr>"

definition demo_stamps :: stamps where
  "demo_stamps = \<lparr>st_hex = (\<lambda>n. replicate 32 CHR ''0''), st_now = 1\<rparr>"

definition json_request :: "string \<Rightarrow> pydict \<Rightarrow> http_request" where
  "json_request path body =
     (let raw = utf8_encode (json_dumps (PDict body)) in
      \<lparr>rq_path = path, rq_content_length = Some (show_int (int (length raw))), rq_body = raw\<rparr>)"

lemma read_json_request: "json_clean (PDict body) \<Longrightarrow> read_json (json_request path body) = Inr body"
proof -
  assume c: "json_clean (PDict body)"
  define raw where "raw = utf8_encode (json_dumps (PDict body))"
  have "decode_utf8 raw = Inr (json_dumps (PDict body))" by (simp add: raw_def)
  then have ne: "raw \<noteq> []" using json_loads_dumps[OF c] by (auto simp: decode_utf8_def json_loads_def skip_ws_def parse_value.simps)
  then show ?thesis
    using json_loads_dumps[OF c] by (simp add: read_json_def json_request_def Let_def raw_def[symmetric]) (simp add: raw_def)
qed

lemma chat_reaches_engine_validated_witness:
  "\<exists>resp h'. do_POST demo_world demo_config demo_stamps
       (json_request ''/v1/chat/completions'' [(''messages'', PList [])]) [] = (resp, h')
     \<and> h' = [] \<and> rs_status resp \<in> {400, 502}"
proof -
  let ?req = "json_request ''/v1/chat/completions'' [(''messages'', PList [])]"
  have p: "rq_path ?req = ''/v1/chat/completions''" by (simp add: json_request_def Let_def)
  have r: "read_json ?req = Inr [(''messages'', PList [])]" by (rule read_json_request) simp
  obtain resp h' where d: "do_POST demo_world demo_config demo_stamps ?req [] = (resp, h')" by fastforce
  have "normalize_chat_messages [] = Inl (ValueError ''messages must contain at least one text message'')" by code_simp
  with chat_reaches_engine_validated[OF p _ d, of demo_registry] r show ?thesis
    using d by (auto simp: demo_world_def dget_def)
qed

text \<open>
  A streamed answer carries the whole text: a client that reads the server-sent events line by line
  up to the end mark and joins the deltas has exactly the content the engine produced, for the chat
  stream and for the responses stream, whatever characters the content has.
\<close>

theorem streams_carry_content:
  "stream_text (chat_completion_stream st model content) = content
   \<and> responses_stream_text (responses_stream st model content) = content"
proof
  let ?es = "[chat_chunk st model [(''role'', PStr ''assistant'')] PNone,
       chat_chunk st model [(''content'', PStr content)] PNone, chat_chunk st model [] (PStr ''stop'')]"
  have "list_all floats_printable ?es" "list_all json_clean ?es" "\<forall>e \<in> set ?es. \<exists>d. e = PDict d"
    by (simp_all add: chat_chunk_def)
  then have "stream_text (chat_completion_stream st model content) = concat (map delta_text ?es)"
    unfolding stream_text_def chat_completion_stream_def by (rule stream_reads)
  also have "\<dots> = content" by (simp add: delta_text_def chat_chunk_def)
  finally show "stream_text (chat_completion_stream st model content) = content" .
  let ?rs = "responses_events st model content"
  have "list_all floats_printable ?rs" "list_all json_clean ?rs" "\<forall>e \<in> set ?rs. \<exists>d. e = PDict d"
    by (simp_all add: responses_events_def responses_payload_def Let_def dput_def)
  then have "responses_stream_text (responses_stream st model content) = concat (map responses_delta ?rs)"
    unfolding responses_stream_text_def responses_stream_def by (rule stream_reads)
  also have "\<dots> = content" by (simp add: responses_delta_def responses_events_def Let_def dget_def)
  finally show "responses_stream_text (responses_stream st model content) = content" .
qed

text \<open>
  A token limit that JSON spells \<^verbatim>\<open>Infinity\<close> is the client's mistake, but \<^verbatim>\<open>int\<close> raises
  \<^verbatim>\<open>OverflowError\<close> there, which is not caught with the other conversions: the answer is a 502 of the
  backend, which was never called.
\<close>

theorem infinite_max_tokens_is_backend_failure:
  assumes "ew_registry w = Inr reg" "normalize_chat_messages ms = Inr conversation" "list_all json_clean ms"
  shows "do_POST w cfg st (json_request ''/v1/chat/completions''
      [(''messages'', PList ms), (''max_tokens'', PFloat PosInf)]) h
    = (send_error 502 ''cannot convert float infinity to integer'', h)"
proof -
  let ?body = "[(''messages'', PList ms), (''max_tokens'', PFloat PosInf)]"
  have r: "read_json (json_request ''/v1/chat/completions'' ?body) = Inr ?body"
    using assms(3) by (intro read_json_request) simp
  have "normalize_chat_messages [] = Inl (ValueError ''messages must contain at least one text message'')" by code_simp
  then obtain m ms' where ms: "ms = m # ms'" using assms(2) by (cases ms) auto
  obtain specialty where sp: "specialty_from_body (ew_registry w) ?body (ac_default_specialty cfg) = Inr specialty"
    by (cases "specialty_from_body (ew_registry w) ?body (ac_default_specialty cfg)")
      (auto simp: specialty_from_body_def resolve_specialty_alias_def assms(1) Let_def split: if_splits)
  have p: "rq_path (json_request ''/v1/chat/completions'' ?body) = ''/v1/chat/completions''"
    by (simp add: json_request_def Let_def)
  have "handle_chat_completions w cfg st ?body h
      = (Inl (OverflowError ''cannot convert float infinity to integer''), h)"
    using assms(2) sp by (simp add: handle_chat_completions_def native_simps dget_def ms)
  then show ?thesis by (simp add: do_POST_def native_simps r p post_route_def)
qed

lemma infinite_max_tokens_is_backend_failure_witness:
  "do_POST demo_world demo_config demo_stamps (json_request ''/v1/chat/completions''
      [(''messages'', PList [PStr ''hi'']), (''max_tokens'', PFloat PosInf)]) []
    = (send_error 502 ''cannot convert float infinity to integer'', [])"
proof (rule infinite_max_tokens_is_backend_failure)
  show "ew_registry demo_world = Inr demo_registry" by (simp add: demo_world_def)
  show "normalize_chat_messages [PStr ''hi''] = Inr [\<lparr>cm_role = ''user'', cm_content = ''hi''\<rparr>]" by code_simp
qed simp

end
