(* ===== verification/Py_Paths.thy ===== *)
theory Py_Paths
  imports BubbleHub_Prelude
begin

text \<open>
  \<^verbatim>\<open>pathlib\<close> paths and the file system the command line tools see: absolute and relative paths as
  component lists, symbolic links, resolution, and the operations on directories and files that
  \<^verbatim>\<open>bubblehub/cli/run.py\<close> and \<^verbatim>\<open>bubblehub/app/agents.py\<close> call. Permissions are not modelled; an
  operation that can be refused takes its outcome as a parameter.
\<close>

section \<open>Paths\<close>

text \<open>
  A \<^verbatim>\<open>PurePosixPath\<close>: empty components and single dots are dropped when a text is read, two dots
  are kept.
\<close>

datatype path = Path (is_absolute: bool) (parts: "string list")

definition path_of :: "string \<Rightarrow> path" where
  "path_of s = Path (s \<noteq> [] \<and> hd s = CHR ''/'')
     (filter (\<lambda>c. c \<noteq> [] \<and> c \<noteq> ''.'') (split_on CHR ''/'' s))"

definition path_str :: "path \<Rightarrow> string" where
  "path_str p = (if is_absolute p then CHR ''/'' # join ''/'' (parts p)
     else if parts p = [] then ''.'' else join ''/'' (parts p))"

definition path_join :: "path \<Rightarrow> path \<Rightarrow> path" where
  "path_join p q = (if is_absolute q then q else Path (is_absolute p) (parts p @ parts q))"

text \<open>\<^verbatim>\<open>p / s\<close> for a text\<close>

definition path_sub :: "path \<Rightarrow> string \<Rightarrow> path" where
  "path_sub p s = path_join p (path_of s)"

definition path_name :: "path \<Rightarrow> string" where
  "path_name p = (if parts p = [] then [] else last (parts p))"

definition path_parent :: "path \<Rightarrow> path" where
  "path_parent p = Path (is_absolute p) (butlast (parts p))"

text \<open>\<^verbatim>\<open>path.suffix\<close>: from the last dot of the name, unless it begins or ends the name.\<close>

definition path_suffix :: "path \<Rightarrow> string" where
  "path_suffix p =
     (let n = path_name p; ext = takeWhile (\<lambda>c. c \<noteq> CHR ''.'') (rev n) in
      if CHR ''.'' \<in> set n \<and> ext \<noteq> [] \<and> length ext + 1 < length n then CHR ''.'' # rev ext else [])"

fun is_prefix :: "'a list \<Rightarrow> 'a list \<Rightarrow> bool" where
  "is_prefix [] ys = True"
| "is_prefix (x # xs) (y # ys) = (x = y \<and> is_prefix xs ys)"
| "is_prefix _ _ = False"

lemma is_prefix_iff: "is_prefix xs ys \<longleftrightarrow> (\<exists>zs. ys = xs @ zs)"
  by (induction xs ys rule: is_prefix.induct) auto

definition is_relative_to :: "path \<Rightarrow> path \<Rightarrow> bool" where
  "is_relative_to p parent \<longleftrightarrow> is_absolute p = is_absolute parent \<and> is_prefix (parts parent) (parts p)"

text \<open>\<^verbatim>\<open>path.relative_to(parent)\<close> where it does not raise.\<close>

definition relative_parts :: "path \<Rightarrow> path \<Rightarrow> string list" where
  "relative_parts p parent = drop (length (parts parent)) (parts p)"

text \<open>\<^verbatim>\<open>(path, *path.parents)\<close>\<close>

fun with_parents :: "string list \<Rightarrow> string list list" where
  "with_parents cs = cs # (if cs = [] then [] else with_parents (butlast cs))"

declare with_parents.simps [simp del]

lemma with_parents_prefixes: "d \<in> set (with_parents cs) \<longleftrightarrow> is_prefix d cs"
proof (induction cs rule: with_parents.induct)
  case (1 cs)
  show ?case
  proof (cases "cs = []")
    case True
    then show ?thesis by (cases d) (auto simp: with_parents.simps[of "[]"])
  next
    case False
    then obtain init l where cs: "cs = init @ [l]" by (metis append_butlast_last_id)
    have "is_prefix d (init @ [l]) \<longleftrightarrow> d = init @ [l] \<or> is_prefix d init"
    proof
      assume "is_prefix d (init @ [l])"
      then obtain zs where "init @ [l] = d @ zs" by (auto simp: is_prefix_iff)
      then show "d = init @ [l] \<or> is_prefix d init"
        by (cases zs rule: rev_cases) (auto simp: is_prefix_iff)
    qed (auto simp: is_prefix_iff)
    with 1 False show ?thesis by (simp add: with_parents.simps[of "init @ [l]"] cs)
  qed
qed

lemma is_prefix_trans: "is_prefix a b \<Longrightarrow> is_prefix b c \<Longrightarrow> is_prefix a c"
  by (auto simp: is_prefix_iff)

lemma is_prefix_refl [simp]: "is_prefix a a"
  by (simp add: is_prefix_iff)

lemma is_prefix_append [simp]: "is_prefix a (a @ b)"
  by (simp add: is_prefix_iff)

section \<open>The file system\<close>

text \<open>
  The node at an absolute place, named by its components. A link holds the path it points to.
\<close>

datatype node = Directory | File string | Link path

type_synonym place = "string list"
type_synonym fs = "place \<rightharpoonup> node"

text \<open>
  Following a path: dots were dropped, two dots go up, a link is replaced by its target. \<open>n\<close> bounds
  the number of links, as the kernel does; the bound of Linux is 40. A component that does not exist
  stands for itself (\<^verbatim>\<open>resolve\<close> is not strict).
\<close>

definition link_base :: "place \<Rightarrow> path \<Rightarrow> place" where
  "link_base acc target = (if is_absolute target then [] else acc)"

fun walk :: "fs \<Rightarrow> nat \<Rightarrow> place \<Rightarrow> string list \<Rightarrow> place option" where
  "walk fs n acc [] = Some acc"
| "walk fs n acc (c # cs) =
     (if c = ''..'' then walk fs n (butlast acc) cs
      else (case fs (acc @ [c]) of
          Some (Link target) \<Rightarrow>
            (case n of 0 \<Rightarrow> None
             | Suc m \<Rightarrow> walk fs m (link_base acc target) (parts target @ cs))
        | _ \<Rightarrow> walk fs n (acc @ [c]) cs))"

definition max_links :: nat where "max_links = 40"

text \<open>\<open>cwd\<close> is the current directory, a place. A loop of links is \<open>None\<close> (\<^verbatim>\<open>RuntimeError\<close> or \<^verbatim>\<open>OSError\<close>).\<close>

definition resolve :: "fs \<Rightarrow> place \<Rightarrow> path \<Rightarrow> place option" where
  "resolve fs cwd p = walk fs max_links (if is_absolute p then [] else cwd) (parts p)"

definition resolved_path :: "place \<Rightarrow> path" where
  "resolved_path d = Path True d"

text \<open>
  The kernel's own lookup (\<^verbatim>\<open>stat\<close>, \<^verbatim>\<open>open\<close>) is strict: every component it goes through or up from is a
  directory that exists.
\<close>

fun lookup :: "fs \<Rightarrow> nat \<Rightarrow> place \<Rightarrow> string list \<Rightarrow> place option" where
  "lookup fs n acc [] = Some acc"
| "lookup fs n acc (c # cs) =
     (if fs acc \<noteq> Some Directory then None
      else if c = ''..'' then lookup fs n (butlast acc) cs
      else (case fs (acc @ [c]) of
          Some (Link target) \<Rightarrow>
            (case n of 0 \<Rightarrow> None
             | Suc m \<Rightarrow> lookup fs m (link_base acc target) (parts target @ cs))
        | _ \<Rightarrow> lookup fs n (acc @ [c]) cs))"

definition node_at :: "fs \<Rightarrow> place \<Rightarrow> path \<Rightarrow> node option" where
  "node_at fs cwd p =
     (case lookup fs max_links (if is_absolute p then [] else cwd) (parts p) of None \<Rightarrow> None | Some d \<Rightarrow> fs d)"

definition path_exists :: "fs \<Rightarrow> place \<Rightarrow> path \<Rightarrow> bool" where
  "path_exists fs cwd p \<longleftrightarrow> node_at fs cwd p \<noteq> None"

definition path_is_dir :: "fs \<Rightarrow> place \<Rightarrow> path \<Rightarrow> bool" where
  "path_is_dir fs cwd p \<longleftrightarrow> node_at fs cwd p = Some Directory"

definition path_is_file :: "fs \<Rightarrow> place \<Rightarrow> path \<Rightarrow> bool" where
  "path_is_file fs cwd p \<longleftrightarrow> (case node_at fs cwd p of Some (File _) \<Rightarrow> True | _ \<Rightarrow> False)"

text \<open>The place a path names without following its last component (\<^verbatim>\<open>lstat\<close>, \<^verbatim>\<open>unlink\<close>, \<^verbatim>\<open>rename\<close>).\<close>

definition own_place :: "fs \<Rightarrow> place \<Rightarrow> path \<Rightarrow> place option" where
  "own_place fs cwd p =
     (if parts p = [] \<or> path_name p = ''..'' then resolve fs cwd p
      else map_option (\<lambda>d. d @ [path_name p]) (resolve fs cwd (path_parent p)))"

definition path_is_symlink :: "fs \<Rightarrow> place \<Rightarrow> path \<Rightarrow> bool" where
  "path_is_symlink fs cwd p \<longleftrightarrow>
     (case own_place fs cwd p of None \<Rightarrow> False
      | Some d \<Rightarrow> (case fs d of Some (Link _) \<Rightarrow> True | _ \<Rightarrow> False))"

definition read_file :: "fs \<Rightarrow> place \<Rightarrow> path \<Rightarrow> string result" where
  "read_file fs cwd p = (case node_at fs cwd p of
       Some (File s) \<Rightarrow> Inr s
     | Some _ \<Rightarrow> Inl (OSError (''Is a directory: '' @ path_str p))
     | None \<Rightarrow> Inl (FileNotFoundError (''No such file or directory: '' @ path_str p)))"

text \<open>The names in a directory, from a finite listing of the places.\<close>

definition is_child :: "place \<Rightarrow> place \<Rightarrow> bool" where
  "is_child d k \<longleftrightarrow> k \<noteq> [] \<and> butlast k = d"

definition write_file :: "fs \<Rightarrow> place \<Rightarrow> path \<Rightarrow> string \<Rightarrow> fs result" where
  "write_file fs cwd p s =
     (case resolve fs cwd p of
        None \<Rightarrow> Inl (OSError ''Too many levels of symbolic links'')
      | Some d \<Rightarrow>
          (case fs d of
             Some Directory \<Rightarrow> Inl (OSError (''Is a directory: '' @ path_str p))
           | _ \<Rightarrow> if d \<noteq> [] \<and> fs (butlast d) = Some Directory then Inr (fs(d \<mapsto> File s))
               else Inl (FileNotFoundError (''No such file or directory: '' @ path_str p))))"

text \<open>\<^verbatim>\<open>mkdir(exist_ok=True)\<close> of one directory whose parent must exist.\<close>

definition make_dir :: "fs \<Rightarrow> place \<Rightarrow> path \<Rightarrow> fs result" where
  "make_dir fs cwd p =
     (case resolve fs cwd p of
        None \<Rightarrow> Inl (OSError ''Too many levels of symbolic links'')
      | Some d \<Rightarrow>
          (case fs d of
             Some Directory \<Rightarrow> Inr fs
           | Some _ \<Rightarrow> Inl (OSError (''File exists: '' @ path_str p))
           | None \<Rightarrow> if d \<noteq> [] \<and> fs (butlast d) = Some Directory then Inr (fs(d \<mapsto> Directory))
               else Inl (FileNotFoundError (''No such file or directory: '' @ path_str p))))"

text \<open>\<^verbatim>\<open>mkdir(parents=True, exist_ok=True)\<close>: every missing directory above is made too.\<close>

fun make_places :: "fs \<Rightarrow> place list \<Rightarrow> string \<Rightarrow> fs result" where
  "make_places fs [] msg = Inr fs"
| "make_places fs (d # ds) msg =
     (case fs d of
        Some Directory \<Rightarrow> make_places fs ds msg
      | Some _ \<Rightarrow> Inl (OSError msg)
      | None \<Rightarrow> make_places (fs(d \<mapsto> Directory)) ds msg)"

definition make_dirs :: "fs \<Rightarrow> place \<Rightarrow> path \<Rightarrow> fs result" where
  "make_dirs fs cwd p =
     (case resolve fs cwd p of
        None \<Rightarrow> Inl (OSError ''Too many levels of symbolic links'')
      | Some d \<Rightarrow> make_places fs (rev (with_parents d)) (''File exists: '' @ path_str p))"

text \<open>\<^verbatim>\<open>shutil.rmtree\<close> that succeeds, and \<^verbatim>\<open>unlink\<close>: the place and everything below it, no links followed.\<close>

definition remove_tree :: "fs \<Rightarrow> place \<Rightarrow> fs" where
  "remove_tree fs d = (\<lambda>k. if is_prefix d k then None else fs k)"

text \<open>\<^verbatim>\<open>rename\<close> of a directory to a place that does not exist.\<close>

definition move_tree :: "fs \<Rightarrow> place \<Rightarrow> place \<Rightarrow> fs" where
  "move_tree fs src dst =
     (\<lambda>k. if is_prefix dst k then fs (src @ drop (length dst) k)
          else if is_prefix src k then None else fs k)"

text \<open>\<^verbatim>\<open>unlink\<close> of a file or a link.\<close>

definition unlink :: "fs \<Rightarrow> place \<Rightarrow> path \<Rightarrow> fs result" where
  "unlink fs cwd p =
     (case own_place fs cwd p of
        None \<Rightarrow> Inl (OSError ''Too many levels of symbolic links'')
      | Some d \<Rightarrow>
          (case fs d of
             None \<Rightarrow> Inl (FileNotFoundError (''No such file or directory: '' @ path_str p))
           | Some Directory \<Rightarrow> Inl (OSError (''Is a directory: '' @ path_str p))
           | Some _ \<Rightarrow> Inr (fs(d := None))))"

definition rename_dir :: "fs \<Rightarrow> place \<Rightarrow> place \<Rightarrow> fs result" where
  "rename_dir fs src dst =
     (if fs src = None then Inl (FileNotFoundError ''No such file or directory'')
      else if fs dst \<noteq> None then Inl (OSError ''Not a directory'')
      else Inr (move_tree fs src dst))"

text \<open>\<^verbatim>\<open>p / name\<close> for a name that \<^verbatim>\<open>iterdir\<close> yields: one component, taken as it is.\<close>

definition path_child :: "path \<Rightarrow> string \<Rightarrow> path" where
  "path_child p c = Path (is_absolute p) (parts p @ [c])"

section \<open>Laws\<close>

text \<open>The file systems of the proofs: the directories above every node are directories.\<close>

definition tree_fs :: "fs \<Rightarrow> bool" where
  "tree_fs fs \<longleftrightarrow> fs [] = Some Directory \<and> (\<forall>d c. fs (d @ [c]) \<noteq> None \<longrightarrow> fs d = Some Directory)"

text \<open>A place whose components are all real: nothing to follow.\<close>

definition link_free :: "fs \<Rightarrow> place \<Rightarrow> bool" where
  "link_free fs d \<longleftrightarrow> (\<forall>k t. is_prefix k d \<longrightarrow> fs k \<noteq> Some (Link t)) \<and> ''..'' \<notin> set d"

lemma link_free_prefix: "link_free fs d \<Longrightarrow> is_prefix a d \<Longrightarrow> link_free fs a"
  by (auto simp: link_free_def is_prefix_iff)

lemma link_free_snoc:
  "link_free fs acc \<Longrightarrow> (\<And>t. fs (acc @ [c]) \<noteq> Some (Link t)) \<Longrightarrow> c \<noteq> ''..'' \<Longrightarrow> link_free fs (acc @ [c])"
proof -
  assume a: "link_free fs acc" "\<And>t. fs (acc @ [c]) \<noteq> Some (Link t)" "c \<noteq> ''..''"
  have "is_prefix k (acc @ [c]) \<longleftrightarrow> k = acc @ [c] \<or> is_prefix k acc" for k
    using with_parents_prefixes[of k "acc @ [c]"] with_parents_prefixes[of k acc]
    by (simp add: with_parents.simps[of "acc @ [c]"])
  with a show ?thesis by (auto simp: link_free_def)
qed

lemma walk_link_free:
  "(\<forall>k t. is_prefix k (acc @ cs) \<longrightarrow> fs k \<noteq> Some (Link t)) \<Longrightarrow> ''..'' \<notin> set cs \<Longrightarrow>
     walk fs n acc cs = Some (acc @ cs)"
proof (induction cs arbitrary: acc)
  case (Cons c cs)
  have "is_prefix (acc @ [c]) (acc @ c # cs)" by (auto simp: is_prefix_iff)
  then have "fs (acc @ [c]) \<noteq> Some (Link t)" for t using Cons.prems(1) by blast
  moreover have "walk fs n (acc @ [c]) cs = Some ((acc @ [c]) @ cs)" using Cons by simp
  ultimately show ?case using Cons.prems(2) by (auto split: option.splits node.splits)
qed simp

lemma resolve_link_free: "link_free fs d \<Longrightarrow> resolve fs cwd (Path True d) = Some d"
  using walk_link_free[of "[]" d fs] by (simp add: resolve_def link_free_def)

text \<open>What a strict lookup finds is what resolution names.\<close>

lemma lookup_walk: "lookup fs n acc cs = Some d \<Longrightarrow> walk fs n acc cs = Some d"
  by (induction fs n acc cs rule: lookup.induct)
    (auto split: if_split_asm option.splits node.splits nat.splits)

lemma node_at_resolve: "node_at fs cwd p = Some x \<Longrightarrow> \<exists>d. resolve fs cwd p = Some d \<and> fs d = Some x"
  unfolding node_at_def resolve_def by (auto dest: lookup_walk split: option.splits)

lemma node_at_link_free: "link_free fs d \<Longrightarrow> node_at fs cwd (Path True d) = Some x \<Longrightarrow> fs d = Some x"
  using node_at_resolve[of fs cwd "Path True d" x] by (simp add: resolve_link_free)

text \<open>In a file system whose nodes have directories above them, a place without links is found.\<close>

lemma tree_fs_above: "tree_fs fs \<Longrightarrow> fs (a @ b) \<noteq> None \<Longrightarrow> b \<noteq> [] \<Longrightarrow> fs a = Some Directory"
proof (induction b rule: rev_induct)
  case (snoc c b)
  then have "fs (a @ b) = Some Directory" unfolding tree_fs_def by (metis append.assoc)
  with snoc show ?case by (cases "b = []") auto
qed simp

lemma lookup_link_free:
  "tree_fs fs \<Longrightarrow> fs (acc @ cs) \<noteq> None \<Longrightarrow> (\<forall>k t. is_prefix k (acc @ cs) \<longrightarrow> fs k \<noteq> Some (Link t)) \<Longrightarrow>
     ''..'' \<notin> set cs \<Longrightarrow> lookup fs n acc cs = Some (acc @ cs)"
proof (induction cs arbitrary: acc)
  case (Cons c cs)
  have dir: "fs acc = Some Directory" using tree_fs_above[OF Cons.prems(1,2)] by simp
  have "is_prefix (acc @ [c]) (acc @ c # cs)" by (auto simp: is_prefix_iff)
  then have "fs (acc @ [c]) \<noteq> Some (Link t)" for t using Cons.prems(3) by blast
  moreover have "lookup fs n (acc @ [c]) cs = Some ((acc @ [c]) @ cs)" using Cons by simp
  ultimately show ?case using Cons.prems(4) dir by (auto split: option.splits node.splits)
qed simp

lemma node_at_found: "tree_fs fs \<Longrightarrow> link_free fs d \<Longrightarrow> node_at fs cwd (Path True d) = fs d"
proof (cases "fs d")
  case None
  assume lf: "link_free fs d"
  show ?thesis
    using node_at_link_free[OF lf, of cwd] None by (cases "node_at fs cwd (Path True d)") auto
next
  case (Some x)
  assume "tree_fs fs" "link_free fs d"
  then show ?thesis
    using lookup_link_free[of fs "[]" d max_links] Some by (simp add: node_at_def link_free_def)
qed

text \<open>A real component at the end of a path stays at the end of what it resolves to.\<close>

lemma walk_snoc:
  "walk fs n acc cs = Some d \<Longrightarrow> c \<noteq> ''..'' \<Longrightarrow> (\<And>t. fs (d @ [c]) \<noteq> Some (Link t)) \<Longrightarrow>
     walk fs n acc (cs @ [c]) = Some (d @ [c])"
proof (induction fs n acc cs rule: walk.induct)
  case (1 fs n acc)
  then show ?case by (auto split: option.splits node.splits)
next
  case (2 fs n acc e cs)
  then show ?case by (auto split: if_split_asm option.splits node.splits nat.splits)
qed

lemma resolve_snoc:
  assumes "resolve fs cwd p = Some d" "c \<noteq> ''..''" "\<And>t. fs (d @ [c]) \<noteq> Some (Link t)"
  shows "resolve fs cwd (Path (is_absolute p) (parts p @ [c])) = Some (d @ [c])"
  using assms walk_snoc[of fs max_links _ "parts p" d c] by (simp add: resolve_def)

text \<open>What resolution yields has no links and no dots, when it started from such a place.\<close>

lemma walk_result:
  "walk fs n acc cs = Some d \<Longrightarrow> link_free fs acc \<Longrightarrow> link_free fs d"
proof (induction fs n acc cs rule: walk.induct)
  case (2 fs n acc c cs)
  show ?case
  proof (cases "c = ''..''")
    case True
    have "is_prefix (butlast acc) acc" by (cases acc rule: rev_cases) auto
    with "2.prems"(2) have "link_free fs (butlast acc)" by (rule link_free_prefix)
    with "2.IH" "2.prems"(1) True show ?thesis by simp
  next
    case False
    have nil: "link_free fs []" using "2.prems"(2) by (rule link_free_prefix) simp
    show ?thesis
    proof (cases "\<exists>t. fs (acc @ [c]) = Some (Link t)")
      case True
      then obtain t m where t: "fs (acc @ [c]) = Some (Link t)" "n = Suc m"
        using "2.prems"(1) False by (cases n) auto
      with "2.IH" "2.prems" False nil show ?thesis by (auto simp: link_base_def split: if_splits)
    next
      case nolink: False
      have step: "walk fs n (acc @ [c]) cs = Some d"
        using "2.prems"(1) False nolink by (auto split: option.splits node.splits)
      have lf: "link_free fs (acc @ [c])" using "2.prems"(2) nolink False by (intro link_free_snoc) auto
      show ?thesis
        using "2.IH" step lf False nolink by (cases "fs (acc @ [c])"; cases "the (fs (acc @ [c]))") auto
    qed
  qed
qed simp

lemma resolve_result: "resolve fs cwd p = Some d \<Longrightarrow> link_free fs cwd \<Longrightarrow> link_free fs d"
proof -
  assume r: "resolve fs cwd p = Some d" and c: "link_free fs cwd"
  from c have "link_free fs []" by (rule link_free_prefix) simp
  with r c walk_result[of fs max_links _ "parts p" d] show ?thesis
    by (auto simp: resolve_def split: if_splits)
qed

lemma remove_tree_other: "\<not> is_prefix d k \<Longrightarrow> remove_tree fs d k = fs k"
  by (simp add: remove_tree_def)

lemma move_tree_other: "\<not> is_prefix src k \<Longrightarrow> \<not> is_prefix dst k \<Longrightarrow> move_tree fs src dst k = fs k"
  by (simp add: move_tree_def)

text \<open>
  The contract of removing a directory tree, whoever removes it and however far it gets: nothing
  outside the tree changes, and inside things only disappear.
\<close>

locale tree_removal =
  fixes rm :: "fs \<Rightarrow> place \<Rightarrow> unit result \<times> fs"
  assumes rm_removes: "rm fs d = (r, fs') \<Longrightarrow> fs' k = fs k \<or> is_prefix d k \<and> fs' k = None"
begin

lemma rm_outside: "\<not> is_prefix d k \<Longrightarrow> snd (rm fs d) k = fs k"
  using rm_removes by (metis prod.collapse)

lemma rm_link_free: "link_free fs e \<Longrightarrow> link_free (snd (rm fs d)) e"
  unfolding link_free_def by (metis option.distinct(1) prod.collapse rm_removes)

end

definition rmtree :: "fs \<Rightarrow> place \<Rightarrow> unit result \<times> fs" where
  "rmtree fs d = (case fs d of
     Some Directory \<Rightarrow> (Inr (), remove_tree fs d)
   | Some _ \<Rightarrow> (Inl (OSError ''Not a directory''), fs)
   | None \<Rightarrow> (Inl (FileNotFoundError ''No such file or directory''), fs))"

interpretation full_removal: tree_removal rmtree
  by unfold_locales (auto simp: rmtree_def remove_tree_def split: option.splits node.splits if_splits)

text \<open>
  A removal that is refused half way: what lies at or above one of the places of another owner stays.
\<close>

definition rmtree_owned :: "place list \<Rightarrow> fs \<Rightarrow> place \<Rightarrow> unit result \<times> fs" where
  "rmtree_owned foreign fs d =
     (let kept = filter (is_prefix d) foreign in
      if kept = [] then rmtree fs d
      else (Inl (PermissionError ''Permission denied''),
        (\<lambda>k. if is_prefix d k \<and> \<not> list_ex (is_prefix k) kept then None else fs k)))"

interpretation owned_removal: tree_removal "rmtree_owned foreign" for foreign
  by unfold_locales (auto simp: rmtree_owned_def Let_def dest: full_removal.rm_removes split: if_splits)

text \<open>Texts of simple names: one component that is itself.\<close>

definition simple_name :: "string \<Rightarrow> bool" where
  "simple_name s \<longleftrightarrow> s \<noteq> [] \<and> CHR ''/'' \<notin> set s \<and> s \<noteq> ''.'' \<and> s \<noteq> ''..''"

lemma path_of_simple: "simple_name s \<Longrightarrow> path_of s = Path False [s]"
proof -
  assume s: "simple_name s"
  then have "split_on CHR ''/'' s = [s]"
    by (auto simp: simple_name_def split_on_def intro!: split_by_none)
  moreover have "hd s \<noteq> CHR ''/''" using s by (cases s) (auto simp: simple_name_def)
  ultimately show ?thesis using s by (simp add: path_of_def simple_name_def)
qed

lemma valid_agent_id_simple: "is_valid_agent_id s \<Longrightarrow> simple_name s"
  using valid_agent_id_no_sep[of s] by (auto simp: simple_name_def)

lemma path_sub_simple: "simple_name s \<Longrightarrow> path_sub p s = Path (is_absolute p) (parts p @ [s])"
  by (simp add: path_sub_def path_of_simple path_join_def)

lemma own_place_sub:
  assumes "simple_name s"
  shows "own_place fs cwd (path_sub p s) = map_option (\<lambda>d. d @ [s]) (resolve fs cwd p)"
  using assms by (cases p) (simp add: own_place_def path_sub_simple path_name_def path_parent_def simple_name_def)

lemma resolve_sub:
  assumes "simple_name s" "resolve fs cwd p = Some d" "\<not> path_is_symlink fs cwd (path_sub p s)"
  shows "resolve fs cwd (path_sub p s) = Some (d @ [s])"
proof -
  have "fs (d @ [s]) \<noteq> Some (Link t)" for t
    using assms(2,3) by (auto simp: path_is_symlink_def own_place_sub[OF assms(1)])
  then show ?thesis
    using resolve_snoc[OF assms(2), of s] assms(1) by (simp add: path_sub_simple simple_name_def)
qed

section \<open>What a file system that lost files still shows\<close>

text \<open>
  What the kernel finds by a path in a smaller file system it finds in the larger one too, and a file that
  can be read is found through the place of its parent.
\<close>

lemma map_leD: "f1 \<subseteq>\<^sub>m f0 \<Longrightarrow> f1 k = Some y \<Longrightarrow> f0 k = Some y"
  by (auto simp: map_le_def dom_def)

lemma lookup_link: "fs acc = Some Directory \<Longrightarrow> c \<noteq> ''..'' \<Longrightarrow> fs (acc @ [c]) = Some (Link t) \<Longrightarrow>
    lookup fs n acc (c # cs) = (case n of 0 \<Rightarrow> None | Suc m \<Rightarrow> lookup fs m (link_base acc t) (parts t @ cs))"
  by simp

lemma lookup_plain: "fs acc = Some Directory \<Longrightarrow> c \<noteq> ''..'' \<Longrightarrow> \<forall>t. fs (acc @ [c]) \<noteq> Some (Link t) \<Longrightarrow>
    lookup fs n acc (c # cs) = lookup fs n (acc @ [c]) cs"
  by (auto split: option.splits node.splits)

lemma walk_plain: "c \<noteq> ''..'' \<Longrightarrow> \<forall>t. fs (acc @ [c]) \<noteq> Some (Link t) \<Longrightarrow> walk fs n acc (c # cs) = walk fs n (acc @ [c]) cs"
  by (auto split: option.splits node.splits)

lemma lookup_dir: "lookup fs n acc (c # cs) = Some d \<Longrightarrow> fs acc = Some Directory"
  by (simp split: if_splits)

text \<open>The rule by which a lookup proceeds: up, through a link, or down.\<close>

lemma lookup_steps [consumes 1, case_names stop up link down]:
  assumes "lookup fs n acc cs = Some d"
    and "\<And>n acc. acc = d \<Longrightarrow> P n acc []"
    and "\<And>n acc cs. fs acc = Some Directory \<Longrightarrow> lookup fs n (butlast acc) cs = Some d \<Longrightarrow> P n (butlast acc) cs \<Longrightarrow> P n acc (''..'' # cs)"
    and "\<And>n acc c cs t. fs acc = Some Directory \<Longrightarrow> c \<noteq> ''..'' \<Longrightarrow> fs (acc @ [c]) = Some (Link t) \<Longrightarrow>
       lookup fs n (link_base acc t) (parts t @ cs) = Some d \<Longrightarrow> P n (link_base acc t) (parts t @ cs) \<Longrightarrow> P (Suc n) acc (c # cs)"
    and "\<And>n acc c cs. fs acc = Some Directory \<Longrightarrow> c \<noteq> ''..'' \<Longrightarrow> \<forall>t. fs (acc @ [c]) \<noteq> Some (Link t) \<Longrightarrow>
       lookup fs n (acc @ [c]) cs = Some d \<Longrightarrow> P n (acc @ [c]) cs \<Longrightarrow> P n acc (c # cs)"
  shows "P n acc cs"
  using assms(1)
proof (induction "(n, length cs)" arbitrary: n acc cs rule: wf_induct[OF wf_lex_prod[OF wf_less wf_less]])
  case 1
  have IH: "P m a ds" if "lookup fs m a ds = Some d" "m < n \<or> m = n \<and> length ds < length cs" for m a ds
    using 1(1)[rule_format, of "(m, length ds)" m ds a] that by auto
  show ?case
  proof (cases cs)
    case Nil
    then show ?thesis using 1(2) assms(2) by simp
  next
    case (Cons c cs')
    have here: "fs acc = Some Directory" using 1(2) unfolding Cons by (rule lookup_dir)
    consider (up) "c = ''..''" | (link) t where "c \<noteq> ''..''" "fs (acc @ [c]) = Some (Link t)"
      | (down) "c \<noteq> ''..''" "\<forall>t. fs (acc @ [c]) \<noteq> Some (Link t)" by blast
    then show ?thesis
    proof cases
      case up
      have l: "lookup fs n (butlast acc) cs' = Some d" using 1(2) here by (simp add: Cons up)
      then have "P n (butlast acc) cs'" using IH Cons by simp
      then show ?thesis using assms(3)[OF here l] by (simp add: Cons up)
    next
      case (link t)
      obtain m where m: "n = Suc m" "lookup fs m (link_base acc t) (parts t @ cs') = Some d"
        using 1(2) lookup_link[OF here link] by (cases n) (auto simp: Cons)
      then have "P m (link_base acc t) (parts t @ cs')" using IH by simp
      then show ?thesis using assms(4)[OF here link m(2)] by (simp add: Cons m)
    next
      case down
      have l: "lookup fs n (acc @ [c]) cs' = Some d" using 1(2) lookup_plain[OF here down] by (simp add: Cons)
      then have "P n (acc @ [c]) cs'" using IH Cons by simp
      then show ?thesis using assms(5)[OF here down l] by (simp add: Cons)
    qed
  qed
qed

lemma lookup_mono:
  assumes "lookup f1 n acc cs = Some d" "f1 \<subseteq>\<^sub>m f0" "f1 d = Some x"
  shows "lookup f0 n acc cs = Some d"
proof -
  note sub = map_leD[OF assms(2)]
  show ?thesis using assms(1)
  proof (induction rule: lookup_steps)
    case (link n acc c cs t)
    then show ?case by (simp add: lookup_link sub)
  next
    case (down n acc c cs)
    have "f1 (acc @ [c]) \<noteq> None" using down(4) assms(3) by (cases cs) (auto dest: lookup_dir simp del: lookup.simps(2))
    then have "f0 (acc @ [c]) = f1 (acc @ [c])" using sub by auto
    then show ?case using down lookup_plain[of f0 acc c n cs] sub[OF down(1)] by (simp del: lookup.simps(2))
  qed (simp_all add: sub)
qed

lemma node_at_mono:
  assumes "node_at f1 cwd p = Some x" "f1 \<subseteq>\<^sub>m f0" shows "node_at f0 cwd p = Some x"
proof -
  obtain d where d: "lookup f1 max_links (if is_absolute p then [] else cwd) (parts p) = Some d" "f1 d = Some x"
    using assms(1) unfolding node_at_def by (auto split: option.split_asm)
  from lookup_mono[OF d(1) assms(2) d(2)] map_leD[OF assms(2) d(2)] show ?thesis unfolding node_at_def by simp
qed

lemma lookup_more: "lookup fs m acc cs = Some d \<Longrightarrow> m \<le> n \<Longrightarrow> lookup fs n acc cs = Some d"
proof (induction arbitrary: n rule: lookup_steps)
  case (link m acc c cs t)
  then obtain k where "n = Suc k" "m \<le> k" by (cases n) auto
  with link show ?case by (simp add: lookup_link)
next
  case (down m acc c cs)
  then show ?case by (simp add: lookup_plain del: lookup.simps)
qed simp_all

lemma lookup_last:
  assumes "lookup fs n acc zs = Some d" "zs = cs @ ys" "walk fs n acc cs = Some e"
  shows "\<exists>m\<le>n. lookup fs m e ys = Some d"
  using assms
proof (induction arbitrary: cs rule: lookup_steps)
  case (stop n acc)
  then show ?case by auto
next
  case (up n acc zs)
  show ?case
  proof (cases cs)
    case Nil
    then show ?thesis using up by (intro exI[of _ n]) auto
  next
    case (Cons b bs)
    then show ?thesis using up.IH[of bs] up by simp
  qed
next
  case (link n acc c zs t)
  show ?case
  proof (cases cs)
    case Nil
    then show ?thesis using link by (intro exI[of _ "Suc n"]) auto
  next
    case (Cons b bs)
    then have "\<exists>m\<le>n. lookup fs m e ys = Some d" using link.IH[of "parts t @ bs"] link by simp
    then show ?thesis using le_SucI by blast
  qed
next
  case (down n acc c zs)
  show ?case
  proof (cases cs)
    case Nil
    then show ?thesis using down lookup_plain[of fs acc c n zs] by (intro exI[of _ n]) auto
  next
    case (Cons b bs)
    then show ?thesis using down.IH[of bs] down.prems down.hyps walk_plain[of c fs acc n bs] by simp
  qed
qed

text \<open>The bytes a name leads to: its own, or those of the file its link points to.\<close>

definition text_at :: "fs \<Rightarrow> place \<Rightarrow> string option" where
  "text_at fs k = (case fs k of
       Some (File b) \<Rightarrow> Some b
     | Some (Link target) \<Rightarrow> (case node_at fs (butlast k) target of Some (File b) \<Rightarrow> Some b | _ \<Rightarrow> None)
     | _ \<Rightarrow> None)"

lemma text_at_mono:
  assumes "text_at f1 k = Some b" "f1 \<subseteq>\<^sub>m f0" shows "text_at f0 k = Some b"
proof -
  from assms(1) consider "f1 k = Some (File b)"
    | t where "f1 k = Some (Link t)" "node_at f1 (butlast k) t = Some (File b)"
    unfolding text_at_def by (auto split: option.split_asm node.split_asm)
  then show ?thesis
    using map_leD[OF assms(2)] node_at_mono[OF _ assms(2)] by cases (simp_all add: text_at_def)
qed

lemma read_text_at:
  assumes "read_file fs cwd (path_sub p s) = Inr b" "simple_name s" "own_place fs cwd (path_sub p s) = Some k"
  shows "text_at fs k = Some b"
proof -
  obtain e where e: "resolve fs cwd p = Some e" "k = e @ [s]" using assms(3) by (auto simp: own_place_sub[OF assms(2)])
  obtain d where d: "lookup fs max_links (if is_absolute p then [] else cwd) (parts p @ [s]) = Some d" "fs d = Some (File b)"
    using assms(1,2) by (auto simp: read_file_def node_at_def path_sub_simple split: option.splits node.splits)
  obtain m where m: "m \<le> max_links" "lookup fs m e [s] = Some d"
    using lookup_last[OF d(1) refl] e(1) by (auto simp: resolve_def)
  show ?thesis
  proof (cases "\<exists>t. fs k = Some (Link t)")
    case True
    then obtain t m' where t: "fs k = Some (Link t)" "m = Suc m'" "lookup fs m' (link_base e t) (parts t) = Some d"
      using m(2) e(2) assms(2) by (cases m) (auto simp: simple_name_def split: if_splits)
    have "lookup fs max_links (link_base e t) (parts t) = Some d" using lookup_more[OF t(3)] m(1) t(2) by simp
    then show ?thesis using t(1) d(2) e(2) by (simp add: text_at_def node_at_def link_base_def)
  next
    case False
    then show ?thesis using m(2) e(2) d(2) assms(2)
      by (auto simp: text_at_def simple_name_def split: if_splits option.splits node.splits)
  qed
qed

end
