(* ===== verification/Sandbox_Paths.thy ===== *)
theory Sandbox_Paths
  imports Py_Paths
begin

text \<open>
  The path decisions of \<^verbatim>\<open>bubblehub/cli/run.py\<close> before a sandbox starts: which root directory and
  working directory are acceptable, which binary is run and under which name the sandbox sees it, where
  the root file system and the overlay directories are.
\<close>

section \<open>The host\<close>

text \<open>\<open>os_source\<close> is the directory two above \<^verbatim>\<open>cli/run.py\<close>, resolved; \<open>os_home\<close> expands \<^verbatim>\<open>~\<close> and \<^verbatim>\<open>~user\<close>.\<close>

record os_view =
  os_fs :: fs
  os_cwd :: place
  os_home :: "string \<Rightarrow> path"
  os_environ :: env
  os_which :: "string \<Rightarrow> string option"
  os_source :: place
  os_executable :: string
  os_uid :: nat

definition os_exists :: "os_view \<Rightarrow> path \<Rightarrow> bool" where "os_exists v p = path_exists (os_fs v) (os_cwd v) p"
definition os_is_dir :: "os_view \<Rightarrow> path \<Rightarrow> bool" where "os_is_dir v p = path_is_dir (os_fs v) (os_cwd v) p"
definition os_is_file :: "os_view \<Rightarrow> path \<Rightarrow> bool" where "os_is_file v p = path_is_file (os_fs v) (os_cwd v) p"

definition os_resolve :: "os_view \<Rightarrow> path \<Rightarrow> place result" where
  "os_resolve v p = (case resolve (os_fs v) (os_cwd v) p of
     Some d \<Rightarrow> Inr d | None \<Rightarrow> Inl (RuntimeError (''Symlink loop from '' @ path_str p)))"

definition expanduser :: "(string \<Rightarrow> path) \<Rightarrow> path \<Rightarrow> path" where
  "expanduser home p =
     (case parts p of
        c # cs \<Rightarrow> if \<not> is_absolute p \<and> c \<noteq> [] \<and> hd c = CHR ''~'' then path_join (home c) (Path False cs) else p
      | [] \<Rightarrow> p)"

abbreviation abs_path :: "place \<Rightarrow> path" where "abs_path d \<equiv> Path True d"

section \<open>The root directory\<close>

record sandbox_paths =
  bx_host_workdir :: path
  bx_sandbox_workdir :: string
  bx_host_root_dir :: "string option"

definition protected_roots :: "place list" where
  "protected_roots = [[], [''usr''], [''bin''], [''sbin''], [''lib''], [''lib64''], [''opt''], [''etc''], [''var''],
     [''proc''], [''sys''], [''dev''], [''run'']]"

definition is_protected_by :: "place \<Rightarrow> place \<Rightarrow> bool" where
  "is_protected_by rt protected \<longleftrightarrow>
     rt = protected \<or> protected \<noteq> [] \<and> is_relative_to (abs_path rt) (abs_path protected)"

definition source_checkout_root :: "os_view \<Rightarrow> place option" where
  "source_checkout_root v =
     (if os_exists v (abs_path (os_source v @ [''pyproject.toml''])) \<and> os_is_dir v (abs_path (os_source v @ [''bubblehub'']))
      then Some (os_source v) else None)"

definition bubblehub_source_tree_for :: "os_view \<Rightarrow> place \<Rightarrow> place option" where
  "bubblehub_source_tree_for v rt =
     (case filter (\<lambda>c. os_exists v (abs_path (c @ [''pyproject.toml'']))
              \<and> os_exists v (abs_path (c @ [''bubblehub'', ''cli'', ''run.py'']))
              \<and> os_exists v (abs_path (c @ [''libbubble'', ''sandbox.c'']))) (with_parents rt) of
        [] \<Rightarrow> None | c # _ \<Rightarrow> Some c)"

definition is_allowed_source_workspace :: "place \<Rightarrow> place \<Rightarrow> bool" where
  "is_allowed_source_workspace rt source =
     (let examples = source @ [''examples''] in rt = examples \<or> is_relative_to (abs_path rt) (abs_path examples))"

definition validate_writable_root :: "os_view \<Rightarrow> place \<Rightarrow> unit result" where
  "validate_writable_root v rt =
     (case filter (is_protected_by rt) protected_roots of
        protected # _ \<Rightarrow> Inl (BadParameter (''--root-dir cannot be inside protected system path: '' @ path_str (abs_path protected)))
      | [] \<Rightarrow>
          (let own = (case source_checkout_root v of None \<Rightarrow> False
             | Some s \<Rightarrow> rt = s \<or> is_relative_to (abs_path s) (abs_path rt)
                 \<or> is_relative_to (abs_path rt) (abs_path s) \<and> \<not> is_allowed_source_workspace rt s) in
           if own then Inl (BadParameter ''--root-dir cannot include the desktop source tree'')
           else (case bubblehub_source_tree_for v rt of
               None \<Rightarrow> Inr ()
             | Some t \<Rightarrow> if \<not> is_allowed_source_workspace rt t
                 then Inl (BadParameter ''--root-dir cannot be inside the desktop source tree'') else Inr ())))"

definition sandbox_workdir_text :: "string list \<Rightarrow> string" where
  "sandbox_workdir_text rel = (if rel \<noteq> [] then ''/workspace/'' @ join ''/'' rel else ''/workspace'')"

definition resolve_sandbox_paths :: "os_view \<Rightarrow> path option \<Rightarrow> path option \<Rightarrow> sandbox_paths result" where
  "resolve_sandbox_paths v root_dir workdir =
     (case root_dir of
        None \<Rightarrow> Inr \<lparr>bx_host_workdir = (case workdir of Some w \<Rightarrow> w | None \<Rightarrow> abs_path (os_cwd v)),
          bx_sandbox_workdir = ''/workspace'', bx_host_root_dir = None\<rparr>
      | Some r \<Rightarrow> bindr (os_resolve v (expanduser (os_home v) r)) (\<lambda>rt.
          if \<not> os_exists v (abs_path rt) \<or> \<not> os_is_dir v (abs_path rt)
          then Inl (BadParameter (''root directory not found: '' @ path_str r))
          else bindr (validate_writable_root v rt) (\<lambda>_.
            bindr (case workdir of None \<Rightarrow> Inr rt | Some w \<Rightarrow> os_resolve v (expanduser (os_home v) w)) (\<lambda>wd.
              if \<not> is_relative_to (abs_path wd) (abs_path rt) then Inl (BadParameter ''--workdir must be inside --root-dir'')
              else Inr \<lparr>bx_host_workdir = abs_path wd,
                bx_sandbox_workdir = sandbox_workdir_text (relative_parts (abs_path wd) (abs_path rt)),
                bx_host_root_dir = Some (path_str (abs_path rt))\<rparr>))))"

section \<open>The root file system\<close>

definition default_rootfs_dir :: path where
  "default_rootfs_dir = abs_path [''opt'', ''bubblehub'', ''rootfs'', ''ubuntu-26.04'']"

definition resolve_rootfs_dir :: "os_view \<Rightarrow> place option result" where
  "resolve_rootfs_dir v =
     (if os_environ v ''BUBBLEHUB_DISABLE_ROOTFS'' = Some ''1'' then Inr None
      else
        (let configured = env_nonempty (os_environ v) ''BUBBLEHUB_ROOTFS_DIR'';
             rootfs = (case configured of Some c \<Rightarrow> expanduser (os_home v) (path_of c) | None \<Rightarrow> default_rootfs_dir) in
         if \<not> os_exists v rootfs then
           (if configured \<noteq> None then Inl (BadParameter (''BubbleHub rootfs not found: '' @ path_str rootfs)) else Inr None)
         else if \<not> os_is_dir v rootfs then
           Inl (BadParameter (''BubbleHub rootfs is not a directory: '' @ path_str rootfs))
         else bindr (os_resolve v rootfs) (\<lambda>d. Inr (Some d))))"

section \<open>The binary\<close>

fun first_file :: "os_view \<Rightarrow> string \<Rightarrow> path list \<Rightarrow> place result" where
  "first_file v binary [] = Inl (BadParameter (''binary not found: '' @ binary))"
| "first_file v binary (p # ps) = bindr (os_resolve v p) (\<lambda>d.
     if os_exists v (abs_path d) \<and> os_is_file v (abs_path d) then Inr d else first_file v binary ps)"

definition resolve_binary :: "os_view \<Rightarrow> string \<Rightarrow> path \<Rightarrow> place result" where
  "resolve_binary v binary cwd =
     (let candidate = expanduser (os_home v) (path_of binary) in
      if is_absolute candidate \<or> path_parent candidate \<noteq> Path False [] \<or> startswith ''./'' binary
          \<or> startswith ''../'' binary then
        first_file v binary (if is_absolute candidate then [candidate]
          else [path_join (abs_path (os_cwd v)) candidate, path_join cwd candidate])
      else
        (let local_bin = path_sub (path_sub (path_sub cwd ''node_modules'') ''.bin'') binary in
         if os_exists v local_bin \<and> os_is_file v local_bin then os_resolve v local_bin
         else (case os_which v binary of
             Some (c # cs) \<Rightarrow> os_resolve v (path_of (c # cs))
           | _ \<Rightarrow> Inl (BadParameter (''binary not found on PATH or node_modules/.bin: '' @ binary)))))"

definition sandbox_system_prefixes :: "place list" where
  "sandbox_system_prefixes = [[''usr''], [''bin''], [''sbin''], [''opt'', ''bubblehub'']]"

definition is_sandbox_system_binary :: "os_view \<Rightarrow> path \<Rightarrow> bool result" where
  "is_sandbox_system_binary v p = bindr (os_resolve v p) (\<lambda>d.
     Inr (list_ex (\<lambda>prefix. is_relative_to (abs_path d) (abs_path prefix)) sandbox_system_prefixes))"

definition sandbox_workspace_path :: "path \<Rightarrow> path \<Rightarrow> string \<Rightarrow> path" where
  "sandbox_workspace_path p host_root agent_id =
     Path True ([''home'', agent_id, ''workspace''] @ relative_parts p host_root)"

text \<open>
  \<open>staging\<close> is the fresh temporary directory and \<open>copied\<close> the outcome of \<^verbatim>\<open>shutil.copy2\<close> into it; the
  third component tells whether the directory was made.
\<close>

definition prepare_sandbox_binary ::
  "os_view \<Rightarrow> place \<Rightarrow> unit result \<Rightarrow> place \<Rightarrow> sandbox_paths \<Rightarrow> string \<Rightarrow> (sandbox_paths \<times> path \<times> bool) result" where
  "prepare_sandbox_binary v staging copied binary paths agent_id =
     bindr (is_sandbox_system_binary v (abs_path binary)) (\<lambda>system.
       if system then Inr (paths, abs_path binary, False)
       else (case bx_host_root_dir paths of
           Some rt \<Rightarrow>
             (let host_root = path_of rt in
              if \<not> is_relative_to (abs_path binary) host_root then Inl (BadParameter ''--binary must be inside --root-dir'')
              else Inr (paths, sandbox_workspace_path (abs_path binary) host_root agent_id, False))
         | None \<Rightarrow>
             (let staged = path_sub (abs_path staging) (path_name (abs_path binary)) in
              bindr copied (\<lambda>_.
                Inr (\<lparr>bx_host_workdir = abs_path staging, bx_sandbox_workdir = ''/workspace'',
                      bx_host_root_dir = Some (path_str (abs_path staging))\<rparr>,
                     sandbox_workspace_path staged (abs_path staging) agent_id, True)))))"

definition bubblehub_python :: "os_view \<Rightarrow> string" where
  "bubblehub_python v =
     (let p = path_of (env_get (os_environ v) ''BUBBLEHUB_PYTHON'' ''/opt/bubblehub/bin/python'') in
      if os_exists v p then path_str p else path_str (path_of (os_executable v)))"

definition argv_for_binary :: "os_view \<Rightarrow> path \<Rightarrow> string list" where
  "argv_for_binary v binary =
     (if path_suffix binary = ''.py'' then [bubblehub_python v, path_str binary] else [path_str binary])"

text \<open>\<open>globbed\<close> lists the \<^verbatim>\<open>python*/site-packages\<close> entries of a directory; \<open>prefix_lib\<close> is \<^verbatim>\<open>sys.prefix/lib\<close>.\<close>

definition bubblehub_site_packages :: "os_view \<Rightarrow> (path \<Rightarrow> string list) \<Rightarrow> path \<Rightarrow> path option" where
  "bubblehub_site_packages v globbed prefix_lib =
     (let lib_dir = path_sub (path_of (env_get (os_environ v) ''BUBBLEHUB_PREFIX'' ''/opt/bubblehub'')) ''lib'';
          found = (\<lambda>d. if os_is_dir v d then map (path_sub d) (rev (sort (globbed d))) else []) in
      case filter (\<lambda>c. os_is_dir v (path_sub c ''bubblehub'')) (found lib_dir @ found prefix_lib) of
        [] \<Rightarrow> None | c # _ \<Rightarrow> Some c)"

section \<open>Overlay directories\<close>

record overlay_paths =
  ov_upper_dir :: place
  ov_work_dir :: place

definition agent_place :: "path \<Rightarrow> string \<Rightarrow> path" where
  "agent_place rt agent_id = path_sub (path_sub (path_sub rt ''.bubblehub'') ''agents'') agent_id"

text \<open>The loop over the four directories: a link is refused, a missing directory is made.\<close>

fun make_overlay_dirs :: "place \<Rightarrow> path list \<Rightarrow> (fs, unit) prog" where
  "make_overlay_dirs cwd [] fs = (Inr (), fs)"
| "make_overlay_dirs cwd (p # ps) fs =
     (if path_is_symlink fs cwd p
      then (Inl (BadParameter (''persistent sandbox path cannot be a symlink: '' @ path_str p)), fs)
      else (case make_dirs fs cwd p of
          Inl e \<Rightarrow> (Inl e, fs)
        | Inr fs' \<Rightarrow> make_overlay_dirs cwd ps fs'))"

definition prepare_overlay_paths ::
  "place \<Rightarrow> string option \<Rightarrow> string \<Rightarrow> place option \<Rightarrow> (fs, overlay_paths option) prog" where
  "prepare_overlay_paths cwd root_dir agent_id rootfs_dir =
     (case (rootfs_dir, root_dir) of
        (Some _, Some rt) \<Rightarrow>
          if \<not> is_valid_agent_id agent_id then
            raisen (BadParameter (''invalid agent id for persistent overlay: '' @ agent_id))
          else
            (let agent_dir = agent_place (path_of rt) agent_id;
                 overlay = path_sub agent_dir ''overlay'';
                 upper = path_sub overlay ''upper''; work = path_sub overlay ''work'' in
             bindn (make_overlay_dirs cwd [agent_dir, overlay, upper, work]) (\<lambda>_ fs.
               case (resolve fs cwd upper, resolve fs cwd work) of
                 (Some u, Some w) \<Rightarrow> (Inr (Some \<lparr>ov_upper_dir = u, ov_work_dir = w\<rparr>), fs)
               | _ \<Rightarrow> (Inl (RuntimeError ''Symlink loop''), fs)))
      | _ \<Rightarrow> returnn None)"

section \<open>Laws\<close>

lemma relative_abs [simp]: "is_relative_to (abs_path a) (abs_path b) \<longleftrightarrow> is_prefix b a"
  by (simp add: is_relative_to_def)

lemma os_resolve_link_free:
  "os_resolve v p = Inr d \<Longrightarrow> link_free (os_fs v) (os_cwd v) \<Longrightarrow> link_free (os_fs v) d"
  by (auto simp: os_resolve_def dest: resolve_result split: option.splits)

lemma os_is_dir_real:
  "link_free (os_fs v) d \<Longrightarrow> os_is_dir v (abs_path d) \<Longrightarrow> os_fs v d = Some Directory"
  by (simp add: os_is_dir_def path_is_dir_def node_at_link_free)

text \<open>What the check of a root directory promises.\<close>

definition acceptable_root :: "os_view \<Rightarrow> place \<Rightarrow> bool" where
  "acceptable_root v d \<longleftrightarrow> d \<noteq> []
     \<and> hd d \<notin> set [''usr'', ''bin'', ''sbin'', ''lib'', ''lib64'', ''opt'', ''etc'', ''var'', ''proc'', ''sys'', ''dev'', ''run'']
     \<and> (\<forall>s. source_checkout_root v = Some s \<longrightarrow>
          \<not> is_prefix d s \<and> (is_prefix s d \<longrightarrow> is_prefix (s @ [''examples'']) d))
     \<and> (\<forall>t. bubblehub_source_tree_for v d = Some t \<longrightarrow> is_prefix (t @ [''examples'']) d)"

lemma allowed_workspace: "is_allowed_source_workspace d s \<longleftrightarrow> is_prefix (s @ [''examples'']) d"
  by (auto simp: is_allowed_source_workspace_def Let_def)

lemma validate_writable_root_accepts: "validate_writable_root v d = Inr () \<Longrightarrow> acceptable_root v d"
proof -
  assume a: "validate_writable_root v d = Inr ()"
  then have "filter (is_protected_by d) protected_roots = []"
    by (auto simp: validate_writable_root_def split: list.splits)
  then have p: "\<forall>p \<in> set protected_roots. \<not> is_protected_by d p" by (simp add: filter_empty_conv)
  have "[] \<in> set protected_roots" by (simp add: protected_roots_def)
  with p have "d \<noteq> []" by (auto simp: is_protected_by_def)
  have "is_prefix [hd d] d" using \<open>d \<noteq> []\<close> by (cases d) (simp_all add: is_prefix_iff)
  with p have "[hd d] \<notin> set protected_roots" by (auto simp: is_protected_by_def)
  then have "hd d \<notin> set [''usr'', ''bin'', ''sbin'', ''lib'', ''lib64'', ''opt'', ''etc'', ''var'', ''proc'', ''sys'', ''dev'', ''run'']"
    by (auto simp: protected_roots_def)
  with a \<open>d \<noteq> []\<close> show ?thesis
    unfolding acceptable_root_def
    by (auto simp: validate_writable_root_def allowed_workspace is_protected_by_def Let_def
        split: list.splits option.splits if_splits)
qed

lemma link_free_check:
  "\<forall>k \<in> set (with_parents d). case fs k of Some (Link _) \<Rightarrow> False | _ \<Rightarrow> True \<Longrightarrow> ''..'' \<notin> set d \<Longrightarrow> link_free fs d"
  unfolding link_free_def with_parents_prefixes[symmetric] by (auto dest!: bspec)

text \<open>Making directories adds directories and nothing else.\<close>

definition only_makes :: "fs \<Rightarrow> fs \<Rightarrow> place set \<Rightarrow> bool" where
  "only_makes fs fs' A \<longleftrightarrow> (\<forall>k. fs' k = fs k \<or> k \<in> A \<and> fs k = None \<and> fs' k = Some Directory)"

lemma only_makes_refl [simp]: "only_makes fs fs A"
  by (simp add: only_makes_def)

lemma only_makes_trans: "only_makes f g A \<Longrightarrow> only_makes g h B \<Longrightarrow> only_makes f h (A \<union> B)"
  unfolding only_makes_def by (metis Un_iff option.distinct(1))

lemma only_makes_mono: "only_makes f g A \<Longrightarrow> A \<subseteq> B \<Longrightarrow> only_makes f g B"
  unfolding only_makes_def by blast

lemma only_makes_link_free: "only_makes fs fs' A \<Longrightarrow> link_free fs e \<Longrightarrow> link_free fs' e"
  unfolding only_makes_def link_free_def by (metis node.distinct(3) option.inject)

lemma make_places_adds:
  "make_places fs ds m = Inr fs' \<Longrightarrow> fs' k = fs k \<or> k \<in> set ds \<and> fs k = None \<and> fs' k = Some Directory"
proof (induction fs ds m rule: make_places.induct)
  case (2 fs d ds m)
  show ?case
  proof (cases "fs d")
    case None
    with 2 have "fs' k = (fs(d \<mapsto> Directory)) k
        \<or> k \<in> set ds \<and> (fs(d \<mapsto> Directory)) k = None \<and> fs' k = Some Directory"
      by (simp del: fun_upd_apply)
    with None show ?thesis by (cases "k = d") auto
  next
    case (Some n)
    with 2 show ?thesis by (cases n) auto
  qed
qed simp

lemma make_dirs_adds:
  "make_dirs fs cwd p = Inr fs' \<Longrightarrow> resolve fs cwd p = Some d \<Longrightarrow> only_makes fs fs' {k. is_prefix k d}"
  unfolding only_makes_def using make_places_adds[of fs "rev (with_parents d)" _ fs']
  by (simp add: make_dirs_def with_parents_prefixes)

lemma make_dirs_link_free: "make_dirs fs cwd p = Inr fs' \<Longrightarrow> link_free fs e \<Longrightarrow> link_free fs' e"
  using make_dirs_adds only_makes_link_free by (fastforce simp: make_dirs_def split: option.splits)

lemma not_symlink_link_free:
  assumes "link_free fs d" "c \<noteq> ''..''" "\<not> path_is_symlink fs cwd (Path True (d @ [c]))"
  shows "link_free fs (d @ [c])"
proof (rule link_free_snoc)
  have "own_place fs cwd (Path True (d @ [c])) = Some (d @ [c])"
    using assms by (simp add: own_place_def path_name_def path_parent_def resolve_link_free)
  with assms(3) show "fs (d @ [c]) \<noteq> Some (Link t)" for t by (auto simp: path_is_symlink_def)
qed (use assms in auto)

lemma make_overlay_step:
  assumes "make_overlay_dirs cwd (Path True (d @ [c]) # ps) fs = (Inr (), fs')" "link_free fs d" "c \<noteq> ''..''"
  shows "\<exists>fs1. link_free fs1 (d @ [c]) \<and> make_overlay_dirs cwd ps fs1 = (Inr (), fs')
    \<and> only_makes fs fs1 {k. is_prefix k (d @ [c])}"
proof -
  from assms(1) obtain fs1 where s: "\<not> path_is_symlink fs cwd (Path True (d @ [c]))"
      "make_dirs fs cwd (Path True (d @ [c])) = Inr fs1" "make_overlay_dirs cwd ps fs1 = (Inr (), fs')"
    by (auto split: if_splits sum.splits)
  have lf: "link_free fs (d @ [c])" using assms(2,3) s(1) by (rule not_symlink_link_free)
  show ?thesis
    using make_dirs_link_free[OF s(2) lf] s(3) make_dirs_adds[OF s(2) resolve_link_free[OF lf]] by blast
qed

section \<open>Properties\<close>

text \<open>
  C8. A root directory that is accepted is a real directory, not the root and not in one of the twelve system
  directories; it does not contain the program's own checkout, and lies in it, or in another copy of the
  source tree, only when it is its directory \<^verbatim>\<open>examples\<close> or below that; and the working directory is
  inside it, with the matching path inside the sandbox. (The process stands in a directory whose path has no
  links, as the kernel reports it.)
\<close>

theorem accepted_root_is_safe:
  assumes "resolve_sandbox_paths v (Some r) w = Inr p" "link_free (os_fs v) (os_cwd v)"
  shows "\<exists>d wd. bx_host_root_dir p = Some (path_str (abs_path d)) \<and> os_fs v d = Some Directory
    \<and> link_free (os_fs v) d \<and> acceptable_root v d
    \<and> bx_host_workdir p = abs_path (d @ wd) \<and> bx_sandbox_workdir p = sandbox_workdir_text wd"
proof -
  from assms(1) obtain d wd where
    d: "os_resolve v (expanduser (os_home v) r) = Inr d" "os_is_dir v (abs_path d)"
      "validate_writable_root v d = Inr ()" "is_prefix d wd" and
    p: "p = \<lparr>bx_host_workdir = abs_path wd,
        bx_sandbox_workdir = sandbox_workdir_text (relative_parts (abs_path wd) (abs_path d)),
        bx_host_root_dir = Some (path_str (abs_path d))\<rparr>"
    by (auto simp: resolve_sandbox_paths_def bindr_eq_Inr split: if_splits)
  have lf: "link_free (os_fs v) d" using d(1) assms(2) by (rule os_resolve_link_free)
  obtain rest where "wd = d @ rest" using d(4) by (auto simp: is_prefix_iff)
  then show ?thesis
    using lf d(2) os_is_dir_real[OF lf d(2)] validate_writable_root_accepts[OF d(3)]
    by (auto simp: p relative_parts_def)
qed

definition demo_fs :: fs where
  "demo_fs = map_of [([], Directory), ([''home''], Directory), ([''home'', ''u''], Directory),
     ([''home'', ''u'', ''w''], Directory), ([''home'', ''u'', ''w'', ''src''], Directory),
     ([''proj''], Link (Path True [''home'', ''u'', ''w'']))]"

definition demo_os :: os_view where
  "demo_os = \<lparr>os_fs = demo_fs, os_cwd = [''home''], os_home = (\<lambda>_. abs_path [''home'', ''u'']),
     os_environ = (\<lambda>_. None), os_which = (\<lambda>_. None), os_source = [''opt'', ''x''], os_executable = ''/usr/bin/python3'', os_uid = 7\<rparr>"

lemma accepted_root_is_safe_witness:
  "\<exists>p d wd. resolve_sandbox_paths demo_os (Some (path_of ''/proj'')) (Some (path_of ''~/w/src'')) = Inr p
     \<and> bx_sandbox_workdir p = ''/workspace/src'' \<and> acceptable_root demo_os d
     \<and> bx_host_workdir p = abs_path (d @ wd)"
proof -
  have "map_sum (\<lambda>_. ()) bx_sandbox_workdir
      (resolve_sandbox_paths demo_os (Some (path_of ''/proj'')) (Some (path_of ''~/w/src''))) = Inr ''/workspace/src''"
    by code_simp
  then obtain p where p: "resolve_sandbox_paths demo_os (Some (path_of ''/proj'')) (Some (path_of ''~/w/src'')) = Inr p"
      "bx_sandbox_workdir p = ''/workspace/src''"
    by (auto dest: map_sum_InrD)
  have "link_free demo_fs [''home'']"
  proof -
    have "\<forall>k \<in> set (with_parents [''home'']). case demo_fs k of Some (Link _) \<Rightarrow> False | _ \<Rightarrow> True" by code_simp
    then show ?thesis by (rule link_free_check) simp
  qed
  then have "link_free (os_fs demo_os) (os_cwd demo_os)" by (simp add: demo_os_def)
  from accepted_root_is_safe[OF p(1) this] p show ?thesis by blast
qed

text \<open>
  C13. When the root directory is an absolute path, and neither it nor \<^verbatim>\<open>.bubblehub\<close> and \<^verbatim>\<open>.bubblehub/agents\<close> below it
  are or go through links, then the overlay directories of a persistent sandbox, once they are made, are
  inside the root directory, and making them makes missing directories on the way to them and changes
  nothing else. (With a link there they escape.)
\<close>

theorem overlay_stays_inside_root:
  assumes "prepare_overlay_paths cwd (Some r) agent_id (Some rootfs) fs = (Inr (Some ov), fs')"
    and "path_of r = Path True d" "link_free fs (d @ [''.bubblehub'', ''agents''])"
  shows "ov_upper_dir ov = d @ [''.bubblehub'', ''agents'', agent_id, ''overlay'', ''upper'']
    \<and> ov_work_dir ov = d @ [''.bubblehub'', ''agents'', agent_id, ''overlay'', ''work'']
    \<and> only_makes fs fs' {k. is_prefix k (ov_upper_dir ov) \<or> is_prefix k (ov_work_dir ov)}"
proof -
  let ?a = "d @ [''.bubblehub'', ''agents'']"
  have valid: "is_valid_agent_id agent_id"
    using assms(1) by (auto simp: prepare_overlay_paths_def raisen_def split: if_splits)
  have sub: "path_sub (Path True e) s = Path True (e @ [s])" if "simple_name s" for e s
    using that by (simp add: path_sub_simple)
  have names: "simple_name ''.bubblehub''" "simple_name ''agents''" "simple_name agent_id" "simple_name ''overlay''"
    "simple_name ''upper''" "simple_name ''work''"
    using valid_agent_id_simple[OF valid] by (simp_all add: simple_name_def)
  have dots: "agent_id \<noteq> ''..''" using names(3) by (simp add: simple_name_def)
  let ?ad = "?a @ [agent_id]"
  have place: "agent_place (Path True d) agent_id = Path True ?ad"
    by (simp add: agent_place_def sub names)
  let ?od = "?ad @ [''overlay'']"
  obtain u w where run:
    "make_overlay_dirs cwd [Path True ?ad, Path True ?od, Path True (?od @ [''upper'']), Path True (?od @ [''work''])] fs = (Inr (), fs')"
    and res: "resolve fs' cwd (Path True (?od @ [''upper''])) = Some u" "resolve fs' cwd (Path True (?od @ [''work''])) = Some w"
    and ov: "ov = \<lparr>ov_upper_dir = u, ov_work_dir = w\<rparr>"
    using assms(1) by (auto simp: prepare_overlay_paths_def bindn_def assms(2) place sub[OF names(4)] sub[OF names(5)] sub[OF names(6)] Let_def valid
        simp del: make_overlay_dirs.simps split: prod.splits sum.splits option.splits)
  from make_overlay_step[OF run assms(3) dots] obtain fs1 where
    s1: "link_free fs1 ?ad" "make_overlay_dirs cwd [Path True ?od, Path True (?od @ [''upper'']), Path True (?od @ [''work''])] fs1 = (Inr (), fs')"
      "only_makes fs fs1 {k. is_prefix k ?ad}" by blast
  from make_overlay_step[OF s1(2,1)] obtain fs2 where
    s2: "link_free fs2 ?od" "make_overlay_dirs cwd [Path True (?od @ [''upper'']), Path True (?od @ [''work''])] fs2 = (Inr (), fs')"
      "only_makes fs1 fs2 {k. is_prefix k ?od}" by auto
  from make_overlay_step[OF s2(2,1)] obtain fs3 where
    s3: "link_free fs3 (?od @ [''upper''])" "make_overlay_dirs cwd [Path True (?od @ [''work''])] fs3 = (Inr (), fs')"
      "only_makes fs2 fs3 {k. is_prefix k (?od @ [''upper''])}" by auto
  have "link_free fs3 ?od" using s3(1) by (rule link_free_prefix) (simp add: is_prefix_iff)
  from make_overlay_step[OF s3(2) this] obtain fs4 where
    s4: "link_free fs4 (?od @ [''work''])" "make_overlay_dirs cwd [] fs4 = (Inr (), fs')"
      "only_makes fs3 fs4 {k. is_prefix k (?od @ [''work''])}" by auto
  then have fs': "fs' = fs4" by simp
  have "link_free fs' (?od @ [''upper''])" unfolding fs' using s4(3) s3(1) by (rule only_makes_link_free)
  then have uw: "u = ?od @ [''upper'']" "w = ?od @ [''work'']"
    using res s4(1) by (simp_all add: resolve_link_free fs')
  have below: "is_prefix k ?od \<Longrightarrow> is_prefix k w" "is_prefix k ?ad \<Longrightarrow> is_prefix k w" for k
    unfolding uw by (erule is_prefix_trans; simp add: is_prefix_iff)+
  have "only_makes fs fs' {k. is_prefix k u \<or> is_prefix k w}" unfolding fs'
    by (rule only_makes_mono[OF only_makes_trans[OF only_makes_trans[OF only_makes_trans[OF s1(3) s2(3)] s3(3)] s4(3)]])
      (use below uw in auto)
  then show ?thesis by (simp add: ov uw)
qed

definition overlay_fs :: fs where
  "overlay_fs = map_of [([], Directory), ([''w''], Directory), ([''w'', ''.bubblehub''], Directory), ([''etc''], Directory)]"

lemma overlay_stays_inside_root_witness:
  "\<exists>ov fs'. prepare_overlay_paths [] (Some ''/w'') ''agt-1'' (Some [''r'']) overlay_fs = (Inr (Some ov), fs')
     \<and> ov_upper_dir ov = [''w'', ''.bubblehub'', ''agents'', ''agt-1'', ''overlay'', ''upper'']"
proof -
  have "map_sum (\<lambda>_. ()) (map_option ov_upper_dir) (fst (prepare_overlay_paths [] (Some ''/w'') ''agt-1'' (Some [''r'']) overlay_fs))
      = Inr (Some [''w'', ''.bubblehub'', ''agents'', ''agt-1'', ''overlay'', ''upper''])" by code_simp
  then obtain ov fs' where p: "prepare_overlay_paths [] (Some ''/w'') ''agt-1'' (Some [''r'']) overlay_fs = (Inr (Some ov), fs')"
    by (cases "prepare_overlay_paths [] (Some ''/w'') ''agt-1'' (Some [''r'']) overlay_fs") (auto dest: map_sum_InrD)
  have path: "path_of ''/w'' = Path True [''w'']" by code_simp
  have "\<forall>k \<in> set (with_parents [''w'', ''.bubblehub'', ''agents'']). case overlay_fs k of Some (Link _) \<Rightarrow> False | _ \<Rightarrow> True"
    by code_simp
  then have "link_free overlay_fs ([''w''] @ [''.bubblehub'', ''agents''])"
    using link_free_check[of "[''w'', ''.bubblehub'', ''agents'']" overlay_fs] by simp
  from overlay_stays_inside_root[OF p path this] p show ?thesis by auto
qed

text \<open>
  Without that premise they are not: the four directories from the agent's own down are tested for
  links, \<^verbatim>\<open>.bubblehub\<close> above them is not, so a root directory in which it is a link makes the overlay
  of the next run somewhere else on the host.
\<close>

theorem overlay_escapes_through_link:
  "\<exists>ov fs'. prepare_overlay_paths [] (Some ''/w'') ''agt-1'' (Some [''r''])
      (overlay_fs([''w'', ''.bubblehub''] \<mapsto> Link (Path True [''etc'']))) = (Inr (Some ov), fs')
    \<and> ov_upper_dir ov = [''etc'', ''agents'', ''agt-1'', ''overlay'', ''upper'']
    \<and> fs' [''etc'', ''agents'', ''agt-1''] = Some Directory"
proof -
  let ?fs = "overlay_fs([''w'', ''.bubblehub''] \<mapsto> Link (Path True [''etc'']))"
  have "map_sum (\<lambda>_. ()) (map_option ov_upper_dir) (fst (prepare_overlay_paths [] (Some ''/w'') ''agt-1'' (Some [''r'']) ?fs))
      = Inr (Some [''etc'', ''agents'', ''agt-1'', ''overlay'', ''upper''])
    \<and> snd (prepare_overlay_paths [] (Some ''/w'') ''agt-1'' (Some [''r'']) ?fs) [''etc'', ''agents'', ''agt-1''] = Some Directory"
    by code_simp
  then show ?thesis
    by (cases "prepare_overlay_paths [] (Some ''/w'') ''agt-1'' (Some [''r'']) ?fs") (auto dest: map_sum_InrD)
qed

end
