(* ===== verification/Persistent_Agents.thy ===== *)
theory Persistent_Agents
  imports Sandbox_Paths Native_Scheduler
begin

text \<open>
  The agents that outlive a run: the persistent sandbox under a root directory, its reuse and its removal
  (the second part of \<^verbatim>\<open>bubblehub/cli/run.py\<close>), and the access manifests of the state directory.
\<close>

section \<open>Programs on the file system\<close>

text \<open>
  What the operating system decides: the order \<^verbatim>\<open>iterdir\<close> yields names in, the modification times, and
  how far \<^verbatim>\<open>shutil.rmtree\<close> gets (a \<^verbatim>\<open>tree_removal\<close>).
\<close>

record disk =
  dk_names :: "fs \<Rightarrow> place \<Rightarrow> string list"
  dk_mtime :: "fs \<Rightarrow> place \<Rightarrow> int"
  dk_rm :: "fs \<Rightarrow> place \<Rightarrow> unit result \<times> fs"

type_synonym 'a hosted = "(os_view, 'a) prog"

definition asks :: "('s \<Rightarrow> 'a result) \<Rightarrow> ('s, 'a) prog" where
  "asks f v = (f v, v)"

definition fs_change :: "(fs \<Rightarrow> place \<Rightarrow> fs result) \<Rightarrow> unit hosted" where
  "fs_change f v = (case f (os_fs v) (os_cwd v) of Inl e \<Rightarrow> (Inl e, v) | Inr fs' \<Rightarrow> (Inr (), v\<lparr>os_fs := fs'\<rparr>))"

definition fs_remove :: "disk \<Rightarrow> place \<Rightarrow> unit hosted" where
  "fs_remove dk d v = (case dk_rm dk (os_fs v) d of (r, fs') \<Rightarrow> (r, v\<lparr>os_fs := fs'\<rparr>))"

text \<open>Text files: UTF-8, with the line ends of text mode.\<close>

definition text_mode :: "string \<Rightarrow> string" where
  "text_mode s = map (\<lambda>c. if c = ch_cr then ch_nl else c) (merge_crlf s)"

definition os_read_text :: "os_view \<Rightarrow> path \<Rightarrow> string result" where
  "os_read_text v p = bindr (read_file (os_fs v) (os_cwd v) p) (\<lambda>b. bindr (decode_utf8 b) (\<lambda>s. Inr (text_mode s)))"

definition os_write_text :: "path \<Rightarrow> string \<Rightarrow> unit hosted" where
  "os_write_text p s = fs_change (\<lambda>fs cwd. write_file fs cwd p (utf8_encode s))"

definition os_is_symlink :: "os_view \<Rightarrow> path \<Rightarrow> bool" where
  "os_is_symlink v p = path_is_symlink (os_fs v) (os_cwd v) p"

text \<open>The place an operation on the name itself works on, its last component not followed.\<close>

definition os_own_place :: "os_view \<Rightarrow> path \<Rightarrow> place result" where
  "os_own_place v p = (case own_place (os_fs v) (os_cwd v) p of
     None \<Rightarrow> Inl (OSError ''Too many levels of symbolic links'') | Some d \<Rightarrow> Inr d)"

definition os_names :: "disk \<Rightarrow> os_view \<Rightarrow> path \<Rightarrow> string list result" where
  "os_names dk v p = bindr (os_resolve v p) (\<lambda>d. Inr (dk_names dk (os_fs v) d))"

section \<open>The state directory\<close>

definition state_root :: "os_view \<Rightarrow> path" where
  "state_root v =
     (case env_nonempty (os_environ v) ''BUBBLEHUB_STATE_DIR'' of
        Some s \<Rightarrow> expanduser (os_home v) (path_of s)
      | None \<Rightarrow> (case env_nonempty (os_environ v) ''XDG_STATE_HOME'' of
          Some s \<Rightarrow> path_sub (expanduser (os_home v) (path_of s)) ''bubblehub''
        | None \<Rightarrow> (case env_nonempty (os_environ v) ''HOME'' of
            Some s \<Rightarrow> path_sub (path_sub (path_sub (expanduser (os_home v) (path_of s)) ''.local'') ''state'') ''bubblehub''
          | None \<Rightarrow> path_sub (path_of (''/tmp/bubblehub-'' @ show_nat (os_uid v))) ''state'')))"

definition agent_metadata_dir :: "os_view \<Rightarrow> path" where "agent_metadata_dir v = path_sub (state_root v) ''agents''"
definition manifest_root :: "os_view \<Rightarrow> path" where "manifest_root v = path_sub (state_root v) ''sandboxes''"

definition agent_metadata_path :: "os_view \<Rightarrow> string \<Rightarrow> path" where
  "agent_metadata_path v agent_id = path_sub (agent_metadata_dir v) (agent_id @ ''.json'')"

section \<open>The persistent sandbox of a root directory\<close>

definition is_persistent_agent_dir :: "os_view \<Rightarrow> path \<Rightarrow> bool" where
  "is_persistent_agent_dir v p \<longleftrightarrow> os_is_dir v p \<and> \<not> os_is_symlink v p \<and> is_valid_agent_id (path_name p)
     \<and> os_is_dir v (path_sub p ''home'') \<and> \<not> os_is_symlink v (path_sub p ''home'')"

definition bubblehub_dir :: "path \<Rightarrow> path" where "bubblehub_dir rt = path_sub rt ''.bubblehub''"
definition agents_dir :: "path \<Rightarrow> path" where "agents_dir rt = path_sub (bubblehub_dir rt) ''agents''"
definition agent_marker :: "path \<Rightarrow> path" where "agent_marker rt = path_sub (bubblehub_dir rt) ''current-agent''"

text \<open>The agent the marker names, when its directory is one.\<close>

definition marked_agent :: "os_view \<Rightarrow> path \<Rightarrow> string option result" where
  "marked_agent v rt =
     (if os_is_file v (agent_marker rt) then
        bindr (os_read_text v (agent_marker rt)) (\<lambda>text_read.
          let agent_id = strip text_read in
          Inr (if is_persistent_agent_dir v (path_sub (agents_dir rt) agent_id) then Some agent_id else None))
      else Inr None)"

text \<open>The candidates, the latest modification first; the sort is stable.\<close>

definition newest_first :: "disk \<Rightarrow> os_view \<Rightarrow> path list \<Rightarrow> path list" where
  "newest_first dk v candidates =
     sort_key (\<lambda>p. - (case resolve (os_fs v) (os_cwd v) p of Some d \<Rightarrow> dk_mtime dk (os_fs v) d | None \<Rightarrow> 0)) candidates"

definition newest_agent :: "disk \<Rightarrow> os_view \<Rightarrow> path \<Rightarrow> string option result" where
  "newest_agent dk v rt =
     (if \<not> os_is_dir v (agents_dir rt) then Inr None
      else bindr (os_names dk v (agents_dir rt)) (\<lambda>names.
        case newest_first dk v (filter (is_persistent_agent_dir v) (map (path_child (agents_dir rt)) names)) of
          [] \<Rightarrow> Inr None
        | p # _ \<Rightarrow> Inr (Some (path_name p))))"

definition find_persistent_agent_id :: "disk \<Rightarrow> os_view \<Rightarrow> path \<Rightarrow> string option result" where
  "find_persistent_agent_id dk v rt = bindr (marked_agent v rt) (\<lambda>marked.
     case marked of Some agent_id \<Rightarrow> Inr (Some agent_id) | None \<Rightarrow> newest_agent dk v rt)"

definition record_persistent_sandbox :: "string option \<Rightarrow> string \<Rightarrow> unit hosted" where
  "record_persistent_sandbox root_dir agent_id =
     (case root_dir of
        None \<Rightarrow> returnn ()
      | Some r \<Rightarrow>
          bindn (fs_change (\<lambda>fs cwd. make_dir fs cwd (bubblehub_dir (path_of r)))) (\<lambda>_.
            os_write_text (agent_marker (path_of r)) (agent_id @ [ch_nl])))"

fun tombstone_index :: "(nat \<Rightarrow> bool) \<Rightarrow> nat \<Rightarrow> nat \<Rightarrow> nat option" where
  "tombstone_index taken i 0 = None"
| "tombstone_index taken i (Suc n) = (if taken i then tombstone_index taken (Suc i) n else Some i)"

definition tombstone_name :: "string \<Rightarrow> nat \<Rightarrow> string" where
  "tombstone_name agent_id i = ''.removed-'' @ agent_id @ (if i = 0 then [] else ''-'' @ show_nat i)"

definition tombstone_agent_path :: "os_view \<Rightarrow> place \<Rightarrow> string \<Rightarrow> path result" where
  "tombstone_agent_path v agents agent_id =
     (case tombstone_index (\<lambda>i. os_exists v (path_sub (abs_path agents) (tombstone_name agent_id i))) 0 1000 of
        Some i \<Rightarrow> Inr (path_sub (abs_path agents) (tombstone_name agent_id i))
      | None \<Rightarrow> Inl (BadParameter ''could not choose a tombstone path for persistent sandbox cleanup''))"

text \<open>The directory is renamed, and removed as far as that goes, when it cannot be removed as it is.\<close>

definition bury_agent :: "disk \<Rightarrow> place \<Rightarrow> place \<Rightarrow> string \<Rightarrow> unit hosted" where
  "bury_agent dk agents agent agent_id =
     bindn (asks (\<lambda>v. bindr (tombstone_agent_path v agents agent_id) (os_own_place v))) (\<lambda>tombstone.
     bindn (fs_change (\<lambda>fs _. rename_dir fs agent tombstone)) (\<lambda>_ v.
       (Inr (), snd (fs_remove dk tombstone v))))"

definition discard_persistent_agent :: "disk \<Rightarrow> path \<Rightarrow> string \<Rightarrow> unit hosted" where
  "discard_persistent_agent dk rt agent_id v =
     (let agents = agents_dir rt; agent = path_sub agents agent_id in
      if \<not> is_persistent_agent_dir v agent then (Inr (), v)
      else bindn (asks (\<lambda>v. os_resolve v agents)) (\<lambda>resolved_agents.
        bindn (asks (\<lambda>v. os_resolve v agent)) (\<lambda>resolved_agent.
          if path_parent (abs_path resolved_agent) \<noteq> abs_path resolved_agents
          then raisen (BadParameter ''persistent sandbox path escaped .bubblehub/agents'')
          else (\<lambda>v. case fs_remove dk resolved_agent v of
              (Inl (PermissionError _), v') \<Rightarrow> bury_agent dk resolved_agents resolved_agent agent_id v'
            | other \<Rightarrow> other))) v)"

section \<open>Access manifests\<close>

definition access_state_root :: "os_view \<Rightarrow> env \<Rightarrow> path" where
  "access_state_root v env = state_root (v\<lparr>os_environ := env\<rparr>)"

definition prepare_access_manifest_dir :: "string \<Rightarrow> env \<Rightarrow> unit hosted" where
  "prepare_access_manifest_dir agent_id env v =
     fs_change (\<lambda>fs cwd. make_dirs fs cwd (path_sub (path_sub (access_state_root v env) ''sandboxes'') agent_id)) v"

text \<open>\<^verbatim>\<open>shutil.rmtree(path)\<close>, which refuses a link.\<close>

definition rmtree_path :: "disk \<Rightarrow> path \<Rightarrow> unit hosted" where
  "rmtree_path dk p =
     bindn (asks (\<lambda>v. bindr (os_own_place v p) (\<lambda>d.
       if os_is_symlink v p then Inl (OSError ''Cannot call rmtree on a symbolic link'') else Inr d)))
       (fs_remove dk)"

definition remove_access_manifest_state :: "disk \<Rightarrow> string \<Rightarrow> env \<Rightarrow> unit hosted" where
  "remove_access_manifest_state dk agent_id env v =
     (if \<not> is_valid_agent_id agent_id then (Inl (BadParameter ''invalid agent id for access manifest cleanup''), v)
      else
        (let sandboxes = path_sub (access_state_root v env) ''sandboxes''; manifest = path_sub sandboxes agent_id in
         if \<not> os_exists v manifest \<and> \<not> os_is_symlink v manifest then (Inr (), v)
         else bindn (asks (\<lambda>v. os_resolve v sandboxes)) (\<lambda>resolved_sandboxes.
           bindn (asks (\<lambda>v. os_resolve v manifest)) (\<lambda>resolved_manifest.
             if os_is_symlink v manifest \<or> path_parent (abs_path resolved_manifest) \<noteq> abs_path resolved_sandboxes
             then raisen (BadParameter ''access manifest path escaped sandboxes state directory'')
             else rmtree_path dk manifest)) v))"

record persistent_sandbox =
  pb_agent_id :: "string option"
  pb_reused :: bool

definition select_persistent_sandbox :: "disk \<Rightarrow> string option \<Rightarrow> bool \<Rightarrow> persistent_sandbox hosted" where
  "select_persistent_sandbox dk root_dir force_new =
     (case root_dir of
        None \<Rightarrow> returnn \<lparr>pb_agent_id = None, pb_reused = False\<rparr>
      | Some r \<Rightarrow>
          bindn (asks (\<lambda>v. find_persistent_agent_id dk v (path_of r))) (\<lambda>found.
            case found of
              None \<Rightarrow> returnn \<lparr>pb_agent_id = None, pb_reused = False\<rparr>
            | Some agent_id \<Rightarrow>
                if force_new then
                  bindn (discard_persistent_agent dk (path_of r) agent_id) (\<lambda>_ v.
                    bindn (remove_access_manifest_state dk agent_id (os_environ v)) (\<lambda>_.
                      returnn \<lparr>pb_agent_id = None, pb_reused = False\<rparr>) v)
                else returnn \<lparr>pb_agent_id = Some agent_id, pb_reused = True\<rparr>))"

section \<open>Laws\<close>

lemma make_places_made: "make_places fs ds m = Inr fs' \<Longrightarrow> k \<in> set ds \<Longrightarrow> fs' k = Some Directory"
proof (induction fs ds m rule: make_places.induct)
  case (2 fs d ds m)
  show ?case
  proof (cases "k \<in> set ds")
    case True
    with 2 show ?thesis by (auto simp del: fun_upd_apply split: option.splits node.splits)
  next
    case False
    with "2.prems" have k: "k = d" by simp
    show ?thesis
    proof (cases "fs d")
      case None
      then have "make_places (fs(d \<mapsto> Directory)) ds m = Inr fs'" using "2.prems"(1) by (simp del: fun_upd_apply)
      from make_places_adds[OF this, of d] k show ?thesis by simp
    next
      case (Some n)
      with "2.prems"(1) have "make_places fs ds m = Inr fs'" "n = Directory" by (auto split: node.splits)
      with make_places_adds[of fs ds m fs' d] Some k show ?thesis by auto
    qed
  qed
qed simp

lemma make_dirs_made: "make_dirs fs cwd p = Inr fs' \<Longrightarrow> resolve fs cwd p = Some d \<Longrightarrow> is_prefix k d \<Longrightarrow> fs' k = Some Directory"
  by (auto simp: make_dirs_def with_parents_prefixes intro: make_places_made)

lemma lookup_dirs:
  "(\<And>k. is_prefix k (acc @ cs) \<Longrightarrow> k \<noteq> acc @ cs \<Longrightarrow> fs k = Some Directory) \<Longrightarrow> (\<And>t. fs (acc @ cs) \<noteq> Some (Link t)) \<Longrightarrow>
     ''..'' \<notin> set cs \<Longrightarrow> lookup fs n acc cs = Some (acc @ cs)"
proof (induction cs arbitrary: acc)
  case (Cons c cs)
  have dir: "fs acc = Some Directory" using Cons.prems(1)[of acc] by (simp add: is_prefix_iff)
  have "fs (acc @ [c]) \<noteq> Some (Link t)" for t
    using Cons.prems(1)[of "acc @ [c]"] Cons.prems(2)[of t] by (cases "cs = []") (auto simp: is_prefix_iff)
  moreover have "lookup fs n (acc @ [c]) cs = Some ((acc @ [c]) @ cs)"
  proof (rule Cons.IH)
    show "fs k = Some Directory" if "is_prefix k ((acc @ [c]) @ cs)" "k \<noteq> (acc @ [c]) @ cs" for k
      using Cons.prems(1)[of k] that by simp
  qed (use Cons.prems in auto)
  ultimately show ?case using Cons.prems(3) dir by (auto split: option.splits node.splits)
qed simp

text \<open>A file that is written into directories made for it is there.\<close>

lemma written_file_found:
  assumes fs1: "make_dirs fs cwd (abs_path d) = Inr fs1" and fs2: "write_file fs1 cwd (abs_path (d @ [f])) s = Inr fs2"
    and lf: "link_free fs (d @ [f])"
  shows "fs2 = fs1(d @ [f] \<mapsto> File s) \<and> node_at fs2 cwd (abs_path (d @ [f])) = Some (File s)"
proof -
  have lf0: "link_free fs d" using lf by (rule link_free_prefix) simp
  have lf1: "link_free fs1 (d @ [f])" using make_dirs_link_free[OF fs1 lf] .
  have dirs: "fs1 k = Some Directory" if "is_prefix k d" for k
    using make_dirs_made[OF fs1 resolve_link_free[OF lf0] that] .
  have eq: "fs2 = fs1(d @ [f] \<mapsto> File s)"
    using fs2 by (auto simp: write_file_def resolve_link_free[OF lf1] split: if_splits option.splits node.splits)
  have "fs2 k = Some Directory" if "is_prefix k (d @ [f])" "k \<noteq> d @ [f]" for k
  proof -
    from that have "is_prefix k d"
      using with_parents_prefixes[of k "d @ [f]"] with_parents_prefixes[of k d] by (simp add: with_parents.simps[of "d @ [f]"])
    with dirs that show ?thesis by (simp add: eq)
  qed
  moreover have "''..'' \<notin> set (d @ [f])" using lf1 by (simp add: link_free_def)
  ultimately have "lookup fs2 max_links [] (d @ [f]) = Some (d @ [f])"
    using lookup_dirs[of "[]" "d @ [f]" fs2] by (simp add: eq)
  then show ?thesis by (simp add: node_at_def eq)
qed

text \<open>No operation on the disk changes the environment of the process.\<close>

lemma keeps_asks [keeps_rules]: "keeps f (asks g)" by (simp add: keeps_def asks_def)

lemma keeps_fs [keeps_rules]:
  "keeps os_environ (fs_change g)" "keeps os_environ (fs_remove dk d)" "keeps os_environ (os_write_text p t)"
  by (auto simp: keeps_def fs_change_def fs_remove_def os_write_text_def split: sum.splits prod.splits)

lemma keeps_record [keeps_rules]: "keeps os_environ (record_persistent_sandbox rt agent_id)"
  unfolding record_persistent_sandbox_def by (auto split: option.splits intro!: keeps_rules)

lemma keeps_manifest_dir [keeps_rules]: "keeps os_environ (prepare_access_manifest_dir i e)"
  unfolding prepare_access_manifest_dir_def[abs_def] by (rule keeps_state) (intro keeps_rules)

lemma keeps_rmtree_path [keeps_rules]: "keeps os_environ (rmtree_path dk p)"
  unfolding rmtree_path_def by (intro keeps_rules)

lemma keeps_access_state [keeps_rules]: "keeps os_environ (remove_access_manifest_state dk i e)"
  unfolding keeps_def remove_access_manifest_state_def Let_def
  using keeps_rmtree_path by (auto simp: native_simps asks_def keeps_def split: sum.splits)

lemma keeps_bury [keeps_rules]: "keeps os_environ (bury_agent dk a b i)"
  unfolding bury_agent_def
  by (intro keeps_rules) (auto simp: keeps_def fs_remove_def split: prod.splits)

lemma keeps_discard [keeps_rules]: "keeps os_environ (discard_persistent_agent dk rt i)"
proof -
  have r: "fs_remove dk d v = (r, v') \<Longrightarrow> os_environ v' = os_environ v" for d v r v'
    using keepsD[OF keeps_fs(2)] by metis
  have b: "os_environ (snd (bury_agent dk a b i v)) = os_environ v" for a b v using keeps_bury unfolding keeps_def by blast
  show ?thesis
    unfolding keeps_def discard_persistent_agent_def Let_def
    by (auto simp: native_simps asks_def b dest: r split: sum.splits prod.splits exn.splits)
qed

lemma keeps_select [keeps_rules]: "keeps os_environ (select_persistent_sandbox dk rt force)"
proof -
  have "keeps os_environ (\<lambda>v. bindn (remove_access_manifest_state dk i (os_environ v)) (\<lambda>_. returnn y) v)" for i y
    by (rule keeps_state) (intro keeps_rules)
  then show ?thesis
    unfolding select_persistent_sandbox_def by (auto split: option.splits intro!: keeps_rules)
qed

declare asks_def [native_simps]

lemma bindn_asks:
  "bindn (asks f) g v = (case f v of Inl e \<Rightarrow> (Inl e, v) | Inr x \<Rightarrow> g x v)"
  by (simp add: bindn_def asks_def split: sum.splits)

text \<open>The place of a persistent agent's directory: no link is followed to it.\<close>

lemma agent_dir_place:
  assumes "is_persistent_agent_dir v (path_sub (agents_dir rt) agent_id)" "is_valid_agent_id agent_id"
    "os_resolve v (agents_dir rt) = Inr a"
  shows "os_resolve v (path_sub (agents_dir rt) agent_id) = Inr (a @ [agent_id])"
  using assms resolve_sub[OF valid_agent_id_simple[OF assms(2)], of "os_fs v" "os_cwd v" "agents_dir rt" a]
  by (auto simp: os_resolve_def is_persistent_agent_dir_def os_is_symlink_def split: option.splits)

lemma path_parent_sub: "simple_name s \<Longrightarrow> path_parent (path_sub p s) = p"
  by (cases p) (simp add: path_parent_def path_sub_simple)

lemma path_parent_snoc [simp]: "path_parent (Path b (cs @ [c])) = Path b cs"
  by (simp add: path_parent_def)

text \<open>Discarding: the directory itself, or the name it is buried under.\<close>

definition burial_places :: "place \<Rightarrow> string \<Rightarrow> place set" where
  "burial_places a agent_id = {k. \<exists>c. is_prefix (a @ [c]) k \<and> (c = agent_id \<or> startswith (''.removed-'' @ agent_id) c)}"

lemma tombstone_simple: "is_valid_agent_id agent_id \<Longrightarrow> simple_name (tombstone_name agent_id i)"
  using valid_agent_id_no_sep[of agent_id] show_nat_digits[of "CHR ''/''" i]
  by (auto simp: simple_name_def tombstone_name_def is_digit_def)

lemma tombstone_places: "is_prefix (a @ [tombstone_name agent_id i]) k \<Longrightarrow> k \<in> burial_places a agent_id"
  by (force simp: burial_places_def tombstone_name_def startswith_iff)

lemma agent_burial: "is_prefix (a @ [agent_id]) k \<Longrightarrow> k \<in> burial_places a agent_id"
  by (auto simp: burial_places_def)

lemma rename_dir_other:
  "rename_dir fs src dst = Inr fs' \<Longrightarrow> \<not> is_prefix src k \<Longrightarrow> \<not> is_prefix dst k \<Longrightarrow> fs' k = fs k"
  by (auto simp: rename_dir_def move_tree_other split: if_splits)

lemma bury_agent_inside:
  assumes rm: "tree_removal (dk_rm dk)" and id: "is_valid_agent_id agent_id" and lf: "link_free (os_fs v) a"
    and k: "k \<notin> burial_places a agent_id"
  shows "os_fs (snd (bury_agent dk a (a @ [agent_id]) agent_id v)) k = os_fs v k"
proof (cases "bindr (tombstone_agent_path v a agent_id) (os_own_place v)")
  case (Inl e)
  then show ?thesis by (simp add: bury_agent_def bindn_asks)
next
  case (Inr t)
  then obtain i where "os_own_place v (path_sub (abs_path a) (tombstone_name agent_id i)) = Inr t"
    by (auto simp: bindr_eq_Inr tombstone_agent_path_def split: option.splits)
  then have t: "t = a @ [tombstone_name agent_id i]"
    by (simp add: os_own_place_def own_place_sub[OF tombstone_simple[OF id]] resolve_link_free[OF lf])
  have outside: "\<not> is_prefix (a @ [agent_id]) k" "\<not> is_prefix t k"
    using k tombstone_places[of a agent_id i k] agent_burial[of a agent_id k] by (auto simp: t)
  show ?thesis
  proof (cases "rename_dir (os_fs v) (a @ [agent_id]) t")
    case (Inl e)
    then show ?thesis by (simp add: bury_agent_def asks_def Inr bindn_def fs_change_def)
  next
    case ren: (Inr fs')
    have "snd (dk_rm dk fs' t) k = fs' k" using tree_removal.rm_outside[OF rm outside(2)] .
    then show ?thesis
      using rename_dir_other[OF ren outside]
      by (cases "dk_rm dk fs' t") (simp add: bury_agent_def asks_def Inr bindn_def fs_change_def ren fs_remove_def)
  qed
qed

text \<open>Which agent a run reuses.\<close>

lemma path_child_sub: "simple_name c \<Longrightarrow> path_child p c = path_sub p c"
  by (simp add: path_child_def path_sub_simple)

lemma path_name_child [simp]: "path_name (path_child p c) = c"
  by (simp add: path_name_def path_child_def)

lemma newest_agent_first:
  assumes "newest_agent dk v rt = Inr (Some agent_id)"
  obtains names c ps where "os_names dk v (agents_dir rt) = Inr names"
    "newest_first dk v (filter (is_persistent_agent_dir v) (map (path_child (agents_dir rt)) names))
      = path_child (agents_dir rt) c # ps"
    "agent_id = c" "is_persistent_agent_dir v (path_child (agents_dir rt) c)"
proof -
  from assms obtain names where names: "os_names dk v (agents_dir rt) = Inr names"
    by (auto simp: newest_agent_def bindr_eq_Inr split: if_splits)
  let ?cs = "newest_first dk v (filter (is_persistent_agent_dir v) (map (path_child (agents_dir rt)) names))"
  obtain p ps where p: "?cs = p # ps" "agent_id = path_name p"
    using assms names by (cases ?cs) (auto simp: newest_agent_def split: if_splits)
  have "set ?cs = set (filter (is_persistent_agent_dir v) (map (path_child (agents_dir rt)) names))"
    by (simp add: newest_first_def)
  then have "p \<in> set (filter (is_persistent_agent_dir v) (map (path_child (agents_dir rt)) names))"
    using p(1) by (metis list.set_intros(1))
  with p names that show ?thesis by auto
qed

lemma newest_agent_found:
  assumes "newest_agent dk v rt = Inr (Some agent_id)"
  shows "is_persistent_agent_dir v (path_sub (agents_dir rt) agent_id)"
proof -
  from newest_agent_first[OF assms] have c: "is_persistent_agent_dir v (path_child (agents_dir rt) agent_id)" by metis
  then have "simple_name agent_id" using valid_agent_id_simple by (simp add: is_persistent_agent_dir_def)
  with c show ?thesis by (simp add: path_child_sub)
qed

lemma find_persistent_found:
  "find_persistent_agent_id dk v rt = Inr (Some agent_id) \<Longrightarrow>
     is_persistent_agent_dir v (path_sub (agents_dir rt) agent_id)"
  by (auto simp: find_persistent_agent_id_def marked_agent_def bindr_eq_Inr Let_def newest_agent_found
      split: if_splits option.splits)

lemma newest_agent_latest:
  assumes "newest_agent dk v rt = Inr (Some agent_id)" "os_names dk v (agents_dir rt) = Inr names"
    "c \<in> set names" "is_persistent_agent_dir v (path_child (agents_dir rt) c)"
    "os_resolve v (agents_dir rt) = Inr a"
  shows "dk_mtime dk (os_fs v) (a @ [c]) \<le> dk_mtime dk (os_fs v) (a @ [agent_id])"
proof -
  let ?key = "\<lambda>p. - (case resolve (os_fs v) (os_cwd v) p of Some d \<Rightarrow> dk_mtime dk (os_fs v) d | None \<Rightarrow> 0)"
  let ?cs = "filter (is_persistent_agent_dir v) (map (path_child (agents_dir rt)) names)"
  from newest_agent_first[OF assms(1)] assms(2) obtain ps where
    p: "newest_first dk v ?cs = path_child (agents_dir rt) agent_id # ps"
    and id: "is_persistent_agent_dir v (path_child (agents_dir rt) agent_id)" by (metis Inr_inject)
  have place: "?key (path_child (agents_dir rt) x) = - dk_mtime dk (os_fs v) (a @ [x])"
    if "is_persistent_agent_dir v (path_child (agents_dir rt) x)" for x
  proof -
    have v: "is_valid_agent_id x" using that by (simp add: is_persistent_agent_dir_def)
    then have "os_resolve v (path_child (agents_dir rt) x) = Inr (a @ [x])"
      using agent_dir_place[OF _ v assms(5)] that by (simp add: path_child_sub[OF valid_agent_id_simple[OF v]])
    then show ?thesis by (auto simp: os_resolve_def split: option.splits)
  qed
  have "path_child (agents_dir rt) c \<in> set (newest_first dk v ?cs)" using assms(3,4) by (simp add: newest_first_def)
  moreover have "sorted (map ?key (newest_first dk v ?cs))" by (simp add: newest_first_def)
  ultimately have "?key (path_child (agents_dir rt) agent_id) \<le> ?key (path_child (agents_dir rt) c)" by (auto simp: p)
  then show ?thesis using place[OF assms(4)] place[OF id] by simp
qed

section \<open>Properties\<close>

text \<open>
  C33. Discarding a persistent sandbox changes nothing outside the directory of that agent and the
  tombstones it may be renamed to, all of them directly below the resolved \<^verbatim>\<open>.bubblehub/agents\<close>,
  however far \<^verbatim>\<open>rmtree\<close> gets before it fails.
\<close>

theorem discarded_agent_only:
  assumes rm: "tree_removal (dk_rm dk)" and id: "is_valid_agent_id agent_id"
    and cwd: "link_free (os_fs v) (os_cwd v)" and a: "os_resolve v (agents_dir rt) = Inr a"
  shows "{k. os_fs (snd (discard_persistent_agent dk rt agent_id v)) k \<noteq> os_fs v k} \<subseteq> burial_places a agent_id"
proof (cases "is_persistent_agent_dir v (path_sub (agents_dir rt) agent_id)")
  case False
  then show ?thesis by (simp add: discard_persistent_agent_def Let_def)
next
  case True
  let ?d = "a @ [agent_id]"
  obtain r f1 where f1: "dk_rm dk (os_fs v) ?d = (r, f1)" by fastforce
  have inside: "f1 k = os_fs v k" if "k \<notin> burial_places a agent_id" for k
    using tree_removal.rm_removes[OF rm f1, of k] agent_burial[of a agent_id k] that by blast
  have lf: "link_free f1 a"
    using tree_removal.rm_link_free[OF rm os_resolve_link_free[OF a cwd], of ?d] by (simp add: f1)
  have "discard_persistent_agent dk rt agent_id v = (case (r, v\<lparr>os_fs := f1\<rparr>) of
      (Inl (PermissionError _), v') \<Rightarrow> bury_agent dk a ?d agent_id v' | other \<Rightarrow> other)"
    using a agent_dir_place[OF True id a] True
    by (simp add: discard_persistent_agent_def Let_def bindn_asks fs_remove_def f1)
  then have either: "discard_persistent_agent dk rt agent_id v = (r, v\<lparr>os_fs := f1\<rparr>)
      \<or> discard_persistent_agent dk rt agent_id v = bury_agent dk a ?d agent_id (v\<lparr>os_fs := f1\<rparr>)"
    by (auto split: sum.splits exn.splits)
  have buried: "os_fs (snd (bury_agent dk a ?d agent_id (v\<lparr>os_fs := f1\<rparr>))) k = os_fs v k"
    if "k \<notin> burial_places a agent_id" for k
    using bury_agent_inside[OF rm id, of "v\<lparr>os_fs := f1\<rparr>" a k] lf inside[OF that] that by simp
  have "os_fs (snd (discard_persistent_agent dk rt agent_id v)) k = os_fs v k" if "k \<notin> burial_places a agent_id" for k
    using either
  proof
    assume "discard_persistent_agent dk rt agent_id v = (r, v\<lparr>os_fs := f1\<rparr>)"
    then show ?thesis using inside[OF that] by simp
  next
    assume "discard_persistent_agent dk rt agent_id v = bury_agent dk a ?d agent_id (v\<lparr>os_fs := f1\<rparr>)"
    then show ?thesis using buried[OF that] by simp
  qed
  then show ?thesis by blast
qed


definition demo_id :: string where "demo_id = ''agt-1''"

definition agents_fs :: fs where
  "agents_fs = map_of [([], Directory), ([''w''], Directory), ([''w'', ''.bubblehub''], Directory),
     ([''w'', ''.bubblehub'', ''agents''], Directory), ([''w'', ''.bubblehub'', ''agents'', ''agt-1''], Directory),
     ([''w'', ''.bubblehub'', ''agents'', ''agt-1'', ''home''], Directory),
     ([''w'', ''.bubblehub'', ''agents'', ''agt-2''], Directory),
     ([''w'', ''.bubblehub'', ''agents'', ''agt-2'', ''home''], Directory)]"

definition agents_os :: os_view where
  "agents_os = demo_os\<lparr>os_fs := agents_fs, os_cwd := []\<rparr>"

definition owned_disk :: disk where
  "owned_disk = \<lparr>dk_names = (\<lambda>_ _. [''agt-2'', ''agt-1'']), dk_mtime = (\<lambda>_ d. if last d = ''agt-1'' then 5 else 3),
     dk_rm = rmtree_owned [[''w'', ''.bubblehub'', ''agents'', ''agt-1'', ''home'']]\<rparr>"

lemma discarded_agent_only_witness:
  "{k. os_fs (snd (discard_persistent_agent owned_disk (path_of ''/w'') ''agt-1'' agents_os)) k \<noteq> os_fs agents_os k}
     \<subseteq> burial_places [''w'', ''.bubblehub'', ''agents''] ''agt-1''
   \<and> os_fs (snd (discard_persistent_agent owned_disk (path_of ''/w'') ''agt-1'' agents_os))
       [''w'', ''.bubblehub'', ''agents'', ''agt-1''] = None"
proof
  have "dk_rm owned_disk = rmtree_owned [[''w'', ''.bubblehub'', ''agents'', ''agt-1'', ''home'']]" by (simp add: owned_disk_def)
  then have rm: "tree_removal (dk_rm owned_disk)" using owned_removal.tree_removal_axioms by metis
  have "is_valid_agent_id ''agt-1''" by code_simp
  moreover have "link_free (os_fs agents_os) (os_cwd agents_os)"
    by (rule link_free_check) (simp_all add: agents_os_def, code_simp)
  moreover have "os_resolve agents_os (agents_dir (path_of ''/w'')) = Inr [''w'', ''.bubblehub'', ''agents'']" by code_simp
  ultimately show "{k. os_fs (snd (discard_persistent_agent owned_disk (path_of ''/w'') ''agt-1'' agents_os)) k \<noteq> os_fs agents_os k}
     \<subseteq> burial_places [''w'', ''.bubblehub'', ''agents''] ''agt-1''"
    by (rule discarded_agent_only[OF rm])
  show "os_fs (snd (discard_persistent_agent owned_disk (path_of ''/w'') ''agt-1'' agents_os))
       [''w'', ''.bubblehub'', ''agents'', ''agt-1''] = None" by code_simp
qed

text \<open>
  The sandbox that is reused is the directory of a persistent agent, nothing on the disk changes by
  choosing it, and no sandbox is chosen only when none of the agents directory qualifies.
\<close>

theorem selected_sandbox_is_persistent:
  assumes "select_persistent_sandbox dk (Some r) False v = (Inr p, v')"
  shows "v' = v \<and> (pb_reused p \<longleftrightarrow> pb_agent_id p \<noteq> None)
    \<and> (case pb_agent_id p of
         Some agent_id \<Rightarrow> is_persistent_agent_dir v (path_sub (agents_dir (path_of r)) agent_id)
       | None \<Rightarrow> newest_agent dk v (path_of r) = Inr None)"
proof -
  from assms obtain found where f: "find_persistent_agent_id dk v (path_of r) = Inr found"
    by (cases "find_persistent_agent_id dk v (path_of r)") (auto simp: select_persistent_sandbox_def bindn_asks)
  show ?thesis
  proof (cases found)
    case None
    with f have "newest_agent dk v (path_of r) = Inr None"
      by (auto simp: find_persistent_agent_id_def bindr_eq_Inr split: option.splits)
    with assms f None show ?thesis by (auto simp: select_persistent_sandbox_def native_simps)
  next
    case (Some agent_id)
    with assms f find_persistent_found[of dk v "path_of r" agent_id] show ?thesis
      by (auto simp: select_persistent_sandbox_def native_simps)
  qed
qed

lemma selected_sandbox_is_persistent_witness:
  "\<exists>p v'. select_persistent_sandbox owned_disk (Some ''/w'') False agents_os = (Inr p, v')
     \<and> pb_agent_id p = Some ''agt-1'' \<and> is_persistent_agent_dir agents_os (path_sub (agents_dir (path_of ''/w'')) ''agt-1'')"
proof -
  have "fst (select_persistent_sandbox owned_disk (Some ''/w'') False agents_os)
      = Inr \<lparr>pb_agent_id = Some ''agt-1'', pb_reused = True\<rparr>" by code_simp
  then obtain v' where "select_persistent_sandbox owned_disk (Some ''/w'') False agents_os
      = (Inr \<lparr>pb_agent_id = Some ''agt-1'', pb_reused = True\<rparr>, v')"
    by (cases "select_persistent_sandbox owned_disk (Some ''/w'') False agents_os") simp
  from selected_sandbox_is_persistent[OF this] this show ?thesis by auto
qed

end
