(* ===== verification/Agent_Records.thy ===== *)
theory Agent_Records
  imports Persistent_Agents
begin

text \<open>
  \<^verbatim>\<open>bubblehub/app/agents.py\<close>: the names and records of agents, the list of the stopped ones, stopping a
  running agent and deleting everything an agent left on the disk.
\<close>

section \<open>Agent records\<close>

definition is_name_char :: "char \<Rightarrow> bool" where
  "is_name_char c \<longleftrightarrow> is_alnum_ascii c \<or> c \<in> set ''_. -''"

definition max_agent_name :: nat where "max_agent_name = 64"

definition normalize_agent_name :: "string option \<Rightarrow> string option" where
  "normalize_agent_name agent_name =
     (case agent_name of
        None \<Rightarrow> None
      | Some s \<Rightarrow>
          (let normalized = join '' '' (split_ws (filter is_name_char (strip s))) in
           case take max_agent_name normalized of [] \<Rightarrow> None | c # cs \<Rightarrow> Some (c # cs)))"

definition py_text :: "string option \<Rightarrow> pyval" where
  "py_text s = (case s of None \<Rightarrow> PNone | Some t \<Rightarrow> PStr t)"

definition validate_agent_id :: "string \<Rightarrow> unit result" where
  "validate_agent_id agent_id =
     (if is_valid_agent_id agent_id then Inr () else Inl (ValueError (''invalid agent id: '' @ agent_id)))"

definition agent_metadata ::
  "string \<Rightarrow> string option \<Rightarrow> string option \<Rightarrow> string option \<Rightarrow> string \<Rightarrow> pydict" where
  "agent_metadata agent_id agent_name root_dir workdir binary =
     [(''agent_id'', PStr agent_id), (''name'', py_text (normalize_agent_name agent_name)),
      (''root_dir'', py_text root_dir), (''workdir'', py_text workdir), (''binary'', PStr binary)]"

definition write_agent_metadata ::
  "string \<Rightarrow> string option \<Rightarrow> string option \<Rightarrow> string option \<Rightarrow> string \<Rightarrow> unit hosted" where
  "write_agent_metadata agent_id agent_name root_dir workdir binary v =
     bindn (liftn (validate_agent_id agent_id)) (\<lambda>_.
       let p = agent_metadata_path v agent_id in
       bindn (fs_change (\<lambda>fs cwd. make_dirs fs cwd (path_parent p))) (\<lambda>_.
         os_write_text p (json_dumps_sorted (PDict (agent_metadata agent_id agent_name root_dir workdir binary))
           @ [ch_nl]))) v"

fun is_json_error :: "exn \<Rightarrow> bool" where
  "is_json_error (JSONDecodeError _) = True"
| "is_json_error _ = False"

definition read_agent_metadata :: "os_view \<Rightarrow> string \<Rightarrow> pydict result" where
  "read_agent_metadata v agent_id =
     (if \<not> is_valid_agent_id agent_id then Inr []
      else (case bindr (os_read_text v (agent_metadata_path v agent_id)) json_loads of
          Inl e \<Rightarrow> if is_os_error e \<or> is_json_error e then Inr [] else Inl e
        | Inr (PDict data) \<Rightarrow> Inr data
        | Inr _ \<Rightarrow> Inr []))"

definition put_text :: "pydict \<Rightarrow> string \<Rightarrow> pydict \<Rightarrow> pydict" where
  "put_text metadata key agent =
     (if truthy (dget metadata key) then dput key (PStr (py_str (dget metadata key))) agent else agent)"

definition metadata_name :: "pydict \<Rightarrow> string option" where
  "metadata_name metadata =
     (if truthy (dget metadata ''name'') then normalize_agent_name (Some (py_str (dget metadata ''name''))) else None)"

definition enrich_agent_view :: "os_view \<Rightarrow> pydict \<Rightarrow> pydict result" where
  "enrich_agent_view v agent =
     (let agent_id = py_str (dget_or agent ''agent_id'' (PStr '''')) in
      bindr (read_agent_metadata v agent_id) (\<lambda>metadata.
        let agent_name = metadata_name metadata;
            enriched = (case agent_name of None \<Rightarrow> agent | Some n \<Rightarrow> dput ''name'' (PStr n) agent);
            enriched = put_text metadata ''workdir'' (put_text metadata ''root_dir'' enriched);
            enriched = dput ''display_name'' (PStr (case agent_name of Some n \<Rightarrow> n | None \<Rightarrow> agent_id)) enriched;
            running = truthy (dget_or enriched ''running'' (PBool True)) in
        Inr (dput ''actions'' (PList (if running then [PStr ''stop'', PStr ''delete''] else [PStr ''delete'']))
          (dput ''status_color'' (PStr (if running then ''green'' else ''red''))
            (dput ''status'' (PStr (if running then ''running'' else ''stopped''))
              (dput ''running'' (PBool running) enriched))))))"

definition text_or_empty :: "pyval \<Rightarrow> string" where
  "text_or_empty x = py_str (py_or x (PStr ''''))"

definition zero_float :: pyval where "zero_float = PFloat (Finite 0 ''0.0'')"

definition stopped_fields :: "string \<Rightarrow> pydict \<Rightarrow> pydict" where
  "stopped_fields agent_id metadata =
     [(''agent_id'', PStr agent_id), (''pid'', PInt 0), (''binary'', PStr (text_or_empty (dget metadata ''binary''))),
      (''niceness'', PStr ''''), (''specialty'', PStr (text_or_empty (dget metadata ''specialty''))),
      (''running'', PBool False), (''root_dir'', PStr (text_or_empty (dget metadata ''root_dir''))),
      (''workdir'', PStr (text_or_empty (dget metadata ''workdir''))), (''rss_bytes'', PInt 0),
      (''cpu_time_seconds'', zero_float),
      (''resource_metrics'', PDict [(''available'', PBool False), (''rss_bytes'', PInt 0),
         (''cpu_time_seconds'', zero_float), (''status'', PStr ''stopped'')])]"

definition stopped_agent_record :: "os_view \<Rightarrow> string \<Rightarrow> pydict \<Rightarrow> pydict result" where
  "stopped_agent_record v agent_id metadata =
     bindr (enrich_agent_view v (stopped_fields agent_id metadata)) (\<lambda>enriched.
       let has_manifest = os_is_dir v (path_sub (manifest_root v) agent_id);
           root_dir = text_or_empty (dget enriched ''root_dir'') in
       Inr (dput ''has_persistent_sandbox'' (PBool (root_dir \<noteq> [] \<and>
               is_persistent_agent_dir v (path_sub (agents_dir (path_of root_dir)) agent_id)))
         (dput ''has_manifest'' (PBool has_manifest) enriched)))"

text \<open>The records, in the order their identifiers were first met.\<close>

type_synonym agent_records = "(string \<times> pydict) list"

definition path_stem :: "string \<Rightarrow> string" where
  "path_stem n = take (length n - length (path_suffix (Path False [n]))) n"

fun collect_stored :: "os_view \<Rightarrow> string set \<Rightarrow> string list \<Rightarrow> agent_records \<Rightarrow> agent_records result" where
  "collect_stored v running [] records = Inr records"
| "collect_stored v running (file_name # names) records =
     (let agent_id = path_stem file_name in
      if \<not> is_valid_agent_id agent_id \<or> agent_id \<in> running then collect_stored v running names records
      else bindr (read_agent_metadata v agent_id) (\<lambda>metadata.
        if metadata = [] then collect_stored v running names records
        else bindr (stopped_agent_record v agent_id metadata) (\<lambda>record.
          collect_stored v running names (dput agent_id record records))))"

fun collect_manifests :: "os_view \<Rightarrow> string set \<Rightarrow> string list \<Rightarrow> agent_records \<Rightarrow> agent_records result" where
  "collect_manifests v running [] records = Inr records"
| "collect_manifests v running (agent_id # names) records =
     (if \<not> is_valid_agent_id agent_id \<or> agent_id \<in> running \<or> map_of records agent_id \<noteq> None
      then collect_manifests v running names records
      else bindr (stopped_agent_record v agent_id [(''agent_id'', PStr agent_id)]) (\<lambda>record.
        collect_manifests v running names (dput agent_id record records)))"

definition record_key :: "pydict \<Rightarrow> string" where
  "record_key item = py_str (py_or (dget item ''display_name'') (dget_or item ''agent_id'' (PStr '''')))"

definition json_files :: "disk \<Rightarrow> os_view \<Rightarrow> path \<Rightarrow> string list result" where
  "json_files dk v d = (if os_is_dir v d
     then bindr (os_names dk v d) (\<lambda>names. Inr (filter (endswith ''.json'') names)) else Inr [])"

definition known_agent_records :: "disk \<Rightarrow> os_view \<Rightarrow> string set \<Rightarrow> pydict list result" where
  "known_agent_records dk v running =
     bindr (json_files dk v (agent_metadata_dir v)) (\<lambda>stored.
     bindr (collect_stored v running stored []) (\<lambda>records.
     bindr (if os_is_dir v (manifest_root v) then os_names dk v (manifest_root v) else Inr []) (\<lambda>manifests.
     bindr (collect_manifests v running manifests records) (\<lambda>records.
       Inr (sort_key record_key (map snd records))))))"

section \<open>Stopping and deleting\<close>

text \<open>\<open>ho_signals\<close>: the processes \<^verbatim>\<open>SIGTERM\<close> was delivered to. \<open>hp_kill\<close> is the outcome of \<^verbatim>\<open>os.kill\<close>.\<close>

record host =
  ho_os :: os_view
  ho_native :: history
  ho_signals :: "int list"

record host_params =
  hp_lib :: native_lib
  hp_disk :: disk
  hp_kill :: "int \<Rightarrow> unit result"

definition on_os :: "'a hosted \<Rightarrow> (host, 'a) prog" where
  "on_os m s = (case m (ho_os s) of (r, v) \<Rightarrow> (r, s\<lparr>ho_os := v\<rparr>))"

definition on_native :: "'a native \<Rightarrow> (host, 'a) prog" where
  "on_native m s = (case m (ho_native s) of (r, h) \<Rightarrow> (r, s\<lparr>ho_native := h\<rparr>))"

definition agent_from_snapshot :: "string \<Rightarrow> pydict \<Rightarrow> pydict option" where
  "agent_from_snapshot agent_id snapshot_read =
     (case dget_or snapshot_read ''agents'' (PList []) of
        PList agents \<Rightarrow>
          (case filter (\<lambda>item. case item of PDict d \<Rightarrow> dget d ''agent_id'' = PStr agent_id | _ \<Rightarrow> False) agents of
             PDict d # _ \<Rightarrow> Some d | _ \<Rightarrow> None)
      | _ \<Rightarrow> None)"

definition agent_pid :: "pyval \<Rightarrow> int result" where
  "agent_pid x = (case py_int x of Inr n \<Rightarrow> Inr n
     | Inl e \<Rightarrow> if is_type_or_value_error e then Inr 0 else Inl e)"

definition terminate_process :: "host_params \<Rightarrow> int \<Rightarrow> (host, bool) prog" where
  "terminate_process hp pid s =
     (if 0 < pid then
        (case hp_kill hp pid of
           Inr _ \<Rightarrow> (Inr True, s\<lparr>ho_signals := ho_signals s @ [pid]\<rparr>)
         | Inl (ProcessLookupError _) \<Rightarrow> (Inr False, s)
         | Inl e \<Rightarrow> (Inl e, s))
      else (Inr False, s))"

definition stop_agent :: "host_params \<Rightarrow> string \<Rightarrow> (host, pydict) prog" where
  "stop_agent hp agent_id =
     bindn (liftn (validate_agent_id agent_id)) (\<lambda>_.
     bindn (on_native (status_snapshot (hp_lib hp))) (\<lambda>snapshot_read.
       case agent_from_snapshot agent_id snapshot_read of
         None \<Rightarrow> raisen (ValueError (''agent not found: '' @ agent_id))
       | Some agent \<Rightarrow>
           bindn (liftn (agent_pid (dget agent ''pid''))) (\<lambda>pid.
           bindn (terminate_process hp pid) (\<lambda>stopped.
           bindn (on_native (deregister_agent (hp_lib hp) agent_id)) (\<lambda>_.
             returnn [(''agent_id'', PStr agent_id), (''pid'', PInt pid), (''stopped'', PBool stopped)])))))"

definition remove_persistent_agent :: "disk \<Rightarrow> path \<Rightarrow> string \<Rightarrow> bool hosted" where
  "remove_persistent_agent dk rt agent_id v =
     (let agent_dir = path_sub (agents_dir rt) agent_id in
      if \<not> is_persistent_agent_dir v agent_dir then (Inr False, v)
      else bindn (asks (\<lambda>v. os_resolve v (path_parent agent_dir))) (\<lambda>agents.
        bindn (asks (\<lambda>v. os_resolve v agent_dir)) (\<lambda>resolved_agent.
          if path_parent (abs_path resolved_agent) \<noteq> abs_path agents
          then raisen (ValueError ''persistent sandbox path escaped .bubblehub/agents'')
          else bindn (fs_remove dk resolved_agent) (\<lambda>_. returnn True))) v)"

text \<open>\<^verbatim>\<open>unlink\<close> where a missing file is no error.\<close>

definition unlink_missing_ok :: "path \<Rightarrow> unit hosted" where
  "unlink_missing_ok p v = (case fs_change (\<lambda>fs cwd. unlink fs cwd p) v of
     (Inl (FileNotFoundError _), v') \<Rightarrow> (Inr (), v') | other \<Rightarrow> other)"

definition remove_current_agent_marker :: "path \<Rightarrow> string \<Rightarrow> unit hosted" where
  "remove_current_agent_marker rt agent_id v =
     (case os_read_text v (agent_marker rt) of
        Inl e \<Rightarrow> if is_os_error e then (Inr (), v) else (Inl e, v)
      | Inr text_read \<Rightarrow> if strip text_read = agent_id then unlink_missing_ok (agent_marker rt) v else (Inr (), v))"

definition remove_access_manifest :: "disk \<Rightarrow> string \<Rightarrow> bool hosted" where
  "remove_access_manifest dk agent_id v =
     (let manifest = path_sub (manifest_root v) agent_id in
      if os_exists v manifest \<and> \<not> os_is_symlink v manifest
      then bindn (rmtree_path dk manifest) (\<lambda>_. returnn True) v else (Inr False, v))"

definition delete_agent_files :: "disk \<Rightarrow> string \<Rightarrow> pydict hosted" where
  "delete_agent_files dk agent_id =
     bindn (asks (\<lambda>v. read_agent_metadata v agent_id)) (\<lambda>metadata.
       let root_dir = text_or_empty (dget metadata ''root_dir'') in
       bindn (if root_dir \<noteq> [] then remove_persistent_agent dk (path_of root_dir) agent_id else returnn False) (\<lambda>removed.
       bindn (remove_access_manifest dk agent_id) (\<lambda>manifest_removed.
       bindn (if root_dir \<noteq> [] then remove_current_agent_marker (path_of root_dir) agent_id else returnn ()) (\<lambda>_.
       bindn (\<lambda>v. unlink_missing_ok (agent_metadata_path v agent_id) v) (\<lambda>_.
         returnn [(''agent_id'', PStr agent_id), (''root_dir'', PStr root_dir), (''deleted'', PBool removed),
           (''manifest_deleted'', PBool manifest_removed)])))))"

definition delete_agent :: "host_params \<Rightarrow> string \<Rightarrow> (host, pydict) prog" where
  "delete_agent hp agent_id =
     bindn (liftn (validate_agent_id agent_id)) (\<lambda>_.
     bindn (on_native (status_snapshot (hp_lib hp))) (\<lambda>snapshot_read.
     bindn (if agent_from_snapshot agent_id snapshot_read \<noteq> None
            then bindn (stop_agent hp agent_id) (\<lambda>_. returnn ()) else returnn ()) (\<lambda>_.
       on_os (delete_agent_files (hp_disk hp) agent_id))))"

lemma keeps_metadata [keeps_rules]: "keeps os_environ (write_agent_metadata i n r wd b)"
  unfolding write_agent_metadata_def[abs_def] by (rule keeps_state) (auto simp: Let_def intro!: keeps_rules)

section \<open>Laws of removal\<close>

text \<open>
  Programs that only remove, and only inside a set of places, which the file system they start on fixes: a
  smaller one gives a smaller set.
\<close>

definition place_rule :: "(fs \<Rightarrow> place set) \<Rightarrow> bool" where
  "place_rule A \<longleftrightarrow> (\<forall>f1 f0. f1 \<subseteq>\<^sub>m f0 \<longrightarrow> A f1 \<subseteq> A f0)"

definition removes_at :: "(fs \<Rightarrow> place set) \<Rightarrow> 'a hosted \<Rightarrow> os_view \<Rightarrow> bool" where
  "removes_at A m v \<longleftrightarrow> (let v' = snd (m v) in v' = v\<lparr>os_fs := os_fs v'\<rparr>
     \<and> (\<forall>k. os_fs v' k = os_fs v k \<or> k \<in> A (os_fs v) \<and> os_fs v' k = None))"

lemma removes_at_still: "snd (m v) = v \<Longrightarrow> removes_at A m v"
  by (simp add: removes_at_def)

lemma removes_at_pure [simp]:
  "removes_at A (returnn x) v" "removes_at A (raisen e) v" "removes_at A (liftn r) v" "removes_at A (asks f) v"
  by (simp_all add: removes_at_def native_simps asks_def)

lemma removed_rest: "\<forall>k. f1 k = f0 k \<or> k \<in> B \<and> f1 k = None \<Longrightarrow> f1 \<subseteq>\<^sub>m f0"
  by (auto simp: map_le_def)

lemma removes_at_trans:
  assumes "place_rule A" "v1 = v\<lparr>os_fs := f1\<rparr>" "\<forall>k. f1 k = os_fs v k \<or> k \<in> A (os_fs v) \<and> f1 k = None" "removes_at A m v1"
  shows "snd (m v1) = v\<lparr>os_fs := os_fs (snd (m v1))\<rparr>
    \<and> (\<forall>k. os_fs (snd (m v1)) k = os_fs v k \<or> k \<in> A (os_fs v) \<and> os_fs (snd (m v1)) k = None)"
proof -
  have n: "snd (m v1) = v1\<lparr>os_fs := os_fs (snd (m v1))\<rparr>"
    "\<And>k. os_fs (snd (m v1)) k = os_fs v1 k \<or> k \<in> A (os_fs v1) \<and> os_fs (snd (m v1)) k = None"
    using assms(4) unfolding removes_at_def Let_def by blast+
  have "A (os_fs v1) \<subseteq> A (os_fs v)"
    using assms(1,2) removed_rest[OF assms(3)] by (simp add: place_rule_def)
  moreover have "snd (m v1) = v\<lparr>os_fs := os_fs (snd (m v1))\<rparr>" using n(1) assms(2) by simp
  ultimately show ?thesis using n(2) assms(2,3) by (simp, metis subsetD)
qed

lemma removes_at_bindn:
  assumes "removes_at A m v" "place_rule A" "\<And>x v1. m v = (Inr x, v1) \<Longrightarrow> removes_at A (f x) v1"
  shows "removes_at A (bindn m f) v"
proof (cases "m v")
  case (Pair r v1)
  have v1: "v1 = v\<lparr>os_fs := os_fs v1\<rparr>" "\<forall>k. os_fs v1 k = os_fs v k \<or> k \<in> A (os_fs v) \<and> os_fs v1 k = None"
    using assms(1) by (simp_all add: removes_at_def Pair Let_def)
  show ?thesis
  proof (cases r)
    case (Inl e)
    then show ?thesis using v1 by (simp add: removes_at_def Let_def bindn_def Pair)
  next
    case (Inr x)
    from removes_at_trans[OF assms(2) v1 assms(3)] Pair Inr show ?thesis
      by (simp add: removes_at_def Let_def bindn_def)
  qed
qed

lemma removes_at_fs_remove:
  assumes "tree_removal (dk_rm dk)" "\<And>k. is_prefix d k \<Longrightarrow> k \<in> A (os_fs v)"
  shows "removes_at A (fs_remove dk d) v"
  using tree_removal.rm_removes[OF assms(1), of "os_fs v" d] assms(2)
  by (cases "dk_rm dk (os_fs v) d") (auto simp: removes_at_def fs_remove_def Let_def)

lemma removes_at_unlink:
  assumes "simple_name s" "\<And>d. own_place (os_fs v) (os_cwd v) (path_sub p s) = Some (d @ [s]) \<Longrightarrow> d @ [s] \<in> A (os_fs v)"
  shows "removes_at A (unlink_missing_ok (path_sub p s)) v"
proof -
  have "unlink (os_fs v) (os_cwd v) (path_sub p s) = Inr fs' \<Longrightarrow>
      \<exists>d. own_place (os_fs v) (os_cwd v) (path_sub p s) = Some (d @ [s]) \<and> fs' = (os_fs v)(d @ [s] := None)" for fs'
    by (auto simp: unlink_def own_place_sub[OF assms(1)] split: option.splits node.splits)
  note removed = this
  show ?thesis
  proof (cases "unlink (os_fs v) (os_cwd v) (path_sub p s)")
    case (Inl e)
    then show ?thesis by (cases e) (simp_all add: removes_at_def unlink_missing_ok_def fs_change_def)
  next
    case (Inr fs')
    with removed obtain d where "own_place (os_fs v) (os_cwd v) (path_sub p s) = Some (d @ [s])" "fs' = (os_fs v)(d @ [s] := None)" by blast
    then show ?thesis using assms(2) by (simp add: removes_at_def unlink_missing_ok_def fs_change_def Inr)
  qed
qed

lemma removes_at_rmtree_path:
  assumes "tree_removal (dk_rm dk)" "simple_name s" "place_rule A" "\<And>f d k. is_prefix (d @ [s]) k \<Longrightarrow> k \<in> A f"
  shows "removes_at A (rmtree_path dk (path_sub p s)) v"
  unfolding rmtree_path_def
proof (rule removes_at_bindn)
  fix d v1
  assume "asks (\<lambda>v. bindr (os_own_place v (path_sub p s)) (\<lambda>d. if os_is_symlink v (path_sub p s)
      then Inl (OSError ''Cannot call rmtree on a symbolic link'') else Inr d)) v = (Inr d, v1)"
  then have "os_own_place v (path_sub p s) = Inr d" by (auto simp: asks_def bindr_eq_Inr split: if_splits)
  then obtain d' where "d = d' @ [s]"
    by (cases "resolve (os_fs v) (os_cwd v) p") (auto simp: os_own_place_def own_place_sub[OF assms(2)])
  then show "removes_at A (fs_remove dk d) v1" using removes_at_fs_remove[OF assms(1)] assms(4) by blast
qed (simp_all add: assms(3))

lemma removes_at_persistent:
  assumes "tree_removal (dk_rm dk)" "is_valid_agent_id agent_id" "place_rule A"
    "\<And>f d k. is_prefix (d @ [agent_id]) k \<Longrightarrow> k \<in> A f"
  shows "removes_at A (remove_persistent_agent dk rt agent_id) v"
proof (cases "is_persistent_agent_dir v (path_sub (agents_dir rt) agent_id)")
  case False
  then show ?thesis by (simp add: removes_at_def remove_persistent_agent_def Let_def)
next
  case True
  have m: "remove_persistent_agent dk rt agent_id v =
    (case os_resolve v (agents_dir rt) of Inl e \<Rightarrow> (Inl e, v)
     | Inr a \<Rightarrow> bindn (fs_remove dk (a @ [agent_id])) (\<lambda>_. returnn True) v)"
    using True agent_dir_place[OF True assms(2)]
    by (cases "os_resolve v (agents_dir rt)")
      (simp_all add: remove_persistent_agent_def Let_def bindn_asks path_parent_sub[OF valid_agent_id_simple[OF assms(2)]])
  show ?thesis
  proof (cases "os_resolve v (agents_dir rt)")
    case (Inl e)
    then show ?thesis by (simp add: removes_at_def m)
  next
    case (Inr a)
    have "removes_at A (bindn (fs_remove dk (a @ [agent_id])) (\<lambda>_. returnn True)) v"
      by (rule removes_at_bindn) (simp_all add: removes_at_fs_remove[OF assms(1)] assms(3,4))
    then show ?thesis by (simp add: removes_at_def m Inr)
  qed
qed

text \<open>
  What belongs to an agent: what lies below a component with its name, its record, and a marker that names it.
\<close>

definition marks_agent :: "fs \<Rightarrow> string \<Rightarrow> place \<Rightarrow> bool" where
  "marks_agent fs agent_id k \<longleftrightarrow> k \<noteq> [] \<and> last k = ''current-agent'' \<and>
     (case text_at fs k of None \<Rightarrow> False
      | Some b \<Rightarrow> (case decode_utf8 b of Inl _ \<Rightarrow> False | Inr t \<Rightarrow> strip (text_mode t) = agent_id))"

definition agent_places :: "string \<Rightarrow> fs \<Rightarrow> place set" where
  "agent_places agent_id fs = {k. agent_id \<in> set k \<or> k \<noteq> [] \<and> last k = agent_id @ ''.json'' \<or> marks_agent fs agent_id k}"

lemma agent_places_below: "is_prefix (d @ [agent_id]) k \<Longrightarrow> k \<in> agent_places agent_id fs"
  by (auto simp: agent_places_def is_prefix_iff)

lemma marks_agent_mono: "marks_agent f1 agent_id k \<Longrightarrow> f1 \<subseteq>\<^sub>m f0 \<Longrightarrow> marks_agent f0 agent_id k"
  unfolding marks_agent_def using text_at_mono[of f1 k _ f0] by (cases "text_at f1 k") simp_all

lemma agent_places_rule [simp]: "place_rule (agent_places agent_id)"
  unfolding place_rule_def agent_places_def using marks_agent_mono by blast

lemma simple_file: "is_valid_agent_id agent_id \<Longrightarrow> simple_name (agent_id @ ''.json'')" "simple_name ''current-agent''"
  using valid_agent_id_no_sep[of agent_id] by (auto simp: simple_name_def)

lemma read_marker_place:
  assumes "os_read_text v (agent_marker rt) = Inr t" "own_place (os_fs v) (os_cwd v) (agent_marker rt) = Some k"
    "last k = ''current-agent''" "k \<noteq> []"
  shows "marks_agent (os_fs v) (strip t) k"
proof -
  obtain b u where b: "read_file (os_fs v) (os_cwd v) (agent_marker rt) = Inr b" "decode_utf8 b = Inr u" "t = text_mode u"
    using assms(1) by (auto simp: os_read_text_def bindr_eq_Inr)
  have "text_at (os_fs v) k = Some b"
    using read_text_at[OF _ simple_file(2)] b(1) assms(2) unfolding agent_marker_def by blast
  then show ?thesis using assms(3,4) b by (simp add: marks_agent_def)
qed

lemma removes_at_marker: "removes_at (agent_places agent_id) (remove_current_agent_marker rt agent_id) v"
proof (cases "os_read_text v (agent_marker rt)")
  case (Inr t)
  show ?thesis
  proof (cases "strip t = agent_id")
    case True
    have "removes_at (agent_places agent_id) (unlink_missing_ok (agent_marker rt)) v"
      unfolding agent_marker_def
    proof (rule removes_at_unlink)
      fix d
      assume "own_place (os_fs v) (os_cwd v) (path_sub (bubblehub_dir rt) ''current-agent'') = Some (d @ [''current-agent''])"
      then show "d @ [''current-agent''] \<in> agent_places agent_id (os_fs v)"
        using read_marker_place[OF Inr, of "d @ [''current-agent'']"] True by (simp add: agent_places_def agent_marker_def)
    qed (simp add: simple_file)
    then show ?thesis using Inr True by (simp add: removes_at_def remove_current_agent_marker_def)
  qed (simp add: removes_at_def remove_current_agent_marker_def Inr)
qed (simp add: removes_at_def remove_current_agent_marker_def)

lemma removes_at_delete:
  assumes "tree_removal (dk_rm dk)" "is_valid_agent_id agent_id"
  shows "removes_at (agent_places agent_id) (delete_agent_files dk agent_id) v"
proof -
  have manifest: "removes_at (agent_places agent_id) (remove_access_manifest dk agent_id) v" for v
  proof -
    have "removes_at (agent_places agent_id) (bindn (rmtree_path dk (path_sub (manifest_root v) agent_id)) (\<lambda>_. returnn True)) v"
      by (rule removes_at_bindn)
        (simp_all add: removes_at_rmtree_path[OF assms(1) valid_agent_id_simple[OF assms(2)]] agent_places_below)
    then show ?thesis by (simp add: removes_at_def remove_access_manifest_def Let_def)
  qed
  have stored: "removes_at (agent_places agent_id) (\<lambda>v. unlink_missing_ok (agent_metadata_path v agent_id) v) v" for v
    using removes_at_unlink[OF simple_file(1)[OF assms(2)], of v "agent_metadata_dir v" "agent_places agent_id"]
    by (simp add: removes_at_def agent_metadata_path_def agent_places_def)
  show ?thesis
    unfolding delete_agent_files_def Let_def
    by (intro removes_at_bindn removes_at_pure stored manifest agent_places_rule)
      (simp_all add: removes_at_persistent[OF assms agent_places_rule agent_places_below] removes_at_marker)
qed

lemma on_os_removes: "removes_at A m (ho_os s) \<Longrightarrow>
    os_fs (ho_os (snd (on_os m s))) k = os_fs (ho_os s) k \<or> k \<in> A (os_fs (ho_os s)) \<and> os_fs (ho_os (snd (on_os m s))) k = None"
  by (cases "m (ho_os s)") (auto simp: removes_at_def on_os_def Let_def)

lemma ho_os_native [simp]: "ho_os (snd (on_native m s)) = ho_os s" "ho_signals (snd (on_native m s)) = ho_signals s"
  by (simp_all add: on_native_def split: prod.splits)

lemma stop_agent_run:
  assumes "stop_agent hp agent_id s = (r, s')"
  shows "ho_os s' = ho_os s \<and> (ho_signals s' = ho_signals s \<or>
    (\<exists>snap agent pid. fst (status_snapshot (hp_lib hp) (ho_native s)) = Inr snap
      \<and> agent_from_snapshot agent_id snap = Some agent \<and> agent_pid (dget agent ''pid'') = Inr pid
      \<and> 0 < pid \<and> ho_signals s' = ho_signals s @ [pid]))"
proof (cases "validate_agent_id agent_id")
  case (Inl e)
  then show ?thesis using assms by (simp add: stop_agent_def native_simps)
next
  case valid: (Inr u)
  obtain q h where q: "status_snapshot (hp_lib hp) (ho_native s) = (q, h)" by fastforce
  let ?s1 = "s\<lparr>ho_native := h\<rparr>"
  show ?thesis
  proof (cases q)
    case (Inl e)
    then show ?thesis using assms by (auto simp: stop_agent_def native_simps valid on_native_def q)
  next
    case snap: (Inr snap)
    show ?thesis
    proof (cases "agent_from_snapshot agent_id snap")
      case None
      then show ?thesis using assms by (auto simp: stop_agent_def native_simps valid on_native_def q snap)
    next
      case (Some agent)
      have run: "(r, s') = (case liftn (agent_pid (dget agent ''pid'')) ?s1 of (Inl e, h') \<Rightarrow> (Inl e, h')
         | (Inr pid, h') \<Rightarrow> bindn (terminate_process hp pid) (\<lambda>stopped.
            bindn (on_native (deregister_agent (hp_lib hp) agent_id)) (\<lambda>_.
             returnn [(''agent_id'', PStr agent_id), (''pid'', PInt pid), (''stopped'', PBool stopped)])) h')"
        using assms by (simp add: stop_agent_def native_simps valid on_native_def q snap Some)
      show ?thesis
      proof (cases "agent_pid (dget agent ''pid'')")
        case (Inl e)
        then show ?thesis using run by (auto simp: native_simps)
      next
        case (Inr pid)
        have t: "ho_os (snd (terminate_process hp pid ?s1)) = ho_os s
          \<and> (ho_signals (snd (terminate_process hp pid ?s1)) = ho_signals s
           \<or> 0 < pid \<and> ho_signals (snd (terminate_process hp pid ?s1)) = ho_signals s @ [pid])"
          by (auto simp: terminate_process_def split: sum.splits exn.splits)
        obtain b s2 where b: "terminate_process hp pid ?s1 = (b, s2)" by fastforce
        have "ho_os s' = ho_os s2 \<and> ho_signals s' = ho_signals s2"
          using run Inr b
          by (auto simp: native_simps on_native_def split: sum.splits prod.splits)
        then show ?thesis using t b Some Inr q snap by (auto simp: q)
      qed
    qed
  qed
qed

text \<open>Deleting an agent: its own places, only removals, at most its own process signalled.\<close>

lemma delete_agent_os:
  assumes "tree_removal (dk_rm (hp_disk hp))"
  shows "os_fs (ho_os (snd (delete_agent hp agent_id s))) k = os_fs (ho_os s) k
    \<or> k \<in> agent_places agent_id (os_fs (ho_os s)) \<and> os_fs (ho_os (snd (delete_agent hp agent_id s))) k = None"
proof (cases "is_valid_agent_id agent_id")
  case False
  then show ?thesis by (simp add: delete_agent_def native_simps validate_agent_id_def)
next
  case True
  obtain q h where q: "on_native (status_snapshot (hp_lib hp)) s = (q, h)" by fastforce
  have h: "ho_os h = ho_os s" using ho_os_native(1)[of "status_snapshot (hp_lib hp)" s] by (simp add: q)
  obtain u t where t: "stop_agent hp agent_id h = (u, t)" by fastforce
  have stopped: "ho_os t = ho_os s" using stop_agent_run[OF t] h by simp
  have files: "os_fs (ho_os (snd (on_os (delete_agent_files (hp_disk hp) agent_id) s2))) k = os_fs (ho_os s) k
      \<or> k \<in> agent_places agent_id (os_fs (ho_os s)) \<and> os_fs (ho_os (snd (on_os (delete_agent_files (hp_disk hp) agent_id) s2))) k = None"
    if "ho_os s2 = ho_os s" for s2
    using on_os_removes[OF removes_at_delete[OF assms True], of s2 k] that by simp
  show ?thesis
    using files[of h] files[of t] h stopped
    by (cases q; cases u) (simp_all add: delete_agent_def native_simps validate_agent_id_def True q t)
qed

section \<open>Laws of records\<close>

text \<open>Reading the record of an agent back.\<close>

lemma text_mode_printable: "list_all printable s \<Longrightarrow> text_mode (s @ [ch_nl]) = s @ [ch_nl]"
proof -
  have crlf: "merge_crlf t = t" if "\<And>c. c \<in> set t \<Longrightarrow> code c \<noteq> 13" for t
    using that by (induction t rule: merge_crlf.induct) auto
  assume s: "list_all printable s"
  then have "code c \<noteq> 13" if "c \<in> set (s @ [ch_nl])" for c
    using that by (auto simp: list_all_iff printable_def ch_nl_def)
  moreover have "code ch_cr = 13" by (simp add: ch_cr_def)
  ultimately have "c \<noteq> ch_cr" "code c \<noteq> 13" if "c \<in> set (s @ [ch_nl])" for c using that by auto
  moreover from this have "merge_crlf (s @ [ch_nl]) = s @ [ch_nl]" by (intro crlf)
  ultimately show ?thesis unfolding text_mode_def by (simp only: ) (rule map_idI, simp)
qed

lemma nl_ws: "is_json_ws ch_nl" unfolding is_json_ws_def ch_nl_def by simp

lemma loads_dumps_line: "style_ok st \<Longrightarrow> json_clean v \<Longrightarrow> json_loads (dumps_at st l v @ [ch_nl]) = Inr v"
proof -
  assume a: "style_ok st" "json_clean v"
  have "value_end [ch_nl]" using nl_ws by (simp add: value_end_def)
  with a have "parse_value (dumps_at st l v @ [ch_nl]) = Some (v, [ch_nl])" by (rule parse_written)
  moreover have "skip_ws (dumps_at st l v @ [ch_nl]) = dumps_at st l v @ [ch_nl]"
    using dumps_start[OF a(2), of st l "[ch_nl]"] by (simp add: skip_ws_start)
  moreover have "skip_ws [ch_nl] = []" unfolding skip_ws_def using nl_ws by (simp only: dropWhile.simps if_True)
  ultimately show ?thesis by (simp add: json_loads_def)
qed

text \<open>The fields in the order of their names.\<close>

definition stored_metadata ::
  "string \<Rightarrow> string option \<Rightarrow> string option \<Rightarrow> string option \<Rightarrow> string \<Rightarrow> pydict" where
  "stored_metadata agent_id agent_name root_dir workdir binary =
     [(''agent_id'', PStr agent_id), (''binary'', PStr binary), (''name'', py_text (normalize_agent_name agent_name)),
      (''root_dir'', py_text root_dir), (''workdir'', py_text workdir)]"

lemma sort_py_text [simp]: "sort_keys (py_text x) = py_text x" "json_clean (py_text x)" "floats_printable (py_text x)"
  by (cases x; simp add: py_text_def)+

lemma sort_metadata:
  "sort_keys (PDict (agent_metadata agent_id agent_name root_dir workdir binary))
     = PDict (stored_metadata agent_id agent_name root_dir workdir binary)"
  by (simp add: agent_metadata_def stored_metadata_def)

lemma metadata_loads:
  "bindr (decode_utf8 (utf8_encode (json_dumps_sorted (PDict (agent_metadata agent_id agent_name root_dir workdir binary)) @ [ch_nl])))
     (\<lambda>s. json_loads (text_mode s)) = Inr (PDict (stored_metadata agent_id agent_name root_dir workdir binary))"
proof -
  let ?d = "PDict (stored_metadata agent_id agent_name root_dir workdir binary)"
  have "json_clean ?d" by (simp add: stored_metadata_def)
  moreover have "list_all printable (dumps_at default_style 0 ?d)"
    by (rule dumps_at_printable) (simp_all add: default_style_def printable_def stored_metadata_def)
  ultimately show ?thesis
    unfolding json_dumps_sorted_def sort_metadata decode_utf8_encode bindr_simps
    by (simp only: text_mode_printable loads_dumps_line style_ok_used)
qed

lemma state_places_fs [simp]:
  "state_root (v\<lparr>os_fs := f\<rparr>) = state_root v"
  "agent_metadata_dir (v\<lparr>os_fs := f\<rparr>) = agent_metadata_dir v"
  "manifest_root (v\<lparr>os_fs := f\<rparr>) = manifest_root v"
  "agent_metadata_path (v\<lparr>os_fs := f\<rparr>) agent_id = agent_metadata_path v agent_id"
  by (simp_all add: state_root_def agent_metadata_dir_def manifest_root_def agent_metadata_path_def split: option.splits)

text \<open>Names of agents.\<close>

lemma name_chars: "c \<in> set s \<Longrightarrow> normalize_agent_name a = Some s \<Longrightarrow> is_name_char c"
proof -
  assume c: "c \<in> set s" and s: "normalize_agent_name a = Some s"
  then obtain t where t: "a = Some t" "s = take max_agent_name (join '' '' (split_ws (filter is_name_char (strip t))))"
    by (auto simp: normalize_agent_name_def Let_def split: option.splits list.splits)
  have "c \<in> set (join '' '' ws) \<Longrightarrow> c = CHR '' '' \<or> (\<exists>w \<in> set ws. c \<in> set w)" for ws
    by (induction "'' ''" ws rule: join.induct) auto
  with c t(2) have "c = CHR '' '' \<or> (\<exists>w \<in> set (split_ws (filter is_name_char (strip t))). c \<in> set w)"
    by (metis in_set_takeD)
  then show ?thesis using split_by_pieces[of _ is_space "filter is_name_char (strip t)" c]
    by (auto simp: split_ws_def is_name_char_def)
qed

lemma name_bounds: "normalize_agent_name a = Some s \<Longrightarrow> s \<noteq> [] \<and> length s \<le> 64"
  by (auto simp: normalize_agent_name_def max_agent_name_def Let_def split: option.splits list.splits)


definition name_words :: "string list \<Rightarrow> bool" where
  "name_words ws \<longleftrightarrow> (\<forall>w \<in> set ws. w \<noteq> [] \<and> (\<forall>c \<in> set w. \<not> is_space c \<and> is_name_char c))"

lemma space_space: "is_space CHR '' ''" "is_name_char CHR '' ''" by (simp_all add: is_space_def is_name_char_def)

lemma split_ws_words: "name_words ws \<Longrightarrow> split_ws (join '' '' ws) = ws"
proof (induction "'' ''" ws rule: join.induct)
  case (2 x)
  then show ?case by (auto simp: split_ws_def split_by_none name_words_def)
next
  case (3 x y ys)
  then have "split_ws (join '' '' (y # ys)) = y # ys" by (simp add: name_words_def)
  moreover have "split_by is_space (x @ '' '' @ join '' '' (y # ys)) = x # split_by is_space (join '' '' (y # ys))"
    using 3(2) split_by_append_sep[of x is_space "CHR '' ''"] space_space by (simp add: name_words_def)
  ultimately show ?case using 3(2) by (simp add: split_ws_def name_words_def)
qed (simp add: split_ws_def)

lemma take_words:
  "name_words ws \<Longrightarrow> \<exists>vs tail. name_words vs \<and> take n (join '' '' ws) = join '' '' vs @ tail
     \<and> (tail = [] \<or> tail = '' '' \<and> vs \<noteq> [])"
proof (induction "'' ''" ws arbitrary: n rule: join.induct)
  case 1
  then show ?case by (intro exI[of _ "[]"]) simp
next
  case (2 x)
  then show ?case
    by (intro exI[of _ "if n = 0 then [] else [take n x]"] exI[of _ "[]"]) (auto simp: name_words_def dest: in_set_takeD)
next
  case (3 x y ys)
  have x: "x \<noteq> []" "name_words [x]" "name_words (y # ys)" using 3(2) by (auto simp: name_words_def)
  show ?case
  proof (cases "n \<le> length x")
    case True
    with x show ?thesis
      by (intro exI[of _ "if n = 0 then [] else [take n x]"] exI[of _ "[]"]) (auto simp: name_words_def dest: in_set_takeD)
  next
    case False
    then obtain m where n: "n = length x + Suc m" by (metis less_iff_Suc_add not_le add_Suc_right)
    obtain vs tail where IH: "name_words vs" "take m (join '' '' (y # ys)) = join '' '' vs @ tail"
        "tail = [] \<or> tail = '' '' \<and> vs \<noteq> []" using 3(1)[OF x(3), of m] by blast
    have t: "take n (join '' '' (x # y # ys)) = x @ '' '' @ join '' '' vs @ tail" by (simp add: n IH(2))
    show ?thesis
    proof (cases "vs = []")
      case True
      with t x IH(3) show ?thesis by (intro exI[of _ "[x]"] exI[of _ "'' ''"]) simp
    next
      case vs: False
      with t x IH show ?thesis
        by (intro exI[of _ "x # vs"] exI[of _ tail]) (auto simp: join_Cons name_words_def)
    qed
  qed
qed

lemma words_ends: "name_words vs \<Longrightarrow> vs \<noteq> [] \<Longrightarrow>
    join '' '' vs \<noteq> [] \<and> \<not> is_space (hd (join '' '' vs)) \<and> \<not> is_space (last (join '' '' vs))"
  by (induction "'' ''" vs rule: join.induct) (auto simp: name_words_def)

lemma words_chars: "name_words vs \<Longrightarrow> c \<in> set (join '' '' vs) \<Longrightarrow> is_name_char c"
  by (induction "'' ''" vs rule: join.induct) (auto simp: name_words_def space_space)

lemma split_name_words: "name_words (split_ws (filter is_name_char t))"
  unfolding name_words_def
proof (intro ballI conjI)
  fix w c
  assume "w \<in> set (split_ws (filter is_name_char t))"
  then have w: "w \<in> set (split_by is_space (filter is_name_char t))" "w \<noteq> []" by (simp_all add: split_ws_def)
  show "w \<noteq> []" by fact
  assume "c \<in> set w"
  from split_by_pieces[OF w(1) this] show "\<not> is_space c" "is_name_char c" by simp_all
qed

text \<open>The list of agents that are not running.\<close>

definition stopped_record :: "string set \<Rightarrow> string \<Rightarrow> pydict \<Rightarrow> bool" where
  "stopped_record running agent_id r \<longleftrightarrow> is_valid_agent_id agent_id \<and> agent_id \<notin> running
     \<and> dget r ''agent_id'' = PStr agent_id \<and> dget r ''running'' = PBool False
     \<and> dget r ''status'' = PStr ''stopped'' \<and> dget r ''actions'' = PList [PStr ''delete'']"

definition stopped_records :: "string set \<Rightarrow> agent_records \<Rightarrow> bool" where
  "stopped_records running records \<longleftrightarrow> distinct (map fst records)
     \<and> (\<forall>agent_id r. map_of records agent_id = Some r \<longrightarrow> stopped_record running agent_id r)"

lemma enrich_keeps:
  assumes "enrich_agent_view v agent = Inr r" "dget_or agent ''running'' (PBool True) = PBool False"
  shows "dget r ''agent_id'' = dget agent ''agent_id'' \<and> dget r ''running'' = PBool False
    \<and> dget r ''status'' = PStr ''stopped'' \<and> dget r ''actions'' = PList [PStr ''delete'']"
proof -
  from assms(1) obtain metadata where
    "Inr r = (Inr (let agent_name = metadata_name metadata;
            enriched = (case agent_name of None \<Rightarrow> agent | Some n \<Rightarrow> dput ''name'' (PStr n) agent);
            enriched = put_text metadata ''workdir'' (put_text metadata ''root_dir'' enriched);
            enriched = dput ''display_name'' (PStr (case agent_name of Some n \<Rightarrow> n | None \<Rightarrow> py_str (dget_or agent ''agent_id'' (PStr '''')))) enriched;
            running = truthy (dget_or enriched ''running'' (PBool True)) in
        dput ''actions'' (PList (if running then [PStr ''stop'', PStr ''delete''] else [PStr ''delete'']))
          (dput ''status_color'' (PStr (if running then ''green'' else ''red''))
            (dput ''status'' (PStr (if running then ''running'' else ''stopped''))
              (dput ''running'' (PBool running) enriched)))) :: pydict result)"
    by (auto simp: enrich_agent_view_def Let_def bindr_eq_Inr)
  then show ?thesis
    using assms(2) by (simp add: Let_def dget_def dget_or_def put_text_def split: option.splits)
qed

lemma stopped_agent_record_stopped:
  assumes "stopped_agent_record v agent_id metadata = Inr r" "is_valid_agent_id agent_id" "agent_id \<notin> running"
  shows "stopped_record running agent_id r"
proof -
  from assms(1) obtain enriched has where e: "enrich_agent_view v (stopped_fields agent_id metadata) = Inr enriched"
    and r: "r = dput ''has_persistent_sandbox'' has (dput ''has_manifest'' (PBool (os_is_dir v (path_sub (manifest_root v) agent_id))) enriched)"
    by (auto simp: stopped_agent_record_def bindr_eq_Inr Let_def)
  have "dget_or (stopped_fields agent_id metadata) ''running'' (PBool True) = PBool False"
    by (simp add: stopped_fields_def dget_or_def)
  moreover have "dget (stopped_fields agent_id metadata) ''agent_id'' = PStr agent_id"
    by (simp add: stopped_fields_def dget_def)
  ultimately show ?thesis
    using enrich_keeps[OF e] assms(2,3) by (simp add: stopped_record_def r dget_def)
qed

lemma stopped_records_dput:
  "stopped_records running records \<Longrightarrow> stopped_record running agent_id r \<Longrightarrow> stopped_records running (dput agent_id r records)"
  by (simp add: stopped_records_def distinct_dput)

lemma collect_stored_stopped:
  "stopped_records running records \<Longrightarrow> collect_stored v running names records = Inr records' \<Longrightarrow>
     stopped_records running records'"
proof (induction v running names records rule: collect_stored.induct)
  case (2 v running file_name names records)
  then show ?case
    using stopped_records_dput[OF "2.prems"(1)] stopped_agent_record_stopped
    by (fastforce simp: Let_def bindr_eq_Inr split: if_splits)
qed simp

lemma collect_manifests_stopped:
  "stopped_records running records \<Longrightarrow> collect_manifests v running names records = Inr records' \<Longrightarrow>
     stopped_records running records'"
proof (induction v running names records rule: collect_manifests.induct)
  case (2 v running agent_id names records)
  then show ?case
    using stopped_records_dput[OF "2.prems"(1)] stopped_agent_record_stopped
    by (fastforce simp: bindr_eq_Inr split: if_splits)
qed simp

lemma distinct_map_sort: "distinct (map f (sort_key k xs)) = distinct (map f xs)"
  by (rule mset_eq_imp_distinct_iff) simp

lemma stopped_records_ids:
  assumes "stopped_records running records"
  shows "distinct (map (\<lambda>r. dget r ''agent_id'') (map snd records))"
proof -
  have "dget r ''agent_id'' = PStr i" if "(i, r) \<in> set records" for i r
    using that assms by (simp add: stopped_records_def stopped_record_def)
  then have "map (\<lambda>r. dget r ''agent_id'') (map snd records) = map PStr (map fst records)" by auto
  moreover have "distinct (map PStr (map fst records))"
    using assms by (subst distinct_map) (auto simp: stopped_records_def inj_on_def)
  ultimately show ?thesis by metis
qed

section \<open>Properties\<close>

text \<open>
  A record that was written is read back, with its name normalised and its fields sorted, as long as
  no link lies on the way to its file.
\<close>

theorem agent_record_reads_back:
  assumes "write_agent_metadata agent_id agent_name root_dir workdir binary v = (Inr (), v')"
    and "agent_metadata_dir v = abs_path d" "link_free (os_fs v) (d @ [agent_id @ ''.json''])"
  shows "read_agent_metadata v' agent_id = Inr (stored_metadata agent_id agent_name root_dir workdir binary)"
proof -
  let ?f = "agent_id @ ''.json''"
  have valid: "is_valid_agent_id agent_id"
    using assms(1) by (auto simp: write_agent_metadata_def native_simps validate_agent_id_def split: if_splits)
  have p: "agent_metadata_path v agent_id = abs_path (d @ [?f])"
    by (simp add: agent_metadata_path_def assms(2) path_sub_simple simple_file(1)[OF valid])
  obtain fs1 fs2 where fs1: "make_dirs (os_fs v) (os_cwd v) (abs_path d) = Inr fs1"
    and fs2: "write_file fs1 (os_cwd v) (abs_path (d @ [?f])) (utf8_encode (json_dumps_sorted
        (PDict (agent_metadata agent_id agent_name root_dir workdir binary)) @ [ch_nl])) = Inr fs2"
    and v': "v' = v\<lparr>os_fs := fs2\<rparr>"
    using assms(1) valid
    by (auto simp: write_agent_metadata_def native_simps validate_agent_id_def p fs_change_def os_write_text_def Let_def
        split: sum.splits)
  have node: "node_at fs2 (os_cwd v) (abs_path (d @ [?f])) = Some (File (utf8_encode (json_dumps_sorted
        (PDict (agent_metadata agent_id agent_name root_dir workdir binary)) @ [ch_nl])))"
    by (rule conjunct2[OF written_file_found[OF fs1 fs2 assms(3)]])
  show ?thesis
    using metadata_loads[of agent_id agent_name root_dir workdir binary] node valid
    by (simp add: read_agent_metadata_def p os_read_text_def read_file_def v' bindr_def split: sum.splits)
qed

definition state_env :: env where "state_env = map_of [(''BUBBLEHUB_STATE_DIR'', ''/s'')]"

lemma agent_record_reads_back_witness:
  "\<exists>v'. write_agent_metadata ''agt-1'' (Some ''my  agent!'') (Some ''/w'') None ''/bin/sh'' (agents_os\<lparr>os_environ := state_env\<rparr>) = (Inr (), v')
     \<and> read_agent_metadata v' ''agt-1'' = Inr (stored_metadata ''agt-1'' (Some ''my  agent!'') (Some ''/w'') None ''/bin/sh'')
     \<and> dget (stored_metadata ''agt-1'' (Some ''my  agent!'') (Some ''/w'') None ''/bin/sh'') ''name'' = PStr ''my agent''"
proof -
  let ?v = "agents_os\<lparr>os_environ := state_env\<rparr>"
  let ?w = "write_agent_metadata ''agt-1'' (Some ''my  agent!'') (Some ''/w'') None ''/bin/sh'' ?v"
  have "fst ?w = Inr ()" by code_simp
  then obtain v' where w: "?w = (Inr (), v')" by (cases ?w) simp
  have d: "agent_metadata_dir ?v = abs_path [''s'', ''agents'']" by code_simp
  have "\<forall>k \<in> set (with_parents [''s'', ''agents'', ''agt-1.json'']). case os_fs ?v k of Some (Link _) \<Rightarrow> False | _ \<Rightarrow> True"
    by code_simp
  then have lf: "link_free (os_fs ?v) ([''s'', ''agents''] @ [''agt-1'' @ ''.json''])"
    using link_free_check[of "[''s'', ''agents'', ''agt-1.json'']"] by simp
  have "dget (stored_metadata ''agt-1'' (Some ''my  agent!'') (Some ''/w'') None ''/bin/sh'') ''name'' = PStr ''my agent''"
    by code_simp
  with agent_record_reads_back[OF w d lf] w show ?thesis by blast
qed

text \<open>A name is normalised at every use; a second time only strips the blank a cut may have left at its end.\<close>

theorem normalize_agent_name_stable:
  assumes "normalize_agent_name a = Some s"
  shows "s \<noteq> [] \<and> length s \<le> 64 \<and> (\<forall>c \<in> set s. is_name_char c) \<and> \<not> is_space (hd s)
    \<and> normalize_agent_name (Some s) = Some (rstrip s)"
proof -
  from assms obtain t where s: "s = take max_agent_name (join '' '' (split_ws (filter is_name_char (strip t))))"
    by (auto simp: normalize_agent_name_def Let_def split: option.splits list.splits)
  from take_words[OF split_name_words, of max_agent_name "strip t"] obtain vs tail where
    vs: "name_words vs" "s = join '' '' vs @ tail" "tail = [] \<or> tail = '' '' \<and> vs \<noteq> []" by (auto simp: s)
  have b: "s \<noteq> []" "length s \<le> 64" using name_bounds[OF assms] by simp_all
  with vs have ne: "vs \<noteq> []" by (cases "vs = []") auto
  note ends = words_ends[OF vs(1) ne]
  have "rstrip (join '' '' vs) = join '' '' vs" using ends by (simp add: rstrip_id)
  then have r: "rstrip s = join '' '' vs" using vs(3) by (auto simp: vs(2) rstrip_snoc space_space)
  have l: "lstrip s = s" using ends vs(2) by (simp add: lstrip_def dropWhile_eq_self_iff)
  have "filter is_name_char (strip s) = join '' '' vs"
    using words_chars[OF vs(1)] by (simp add: strip_def l r filter_id_conv)
  moreover have "length (join '' '' vs) \<le> max_agent_name" using b(2) by (simp add: vs(2) max_agent_name_def)
  ultimately have "normalize_agent_name (Some s) = Some (rstrip s)"
    using ends by (auto simp: normalize_agent_name_def split_ws_words[OF vs(1)] r split: list.splits)
  moreover have "hd s = hd (join '' '' vs)" using ends by (simp add: vs(2))
  ultimately show ?thesis using b name_chars[OF _ assms] ends by auto
qed

lemma normalize_agent_name_stable_witness:
  "normalize_agent_name (Some ''  a/b   c '') = Some ''ab c'' \<and> normalize_agent_name (Some ''ab c'') = Some ''ab c''"
proof -
  have n: "normalize_agent_name (Some ''  a/b   c '') = Some ''ab c''" by code_simp
  have "rstrip ''ab c'' = ''ab c''" by code_simp
  with normalize_agent_name_stable[OF n] n show ?thesis by simp
qed

text \<open>
  The list of known agents: sorted by the names shown, each agent once, none that runs, all stopped and
  offered for deletion only.
\<close>

theorem known_agents_stopped:
  assumes "known_agent_records dk v running = Inr rs"
  shows "sorted (map record_key rs) \<and> distinct (map (\<lambda>r. dget r ''agent_id'') rs)
    \<and> (\<forall>r \<in> set rs. \<exists>agent_id. stopped_record running agent_id r)"
proof -
  from assms obtain stored records manifests records' where
    c: "collect_stored v running stored [] = Inr records" "collect_manifests v running manifests records = Inr records'"
    and rs: "rs = sort_key record_key (map snd records')"
    by (auto simp: known_agent_records_def bindr_eq_Inr)
  have "stopped_records running []" by (simp add: stopped_records_def)
  from collect_manifests_stopped[OF collect_stored_stopped[OF this c(1)] c(2)] have s: "stopped_records running records'" .
  have "\<exists>agent_id. stopped_record running agent_id r" if "r \<in> set rs" for r
    using that s unfolding rs stopped_records_def by fastforce
  moreover have "distinct (map (\<lambda>r. dget r ''agent_id'') rs)"
    using stopped_records_ids[OF s] unfolding rs distinct_map_sort .
  ultimately show ?thesis by (simp add: rs)
qed

lemma known_agents_stopped_demo:
  "\<exists>r. known_agent_records (owned_disk\<lparr>dk_names := (\<lambda>_ d. if last d = ''sandboxes'' then [''agt-2'', ''agt-7'', ''tmp''] else [])\<rparr>)
      (agents_os\<lparr>os_environ := state_env, os_fs := agents_fs([''s''] \<mapsto> Directory, [''s'', ''sandboxes''] \<mapsto> Directory)\<rparr>) {''agt-2''} = Inr [r]
     \<and> (\<exists>agent_id. stopped_record {''agt-2''} agent_id r)"
proof -
  let ?k = "known_agent_records (owned_disk\<lparr>dk_names := (\<lambda>_ d. if last d = ''sandboxes'' then [''agt-2'', ''agt-7'', ''tmp''] else [])\<rparr>)
      (agents_os\<lparr>os_environ := state_env, os_fs := agents_fs([''s''] \<mapsto> Directory, [''s'', ''sandboxes''] \<mapsto> Directory)\<rparr>) {''agt-2''}"
  have "map_sum (\<lambda>_. ()) length ?k = Inr 1" by code_simp
  then obtain r where k: "?k = Inr [r]" by (auto dest!: map_sum_InrD simp: length_Suc_conv)
  from known_agents_stopped[OF k] k show ?thesis by auto
qed

text \<open>
  C3. The marker file is trusted further than its last component: a text with a path in it is reused as an
  agent identifier that is none, and the run then fails after the agent was registered.
\<close>

definition marked_fs :: fs where
  "marked_fs = map_of [([], Directory), ([''w''], Directory), ([''w'', ''.bubblehub''], Directory),
     ([''w'', ''.bubblehub'', ''agents''], Directory), ([''w'', ''.bubblehub'', ''x''], Directory),
     ([''w'', ''.bubblehub'', ''x'', ''agt-1''], Directory), ([''w'', ''.bubblehub'', ''x'', ''agt-1'', ''home''], Directory),
     ([''w'', ''.bubblehub'', ''current-agent''], File ''../x/agt-1'')]"

theorem marker_names_another_directory:
  "fst (select_persistent_sandbox owned_disk (Some ''/w'') False (demo_os\<lparr>os_fs := marked_fs\<rparr>))
     = Inr \<lparr>pb_agent_id = Some ''../x/agt-1'', pb_reused = True\<rparr>
   \<and> fst (write_agent_metadata ''../x/agt-1'' None (Some ''/w'') None ''/bin/sh'' (demo_os\<lparr>os_fs := marked_fs\<rparr>))
     = Inl (ValueError ''invalid agent id: ../x/agt-1'')"
proof
  show "fst (select_persistent_sandbox owned_disk (Some ''/w'') False (demo_os\<lparr>os_fs := marked_fs\<rparr>))
     = Inr \<lparr>pb_agent_id = Some ''../x/agt-1'', pb_reused = True\<rparr>" by code_simp
  show "fst (write_agent_metadata ''../x/agt-1'' None (Some ''/w'') None ''/bin/sh'' (demo_os\<lparr>os_fs := marked_fs\<rparr>))
     = Inl (ValueError ''invalid agent id: ../x/agt-1'')" by code_simp
qed

text \<open>
  Stopping an agent leaves the disk alone and signals at most one process: the positive process
  identifier the scheduler itself has for exactly this agent.
\<close>

theorem stop_agent_signals_its_process:
  assumes "stop_agent hp agent_id s = (r, s')"
  shows "ho_os s' = ho_os s \<and> (ho_signals s' = ho_signals s \<or>
    (\<exists>snap agent pid. fst (status_snapshot (hp_lib hp) (ho_native s)) = Inr snap
      \<and> agent_from_snapshot agent_id snap = Some agent \<and> agent_pid (dget agent ''pid'') = Inr pid
      \<and> 0 < pid \<and> ho_signals s' = ho_signals s @ [pid]))"
  using assms by (rule stop_agent_run)

definition agents_snapshot :: string where
  "agents_snapshot = json_dumps (PDict [(''agents'', PList [PDict [(''agent_id'', PStr ''agt-2''), (''pid'', PInt 6)],
     PDict [(''agent_id'', PStr ''agt-1''), (''pid'', PInt 5)]])])"

definition agents_host :: host where
  "agents_host = \<lparr>ho_os = agents_os\<lparr>os_environ := state_env\<rparr>, ho_native = [], ho_signals = []\<rparr>"

definition agents_params :: "string \<Rightarrow> host_params" where
  "agents_params snap = \<lparr>hp_lib = \<lparr>nl_status = (\<lambda>_ _. 0), nl_text = (\<lambda>_ _. Some snap), nl_admission = (\<lambda>_ _. (1, '''', ''''))\<rparr>,
     hp_disk = owned_disk, hp_kill = (\<lambda>_. Inr ())\<rparr>"

lemma stop_agent_signals_its_process_witness:
  "\<exists>r s'. stop_agent (agents_params agents_snapshot) ''agt-1'' agents_host = (r, s') \<and> ho_signals s' = [5]
     \<and> ho_os s' = ho_os agents_host"
proof -
  let ?r = "stop_agent (agents_params agents_snapshot) ''agt-1'' agents_host"
  have "ho_signals (snd ?r) = [5]" by code_simp
  moreover obtain r s' where r: "?r = (r, s')" by (cases ?r)
  ultimately show ?thesis using stop_agent_signals_its_process[OF r] by auto
qed

text \<open>
  Deleting an agent only removes, and only what is that agent's: what lies below a component with its
  name, its record, and a marker whose text names it. Directories and records of other agents stay, whatever links there
  are and however far \<^verbatim>\<open>rmtree\<close> gets.
\<close>

theorem deleted_agent_places_only:
  assumes "tree_removal (dk_rm (hp_disk hp))"
  shows "os_fs (ho_os (snd (delete_agent hp agent_id s))) k = os_fs (ho_os s) k
    \<or> k \<in> agent_places agent_id (os_fs (ho_os s)) \<and> os_fs (ho_os (snd (delete_agent hp agent_id s))) k = None"
  using assms by (rule delete_agent_os)

lemma deleted_agent_places_only_witness:
  "os_fs (ho_os (snd (delete_agent (agents_params ''{}'') ''agt-1'' agents_host))) [''w'', ''.bubblehub'', ''agents'', ''agt-2'']
     = Some Directory"
proof -
  have "dk_rm (hp_disk (agents_params ''{}'')) = rmtree_owned [[''w'', ''.bubblehub'', ''agents'', ''agt-1'', ''home'']]"
    by (simp add: agents_params_def owned_disk_def)
  then have rm: "tree_removal (dk_rm (hp_disk (agents_params ''{}'')))" using owned_removal.tree_removal_axioms by metis
  have "[''w'', ''.bubblehub'', ''agents'', ''agt-2''] \<notin> agent_places ''agt-1'' fs" for fs by (simp add: agent_places_def marks_agent_def)
  with deleted_agent_places_only[OF rm, of "''agt-1''" agents_host "[''w'', ''.bubblehub'', ''agents'', ''agt-2'']"]
  have "os_fs (ho_os (snd (delete_agent (agents_params ''{}'') ''agt-1'' agents_host))) [''w'', ''.bubblehub'', ''agents'', ''agt-2'']
     = os_fs (ho_os agents_host) [''w'', ''.bubblehub'', ''agents'', ''agt-2'']" by blast
  also have "\<dots> = Some Directory" by code_simp
  finally show ?thesis .
qed

end
