(* ===== verification/Inference_Config.thy ===== *)
theory Inference_Config
  imports Sandbox_Paths Json_Text
begin

text \<open>
  \<^verbatim>\<open>bubblehub/inference.py\<close>: where the shared inference server is, starting it when nothing answers, and
  the environment an agent gets to reach it. YAML parsing and HTTP are parameters; \<^verbatim>\<open>urlparse\<close> is
  modelled as far as the program reads its result.
\<close>

section \<open>Reading a URL\<close>

record parsed_url =
  pu_scheme :: string
  pu_hostname :: "string option"
  pu_port :: "int option result"

definition is_scheme_char :: "char \<Rightarrow> bool" where
  "is_scheme_char c \<longleftrightarrow> is_alnum_ascii c \<or> c \<in> set ''+-.''"

definition is_alpha_ascii :: "char \<Rightarrow> bool" where
  "is_alpha_ascii c \<longleftrightarrow> is_alnum_ascii c \<and> \<not> is_digit c"

definition split_scheme :: "string \<Rightarrow> string \<times> string" where
  "split_scheme url =
     (let i = before_char CHR '':'' url in
      if has_char CHR '':'' url \<and> i \<noteq> [] \<and> is_alpha_ascii (hd i) \<and> list_all is_scheme_char i
      then (lower i, after_char CHR '':'' url) else ([], url))"

definition split_netloc :: "string \<Rightarrow> string" where
  "split_netloc rest = (if startswith ''//'' rest then takeWhile (\<lambda>c. c \<notin> set ''/?#'') (drop 2 rest) else [])"

definition parse_port_text :: "string \<Rightarrow> int option result" where
  "parse_port_text port =
     (if port = [] then Inr None
      else if list_all is_digit port then
        (case parse_nat port of
           Some n \<Rightarrow> if n \<le> 65535 then Inr (Some (int n)) else Inl (ValueError ''Port out of range 0-65535'')
         | None \<Rightarrow> Inl (ValueError ''Port could not be cast to integer value''))
      else Inl (ValueError ''Port could not be cast to integer value''))"

text \<open>The part after the last \<^verbatim>\<open>@\<close>; brackets hold an address with colons.\<close>

definition host_info :: "string \<Rightarrow> string \<times> string" where
  "host_info netloc =
     (let info = last (split_on CHR ''@'' netloc) in
      if has_char CHR ''['' info then
        (let bracketed = after_char CHR ''['' info in
         (before_char CHR '']'' bracketed, after_char CHR '':'' (after_char CHR '']'' bracketed)))
      else (before_char CHR '':'' info, after_char CHR '':'' info))"

definition urlparse :: "string \<Rightarrow> parsed_url result" where
  "urlparse url =
     (let cleaned = filter (\<lambda>c. code c \<notin> set [9, 10, 13]) (dropWhile (\<lambda>c. code c \<le> 32) url);
          scheme = fst (split_scheme cleaned); netloc = split_netloc (snd (split_scheme cleaned)); hp = host_info netloc in
      if has_char CHR ''['' netloc \<noteq> has_char CHR '']'' netloc then Inl (ValueError ''Invalid IPv6 URL'')
      else Inr \<lparr>pu_scheme = scheme, pu_hostname = (if fst hp = [] then None else Some (lower (fst hp))),
        pu_port = parse_port_text (snd hp)\<rparr>)"

section \<open>The configuration\<close>

record inference_config =
  ic_host :: string
  ic_port :: int
  ic_default_specialty :: string

definition base_url :: "inference_config \<Rightarrow> string" where
  "base_url c = ''http://'' @ ic_host c @ '':'' @ show_int (ic_port c)"

definition openai_base_url :: "inference_config \<Rightarrow> string" where
  "openai_base_url c = base_url c @ ''/v1''"

definition optional_int :: "pyval \<Rightarrow> int option result" where
  "optional_int x =
     (if x = PNone then Inr None
      else (case py_int x of
          Inl e \<Rightarrow> if is_type_or_value_error e then Inr None else Inl e
        | Inr parsed \<Rightarrow> Inr (if 0 < parsed then Some parsed else None)))"

text \<open>\<^verbatim>\<open>dict(value)\<close> of a value from a configuration file; a list of pairs is not read as one.\<close>

fun py_dict :: "pyval \<Rightarrow> pydict result" where
  "py_dict (PDict d) = Inr d"
| "py_dict (PList []) = Inr []"
| "py_dict (PStr []) = Inr []"
| "py_dict (PList _) = Inl (ValueError ''dictionary update sequence element has the wrong length'')"
| "py_dict (PStr _) = Inl (ValueError ''dictionary update sequence element has the wrong length'')"
| "py_dict _ = Inl (TypeError ''object is not iterable'')"

fun merge_models :: "pydict \<Rightarrow> pydict \<Rightarrow> pydict \<Rightarrow> pydict result" where
  "merge_models data merged [] = Inr merged"
| "merge_models data merged ((key, value) # override) =
     (case value of
        PDict specialties \<Rightarrow>
          if key = ''specialties'' then
            bindr (py_dict (dget_or data ''specialties'' (PDict []))) (\<lambda>base.
              merge_models data (dput key (PDict (fold (\<lambda>kv d. dput (fst kv) (snd kv) d) specialties base)) merged) override)
          else merge_models data (dput key value merged) override
      | _ \<Rightarrow> merge_models data (dput key value merged) override)"

definition merge_file :: "pyval \<Rightarrow> pyval option \<Rightarrow> pyval result" where
  "merge_file data override =
     (case (data, override) of
        (PDict d, Some (PDict entries)) \<Rightarrow> bindr (merge_models d d entries) (\<lambda>merged. Inr (PDict merged))
      | _ \<Rightarrow> Inr data)"

text \<open>
  The parsed files: the bundled one, the one under \<^verbatim>\<open>~/.config\<close> and the one of
  \<^verbatim>\<open>BUBBLEHUB_MODELS_CONFIG\<close>, as far as they exist.
\<close>

definition load_models_config :: "pyval \<Rightarrow> pyval option \<Rightarrow> pyval option \<Rightarrow> pydict result" where
  "load_models_config bundled user explicit =
     bindr (merge_file bundled user) (\<lambda>data. bindr (merge_file data explicit) (\<lambda>data.
       Inr (case data of PDict d \<Rightarrow> d | _ \<Rightarrow> [])))"

definition env_value :: "env \<Rightarrow> string \<Rightarrow> pyval" where
  "env_value e k = (case e k of None \<Rightarrow> PNone | Some s \<Rightarrow> PStr s)"

definition text_or :: "pyval \<Rightarrow> string \<Rightarrow> string" where
  "text_or x d = py_str (py_or x (PStr d))"

definition load_inference_config :: "env \<Rightarrow> pydict \<Rightarrow> inference_config result" where
  "load_inference_config e data =
     (let inference = (case dget_or data ''inference'' (PDict []) of PDict d \<Rightarrow> d | _ \<Rightarrow> []);
          host = (case env_nonempty e ''BUBBLEHUB_INFERENCE_HOST'' of Some h \<Rightarrow> h | None \<Rightarrow> text_or (dget inference ''host'') ''127.0.0.1'') in
      bindr (optional_int (env_value e ''BUBBLEHUB_INFERENCE_PORT'')) (\<lambda>env_port.
      bindr (case env_port of Some p \<Rightarrow> Inr (Some p) | None \<Rightarrow> optional_int (dget inference ''port'')) (\<lambda>port.
        Inr \<lparr>ic_host = host, ic_port = (case port of Some p \<Rightarrow> p | None \<Rightarrow> 8000),
          ic_default_specialty =
            (case env_nonempty e ''BUBBLEHUB_INFERENCE_SPECIALTY'' of Some s \<Rightarrow> s
             | None \<Rightarrow> (case env_nonempty e ''BUBBLEHUB_SPECIALITY'' of Some s \<Rightarrow> s
               | None \<Rightarrow> text_or (dget inference ''default_specialty'') ''default-instruct''))\<rparr>)))"

definition config_for_base_url :: "string \<Rightarrow> inference_config \<Rightarrow> inference_config result" where
  "config_for_base_url url fallback =
     bindr (urlparse url) (\<lambda>parsed.
       if pu_scheme parsed \<notin> set [''http'', ''https'', ''''] then Inr fallback
       else bindr (pu_port parsed) (\<lambda>port.
         Inr \<lparr>ic_host = (case pu_hostname parsed of Some h \<Rightarrow> h | None \<Rightarrow> ic_host fallback),
           ic_port = (case port of Some p \<Rightarrow> if p \<noteq> 0 then p else ic_port fallback | None \<Rightarrow> ic_port fallback),
           ic_default_specialty = ic_default_specialty fallback\<rparr>))"

section \<open>Environment values\<close>

definition append_no_proxy :: "string \<Rightarrow> string" where
  "append_no_proxy value =
     (let entries = filter (\<lambda>s. s \<noteq> []) (map strip (split_on CHR '','' value)) in
      join '','' (fold (\<lambda>entry es. if entry \<notin> set es then es @ [entry] else es) [''127.0.0.1'', ''localhost''] entries))"

text \<open>\<^verbatim>\<open>list(dict.fromkeys(xs))\<close>: the first of equal entries stays.\<close>

definition fromkeys :: "'a list \<Rightarrow> 'a list" where
  "fromkeys xs = fold (\<lambda>x ys. if x \<in> set ys then ys else ys @ [x]) xs []"

definition prepend_pythonpath :: "string \<Rightarrow> string \<Rightarrow> string" where
  "prepend_pythonpath value entry =
     join '':'' (fromkeys (entry # filter (\<lambda>s. s \<noteq> []) (split_on CHR '':'' value)))"

section \<open>Health and the daemon\<close>

text \<open>
  \<open>nt_now\<close> is the clock, \<open>nt_daemons\<close> the processes spawned so far. \<open>probe\<close> is a GET of a URL with a
  timeout of a second: the status or the exception, and how long it took.
\<close>

record daemon =
  dm_python :: string
  dm_env :: env

record net =
  nt_now :: rat
  nt_daemons :: "daemon list"

type_synonym probe = "net \<Rightarrow> string \<Rightarrow> int result \<times> rat"

definition get_status :: "probe \<Rightarrow> string \<Rightarrow> (net, int) prog" where
  "get_status probe url w = (case probe w url of (r, seconds) \<Rightarrow> (r, w\<lparr>nt_now := nt_now w + max 0 seconds\<rparr>))"

definition is_healthy :: "probe \<Rightarrow> string \<Rightarrow> (net, bool) prog" where
  "is_healthy probe url w =
     (case get_status probe (rstrip_char CHR ''/'' url @ ''/health'') w of
        (Inr status, w') \<Rightarrow> (Inr (status < 500), w')
      | (Inl (RequestException _), w') \<Rightarrow> (Inr False, w')
      | (Inl e, w') \<Rightarrow> (Inl e, w'))"

lemma is_healthy_clock: "is_healthy probe url w = (r, w') \<Longrightarrow> nt_now w \<le> nt_now w'"
  by (auto simp: is_healthy_def get_status_def split: prod.splits sum.splits exn.splits)

lemma ceiling_step: "(x::rat) \<le> y \<Longrightarrow> 0 < y \<Longrightarrow> nat \<lceil>x - 1\<rceil> < nat \<lceil>y\<rceil>"
  using ceiling_mono[of x y] by (simp add: ceiling_diff_one)

lemma wait_step:
  "is_healthy probe url w = (r, w') \<Longrightarrow> nt_now w < deadline \<Longrightarrow>
     nat \<lceil>4 * (deadline - (nt_now w' + 1 / 4))\<rceil> < nat \<lceil>4 * (deadline - nt_now w)\<rceil>"
proof -
  assume h: "is_healthy probe url w = (r, w')" "nt_now w < deadline"
  have "4 * (deadline - (nt_now w' + 1 / 4)) = 4 * (deadline - nt_now w') - 1" by (simp add: algebra_simps)
  moreover have "nat \<lceil>4 * (deadline - nt_now w') - 1\<rceil> < nat \<lceil>4 * (deadline - nt_now w)\<rceil>"
    using is_healthy_clock[OF h(1)] h(2) by (intro ceiling_step) simp_all
  ultimately show ?thesis by (simp only:)
qed

function wait_loop :: "probe \<Rightarrow> string \<Rightarrow> rat \<Rightarrow> (net, unit) prog" where
  "wait_loop probe url deadline w =
     (if nt_now w < deadline then
        (case is_healthy probe url w of
           (Inl e, w') \<Rightarrow> (Inl e, w')
         | (Inr True, w') \<Rightarrow> (Inr (), w')
         | (Inr False, w') \<Rightarrow> wait_loop probe url deadline (w'\<lparr>nt_now := nt_now w' + 1 / 4\<rparr>))
      else (Inl (RuntimeError (''BubbleHub inference endpoint did not become healthy: '' @ url)), w))"
  by pat_completeness auto

termination
proof (relation "measure (\<lambda>(_, _, deadline, w). nat \<lceil>4 * (deadline - nt_now w)\<rceil>)", goal_cases)
  case (2 probe url deadline w r w' b)
  then have "is_healthy probe url w = (r, w')" by simp
  moreover have "nt_now (w'\<lparr>nt_now := nt_now w' + 1 / 4\<rparr>) = nt_now w' + 1 / 4" by simp
  ultimately show ?case using wait_step[of probe url w _ w' deadline] 2(1) by (simp only: in_measure prod.case)
qed simp

declare wait_loop.simps [simp del]

definition wait_until_healthy :: "probe \<Rightarrow> string \<Rightarrow> rat \<Rightarrow> (net, unit) prog" where
  "wait_until_healthy probe url timeout_seconds w = wait_loop probe url (nt_now w + timeout_seconds) w"

definition inference_python :: "os_view \<Rightarrow> string" where
  "inference_python v =
     (let p = path_of (env_get (os_environ v) ''BUBBLEHUB_PYTHON'' ''/opt/bubblehub/bin/python'') in
      if os_exists v p then path_str p else path_str (path_of (os_executable v)))"

definition env_default :: "string \<Rightarrow> string \<Rightarrow> env \<Rightarrow> env" where
  "env_default k d e = (if e k = None then e(k \<mapsto> d) else e)"

text \<open>\<open>package\<close> is the directory above the package, \<^verbatim>\<open>Path(__file__).resolve().parent.parent\<close>.\<close>

definition daemon_env :: "env \<Rightarrow> string \<Rightarrow> inference_config \<Rightarrow> env" where
  "daemon_env environ package c =
     (let e = environ(''BUBBLEHUB_INFERENCE_HOST'' \<mapsto> ic_host c, ''BUBBLEHUB_INFERENCE_PORT'' \<mapsto> show_int (ic_port c),
            ''BUBBLEHUB_INFERENCE_SPECIALTY'' \<mapsto> ic_default_specialty c);
          e = env_default ''BUBBLEHUB_LOG_LEVEL'' (env_get environ ''BUBBLEHUB_LOG_LEVEL'' ''error'') e;
          e = e(''BUBBLEHUB_PYTHONPATH'' \<mapsto> prepend_pythonpath (env_get e ''BUBBLEHUB_PYTHONPATH'' '''') package) in
      case environ ''BUBBLEHUB_LOG_FILE'' of None \<Rightarrow> e | Some f \<Rightarrow> e(''BUBBLEHUB_LOG_FILE'' \<mapsto> f))"

definition start_inference_daemon :: "os_view \<Rightarrow> string \<Rightarrow> inference_config \<Rightarrow> (net, unit) prog" where
  "start_inference_daemon v package c w =
     (Inr (), w\<lparr>nt_daemons := nt_daemons w @ [\<lparr>dm_python = inference_python v, dm_env = daemon_env (os_environ v) package c\<rparr>]\<rparr>)"

definition endpoint_url :: "os_view \<Rightarrow> inference_config \<Rightarrow> string" where
  "endpoint_url v c = (case env_nonempty (os_environ v) ''BUBBLEHUB_API_BASE_URL'' of
     Some explicit \<Rightarrow> rstrip_char CHR ''/'' explicit | None \<Rightarrow> base_url c)"

definition ensure_inference_endpoint :: "probe \<Rightarrow> os_view \<Rightarrow> string \<Rightarrow> inference_config \<Rightarrow> (net, string) prog" where
  "ensure_inference_endpoint probe v package resolved =
     (let url = endpoint_url v resolved in
      bindn (is_healthy probe url) (\<lambda>healthy.
        if healthy then returnn url
        else bindn (liftn (config_for_base_url url resolved)) (\<lambda>daemon_config.
          bindn (start_inference_daemon v package daemon_config) (\<lambda>_.
          bindn (wait_until_healthy probe url 30) (\<lambda>_. returnn url)))))"

text \<open>The environment that is handed on, and the endpoint.\<close>

definition inference_env :: "string \<Rightarrow> string option \<Rightarrow> inference_config \<Rightarrow> env \<Rightarrow> env" where
  "inference_env url specialty c e =
     (let e = e(''BUBBLEHUB_API_BASE_URL'' \<mapsto> url, ''OPENAI_BASE_URL'' \<mapsto> rstrip_char CHR ''/'' url @ ''/v1'');
          e = env_default ''OPENAI_API_KEY'' ''bubblehub-local'' e;
          e = e(''BUBBLEHUB_SPECIALITY'' \<mapsto> (case specialty of Some (s # ss) \<Rightarrow> s # ss | _ \<Rightarrow> ic_default_specialty c));
          e = e(''NO_PROXY'' \<mapsto> append_no_proxy (env_get e ''NO_PROXY'' '''')) in
      e(''no_proxy'' \<mapsto> append_no_proxy (env_get e ''no_proxy'' '''')))"

definition apply_inference_env ::
  "probe \<Rightarrow> os_view \<Rightarrow> string \<Rightarrow> pydict result \<Rightarrow> string option \<Rightarrow> env \<Rightarrow> (net, env \<times> string) prog" where
  "apply_inference_env probe v package models specialty e =
     bindn (liftn (bindr models (load_inference_config (os_environ v)))) (\<lambda>c.
     bindn (ensure_inference_endpoint probe v package c) (\<lambda>url.
       returnn (inference_env url specialty c e, url)))"

section \<open>Laws\<close>

text \<open>Host names and addresses without ports, as the configuration writes them.\<close>

definition plain_host :: "string \<Rightarrow> bool" where
  "plain_host h \<longleftrightarrow> h \<noteq> [] \<and> list_all (\<lambda>c. is_alnum_ascii c \<or> c \<in> set ''.-_'') h \<and> lower h = h"

lemma plain_host_chars: "plain_host h \<Longrightarrow> c \<in> set h \<Longrightarrow> c \<notin> set ''/?#@[]:'' \<and> 32 < code c"
  by (auto simp: plain_host_def list_all_iff is_alnum_ascii_def Let_def)

lemma takeWhile_before: "(\<And>c. c \<in> set s \<Longrightarrow> P c) \<Longrightarrow> \<not> P d \<Longrightarrow> takeWhile P (s @ d # t) = s"
  by (induction s) auto

lemma before_after_char: "c \<notin> set s \<Longrightarrow> before_char c (s @ c # t) = s \<and> after_char c (s @ c # t) = t \<and> has_char c (s @ c # t)"
proof -
  assume "c \<notin> set s"
  then have "takeWhile (\<lambda>x. x \<noteq> c) (s @ c # t) = s" "dropWhile (\<lambda>x. x \<noteq> c) (s @ c # t) = c # t"
    by (induction s) auto
  then show ?thesis by (simp add: before_char_def after_char_def has_char_def)
qed

lemma urlparse_base_url:
  assumes "plain_host (ic_host c)" "0 < ic_port c" "ic_port c \<le> 65535"
  shows "urlparse (base_url c) = Inr \<lparr>pu_scheme = ''http'', pu_hostname = Some (ic_host c), pu_port = Inr (Some (ic_port c))\<rparr>"
proof -
  let ?h = "ic_host c" and ?p = "show_int (ic_port c)"
  have p: "?p = show_nat (nat (ic_port c))" using assms(2) by (simp add: show_int_def)
  have digits: "list_all is_digit ?p" using show_nat_digits[of _ "nat (ic_port c)"] by (auto simp: p list_all_iff)
  then have pc: "d \<notin> set ''/?#@[]:'' \<and> 32 < code d" if "d \<in> set ?p" for d
    using that by (auto simp: list_all_iff is_digit_def)
  note hc = plain_host_chars[OF assms(1)]
  let ?n = "?h @ CHR '':'' # ?p"
  have clean: "filter (\<lambda>c. code c \<notin> set [9, 10, 13]) (dropWhile (\<lambda>c. code c \<le> 32) (base_url c)) = base_url c"
  proof -
    have "dropWhile (\<lambda>c. code c \<le> 32) (base_url c) = base_url c" by (simp add: base_url_def)
    moreover have "code d \<notin> set [9, 10, 13]" if "d \<in> set (base_url c)" for d
      using that hc[of d] pc[of d] by (auto simp: base_url_def)
    ultimately show ?thesis by (simp add: filter_id_conv)
  qed
  have "before_char CHR '':'' (base_url c) = ''http'' \<and> after_char CHR '':'' (base_url c) = ''//'' @ ?n \<and> has_char CHR '':'' (base_url c)"
    using before_after_char[of "CHR '':''" "''http''" "''//'' @ ?n"] by (simp add: base_url_def)
  then have scheme: "split_scheme (base_url c) = (''http'', ''//'' @ ?n)"
    by (simp add: split_scheme_def is_alpha_ascii_def is_alnum_ascii_def is_scheme_char_def is_digit_def lower_def lower_char_def)
  have chars: "d \<in> set ?n \<Longrightarrow> d \<notin> set ''/?#@[]''" for d using hc[of d] pc[of d] by auto
  have netloc: "split_netloc (''//'' @ ?n) = ?n"
    using chars by (simp add: split_netloc_def startswith_def takeWhile_eq_all_conv)
  have absent: "CHR ''@'' \<notin> set ?n" "CHR ''['' \<notin> set ?n" "CHR '']'' \<notin> set ?n"
    by (rule notI, drule chars, simp)+
  have "split_on CHR ''@'' ?n = [?n]" unfolding split_on_def by (rule split_by_none) (use absent(1) in metis)
  moreover have "\<not> has_char CHR ''['' ?n" "\<not> has_char CHR '']'' ?n" using absent by (simp_all only: has_char_def not_False_eq_True)
  moreover have "CHR '':'' \<notin> set ?h" using hc by auto
  ultimately have info: "host_info ?n = (?h, ?p)" "has_char CHR ''['' ?n = has_char CHR '']'' ?n"
    using before_after_char[of "CHR '':''" ?h ?p] by (simp_all add: host_info_def)
  have "parse_nat ?p = Some (nat (ic_port c))" by (simp add: p parse_show_nat)
  moreover have "?p \<noteq> []" by (simp add: show_int_head)
  ultimately have port: "parse_port_text ?p = Inr (Some (ic_port c))"
    using digits assms(2,3) by (simp add: parse_port_text_def)
  have "lower ?h = ?h" "?h \<noteq> []" using assms(1) by (simp_all add: plain_host_def)
  with info port show ?thesis unfolding urlparse_def clean Let_def scheme fst_conv snd_conv netloc by simp
qed

lemma config_for_own_url:
  "plain_host (ic_host c) \<Longrightarrow> 0 < ic_port c \<Longrightarrow> ic_port c \<le> 65535 \<Longrightarrow> config_for_base_url (base_url c) c = Inr c"
  by (simp add: config_for_base_url_def urlparse_base_url)

text \<open>Waiting.\<close>

lemma is_healthy_soon:
  assumes "is_healthy probe url w = (r, w')" "\<forall>w u. snd (probe w u) \<le> t" "0 \<le> t"
  shows "nt_now w' \<le> nt_now w + t"
  using assms(1,3) assms(2)[rule_format, of w "rstrip_char CHR ''/'' url @ ''/health''"]
  by (auto simp: is_healthy_def get_status_def split: prod.splits sum.splits exn.splits)

lemma is_healthy_daemons: "is_healthy probe url w = (r, w') \<Longrightarrow> nt_daemons w' = nt_daemons w"
  by (auto simp: is_healthy_def get_status_def split: prod.splits sum.splits exn.splits)

lemma wait_loop_step:
  assumes "is_healthy probe url w = (h, w1)" "nt_now w < deadline"
  shows "wait_loop probe url deadline w = (case h of Inl e \<Rightarrow> (Inl e, w1) | Inr True \<Rightarrow> (Inr (), w1)
    | Inr False \<Rightarrow> wait_loop probe url deadline (w1\<lparr>nt_now := nt_now w1 + 1 / 4\<rparr>))"
  using assms by (simp add: wait_loop.simps[of probe url deadline w] split: sum.splits bool.splits)

definition unhealthy_error :: "string \<Rightarrow> exn" where
  "unhealthy_error url = RuntimeError (''BubbleHub inference endpoint did not become healthy: '' @ url)"

lemma wait_loop_ends:
  assumes "wait_loop probe url deadline w = (r, w')" "nt_now w \<le> deadline + t + 1 / 4" "\<forall>w u. snd (probe w u) \<le> t" "0 \<le> t"
  shows "nt_now w' \<le> deadline + t + 1 / 4 \<and> nt_daemons w' = nt_daemons w
    \<and> (case r of Inr _ \<Rightarrow> (\<exists>w1. is_healthy probe url w1 = (Inr True, w'))
       | Inl e \<Rightarrow> deadline \<le> nt_now w' \<and> e = unhealthy_error url \<or> (\<exists>w1. is_healthy probe url w1 = (Inl e, w')))"
  using assms
proof (induction probe url deadline w rule: wait_loop.induct)
  case (1 probe url deadline w)
  show ?case
  proof (cases "nt_now w < deadline")
    case False
    with "1.prems" show ?thesis by (auto simp: wait_loop.simps[of probe url deadline w] unhealthy_error_def)
  next
    case early: True
    obtain h w1 where h: "is_healthy probe url w = (h, w1)" by fastforce
    note step = wait_loop_step[OF h early] and soon = is_healthy_soon[OF h "1.prems"(3,4)]
    show ?thesis
    proof (cases "h = Inr False")
      case True
      then have "wait_loop probe url deadline (w1\<lparr>nt_now := nt_now w1 + 1 / 4\<rparr>) = (r, w')" using "1.prems"(1) step by simp
      from "1.IH"[OF early h[symmetric] True _ this _ "1.prems"(3,4)] show ?thesis
        using soon early is_healthy_daemons[OF h] by simp
    next
      case False
      then show ?thesis using "1.prems"(1,4) early h step soon is_healthy_daemons[OF h]
        by (auto split: sum.splits bool.splits)
    qed
  qed
qed

lemma healthy_answer:
  assumes "fst (probe w (rstrip_char CHR ''/'' url @ ''/health'')) = Inr status" "status < 500"
  shows "\<exists>w'. is_healthy probe url w = (Inr True, w') \<and> nt_daemons w' = nt_daemons w"
  using assms by (auto simp: is_healthy_def get_status_def split: prod.splits)

text \<open>What a probe may raise: the errors of the request library only.\<close>

definition request_errors_only :: "probe \<Rightarrow> bool" where
  "request_errors_only probe \<longleftrightarrow> (\<forall>w u e. fst (probe w u) = Inl e \<longrightarrow> (\<exists>m. e = RequestException m))"

lemma is_healthy_answers:
  assumes "request_errors_only probe"
  shows "\<exists>b w'. is_healthy probe url w = (Inr b, w')"
proof -
  obtain r t where p: "probe w (rstrip_char CHR ''/'' url @ ''/health'') = (r, t)" by fastforce
  then have "r = Inl e \<Longrightarrow> \<exists>m. e = RequestException m" for e
    using assms unfolding request_errors_only_def by (metis fst_conv)
  then show ?thesis by (cases r) (auto simp: is_healthy_def get_status_def p)
qed

lemma wait_loop_finds:
  assumes "wait_loop probe url deadline w = (r, w')"
    "\<forall>w u. snd (probe w u) \<le> t" "0 \<le> t" "request_errors_only probe"
    "\<forall>w. nt_daemons w \<noteq> [] \<and> ready \<le> nt_now w \<longrightarrow> (\<exists>s<500. fst (probe w (rstrip_char CHR ''/'' url @ ''/health'')) = Inr s)"
    "nt_daemons w \<noteq> []" "nt_now w \<le> ready + t + 1 / 4" "nt_now w < deadline" "ready + t + 1 / 4 < deadline"
  shows "r = Inr () \<and> nt_now w' \<le> ready + 2 * t + 1 / 4"
  using assms
proof (induction probe url deadline w rule: wait_loop.induct)
  case (1 probe url deadline w)
  obtain b w1 where h: "is_healthy probe url w = (Inr b, w1)" using is_healthy_answers[OF "1.prems"(4)] by blast
  note step = wait_loop_step[OF h "1.prems"(8)] and soon = is_healthy_soon[OF h "1.prems"(2,3)]
  show ?case
  proof (cases b)
    case True
    then show ?thesis using "1.prems"(1,7) step soon by simp
  next
    case False
    then have "\<not> ready \<le> nt_now w" using healthy_answer[of probe w url] "1.prems"(5,6) h by fastforce
    moreover have "wait_loop probe url deadline (w1\<lparr>nt_now := nt_now w1 + 1 / 4\<rparr>) = (r, w')"
      using False "1.prems"(1) step by simp
    ultimately show ?thesis
      using "1.IH"[OF "1.prems"(8) h[symmetric] refl _ _ "1.prems"(2-5) _ _ _ "1.prems"(9)] False soon
        is_healthy_daemons[OF h] "1.prems"(6,9) by simp
  qed
qed

lemma ensure_cases:
  assumes "ensure_inference_endpoint probe v package c w = (r, w')"
  obtains (healthy) "is_healthy probe (endpoint_url v c) w = (Inr True, w')" "r = Inr (endpoint_url v c)"
  | (raised) e where "is_healthy probe (endpoint_url v c) w = (Inl e, w')" "r = Inl e"
  | (no_url) e where "is_healthy probe (endpoint_url v c) w = (Inr False, w')" "r = Inl e"
      "config_for_base_url (endpoint_url v c) c = Inl e"
  | (started) w1 dc d q where "is_healthy probe (endpoint_url v c) w = (Inr False, w1)"
      "config_for_base_url (endpoint_url v c) c = Inr dc"
      "d = \<lparr>dm_python = inference_python v, dm_env = daemon_env (os_environ v) package dc\<rparr>"
      "wait_loop probe (endpoint_url v c) (nt_now w1 + 30) (w1\<lparr>nt_daemons := nt_daemons w1 @ [d]\<rparr>) = (q, w')"
      "r = map_sum id (\<lambda>_. endpoint_url v c) q"
proof -
  obtain h w1 where h: "is_healthy probe (endpoint_url v c) w = (h, w1)" by fastforce
  then show thesis
    using assms that
    by (cases h; cases "config_for_base_url (endpoint_url v c) c")
      (auto simp: ensure_inference_endpoint_def Let_def native_simps start_inference_daemon_def
        wait_until_healthy_def split: prod.splits sum.splits if_splits)
qed

section \<open>Properties\<close>

text \<open>
  Asking for the endpoint always ends, 30 seconds, a sleep and two probes later at most: with a URL
  whose health check has just succeeded, or with an error, which after a start is the report that the
  server did not become healthy. At most one server is started, and none when something answers.
\<close>

theorem endpoint_settled:
  assumes run: "ensure_inference_endpoint probe v package c w = (r, w')"
    and probes: "\<forall>w u. snd (probe w u) \<le> t" "0 \<le> t" "request_errors_only probe"
  shows "nt_now w' \<le> nt_now w + 30 + 2 * t + 1 / 4
    \<and> (case r of
        Inr url \<Rightarrow> url = endpoint_url v c \<and> (\<exists>w1. is_healthy probe url w1 = (Inr True, w'))
      | Inl e \<Rightarrow> config_for_base_url (endpoint_url v c) c = Inl e
          \<or> e = RuntimeError (''BubbleHub inference endpoint did not become healthy: '' @ endpoint_url v c)
            \<and> nt_now w + 30 \<le> nt_now w')
    \<and> (nt_daemons w' = nt_daemons w
       \<or> (\<exists>d. nt_daemons w' = nt_daemons w @ [d] \<and> fst (is_healthy probe (endpoint_url v c) w) = Inr False))"
proof -
  have no_raise: "is_healthy probe url w1 \<noteq> (Inl e, w2)" for url w1 e w2
    using is_healthy_answers[OF probes(3), of url w1] by auto
  from run show ?thesis
  proof (cases rule: ensure_cases)
    case healthy
    then show ?thesis using is_healthy_soon[OF healthy(1) probes(1,2)] is_healthy_daemons[OF healthy(1)] probes(2) by auto
  next
    case (raised e)
    then show ?thesis using no_raise by blast
  next
    case (no_url e)
    then show ?thesis using is_healthy_soon[OF no_url(1) probes(1,2)] is_healthy_daemons[OF no_url(1)] probes(2) by auto
  next
    case (started w1 dc d q)
    then show ?thesis
      using wait_loop_ends[OF started(4) _ probes(1,2)] is_healthy_soon[OF started(1) probes(1,2)] is_healthy_daemons[OF started(1)]
        is_healthy_clock[OF started(1)] probes(2) no_raise
      by (cases q) (auto simp: unhealthy_error_def)
  qed
qed

text \<open>
  C28. A server that comes up in time is found. Let a probe take at most \<open>t\<close> seconds and fail only with the errors of
  the request library, let the address of the server be one that it can be told, and let every probe of a
  started server from the time \<open>ready\<close> on be answered with a status below 500. When \<open>ready\<close>, the time of a
  probe and the quarter of a second of a sleep together are before thirty seconds after the call, then
  the call returns the address of the server, at most two probes and a sleep after \<open>ready\<close>.
\<close>

theorem started_server_is_found:
  assumes run: "ensure_inference_endpoint probe v package c w = (r, w')"
    and probes: "\<forall>w u. snd (probe w u) \<le> t" "0 \<le> t" "request_errors_only probe"
    and url: "config_for_base_url (endpoint_url v c) c = Inr dc"
    and server: "\<forall>w. nt_daemons w \<noteq> [] \<and> ready \<le> nt_now w \<longrightarrow>
        (\<exists>status<500. fst (probe w (rstrip_char CHR ''/'' (endpoint_url v c) @ ''/health'')) = Inr status)"
    and time: "nt_now w \<le> ready" "ready + t + 1 / 4 < nt_now w + 30"
  shows "r = Inr (endpoint_url v c) \<and> nt_now w' \<le> ready + 2 * t + 1 / 4"
  using run
proof (cases rule: ensure_cases)
  case healthy
  then show ?thesis using is_healthy_soon[OF healthy(1) probes(1,2)] time probes(2) by simp
next
  case (raised e)
  then show ?thesis using is_healthy_answers[OF probes(3), of "endpoint_url v c" w] by simp
next
  case (no_url e)
  then show ?thesis using url by simp
next
  case (started w1 dc d q)
  then show ?thesis
    using wait_loop_finds[OF started(4) probes server] is_healthy_soon[OF started(1) probes(1,2)]
      is_healthy_clock[OF started(1)] time by simp
qed

text \<open>A server that is up five seconds after it was started; a probe takes half a second.\<close>

definition slow_server :: probe where
  "slow_server w url = (if nt_daemons w \<noteq> [] \<and> 5 \<le> nt_now w then Inr 200 else Inl (RequestException ''refused''), 1 / 2)"

definition local_config :: inference_config where
  "local_config = \<lparr>ic_host = ''127.0.0.1'', ic_port = 80, ic_default_specialty = ''default-instruct''\<rparr>"

lemma slow_server_probes: "\<forall>w u. snd (slow_server w u) \<le> 1 / 2" "request_errors_only slow_server"
  by (auto simp: slow_server_def request_errors_only_def)

lemma endpoint_settled_witness:
  "nt_now (snd (ensure_inference_endpoint slow_server demo_os ''/usr/lib'' local_config \<lparr>nt_now = 0, nt_daemons = []\<rparr>)) \<le> 31 + 1 / 4"
  using endpoint_settled[OF surjective_pairing slow_server_probes(1) _ slow_server_probes(2),
      of demo_os "''/usr/lib''" local_config "\<lparr>nt_now = 0, nt_daemons = []\<rparr>"] by simp

lemma started_server_is_found_witness:
  "fst (ensure_inference_endpoint slow_server demo_os ''/usr/lib'' local_config \<lparr>nt_now = 0, nt_daemons = []\<rparr>)
   = Inr ''http://127.0.0.1:80''"
proof -
  have env: "endpoint_url demo_os local_config = base_url local_config"
    by (simp add: endpoint_url_def demo_os_def env_nonempty_def)
  have url: "base_url local_config = ''http://127.0.0.1:80''" by code_simp
  have plain: "plain_host (ic_host local_config)" "0 < ic_port local_config" "ic_port local_config \<le> 65535" by code_simp+
  have config: "config_for_base_url (endpoint_url demo_os local_config) local_config = Inr local_config"
    unfolding env config_for_own_url[OF plain] ..
  have server: "\<forall>w. nt_daemons w \<noteq> [] \<and> 5 \<le> nt_now w \<longrightarrow>
      (\<exists>status<500. fst (slow_server w (rstrip_char CHR ''/'' (endpoint_url demo_os local_config) @ ''/health'')) = Inr status)"
    by (auto simp: slow_server_def)
  show ?thesis
    using started_server_is_found[OF surjective_pairing slow_server_probes(1) _ slow_server_probes(2) config server,
        of "\<lparr>nt_now = 0, nt_daemons = []\<rparr>" "''/usr/lib''"] env url by simp
qed

end
