(* ===== verification/Interactive_Menu.thy ===== *)
theory Interactive_Menu
  imports Native_Scheduler
begin

text \<open>
  The two menus on a terminal: \<^verbatim>\<open>choose_option\<close> of \<^verbatim>\<open>bubblehub/cli/interactive.py\<close> and the access
  policy menu of \<^verbatim>\<open>bubblehub/cli/run.py\<close>, with the terminal state they borrow and give back. The input
  is the text still to be read; its end reads as the empty key.
\<close>

section \<open>Keys and options\<close>

definition key_up :: string where "key_up = [ch_esc, CHR ''['', CHR ''A'']"
definition key_down :: string where "key_down = [ch_esc, CHR ''['', CHR ''B'']"

definition is_enter :: "string \<Rightarrow> bool" where "is_enter key \<longleftrightarrow> key \<in> set [[ch_nl], [ch_cr], []]"
definition is_up :: "string \<Rightarrow> bool" where "is_up key \<longleftrightarrow> key \<in> set [key_up, ''k'']"
definition is_down :: "string \<Rightarrow> bool" where "is_down key \<longleftrightarrow> key \<in> set [key_down, ''j'']"

definition option_line :: "int \<Rightarrow> int \<times> string \<Rightarrow> string" where
  "option_line selected il =
     (let marker = (if fst il = selected then ''>'' else '' ''); line = marker @ '' '' @ snd il;
          line = (if fst il = selected then [ch_esc] @ ''[32m'' @ line @ [ch_esc] @ ''[0m'' else line) in
      [ch_esc] @ ''[2K'' @ [ch_cr] @ line @ [ch_nl])"

definition enumerate_int :: "'a list \<Rightarrow> (int \<times> 'a) list" where
  "enumerate_int xs = zip (map int [0..<length xs]) xs"

definition render_options :: "string list \<Rightarrow> int \<Rightarrow> bool \<Rightarrow> string" where
  "render_options options selected rewind =
     (if rewind then [ch_esc] @ ''['' @ show_nat (length options) @ ''F'' else [])
     @ concat (map (option_line selected) (enumerate_int options))"

text \<open>\<^verbatim>\<open>stream.read(n)\<close>\<close>

definition read_chars :: "nat \<Rightarrow> string \<Rightarrow> string \<times> string" where
  "read_chars n inp = (take n inp, drop n inp)"

definition read_prompt_key :: "string \<Rightarrow> string \<times> string" where
  "read_prompt_key inp =
     (case read_chars 1 inp of (key, inp) \<Rightarrow>
        if key = [ch_esc] then
          (case read_chars 1 inp of (second, inp) \<Rightarrow>
             if second = ''['' then (case read_chars 1 inp of (third, inp) \<Rightarrow> ([ch_esc] @ ''['' @ third, inp))
             else (key @ second, inp))
        else (key, inp))"

definition read_access_policy_key :: "string \<Rightarrow> string \<times> string" where
  "read_access_policy_key inp =
     (case read_chars 1 inp of (key, inp) \<Rightarrow>
        if key = [ch_esc] then (case read_chars 2 inp of (suffix, inp) \<Rightarrow> (key @ suffix, inp)) else (key, inp))"

text \<open>What both readers promise: a key that is there is consumed, and only the end of the input reads empty.\<close>

locale key_reader =
  fixes read_key :: "string \<Rightarrow> string \<times> string"
  assumes consumes: "read_key inp = (key, rest) \<Longrightarrow> key \<noteq> [] \<Longrightarrow> length rest < length inp"
    and reads_end: "read_key inp = (key, rest) \<Longrightarrow> key = [] \<longleftrightarrow> inp = []"
begin

lemma read_shorter: "inp \<noteq> [] \<Longrightarrow> length (snd (read_key inp)) < length inp"
  by (metis consumes prod.collapse reads_end)

lemma other_key_shorter: "\<not> is_enter (fst (read_key inp)) \<Longrightarrow> length (snd (read_key inp)) < length inp"
  using consumes[of inp "fst (read_key inp)" "snd (read_key inp)"] by (auto simp: is_enter_def)

end

lemma read_keys_shape:
  "read_prompt_key inp = (key, rest) \<Longrightarrow> (key = [] \<longleftrightarrow> inp = []) \<and> (key \<noteq> [] \<longrightarrow> length rest < length inp)"
  "read_access_policy_key inp = (key, rest) \<Longrightarrow> (key = [] \<longleftrightarrow> inp = []) \<and> (key \<noteq> [] \<longrightarrow> length rest < length inp)"
  by (cases inp; auto simp: read_prompt_key_def read_access_policy_key_def read_chars_def split: if_splits)+

interpretation prompt: key_reader read_prompt_key
  by unfold_locales (use read_keys_shape(1) in blast)+

interpretation policy: key_reader read_access_policy_key
  by unfold_locales (use read_keys_shape(2) in blast)+

section \<open>The loop of choose\_option\<close>

text \<open>
  \<^verbatim>\<open>str.isdigit\<close> holds of the three superscript digits too, which \<^verbatim>\<open>int\<close> refuses.
\<close>

definition key_isdigit :: "string \<Rightarrow> bool" where
  "key_isdigit key \<longleftrightarrow> key \<noteq> [] \<and> list_all (\<lambda>c. is_digit c \<or> code c \<in> set [178, 179, 185]) key"

text \<open>The result, the input that is left and everything written.\<close>

function choose_loop :: "string list \<Rightarrow> int \<Rightarrow> bool \<Rightarrow> string \<Rightarrow> string \<Rightarrow> int result \<times> string \<times> string" where
  "choose_loop options selected rendered inp out =
     (let out = out @ render_options options selected rendered;
          key = fst (read_prompt_key inp); rest = snd (read_prompt_key inp); n = int (length options) in
      if is_enter key then (Inr selected, rest, out @ [ch_nl])
      else if is_up key then choose_loop options ((selected - 1) mod n) True rest out
      else if is_down key then choose_loop options ((selected + 1) mod n) True rest out
      else if key_isdigit key then
        (case py_int (PStr key) of
           Inl e \<Rightarrow> (Inl e, rest, out)
         | Inr i \<Rightarrow> if 0 \<le> i - 1 \<and> i - 1 < n then (Inr (i - 1), rest, out)
             else choose_loop options selected True rest out)
      else if n = 2 \<and> key \<in> set [''y'', ''Y'', ''1''] then (Inr 0, rest, out)
      else if n = 2 \<and> key \<in> set [''n'', ''N'', ''2''] then (Inr 1, rest, out)
      else choose_loop options selected True rest out)"
  by auto

termination by (relation "measure (\<lambda>(_, _, _, inp, _). length inp)") (auto simp: prompt.other_key_shorter)

declare choose_loop.simps [simp del]

section \<open>The terminal\<close>

text \<open>
  What a prompt changes: the input, the screen, the line mode, the foreground process group, the handler
  of \<^verbatim>\<open>SIGTTOU\<close>, and the calls of the native library. The calls of the operating system that may fail
  have their outcome in \<open>terminal\<close>, by the process group given.
\<close>

datatype line_mode = Cooked | Cbreak
datatype signal_handler = DefaultHandler | IgnoreSignal | PreviousHandler nat

record console =
  cs_input :: string
  cs_output :: string
  cs_mode :: line_mode
  cs_pgrp :: int
  cs_ttou :: signal_handler
  cs_native :: history

record terminal =
  tm_fileno :: "int option"
  tm_isatty :: bool
  tm_own_pgrp :: int
  tm_getpgrp :: "unit result"
  tm_setpgrp :: "int \<Rightarrow> unit result"

definition console_write :: "string \<Rightarrow> (console, unit) prog" where
  "console_write s c = (Inr (), c\<lparr>cs_output := cs_output c @ s\<rparr>)"

definition set_mode :: "line_mode \<Rightarrow> (console, unit) prog" where
  "set_mode m c = (Inr (), c\<lparr>cs_mode := m\<rparr>)"

text \<open>\<^verbatim>\<open>tcgetattr\<close>, \<^verbatim>\<open>setcbreak\<close>, and \<^verbatim>\<open>tcsetattr\<close> on every way out.\<close>

definition in_cbreak :: "(console, 'a) prog \<Rightarrow> (console, 'a) prog" where
  "in_cbreak m c = (let original = cs_mode c in
     finallyn (bindn (set_mode Cbreak) (\<lambda>_. m)) (set_mode original) c)"

definition run_loop :: "(string \<Rightarrow> string \<Rightarrow> 'a result \<times> string \<times> string) \<Rightarrow> (console, 'a) prog" where
  "run_loop loop c = (case loop (cs_input c) (cs_output c) of (r, inp, out) \<Rightarrow> (r, c\<lparr>cs_input := inp, cs_output := out\<rparr>))"

section \<open>choose\_option\<close>

definition choose_option :: "terminal \<Rightarrow> string \<Rightarrow> string \<Rightarrow> string list \<Rightarrow> int \<Rightarrow> (console, int) prog" where
  "choose_option t title message options default_index =
     (if options = [] then raisen (ValueError ''at least one option is required'')
      else if \<not> (0 \<le> default_index \<and> default_index < int (length options)) then
        raisen (ValueError ''default_index out of range'')
      else
        bindn (console_write ([ch_nl] @ title @ [ch_nl] @ message @ [ch_nl, ch_nl]
            @ ''Use Up/Down arrows and press Enter.'' @ [ch_nl])) (\<lambda>_.
          let asking = run_loop (choose_loop options default_index False) in
          if \<not> tm_isatty t then asking else in_cbreak asking))"

section \<open>The access policy menu\<close>

definition access_policy_options :: "(string \<times> string) list" where
  "access_policy_options = [(''always'', ''always''), (''never'', ''never''), (''ask'', ''ask every time (approve now)'')]"

definition render_access_policy_options :: "int \<Rightarrow> bool \<Rightarrow> string" where
  "render_access_policy_options selected rewind = render_options (map snd access_policy_options) selected rewind"

function policy_loop :: "int \<Rightarrow> bool \<Rightarrow> string \<Rightarrow> string \<Rightarrow> string result \<times> string \<times> string" where
  "policy_loop selected rendered inp out =
     (let out = out @ render_access_policy_options selected rendered;
          key = fst (read_access_policy_key inp); rest = snd (read_access_policy_key inp);
          n = int (length access_policy_options) in
      if is_enter key then (Inr (fst (access_policy_options ! nat selected)), rest, out @ [ch_nl])
      else if is_up key then policy_loop ((selected - 1) mod n) True rest out
      else if is_down key then policy_loop ((selected + 1) mod n) True rest out
      else policy_loop selected True rest out)"
  by auto

termination by (relation "measure (\<lambda>(_, _, inp, _). length inp)") (auto simp: policy.other_key_shorter)

declare policy_loop.simps [simp del]

definition or_star :: "pydict \<Rightarrow> string \<Rightarrow> string" where
  "or_star request key = py_str (py_or (dget_or request key (PStr ''*'')) (PStr ''*''))"

definition choose_access_policy :: "terminal \<Rightarrow> pydict \<Rightarrow> (console, string) prog" where
  "choose_access_policy t request =
     bindn (console_write ([ch_nl] @ ''BubbleHub sandbox paused for host access decision:'' @ [ch_nl]
        @ ''subject='' @ py_str (dget_or request ''subject'' (PStr '''')) @ '' method='' @ or_star request ''method''
        @ '' path='' @ or_star request ''path'' @ [ch_nl] @ ''Use Up/Down arrows and press Enter.'' @ [ch_nl])) (\<lambda>_.
       let asking = run_loop (policy_loop 0 False) in
       if tm_fileno t = None \<or> \<not> tm_isatty t then asking else in_cbreak asking)"

section \<open>The host terminal in the foreground\<close>

definition set_pgrp :: "terminal \<Rightarrow> int \<Rightarrow> (console, unit) prog" where
  "set_pgrp t g c = (case tm_setpgrp t g of Inl e \<Rightarrow> (Inl e, c) | Inr _ \<Rightarrow> (Inr (), c\<lparr>cs_pgrp := g\<rparr>))"

definition set_ttou :: "signal_handler \<Rightarrow> (console, unit) prog" where
  "set_ttou h c = (Inr (), c\<lparr>cs_ttou := h\<rparr>)"

definition ignoring_os_error :: "('s, unit) prog \<Rightarrow> ('s, unit) prog" where
  "ignoring_os_error m s = (case m s of (Inl e, s') \<Rightarrow> (if is_os_error e then Inr () else Inl e, s') | other \<Rightarrow> other)"

definition host_terminal_foreground :: "terminal \<Rightarrow> (console, 'a) prog \<Rightarrow> (console, 'a) prog" where
  "host_terminal_foreground t body c =
     (if tm_fileno t = None \<or> \<not> tm_isatty t then body c
      else (case tm_getpgrp t of
          Inl e \<Rightarrow> if is_os_error e then body c else (Inl e, c)
        | Inr _ \<Rightarrow>
            (let previous = cs_pgrp c; old_ttou = cs_ttou c in
             if previous = tm_own_pgrp t then body c
             else finallyn
               (bindn (set_ttou IgnoreSignal) (\<lambda>_. bindn (set_pgrp t (tm_own_pgrp t)) (\<lambda>_. body)))
               (bindn (ignoring_os_error (set_pgrp t previous)) (\<lambda>_. set_ttou old_ttou)) c)))"

section \<open>The interactive broker\<close>

definition console_native :: "'a native \<Rightarrow> (console, 'a) prog" where
  "console_native m c = (case m (cs_native c) of (r, h) \<Rightarrow> (r, c\<lparr>cs_native := h\<rparr>))"

definition request_text :: "pydict \<Rightarrow> string \<Rightarrow> string" where
  "request_text request key = py_str (dget_or request key (PStr ''''))"

definition interactive_broker :: "native_lib \<Rightarrow> terminal \<Rightarrow> string \<Rightarrow> pydict \<Rightarrow> (console, string) prog" where
  "interactive_broker lib t agent_id request =
     bindn (host_terminal_foreground t (bindn (choose_access_policy t request) (\<lambda>policy c.
       (case console_native (apply_access_policy lib agent_id (request_text request ''kind'')
            (request_text request ''subject'') (request_text request ''method'') (request_text request ''path'') policy) c of
          (Inr _, c') \<Rightarrow> (Inr policy, c')
        | (Inl e, c') \<Rightarrow> bindn (console_write (''Warning: failed to persist access policy: '' @ exn_text e @ [ch_nl]))
            (\<lambda>_. returnn policy) c')))) returnn"

section \<open>The menu as a transition system\<close>

text \<open>
  What the loop of \<open>choose_option\<close> implements: keys move the cursor or are ignored, until one of them
  answers. A state is the cursor and the input still to be read.
\<close>

definition ignored_key :: "int \<Rightarrow> string \<Rightarrow> bool" where
  "ignored_key n key \<longleftrightarrow> \<not> is_enter key \<and> \<not> is_up key \<and> \<not> is_down key
     \<and> (if key_isdigit key then (case py_int (PStr key) of Inl _ \<Rightarrow> False | Inr i \<Rightarrow> i < 1 \<or> n < i)
        else \<not> (n = 2 \<and> key \<in> set [''y'', ''Y'', ''1'', ''n'', ''N'', ''2'']))"

inductive menu_step :: "int \<Rightarrow> int \<times> string \<Rightarrow> int \<times> string \<Rightarrow> bool" for n where
  cursor_up: "menu_step n (selected, inp) ((selected - 1) mod n, rest)"
    if "read_prompt_key inp = (key, rest)" "is_up key"
| cursor_down: "menu_step n (selected, inp) ((selected + 1) mod n, rest)"
    if "read_prompt_key inp = (key, rest)" "is_down key"
| cursor_stays: "menu_step n (selected, inp) (selected, rest)"
    if "read_prompt_key inp = (key, rest)" "ignored_key n key"

inductive menu_answer :: "int \<Rightarrow> int \<times> string \<Rightarrow> int result \<Rightarrow> bool" for n where
  answer_enter: "menu_answer n (selected, inp) (Inr selected)"
    if "read_prompt_key inp = (key, rest)" "is_enter key"
| answer_digit: "menu_answer n (selected, inp) (Inr (i - 1))"
    if "read_prompt_key inp = (key, rest)" "key_isdigit key" "py_int (PStr key) = Inr i" "1 \<le> i" "i \<le> n"
| answer_refused: "menu_answer n (selected, inp) (Inl e)"
    if "read_prompt_key inp = (key, rest)" "key_isdigit key" "py_int (PStr key) = Inl e"
| answer_yes: "menu_answer n (selected, inp) (Inr 0)"
    if "read_prompt_key inp = (key, rest)" "n = 2" "key \<in> set [''y'', ''Y'', ''1'']"
| answer_no: "menu_answer n (selected, inp) (Inr 1)"
    if "read_prompt_key inp = (key, rest)" "n = 2" "key \<in> set [''n'', ''N'', ''2'']"

inductive_cases menu_stepE: "menu_step n (selected, inp) s"
inductive_cases menu_answerE: "menu_answer n (selected, inp) r"
inductive_simps menu_answer_iff: "menu_answer n (selected, inp) r"

lemma menu_step_range: "menu_step n s s' \<Longrightarrow> 0 \<le> fst s \<Longrightarrow> fst s < n \<Longrightarrow> 0 \<le> fst s' \<and> fst s' < n"
  by (induction rule: menu_step.induct) auto

lemma menu_run_range: "(menu_step n)\<^sup>*\<^sup>* s s' \<Longrightarrow> 0 \<le> fst s \<Longrightarrow> fst s < n \<Longrightarrow> 0 \<le> fst s' \<and> fst s' < n"
  by (induction rule: rtranclp_induct) (auto dest: menu_step_range)

lemma menu_step_shorter: "menu_step n s s' \<Longrightarrow> length (snd s') < length (snd s)"
proof (induction rule: menu_step.induct)
  case (cursor_stays inp key rest selected)
  then show ?case using prompt.other_key_shorter[of inp] by (simp add: ignored_key_def)
qed (use prompt.consumes in \<open>force simp: is_up_def is_down_def key_up_def key_down_def\<close>)+

lemma menu_answer_range:
  "menu_answer n s r \<Longrightarrow> 0 \<le> fst s \<Longrightarrow> fst s < n \<Longrightarrow> (case r of Inr i \<Rightarrow> 0 \<le> i \<and> i < n | Inl e \<Rightarrow> is_value_error e)"
  by (induction rule: menu_answer.induct) (auto split: option.splits)

text \<open>The loop, key by key.\<close>

lemma choose_loop_unfold:
  assumes "read_prompt_key inp = (key, rest)"
  shows "choose_loop options selected rendered inp out =
    (let out = out @ render_options options selected rendered; n = int (length options) in
      if is_enter key then (Inr selected, rest, out @ [ch_nl])
      else if is_up key then choose_loop options ((selected - 1) mod n) True rest out
      else if is_down key then choose_loop options ((selected + 1) mod n) True rest out
      else if key_isdigit key then
        (case py_int (PStr key) of
           Inl e \<Rightarrow> (Inl e, rest, out)
         | Inr i \<Rightarrow> if 0 \<le> i - 1 \<and> i - 1 < n then (Inr (i - 1), rest, out)
             else choose_loop options selected True rest out)
      else if n = 2 \<and> key \<in> set [''y'', ''Y'', ''1''] then (Inr 0, rest, out)
      else if n = 2 \<and> key \<in> set [''n'', ''N'', ''2''] then (Inr 1, rest, out)
      else choose_loop options selected True rest out)"
  using choose_loop.simps[of options selected rendered inp out] assms by (simp only: Let_def fst_conv snd_conv)

lemma choose_loop_moves:
  assumes "read_prompt_key inp = (key, rest)"
  shows "\<not> is_enter key \<Longrightarrow> is_up key \<Longrightarrow> choose_loop options selected rendered inp out
      = choose_loop options ((selected - 1) mod int (length options)) True rest (out @ render_options options selected rendered)"
    and "\<not> is_enter key \<Longrightarrow> \<not> is_up key \<Longrightarrow> is_down key \<Longrightarrow> choose_loop options selected rendered inp out
      = choose_loop options ((selected + 1) mod int (length options)) True rest (out @ render_options options selected rendered)"
  by (simp_all only: choose_loop_unfold[OF assms] Let_def if_True if_False)

lemma choose_loop_ignored:
  assumes "read_prompt_key inp = (key, rest)" "ignored_key (int (length options)) key"
  shows "choose_loop options selected rendered inp out
      = choose_loop options selected True rest (out @ render_options options selected rendered)"
proof -
  have k: "\<not> is_enter key" "\<not> is_up key" "\<not> is_down key" using assms(2) by (simp_all add: ignored_key_def)
  note unf = choose_loop_unfold[OF assms(1), of options selected rendered out]
  show ?thesis
  proof (cases "key_isdigit key")
    case True
    with assms(2) obtain i where "py_int (PStr key) = Inr i" "i < 1 \<or> int (length options) < i"
      by (cases "py_int (PStr key)") (auto simp: ignored_key_def simp del: py_int.simps)
    moreover from this have "\<not> (0 \<le> i - 1 \<and> i - 1 < int (length options))" by linarith
    ultimately show ?thesis using True by (simp only: unf k Let_def if_True if_False sum.case)
  next
    case False
    with assms(2) have "\<not> (int (length options) = 2 \<and> key \<in> set [''y'', ''Y'', ''1''])"
      "\<not> (int (length options) = 2 \<and> key \<in> set [''n'', ''N'', ''2''])" by (auto simp: ignored_key_def)
    with False show ?thesis by (simp only: unf k Let_def if_True if_False)
  qed
qed

lemma choose_loop_answers:
  assumes k: "read_prompt_key inp = (key, rest)"
    and a: "is_enter key \<or> \<not> is_up key \<and> \<not> is_down key \<and> \<not> ignored_key (int (length options)) key"
  shows "menu_answer (int (length options)) (selected, inp) (fst (choose_loop options selected rendered inp out))"
proof (cases "is_enter key")
  case True
  then show ?thesis
    using answer_enter[OF k True] by (simp only: choose_loop_unfold[OF k] Let_def if_True fst_conv)
next
  case False
  with a have no: "\<not> is_up key" "\<not> is_down key" "\<not> ignored_key (int (length options)) key" by simp_all
  note unf = choose_loop_unfold[OF k, of options selected rendered out]
  show ?thesis
  proof (cases "key_isdigit key")
    case True
    show ?thesis
    proof (cases "py_int (PStr key)")
      case (Inl e)
      then show ?thesis using answer_refused[OF k True Inl] True False no
        by (simp only: unf Let_def if_True if_False sum.case fst_conv)
    next
      case (Inr i)
      with no(3) False no(1,2) True have "1 \<le> i" "i \<le> int (length options)"
        by (auto simp: ignored_key_def simp del: py_int.simps)
      with answer_digit[OF k True Inr this] show ?thesis using True False no Inr
        by (simp del: py_int.simps add: unf Let_def)
    qed
  next
    case nodigit: False
    with no(3) False no(1,2) have two: "int (length options) = 2"
      and key: "key \<in> set [''y'', ''Y'', ''1'', ''n'', ''N'', ''2'']" by (simp_all add: ignored_key_def)
    show ?thesis
    proof (cases "key \<in> set [''y'', ''Y'', ''1'']")
      case True
      then show ?thesis using answer_yes[OF k two True] two nodigit False no
        by (simp only: unf Let_def if_True if_False fst_conv simp_thms)
    next
      case other: False
      with key have n: "key \<in> set [''n'', ''N'', ''2'']" by auto
      then show ?thesis using answer_no[OF k two n] two nodigit False no other
        by (simp only: unf Let_def if_True if_False fst_conv simp_thms)
    qed
  qed
qed

lemma choose_loop_run:
  "\<exists>s'. (menu_step (int (length options)))\<^sup>*\<^sup>* (selected, inp) s'
     \<and> menu_answer (int (length options)) s' (fst (choose_loop options selected rendered inp out))"
proof (induction "length inp" arbitrary: selected inp rendered out rule: less_induct)
  case less
  let ?n = "int (length options)"
  obtain key rest where k: "read_prompt_key inp = (key, rest)" by fastforce
  have go: ?case if step: "menu_step ?n (selected, inp) (selected', rest)"
      and eq: "choose_loop options selected rendered inp out = choose_loop options selected' True rest out'" for selected' out'
  proof -
    have "length rest < length inp" using menu_step_shorter[OF step] by simp
    from less[OF this, of selected' True out'] step show ?thesis
      unfolding eq by (blast intro: converse_rtranclp_into_rtranclp)
  qed
  consider "is_enter key \<or> \<not> is_up key \<and> \<not> is_down key \<and> \<not> ignored_key ?n key" | "\<not> is_enter key" "is_up key"
    | "\<not> is_enter key" "\<not> is_up key" "is_down key" | "ignored_key ?n key" by blast
  then show ?case
  proof cases
    case 1
    with choose_loop_answers[OF k] show ?thesis by blast
  next
    case 2
    with choose_loop_moves(1)[OF k] cursor_up[OF k] show ?thesis by (intro go)
  next
    case 3
    with choose_loop_moves(2)[OF k] cursor_down[OF k] show ?thesis by (intro go)
  next
    case 4
    with choose_loop_ignored[OF k] cursor_stays[OF k] show ?thesis by (intro go)
  qed
qed

text \<open>Modes and groups on the way out.\<close>

lemma run_loop_mode: "run_loop loop c = (r, c') \<Longrightarrow> cs_mode c' = cs_mode c \<and> cs_pgrp c' = cs_pgrp c \<and> cs_ttou c' = cs_ttou c \<and> cs_native c' = cs_native c"
  by (auto simp: run_loop_def split: prod.splits)

lemma in_cbreak_loop:
  "in_cbreak (run_loop loop) c = (r, c') \<longleftrightarrow> run_loop loop c = (r, c')"
  by (cases "loop (cs_input c) (cs_output c)")
    (auto simp: in_cbreak_def finallyn_def set_mode_def run_loop_def native_simps Let_def split: prod.splits)

section \<open>The access policy menu\<close>

text \<open>The keys before the one that ends the menu, and the way each moves the cursor.\<close>

function keys_before_enter :: "string \<Rightarrow> string list" where
  "keys_before_enter inp =
     (let key = fst (read_access_policy_key inp) in
      if is_enter key then [] else key # keys_before_enter (snd (read_access_policy_key inp)))"
  by auto

termination by (relation "measure length") (auto simp: policy.other_key_shorter)

declare keys_before_enter.simps [simp del]

definition key_move :: "string \<Rightarrow> int" where
  "key_move key = (if is_up key then - 1 else if is_down key then 1 else 0)"

lemma policy_loop_cursor:
  "0 \<le> selected \<Longrightarrow> selected < 3 \<Longrightarrow> fst (policy_loop selected rendered inp out)
     = Inr (fst (access_policy_options ! nat ((selected + sum_list (map key_move (keys_before_enter inp))) mod 3)))"
proof (induction "length inp" arbitrary: selected inp rendered out rule: less_induct)
  case less
  let ?key = "fst (read_access_policy_key inp)"
  let ?rest = "snd (read_access_policy_key inp)"
  let ?out = "out @ render_access_policy_options selected rendered"
  have three: "int (length access_policy_options) = 3" by (simp add: access_policy_options_def)
  note unf = policy_loop.simps[of selected rendered inp out, unfolded Let_def three]
  show ?case
  proof (cases "is_enter ?key")
    case True
    then have "keys_before_enter inp = []" by (simp add: keys_before_enter.simps[of inp])
    then show ?thesis using less.prems True by (simp only: unf if_True fst_conv) simp
  next
    case False
    then have keys: "keys_before_enter inp = ?key # keys_before_enter ?rest"
      by (simp add: keys_before_enter.simps[of inp] Let_def)
    have shorter: "length ?rest < length inp" using False by (rule policy.other_key_shorter)
    have step: "policy_loop selected rendered inp out = policy_loop ((selected + key_move ?key) mod 3) True ?rest ?out"
      using False less.prems
      by (cases "is_up ?key"; cases "is_down ?key") (simp_all only: unf if_False if_True key_move_def, simp_all)
    have "0 \<le> (selected + key_move ?key) mod 3" "(selected + key_move ?key) mod 3 < 3" by simp_all
    from less.hyps[OF shorter this, of True ?out] show ?thesis
      by (simp add: step keys mod_simps add.assoc)
  qed
qed

definition policy_choice :: "string \<Rightarrow> string" where
  "policy_choice inp = fst (access_policy_options ! nat (sum_list (map key_move (keys_before_enter inp)) mod 3))"

lemma choose_access_policy_result:
  assumes "choose_access_policy t request c = (r, c')"
  shows "r = Inr (policy_choice (cs_input c)) \<and> cs_mode c' = cs_mode c \<and> cs_pgrp c' = cs_pgrp c
    \<and> cs_ttou c' = cs_ttou c \<and> cs_native c' = cs_native c"
proof -
  obtain s where "run_loop (policy_loop 0 False) (c\<lparr>cs_output := s\<rparr>) = (r, c')"
    using assms by (auto simp: choose_access_policy_def native_simps console_write_def Let_def in_cbreak_loop split: if_splits)
  then show ?thesis
    using run_loop_mode policy_loop_cursor[of 0 False "cs_input c" s]
    by (fastforce simp: run_loop_def policy_choice_def split: prod.splits)
qed

lemma policy_choice_range: "policy_choice inp \<in> {''always'', ''never'', ''ask''}"
proof -
  have "nat (x mod 3) < 3" for x :: int by simp
  then have "nat (sum_list (map key_move (keys_before_enter inp)) mod 3) \<in> {0, 1, 2}" by (simp add: eval_nat_numeral less_Suc_eq insert_commute) 
  then show ?thesis unfolding policy_choice_def access_policy_options_def by (elim insertE) (simp_all only: nth_Cons_0 fst_conv, simp_all)
qed

section \<open>The broker on the terminal\<close>

definition ask_and_apply :: "native_lib \<Rightarrow> terminal \<Rightarrow> string \<Rightarrow> pydict \<Rightarrow> (console, string) prog" where
  "ask_and_apply lib t agent_id request = bindn (choose_access_policy t request) (\<lambda>policy c.
       (case console_native (apply_access_policy lib agent_id (request_text request ''kind'')
            (request_text request ''subject'') (request_text request ''method'') (request_text request ''path'') policy) c of
          (Inr _, c') \<Rightarrow> (Inr policy, c')
        | (Inl e, c') \<Rightarrow> bindn (console_write (''Warning: failed to persist access policy: '' @ exn_text e @ [ch_nl]))
            (\<lambda>_. returnn policy) c'))"

lemma ask_and_apply_result:
  assumes "ask_and_apply lib t agent_id request c = (r, c')"
  shows "r = Inr (policy_choice (cs_input c)) \<and> cs_mode c' = cs_mode c \<and> cs_pgrp c' = cs_pgrp c \<and> cs_ttou c' = cs_ttou c
    \<and> cs_native c' = snd (apply_access_policy lib agent_id (request_text request ''kind'')
            (request_text request ''subject'') (request_text request ''method'') (request_text request ''path'')
            (policy_choice (cs_input c)) (cs_native c))"
proof -
  obtain p c1 where p: "choose_access_policy t request c = (p, c1)" by fastforce
  note chosen = choose_access_policy_result[OF p]
  obtain q h where q: "apply_access_policy lib agent_id (request_text request ''kind'')
            (request_text request ''subject'') (request_text request ''method'') (request_text request ''path'')
            (policy_choice (cs_input c)) (cs_native c) = (q, h)" by fastforce
  show ?thesis
    using assms chosen
    by (cases q) (auto simp: ask_and_apply_def bindn_def p console_native_def q console_write_def returnn_def)
qed

lemma interactive_broker_eq:
  "interactive_broker lib t agent_id request = bindn (host_terminal_foreground t (ask_and_apply lib t agent_id request)) returnn"
  by (simp add: interactive_broker_def ask_and_apply_def)

lemma foreground_result:
  assumes "host_terminal_foreground t body c = (r, c')"
    and body: "\<And>c1 r1 c2. body c1 = (r1, c2) \<Longrightarrow> cs_mode c2 = cs_mode c1 \<and> cs_pgrp c2 = cs_pgrp c1 \<and> cs_ttou c2 = cs_ttou c1"
    and given: "tm_setpgrp t (cs_pgrp c) = Inr ()"
  shows "cs_mode c' = cs_mode c \<and> cs_pgrp c' = cs_pgrp c \<and> cs_ttou c' = cs_ttou c
    \<and> ((\<exists>c1. cs_input c1 = cs_input c \<and> cs_native c1 = cs_native c \<and> fst (body c1) = r \<and> cs_native c' = cs_native (snd (body c1)))
       \<or> (\<exists>e. r = Inl e \<and> (tm_getpgrp t = Inl e \<or> tm_setpgrp t (tm_own_pgrp t) = Inl e)))"
proof (cases "body c = (r, c')")
  case True
  then show ?thesis using body[OF True] by auto
next
  case notplain: False
  show ?thesis
  proof (cases "tm_getpgrp t")
    case (Inl e)
    with assms(1) notplain show ?thesis by (auto simp: host_terminal_foreground_def split: if_splits)
  next
    case (Inr u)
    let ?c1 = "c\<lparr>cs_ttou := IgnoreSignal\<rparr>"
    have run: "finallyn (bindn (set_ttou IgnoreSignal) (\<lambda>_. bindn (set_pgrp t (tm_own_pgrp t)) (\<lambda>_. body)))
        (bindn (ignoring_os_error (set_pgrp t (cs_pgrp c))) (\<lambda>_. set_ttou (cs_ttou c))) c = (r, c')"
      using assms(1) notplain Inr by (auto simp: host_terminal_foreground_def Let_def split: if_splits)
    show ?thesis
    proof (cases "tm_setpgrp t (tm_own_pgrp t)")
      case (Inl e)
      with run given show ?thesis
        by (auto simp: finallyn_def native_simps set_ttou_def set_pgrp_def ignoring_os_error_def)
    next
      case ok: (Inr w)
      let ?c2 = "?c1\<lparr>cs_pgrp := tm_own_pgrp t\<rparr>"
      obtain r1 c3 where b: "body ?c2 = (r1, c3)" by fastforce
      have "r = r1 \<and> c' = c3\<lparr>cs_pgrp := cs_pgrp c, cs_ttou := cs_ttou c\<rparr>"
        using run ok given b
        by (auto simp: finallyn_def native_simps set_ttou_def set_pgrp_def ignoring_os_error_def split: sum.splits)
      moreover have "cs_input ?c2 = cs_input c" "cs_native ?c2 = cs_native c" by simp_all
      ultimately show ?thesis using body[OF b] b by (intro conjI disjI1 exI[of _ ?c2]) simp_all
    qed
  qed
qed

section \<open>Properties\<close>

lemma in_cbreak_mode: "cs_mode (snd (in_cbreak m c)) = cs_mode c"
  by (cases "bindn (set_mode Cbreak) (\<lambda>_. m) c") (simp add: in_cbreak_def Let_def finallyn_def set_mode_def)

text \<open>
  C23. A menu always answers: on every input text, the empty one and one that ends early included, the
  loop returns an index of an option or a ValueError, and the terminal is back in the mode it had. The
  answer is one of the transition system of the keys. An interrupt, which Python may raise between any two
  steps, is no outcome of the loop here; the mode is restored whatever runs in its place and however it ends.
\<close>

theorem choose_option_answers:
  assumes "choose_option t title message options default_index c = (r, c')"
  shows "(case r of Inr i \<Rightarrow> 0 \<le> i \<and> i < int (length options) | Inl e \<Rightarrow> is_value_error e) \<and> cs_mode c' = cs_mode c
    \<and> (\<forall>m :: (console, int) prog. cs_mode (snd (in_cbreak m c)) = cs_mode c)
    \<and> (options \<noteq> [] \<and> 0 \<le> default_index \<and> default_index < int (length options) \<longrightarrow>
        (\<exists>s. (menu_step (int (length options)))\<^sup>*\<^sup>* (default_index, cs_input c) s \<and> menu_answer (int (length options)) s r))"
proof (cases "options \<noteq> [] \<and> 0 \<le> default_index \<and> default_index < int (length options)")
  case False
  with assms in_cbreak_mode show ?thesis by (auto simp: choose_option_def raisen_def split: if_splits)
next
  case True
  then obtain out where out: "run_loop (choose_loop options default_index False) (c\<lparr>cs_output := out\<rparr>) = (r, c')"
    using assms by (auto simp: choose_option_def native_simps console_write_def Let_def in_cbreak_loop split: if_splits)
  then have r: "r = fst (choose_loop options default_index False (cs_input c) out)"
    by (auto simp: run_loop_def split: prod.splits)
  from choose_loop_run[of options default_index "cs_input c" False out] obtain s where
    s: "(menu_step (int (length options)))\<^sup>*\<^sup>* (default_index, cs_input c) s" "menu_answer (int (length options)) s r"
    unfolding r by blast
  have "0 \<le> fst s \<and> fst s < int (length options)" using menu_run_range[OF s(1)] True by simp
  with menu_answer_range[OF s(2)] have "case r of Inr i \<Rightarrow> 0 \<le> i \<and> i < int (length options) | Inl e \<Rightarrow> is_value_error e" by simp
  moreover have "cs_mode c' = cs_mode c" using run_loop_mode[OF out] by simp
  ultimately show ?thesis using s in_cbreak_mode by blast
qed

text \<open>
  The access menu returns the policy the cursor is on: ups and downs before the first Enter, counted
  modulo three from \<^verbatim>\<open>always\<close>. Whatever is typed and whatever fails while the answer is stored, the
  terminal's line mode, foreground process group and signal handler are given back.
\<close>

theorem broker_gives_terminal_back:
  assumes "interactive_broker lib t agent_id request c = (r, c')" "tm_setpgrp t (cs_pgrp c) = Inr ()"
  shows "cs_mode c' = cs_mode c \<and> cs_pgrp c' = cs_pgrp c \<and> cs_ttou c' = cs_ttou c
    \<and> (r = Inr (policy_choice (cs_input c))
       \<or> (\<exists>e. r = Inl e \<and> (tm_getpgrp t = Inl e \<or> tm_setpgrp t (tm_own_pgrp t) = Inl e)))"
proof -
  obtain r1 c1 where f: "host_terminal_foreground t (ask_and_apply lib t agent_id request) c = (r1, c1)" by fastforce
  have same: "r = r1" "c' = c1" using assms(1) f
    by (auto simp: interactive_broker_eq native_simps split: sum.splits)
  from foreground_result[OF f _ assms(2)] ask_and_apply_result
  have "cs_mode c1 = cs_mode c \<and> cs_pgrp c1 = cs_pgrp c \<and> cs_ttou c1 = cs_ttou c
    \<and> ((\<exists>c2. cs_input c2 = cs_input c \<and> fst (ask_and_apply lib t agent_id request c2) = r1)
       \<or> (\<exists>e. r1 = Inl e \<and> (tm_getpgrp t = Inl e \<or> tm_setpgrp t (tm_own_pgrp t) = Inl e)))" by blast
  then show ?thesis using ask_and_apply_result same by (metis prod.collapse)
qed

definition demo_console :: "string \<Rightarrow> console" where
  "demo_console inp = \<lparr>cs_input = inp, cs_output = [], cs_mode = Cooked, cs_pgrp = 7, cs_ttou = DefaultHandler, cs_native = []\<rparr>"

definition demo_terminal :: terminal where
  "demo_terminal = \<lparr>tm_fileno = Some 0, tm_isatty = True, tm_own_pgrp = 5, tm_getpgrp = Inr (), tm_setpgrp = (\<lambda>_. Inr ())\<rparr>"

lemma choose_option_answers_witness:
  "\<exists>c'. choose_option demo_terminal ''t'' ''m'' [''a'', ''b'', ''c''] 0 (demo_console (key_up @ [ch_nl])) = (Inr 2, c')
     \<and> cs_mode c' = Cooked"
proof -
  let ?r = "choose_option demo_terminal ''t'' ''m'' [''a'', ''b'', ''c''] 0 (demo_console (key_up @ [ch_nl]))"
  have f: "fst ?r = Inr 2" by code_simp
  obtain r c' where r: "?r = (r, c')" by (cases ?r)
  with f have "r = Inr 2" by simp
  with choose_option_answers[OF r] r show ?thesis by (auto simp: demo_console_def)
qed

lemma broker_gives_terminal_back_witness:
  "\<exists>c'. interactive_broker \<lparr>nl_status = (\<lambda>_ _. 1), nl_text = (\<lambda>_ _. None), nl_admission = (\<lambda>_ _. (1, '''', ''''))\<rparr>
       demo_terminal ''agt-1'' [] (demo_console (''j'' @ [ch_nl])) = (Inr ''never'', c')
     \<and> cs_pgrp c' = 7 \<and> cs_mode c' = Cooked"
proof -
  let ?r = "interactive_broker \<lparr>nl_status = (\<lambda>_ _. 1), nl_text = (\<lambda>_ _. None), nl_admission = (\<lambda>_ _. (1, '''', ''''))\<rparr>
       demo_terminal ''agt-1'' [] (demo_console (''j'' @ [ch_nl]))"
  have p: "policy_choice (''j'' @ [ch_nl]) = ''never''" by code_simp
  have given: "tm_setpgrp demo_terminal (cs_pgrp (demo_console (''j'' @ [ch_nl]))) = Inr ()" by (simp add: demo_terminal_def)
  obtain r c' where r: "?r = (r, c')" by (cases ?r)
  have "tm_getpgrp demo_terminal \<noteq> Inl e" "tm_setpgrp demo_terminal g \<noteq> Inl e" for e g by (simp_all add: demo_terminal_def)
  with broker_gives_terminal_back[OF r given] r p show ?thesis by (auto simp: demo_console_def)
qed

text \<open>
  The end of the input reads like Enter, and the cursor starts on \<^verbatim>\<open>always\<close>: a prompt whose terminal
  has gone away approves the access, and stores that as the policy of the agent.
\<close>

theorem end_of_input_approves:
  assumes "cs_input c = []" "tm_fileno t = None"
    and "access_request_of (request_text request ''kind'') (request_text request ''subject'')
      (request_text request ''method'') (request_text request ''path'') = Inr q"
  shows "fst (interactive_broker lib t agent_id request c) = Inr ''always''
    \<and> cs_native (snd (interactive_broker lib t agent_id request c))
      = cs_native c @ [StatusReply (AccessApplyPolicy (bytes agent_id) q (bytes ''always''))
          (nl_status lib (cs_native c) (AccessApplyPolicy (bytes agent_id) q (bytes ''always'')))]"
proof -
  obtain r c' where a: "ask_and_apply lib t agent_id request c = (r, c')" by fastforce
  have "policy_choice [] = ''always''" by code_simp
  with ask_and_apply_result[OF a] assms(1,3) have "r = Inr ''always''"
    "cs_native c' = cs_native c @ [StatusReply (AccessApplyPolicy (bytes agent_id) q (bytes ''always''))
          (nl_status lib (cs_native c) (AccessApplyPolicy (bytes agent_id) q (bytes ''always'')))]"
    by (simp_all add: apply_access_policy_def native_simps status_call_def Let_def)
  with a assms(2) show ?thesis by (simp add: interactive_broker_eq host_terminal_foreground_def native_simps)
qed

lemma end_of_input_approves_witness:
  "fst (interactive_broker \<lparr>nl_status = (\<lambda>_ _. 0), nl_text = (\<lambda>_ _. None), nl_admission = (\<lambda>_ _. (1, '''', ''''))\<rparr>
      (demo_terminal\<lparr>tm_fileno := None\<rparr>) ''agt-1'' [(''kind'', PStr ''http'')] (demo_console [])) = Inr ''always''"
proof -
  have "map_sum (\<lambda>_. ()) (\<lambda>_. ()) (access_request_of (request_text [(''kind'', PStr ''http'')] ''kind'') (request_text [(''kind'', PStr ''http'')] ''subject'')
      (request_text [(''kind'', PStr ''http'')] ''method'') (request_text [(''kind'', PStr ''http'')] ''path'')) = Inr ()"
    by code_simp
  then obtain q where "access_request_of (request_text [(''kind'', PStr ''http'')] ''kind'') (request_text [(''kind'', PStr ''http'')] ''subject'')
      (request_text [(''kind'', PStr ''http'')] ''method'') (request_text [(''kind'', PStr ''http'')] ''path'') = Inr q"
    by (auto dest: map_sum_InrD)
  from end_of_input_approves[OF _ _ this] show ?thesis by (simp add: demo_console_def)
qed

end
