(* ===== verification/Py_Floats.thy ===== *)
theory Py_Floats
  imports Json_Text
begin

text \<open>
  Python's floats as the sources use them: rounding to the nearest IEEE double (ties to even), the
  operations built on it, their text (\<^verbatim>\<open>repr\<close>, the shortest digits that read back) and the
  format \<^verbatim>\<open>:g\<close>. A value is its exact rational; the sign of a zero is not kept.
\<close>

section \<open>Rounding\<close>

definition round_half_even :: "rat \<Rightarrow> int" where
  "round_half_even x =
     (let n = \<lfloor>x\<rfloor>; d = x - of_int n in
      if d < 1 / 2 then n else if 1 / 2 < d then n + 1 else if even n then n else n + 1)"

text \<open>\<open>pow2 e\<close> is two to the \<open>e\<close>; \<open>binary_exponent x\<close> is the \<open>e\<close> with \<open>pow2 e \<le> x < pow2 (e + 1)\<close>.\<close>

definition pow2 :: "int \<Rightarrow> rat" where
  "pow2 e = (if 0 \<le> e then 2 ^ nat e else 1 / 2 ^ nat (- e))"

fun log2_nat :: "nat \<Rightarrow> nat" where
  "log2_nat n = (if n < 2 then 0 else Suc (log2_nat (n div 2)))"

declare log2_nat.simps [simp del]

definition binary_exponent :: "rat \<Rightarrow> int" where
  "binary_exponent x =
     (if 1 \<le> x then int (log2_nat (nat \<lfloor>x\<rfloor>))
      else (let y = \<lceil>1 / x\<rceil> - 1 in if y = 0 then 0 else - int (Suc (log2_nat (nat y)))))"

text \<open>The nearest number with 53 significant bits, or with the smallest exponent.\<close>

definition double :: "rat \<Rightarrow> rat" where
  "double x =
     (if x = 0 then 0
      else (let u = pow2 (max (binary_exponent \<bar>x\<bar>) (- 1022) - 52);
                a = of_int (round_half_even (\<bar>x\<bar> / u)) * u in if x < 0 then - a else a))"

section \<open>The text of a float\<close>

definition decimal_exponent :: "rat \<Rightarrow> int" where
  "decimal_exponent x =
     (if 1 \<le> x then int (length (show_nat (nat \<lfloor>x\<rfloor>))) - 1
      else (let y = \<lceil>1 / x\<rceil> - 1 in if y = 0 then 0 else - int (length (show_nat (nat y)))))"

definition strip_zeros :: "string \<Rightarrow> string" where
  "strip_zeros s = (if has_char CHR ''.'' s then rstrip_char CHR ''.'' (rstrip_char CHR ''0'' s) else s)"

definition pad_zeros :: "nat \<Rightarrow> string \<Rightarrow> string" where
  "pad_zeros n s = replicate (n - length s) CHR ''0'' @ s"

text \<open>\<open>n\<close> divided by \<open>10 ^ k\<close>, written out.\<close>

definition fixed_text :: "nat \<Rightarrow> nat \<Rightarrow> string" where
  "fixed_text n k = (if k = 0 then show_nat n else show_nat (n div 10 ^ k) @ ''.'' @ pad_zeros k (show_nat (n mod 10 ^ k)))"

text \<open>The \<open>p\<close> significant digits of a positive value, as an integer, and its decimal exponent.\<close>

definition decimal_digits :: "nat \<Rightarrow> rat \<Rightarrow> nat \<times> int" where
  "decimal_digits p a =
     (let e = decimal_exponent a; n = round_half_even (a * pow10 (int p - 1 - e)) in
      if n = 10 ^ p then (10 ^ (p - 1), e + 1) else (nat n, e))"

definition exponent_text :: "int \<Rightarrow> string" where
  "exponent_text e = ''e'' @ (if e < 0 then ''-'' else ''+'') @ pad_zeros 2 (show_nat (nat \<bar>e\<bar>))"

text \<open>\<^verbatim>\<open>f"{x:g}"\<close>: six significant digits, no trailing zeros, an exponent below -4 and above 5.\<close>

definition format_g :: "rat \<Rightarrow> string" where
  "format_g x =
     (if x = 0 then ''0''
      else (let (n, e) = decimal_digits 6 \<bar>x\<bar> in
        (if x < 0 then ''-'' else '''') @
        (if -4 \<le> e \<and> e < 6 then strip_zeros (fixed_text n (nat (5 - e)))
         else strip_zeros (fixed_text n 5) @ exponent_text e)))"

text \<open>
  \<^verbatim>\<open>repr\<close> of a double: the fewest digits that read back as the same double, at most 17, written with an
  exponent below -4 and above 15. At a power of two the doubles above lie wider than those below, so that
  the digits above the value can read back when the nearest ones do not.
\<close>

fun shortest_digits :: "nat list \<Rightarrow> rat \<Rightarrow> nat \<times> nat \<times> int" where
  "shortest_digits [] a = (case decimal_digits 17 a of (n, e) \<Rightarrow> (17, n, e))"
| "shortest_digits (p # ps) a =
     (case decimal_digits p a of (n, e) \<Rightarrow>
        if double (of_nat n * pow10 (e - (int p - 1))) = a then (p, n, e)
        else if double (of_nat (n + 1) * pow10 (e - (int p - 1))) = a then (p, n + 1, e)
        else shortest_digits ps a)"

definition repr_double :: "rat \<Rightarrow> string" where
  "repr_double x =
     (if x = 0 then ''0.0''
      else (let (p, n, e) = shortest_digits [1..<17] \<bar>x\<bar> in
        (if x < 0 then ''-'' else '''') @
        (if -4 \<le> e \<and> e < 16 then
           (if int p - 1 \<le> e then show_nat n @ replicate (nat (e - (int p - 1))) CHR ''0'' @ ''.0''
            else fixed_text n (nat (int p - 1 - e)))
         else fixed_text n (p - 1) @ exponent_text e)))"

section \<open>Operations\<close>

definition to_float :: "rat \<Rightarrow> pyfloat" where
  "to_float x = (if double_bound \<le> x then PosInf else if x \<le> - double_bound then NegInf
     else Finite (double x) (repr_double (double x)))"

text \<open>\<^verbatim>\<open>f * n\<close> for a positive \<open>n\<close>, \<^verbatim>\<open>f + g\<close>, \<^verbatim>\<open>round(f, 1)\<close>. A float that was read is the double of its digits.\<close>

fun float_times :: "pyfloat \<Rightarrow> rat \<Rightarrow> pyfloat" where
  "float_times (Finite q _) n = to_float (double q * n)"
| "float_times f n = f"

fun float_plus :: "pyfloat \<Rightarrow> pyfloat \<Rightarrow> pyfloat" where
  "float_plus (Finite a _) (Finite b _) = to_float (double a + double b)"
| "float_plus (Finite _ _) g = g"
| "float_plus f (Finite _ _) = f"
| "float_plus PosInf PosInf = PosInf"
| "float_plus NegInf NegInf = NegInf"
| "float_plus _ _ = NotANumber"

fun float_round1 :: "pyfloat \<Rightarrow> pyfloat" where
  "float_round1 (Finite q _) = to_float (of_int (round_half_even (double q * 10)) / 10)"
| "float_round1 f = f"

section \<open>Laws of rounding\<close>

lemma round_half_even_near: "\<bar>of_int (round_half_even x) - x\<bar> \<le> 1 / 2"
  using floor_correct[of x] unfolding round_half_even_def Let_def by (auto simp: abs_le_iff)

lemma round_half_even_int [simp]: "round_half_even (of_int n) = n"
  by (simp add: round_half_even_def)

lemma round_half_even_le:
  assumes "x \<le> of_int n + 1 / 2 - d" "0 < d" shows "round_half_even x \<le> n"
proof -
  have "of_int (round_half_even x) \<le> x + 1 / 2" using round_half_even_near[of x] unfolding abs_le_iff by linarith
  also have "\<dots> < of_int n + 1" using assms by simp
  finally have "(of_int (round_half_even x) :: rat) < of_int (n + 1)" by simp
  then show ?thesis by linarith
qed

lemma round_half_even_nonneg: "0 \<le> x \<Longrightarrow> 0 \<le> round_half_even x"
  using floor_mono[of 0 x] by (auto simp: round_half_even_def Let_def)

lemma pow2_pos [simp]: "0 < pow2 e"
  by (simp add: pow2_def)

lemma pow2_Suc: "pow2 (e + 1) = 2 * pow2 e"
proof (cases "0 \<le> e")
  case True
  then have "nat (e + 1) = Suc (nat e)" by simp
  with True show ?thesis by (simp add: pow2_def)
next
  case False
  then obtain k where "nat (- e) = Suc k" "nat (- (e + 1)) = k" by (cases "nat (- e)") (auto simp: nat_diff_distrib')
  with False show ?thesis by (auto simp: pow2_def)
qed

lemma pow2_minus: "pow2 (e - int n) * 2 ^ n = pow2 e"
proof (induction n)
  case (Suc n)
  have "pow2 (e - int n) = 2 * pow2 (e - int (Suc n))" using pow2_Suc[of "e - int (Suc n)"] by simp
  with Suc show ?case by simp
qed simp

lemma log2_nat_bounds: "0 < n \<Longrightarrow> 2 ^ log2_nat n \<le> n \<and> n < 2 ^ Suc (log2_nat n)"
proof (induction n rule: log2_nat.induct)
  case (1 n)
  then show ?case
  proof (cases "n < 2")
    case False
    with 1 have "2 ^ log2_nat (n div 2) \<le> n div 2 \<and> n div 2 < 2 ^ Suc (log2_nat (n div 2))" by simp
    then have "2 * 2 ^ log2_nat (n div 2) \<le> n" "n < 2 * 2 ^ Suc (log2_nat (n div 2))" by linarith+
    with False show ?thesis by (simp add: log2_nat.simps[of n])
  qed (simp add: log2_nat.simps)
qed

lemma log2_nat_rat:
  assumes "0 < n" shows "(2 :: rat) ^ log2_nat n \<le> of_nat n" "of_nat n + 1 \<le> (2 :: rat) ^ Suc (log2_nat n)"
proof -
  have "2 ^ log2_nat n \<le> n" "Suc n \<le> 2 ^ Suc (log2_nat n)" using log2_nat_bounds[OF assms] by auto
  then have "of_nat (2 ^ log2_nat n) \<le> (of_nat n :: rat)" "of_nat (Suc n) \<le> (of_nat (2 ^ Suc (log2_nat n)) :: rat)"
    by (simp_all only: of_nat_le_iff)
  then show "(2 :: rat) ^ log2_nat n \<le> of_nat n" "of_nat n + 1 \<le> (2 :: rat) ^ Suc (log2_nat n)" by (simp_all add: add.commute)
qed

lemma binary_exponent_bounds:
  assumes "0 < x" shows "pow2 (binary_exponent x) \<le> x \<and> x < pow2 (binary_exponent x + 1)"
proof (cases "1 \<le> x")
  case True
  then have "0 < nat \<lfloor>x\<rfloor>" by simp
  note b = log2_nat_rat[OF this]
  have n: "(of_nat (nat \<lfloor>x\<rfloor>) :: rat) = of_int \<lfloor>x\<rfloor>" using True by simp
  have e: "binary_exponent x = int (log2_nat (nat \<lfloor>x\<rfloor>))" using True by (simp add: binary_exponent_def)
  have "pow2 (binary_exponent x) \<le> of_int \<lfloor>x\<rfloor>" "of_int \<lfloor>x\<rfloor> + 1 \<le> pow2 (binary_exponent x + 1)"
    using b unfolding e n pow2_Suc by (simp_all add: pow2_def)
  then show ?thesis using floor_correct[of x] by linarith
next
  case False
  define y where "y = \<lceil>1 / x\<rceil> - 1"
  have c: "of_int y < 1 / x" "1 / x \<le> of_int y + 1" unfolding y_def using ceiling_correct[of "1 / x"] by simp_all
  have "1 < 1 / x" using False assms by simp
  then have y: "0 < y" using c by linarith
  then have "0 < nat y" by simp
  define k where "k = log2_nat (nat y)"
  note b = log2_nat_rat[OF \<open>0 < nat y\<close>, folded k_def]
  have n: "(of_nat (nat y) :: rat) = of_int y" using y by simp
  have up: "2 ^ k < 1 / x" and low: "1 / x \<le> 2 ^ Suc k" using b c unfolding n by linarith+
  have e: "binary_exponent x = - int (Suc k)"
    using False y unfolding binary_exponent_def y_def[symmetric] k_def by (simp add: Let_def)
  have p: "pow2 (binary_exponent x) = 1 / 2 ^ Suc k" "pow2 (binary_exponent x + 1) = 1 / 2 ^ k"
    unfolding pow2_Suc by (simp_all add: e pow2_def nat_add_distrib)
  show ?thesis unfolding p using up low assms by (simp add: field_simps)
qed

text \<open>Rounding is within half a unit of the last of 53 bits; above the smallest normal double that is relative.\<close>

definition half_ulp :: rat where "half_ulp = 1 / 2 ^ 53"

definition unit_of :: "rat \<Rightarrow> rat" where "unit_of x = pow2 (max (binary_exponent \<bar>x\<bar>) (- 1022) - 52)"

lemma double_half_unit: "\<bar>double x - x\<bar> \<le> unit_of x / 2"
proof (cases "x = 0")
  case False
  define u where "u = unit_of x"
  have u0: "0 < u" unfolding u_def unit_of_def by simp
  have d: "double x = (if x < 0 then - 1 else 1) * (of_int (round_half_even (\<bar>x\<bar> / u)) * u)"
    using False unfolding double_def u_def unit_of_def Let_def by simp
  have "\<bar>double x - x\<bar> = \<bar>of_int (round_half_even (\<bar>x\<bar> / u)) * u - \<bar>x\<bar>\<bar>"
  proof (cases "x < 0")
    case True
    then have "double x - x = - (of_int (round_half_even (\<bar>x\<bar> / u)) * u - \<bar>x\<bar>)" unfolding d by simp
    then show ?thesis by (simp only: abs_minus_cancel)
  qed (simp add: d)
  also have "\<dots> = \<bar>of_int (round_half_even (\<bar>x\<bar> / u)) - \<bar>x\<bar> / u\<bar> * u"
    using u0 abs_mult[of "of_int (round_half_even (\<bar>x\<bar> / u)) - \<bar>x\<bar> / u" u] by (simp add: left_diff_distrib)
  also have "\<dots> \<le> 1 / 2 * u" using mult_right_mono[OF round_half_even_near, of u "\<bar>x\<bar> / u"] u0 by simp
  finally show ?thesis by (simp add: u_def)
qed (simp add: double_def unit_of_def less_imp_le)

lemma unit_of_le:
  assumes "x \<noteq> 0" "\<bar>x\<bar> \<le> b" "pow2 (- 1022) \<le> b" shows "unit_of x * 2 ^ 52 \<le> b"
proof (cases "binary_exponent \<bar>x\<bar> \<le> - 1022")
  case True
  then show ?thesis using assms(3) pow2_minus[of "- 1022" 52] by (simp add: unit_of_def max_def)
next
  case False
  then have "pow2 (binary_exponent \<bar>x\<bar>) \<le> b" using binary_exponent_bounds[of "\<bar>x\<bar>"] assms(1,2) by simp
  then show ?thesis using False pow2_minus[of "binary_exponent \<bar>x\<bar>" 52] by (simp add: unit_of_def max_def)
qed

lemma double_error:
  assumes "pow2 (- 1022) \<le> \<bar>x\<bar>" shows "\<bar>double x - x\<bar> \<le> half_ulp * \<bar>x\<bar>"
proof -
  have "unit_of x * 2 ^ 52 \<le> \<bar>x\<bar>" using assms pow2_pos[of "- 1022"] by (intro unit_of_le) (auto simp del: pow2_pos)
  then show ?thesis using double_half_unit[of x] unfolding half_ulp_def by simp
qed

lemma double_abs_error:
  assumes "\<bar>x\<bar> \<le> 2 ^ 10" shows "\<bar>double x - x\<bar> \<le> 1 / 2 ^ 40"
proof (cases "x = 0")
  case False
  have "unit_of x * 2 ^ 52 \<le> 2 ^ 10" using False assms by (intro unit_of_le) (auto simp: pow2_def)
  then show ?thesis using double_half_unit[of x] by simp
qed (simp add: double_def)

lemma double_nonneg: "0 \<le> x \<Longrightarrow> 0 \<le> double x"
  by (auto simp: double_def Let_def intro!: mult_nonneg_nonneg round_half_even_nonneg divide_nonneg_nonneg less_imp_le[OF pow2_pos])

definition in_range :: "rat \<Rightarrow> rat \<Rightarrow> rat \<Rightarrow> bool" where
  "in_range a b x \<longleftrightarrow> x = 0 \<or> a \<le> x \<and> x \<le> b"

lemma in_range_times: "in_range a b x \<Longrightarrow> 0 < c \<Longrightarrow> in_range (a * c) (b * c) (x * c)"
  by (auto simp: in_range_def)

lemma in_range_mono: "in_range a b x \<Longrightarrow> a' \<le> a \<Longrightarrow> b \<le> b' \<Longrightarrow> in_range a' b' x"
  by (auto simp: in_range_def)

text \<open>What a rounding promises its users: a relative error, from a smallest magnitude on.\<close>

locale rounding =
  fixes fl :: "rat \<Rightarrow> rat" and unit_error smallest :: rat
  assumes relative: "smallest \<le> \<bar>x\<bar> \<Longrightarrow> \<bar>fl x - x\<bar> \<le> unit_error * \<bar>x\<bar>"
    and zero: "fl 0 = 0"
    and unit_small: "0 \<le> unit_error" "unit_error \<le> 1 / 2"
begin

lemma bounds:
  assumes "smallest \<le> x" "0 \<le> x" shows "(1 - unit_error) * x \<le> fl x" "fl x \<le> (1 + unit_error) * x"
  using relative[of x] assms unfolding abs_le_iff by (simp_all add: algebra_simps)

text \<open>A value that is zero or between two bounds, and what a rounding makes of the bounds.\<close>

lemma in_range_fl:
  assumes "in_range a b x" "smallest \<le> a" "0 < a" shows "in_range (a / 2) ((1 + unit_error) * b) (fl x)"
proof (cases "x = 0")
  case False
  with assms have x: "a \<le> x" "x \<le> b" "smallest \<le> x" "0 \<le> x" by (auto simp: in_range_def)
  have "1 / 2 * a \<le> (1 - unit_error) * x" using unit_small assms(3) x by (intro mult_mono) auto
  moreover have "(1 + unit_error) * x \<le> (1 + unit_error) * b" using unit_small x by (intro mult_left_mono) auto
  ultimately show ?thesis using bounds[OF x(3,4)] by (auto simp: in_range_def)
qed (simp add: zero in_range_def)

end

interpretation doubles: rounding double half_ulp "pow2 (- 1022)"
  proof (unfold_locales, goal_cases)
  case (1 x)
  then show ?case by (rule double_error)
qed (simp_all add: double_def half_ulp_def)

text \<open>Whole numbers below two to the 53rd are doubles.\<close>

lemma double_of_int:
  assumes "\<bar>n\<bar> < 2 ^ 53" shows "double (of_int n) = of_int n"
proof (cases "n = 0")
  case False
  define e where "e = binary_exponent \<bar>of_int n\<bar>"
  have b: "pow2 e \<le> \<bar>of_int n\<bar>" "\<bar>of_int n\<bar> < pow2 (e + 1)"
    unfolding e_def using binary_exponent_bounds[of "\<bar>of_int n\<bar>"] False by auto
  have "1 \<le> \<bar>n\<bar>" using False by linarith
  then have "(1 :: rat) \<le> \<bar>of_int n\<bar>" by (simp flip: of_int_abs)
  then have "0 \<le> e" unfolding e_def binary_exponent_def by simp
  moreover have "e \<le> 52"
  proof (rule ccontr)
    assume "\<not> e \<le> 52"
    then have "(2 :: rat) ^ 53 \<le> 2 ^ nat e" by (intro power_increasing) auto
    also have "\<dots> \<le> of_int \<bar>n\<bar>" using b(1) \<open>0 \<le> e\<close> by (simp add: pow2_def)
    finally have "(of_int (2 ^ 53) :: rat) \<le> of_int \<bar>n\<bar>" by simp
    then have "(2 :: int) ^ 53 \<le> \<bar>n\<bar>" by (simp only: of_int_le_iff)
    with assms show False by simp
  qed
  ultimately obtain k where k: "pow2 (max e (- 1022) - 52) = 1 / 2 ^ k" "k \<le> 52"
    by (intro that[of "nat (52 - e)"]) (auto simp: pow2_def max_def)
  have "\<bar>of_int n\<bar> / (1 / 2 ^ k) = (of_int (\<bar>n\<bar> * 2 ^ k) :: rat)" by simp
  then have "round_half_even (\<bar>of_int n\<bar> / (1 / 2 ^ k)) = \<bar>n\<bar> * 2 ^ k" by (simp only: round_half_even_int)
  then show ?thesis using False unfolding double_def Let_def e_def[symmetric] k(1) by (cases "n < 0") simp_all
qed (simp add: double_def)

lemma double_within:
  assumes "in_range a b x" "1 / 2 ^ 1000 \<le> a" shows "in_range (a / 2) ((1 + half_ulp) * b) (double x)"
proof -
  have "pow2 (- 1022) \<le> (1 / 2 ^ 1000 :: rat)" by (simp add: pow2_def)
  moreover have "(0 :: rat) < 1 / 2 ^ 1000" by simp
  ultimately have "pow2 (- 1022) \<le> a" "0 < a" using assms(2) by linarith+
  with assms(1) show ?thesis by (rule doubles.in_range_fl)
qed

lemma to_float_within: "in_range a b x \<Longrightarrow> 0 < a \<Longrightarrow> b \<le> 2 ^ 60 \<Longrightarrow> to_float x = Finite (double x) (repr_double (double x))"
proof -
  assume "in_range a b x" "0 < a" "b \<le> 2 ^ 60"
  then have "0 \<le> x" "x \<le> 2 ^ 60" by (auto simp: in_range_def)
  moreover have "(2 :: rat) ^ 60 < double_bound" by (simp add: double_bound_def)
  ultimately show ?thesis by (simp add: to_float_def)
qed

end
