(* ===== verification/App_Models.thy ===== *)
theory App_Models
  imports Agent_Records Inference_Config Model_Registry Interactive_Menu Native_Hardware Py_Floats
begin

text \<open>
  \<^verbatim>\<open>bubblehub/app/models.py\<close>: the overview of models, choosing one for a specialty, and the set-up of the
  base model, with the user's configuration file on the disk. Reading and writing YAML is a parameter;
  the entries it gives for \<^verbatim>\<open>models:\<close> and the hardware are parameters too.
\<close>

section \<open>The user's configuration file\<close>

record yaml =
  ym_load :: "string \<Rightarrow> pyval result"
  ym_dump :: "pyval \<Rightarrow> string"

record app_params =
  ap_yaml :: yaml
  ap_bundled :: config
  ap_models :: "pyval \<Rightarrow> model_kwargs list result"
  ap_hardware :: "hardware_info result"
  ap_number :: "rat \<Rightarrow> pyval"

definition user_models_config_path :: "os_view \<Rightarrow> path" where
  "user_models_config_path v =
     path_sub (path_sub (path_sub (os_home v ''~'') ''.config'') ''bubblehub'') ''models.yaml''"

definition read_user_models_config :: "app_params \<Rightarrow> os_view \<Rightarrow> pydict result" where
  "read_user_models_config ap v =
     (let p = user_models_config_path v in
      if \<not> os_exists v p then Inr []
      else bindr (os_read_text v p) (\<lambda>t. bindr (ym_load (ap_yaml ap) t) (\<lambda>data.
        Inr (case data of PDict d \<Rightarrow> d | _ \<Rightarrow> []))))"

definition dpop :: "string \<Rightarrow> pydict \<Rightarrow> pydict" where
  "dpop k d = filter (\<lambda>kv. fst kv \<noteq> k) d"

definition pinned_entry :: "string \<Rightarrow> string \<Rightarrow> pydict \<Rightarrow> pydict" where
  "pinned_entry model_name capability current =
     dpop ''min_context_tokens'' (dpop ''flavor'' (dput ''model'' (PStr model_name) (dput ''capability'' (PStr capability) current)))"

definition pinned_config :: "string \<Rightarrow> string \<Rightarrow> string \<Rightarrow> pydict \<Rightarrow> pydict result" where
  "pinned_config speciality model_name capability data =
     bindr (py_dict (dget_or data ''specialties'' (PDict []))) (\<lambda>specialties.
     bindr (py_dict (dget_or specialties speciality (PDict []))) (\<lambda>current.
       Inr (dput ''specialties'' (PDict (dput speciality (PDict (pinned_entry model_name capability current)) specialties)) data)))"

definition write_speciality_model_override :: "app_params \<Rightarrow> string \<Rightarrow> string \<Rightarrow> string \<Rightarrow> unit hosted" where
  "write_speciality_model_override ap speciality model_name capability v =
     (let p = user_models_config_path v in
      bindn (fs_change (\<lambda>fs cwd. make_dirs fs cwd (path_parent p))) (\<lambda>_.
      bindn (asks (read_user_models_config ap)) (\<lambda>data.
      bindn (liftn (pinned_config speciality model_name capability data)) (\<lambda>data.
        os_write_text p (ym_dump (ap_yaml ap) (PDict data))))) v)"

definition user_chose_base_model :: "app_params \<Rightarrow> string \<Rightarrow> os_view \<Rightarrow> bool result" where
  "user_chose_base_model ap speciality v =
     bindr (read_user_models_config ap v) (\<lambda>config.
       Inr (case dget_or config ''specialties'' (PDict []) of
           PDict specialties \<Rightarrow>
             (case dget_or specialties speciality (PDict []) of
                PDict entry \<Rightarrow> (case dget entry ''model'' of PStr m \<Rightarrow> strip m \<noteq> [] | _ \<Rightarrow> False)
              | _ \<Rightarrow> False)
         | _ \<Rightarrow> False))"

definition needs_base_model_setup :: "app_params \<Rightarrow> string \<Rightarrow> os_view \<Rightarrow> bool result" where
  "needs_base_model_setup ap speciality v = bindr (user_chose_base_model ap speciality v) (\<lambda>chose. Inr (\<not> chose))"

section \<open>The registry on the disk\<close>

text \<open>
  The typed reading of a configuration file: an entry of \<^verbatim>\<open>specialties:\<close> is the keyword arguments of
  \<^verbatim>\<open>Specialty\<close>, so that an unknown or a missing name is a TypeError; values are taken at their
  annotated types.
\<close>

fun opt_text :: "pyval \<Rightarrow> string option result" where
  "opt_text PNone = Inr None"
| "opt_text (PStr s) = Inr (Some s)"
| "opt_text _ = Inl (TypeError ''expected text'')"

fun opt_int :: "pyval \<Rightarrow> int option result" where
  "opt_int PNone = Inr None"
| "opt_int (PInt n) = Inr (Some n)"
| "opt_int _ = Inl (TypeError ''expected an integer'')"

definition specialty_fields :: "string list" where
  "specialty_fields = [''capability'', ''flavor'', ''lora'', ''min_context_tokens'', ''model'']"

definition specialty_entry :: "pyval \<Rightarrow> specialty_kwargs result" where
  "specialty_entry x =
     (case x of
        PDict d \<Rightarrow>
          if \<not> list_all (\<lambda>kv. fst kv \<in> set specialty_fields) d then Inl (TypeError ''Specialty got an unexpected keyword argument'')
          else (case dget d ''capability'' of
              PStr capability \<Rightarrow>
                bindr (opt_text (dget d ''flavor'')) (\<lambda>flavor. bindr (opt_text (dget d ''lora'')) (\<lambda>lora.
                bindr (opt_int (dget d ''min_context_tokens'')) (\<lambda>tokens. bindr (opt_text (dget d ''model'')) (\<lambda>model.
                  Inr \<lparr>sk_capability = capability, sk_flavor = flavor, sk_lora = lora, sk_min_context_tokens = tokens, sk_model = model\<rparr>))))
            | _ \<Rightarrow> Inl (TypeError ''Specialty is missing the argument capability''))
      | _ \<Rightarrow> Inl (TypeError ''argument after ** must be a mapping''))"

definition specialty_entries :: "pydict \<Rightarrow> (string \<times> specialty_kwargs) list result" where
  "specialty_entries d = mapr (\<lambda>(name, x). bindr (specialty_entry x) (\<lambda>k. Inr (name, k))) d"

definition typed_config :: "app_params \<Rightarrow> pyval \<Rightarrow> config option result" where
  "typed_config ap y =
     (if \<not> truthy y then Inr None
      else (case y of
          PDict d \<Rightarrow>
            bindr (case map_of d ''models'' of None \<Rightarrow> Inr None | Some x \<Rightarrow> bindr (ap_models ap x) (\<lambda>ms. Inr (Some ms))) (\<lambda>models.
            bindr (case map_of d ''specialties'' of None \<Rightarrow> Inr None
                   | Some (PDict sps) \<Rightarrow> bindr (specialty_entries sps) (\<lambda>es. Inr (Some es))
                   | Some _ \<Rightarrow> Inl (TypeError ''specialties is not a mapping'')) (\<lambda>specialties.
              Inr (Some \<lparr>cfg_models = models, cfg_specialties = specialties, cfg_other = d\<rparr>)))
        | _ \<Rightarrow> Inl (TypeError ''configuration is not a mapping'')))"

definition read_config :: "app_params \<Rightarrow> os_view \<Rightarrow> path \<Rightarrow> config option result" where
  "read_config ap v p = bindr (os_read_text v p) (\<lambda>t. bindr (ym_load (ap_yaml ap) t) (typed_config ap))"

text \<open>\<^verbatim>\<open>ModelRegistry.load_default\<close> with the files where they are.\<close>

definition load_registry :: "app_params \<Rightarrow> os_view \<Rightarrow> registry result" where
  "load_registry ap v =
     bindr (if os_exists v (user_models_config_path v)
            then bindr (read_config ap v (user_models_config_path v)) (\<lambda>c. Inr (Some c)) else Inr None) (\<lambda>user.
     bindr (case env_nonempty (os_environ v) ''BUBBLEHUB_MODELS_CONFIG'' of
              None \<Rightarrow> Inr None
            | Some f \<Rightarrow> bindr (read_config ap v (expanduser (os_home v) (path_of f))) (\<lambda>c. Inr (Some c))) (\<lambda>explicit.
       Inr (load_default (ap_bundled ap) user explicit)))"

section \<open>Choosing a model\<close>

definition machine_args :: "hardware_info \<Rightarrow> string option \<Rightarrow> resolve_args" where
  "machine_args hw capability =
     \<lparr>ra_tier_order = mt_order (select_tier (hw_ram_bytes hw) (hw_vram_bytes hw)), ra_flavor = None, ra_capability = capability,
      ra_max_ram_gb = Some (gib (hw_ram_bytes hw)), ra_max_vram_gb = Some (gib (hw_vram_bytes hw)),
      ra_supported = Some (hw_gpu_backends hw)\<rparr>"

definition selected_model_name :: "registry \<Rightarrow> string \<Rightarrow> hardware_info \<Rightarrow> string option result" where
  "selected_model_name reg speciality hw =
     (case resolve_specialty reg speciality (machine_args hw None) of
        Inr m \<Rightarrow> Inr (Some (ms_name m))
      | Inl (KeyError _) \<Rightarrow> Inr None
      | Inl e \<Rightarrow> Inl e)"

definition resolve_setup_candidates :: "registry \<Rightarrow> string \<Rightarrow> hardware_info \<Rightarrow> model_spec list result" where
  "resolve_setup_candidates reg speciality hw =
     (case map_of (reg_specialties reg) speciality of
        None \<Rightarrow> Inl (ValueError (''unknown specialty: '' @ speciality))
      | Some sp \<Rightarrow> resolve_candidates reg speciality (machine_args hw (Some (sp_capability sp))))"

definition selection_reply :: "os_view \<Rightarrow> string \<Rightarrow> string \<Rightarrow> pydict" where
  "selection_reply v speciality model_name =
     [(''speciality'', PStr speciality), (''specialty'', PStr speciality), (''selected_model'', PStr model_name),
      (''config_path'', PStr (path_str (user_models_config_path v)))]"

definition select_model_for_speciality :: "app_params \<Rightarrow> string \<Rightarrow> string \<Rightarrow> pydict hosted" where
  "select_model_for_speciality ap speciality model_name =
     bindn (asks (load_registry ap)) (\<lambda>reg.
       case filter (\<lambda>m. ms_name m = model_name) (reg_models reg) of
         [] \<Rightarrow> raisen (ValueError (''unknown model: '' @ model_name))
       | m # _ \<Rightarrow>
           (case map_of (reg_specialties reg) speciality of
              None \<Rightarrow> raisen (ValueError (''unknown specialty: '' @ speciality))
            | Some sp \<Rightarrow>
                if ms_capability m \<noteq> sp_capability sp then
                  raisen (ValueError (''model '' @ model_name @ '' does not match specialty capability '' @ sp_capability sp))
                else bindn (write_speciality_model_override ap speciality (ms_name m) (ms_capability m)) (\<lambda>_.
                  asks (\<lambda>v. Inr (selection_reply v speciality (ms_name m))))))"

section \<open>The overview\<close>

definition opt_py_int :: "int option \<Rightarrow> pyval" where "opt_py_int x = (case x of None \<Rightarrow> PNone | Some n \<Rightarrow> PInt n)"

definition model_payload :: "app_params \<Rightarrow> string option \<Rightarrow> model_spec \<Rightarrow> pyval" where
  "model_payload ap selected m = PDict
     [(''name'', PStr (ms_name m)), (''flavor'', PStr (ms_flavor m)), (''capability'', PStr (ms_capability m)),
      (''tier'', PStr (ms_tier m)), (''backend'', PStr (ms_backend m)), (''repo_id'', PStr (ms_repo_id m)),
      (''filename'', py_text (ms_filename m)), (''ram_gb'', ap_number ap (ms_ram_gb m)), (''vram_gb'', ap_number ap (ms_vram_gb m)),
      (''context_tokens'', PInt (ms_context_tokens m)), (''placement'', PStr (ms_placement m)),
      (''gpu_backends'', PList (map PStr (ms_gpu_backends m))), (''gpu_layers'', opt_py_int (ms_gpu_layers m)),
      (''selected'', PBool (Some (ms_name m) = selected))]"

definition specialty_payload :: "specialty \<Rightarrow> pyval" where
  "specialty_payload sp = PDict
     [(''name'', PStr (sp_name sp)), (''capability'', PStr (sp_capability sp)), (''flavor'', py_text (sp_flavor sp)),
      (''lora'', py_text (sp_lora sp)), (''min_context_tokens'', opt_py_int (sp_min_context_tokens sp)), (''model'', py_text (sp_model sp))]"

definition hardware_payload :: "hardware_info \<Rightarrow> pyval" where
  "hardware_payload hw = PDict
     [(''ram_bytes'', PInt (hw_ram_bytes hw)), (''vram_bytes'', PInt (hw_vram_bytes hw)), (''free_vram_bytes'', PInt (hw_free_vram_bytes hw)),
      (''gpu_vendor'', PStr (hw_gpu_vendor hw)), (''gpu_name'', PStr (hw_gpu_name hw)), (''gpu_backend'', PStr (hw_gpu_backend hw)),
      (''gpu_backends'', PList (map PStr (hw_gpu_backends hw))), (''gpu_compute_capability'', PStr (hw_gpu_compute hw)),
      (''gpu_device'', PStr (hw_gpu_device hw))]"

definition models_overview :: "app_params \<Rightarrow> string \<Rightarrow> os_view \<Rightarrow> pydict result" where
  "models_overview ap speciality v =
     bindr (load_registry ap v) (\<lambda>reg. bindr (ap_hardware ap) (\<lambda>hw.
     let tier = select_tier (hw_ram_bytes hw) (hw_vram_bytes hw) in
     bindr (selected_model_name reg speciality hw) (\<lambda>selected.
     bindr (needs_base_model_setup ap speciality v) (\<lambda>needs_setup.
     bindr (if needs_setup then resolve_setup_candidates reg speciality hw else Inr []) (\<lambda>candidates.
       Inr [(''speciality'', PStr speciality), (''specialty'', PStr speciality),
         (''tier'', PDict [(''name'', PStr (mt_name tier)), (''order'', PList (map PStr (mt_order tier)))]),
         (''hardware'', hardware_payload hw), (''selected_model'', py_text selected), (''needs_setup'', PBool needs_setup),
         (''setup_candidates'', PList (map (model_payload ap selected) candidates)),
         (''models'', PList (map (model_payload ap selected) (reg_models reg))),
         (''specialties'', PDict (map (\<lambda>(n, sp). (n, specialty_payload sp)) (sort_key fst (reg_specialties reg)))),
         (''config_path'', PStr (path_str (user_models_config_path v)))])))))"

section \<open>Setting up the base model\<close>

definition model_summary :: "model_spec \<Rightarrow> string" where
  "model_summary m =
     ms_name m @ '' ('' @ ms_flavor m @ '', '' @ ms_backend m @ '', '' @ ms_tier m @ '', RAM '' @ format_g (ms_ram_gb m)
     @ ''G, VRAM '' @ format_g (ms_vram_gb m) @ ''G, ctx '' @ show_int (ms_context_tokens m) @ '')''"

definition model_option_label :: "model_spec \<Rightarrow> string option \<Rightarrow> string" where
  "model_option_label m recommended =
     model_summary m @ (if Some (ms_name m) = recommended then '' (recommended)'' else '''')"

record setup_state =
  su_os :: os_view
  su_console :: console

definition su_on_os :: "'a hosted \<Rightarrow> (setup_state, 'a) prog" where
  "su_on_os m s = (case m (su_os s) of (r, v) \<Rightarrow> (r, s\<lparr>su_os := v\<rparr>))"

definition su_on_console :: "(console, 'a) prog \<Rightarrow> (setup_state, 'a) prog" where
  "su_on_console m s = (case m (su_console s) of (r, c) \<Rightarrow> (r, s\<lparr>su_console := c\<rparr>))"

fun index_of :: "string option \<Rightarrow> model_spec list \<Rightarrow> int" where
  "index_of recommended [] = 0"
| "index_of recommended (m # ms) =
     (if Some (ms_name m) = recommended then 0
      else if list_ex (\<lambda>m. Some (ms_name m) = recommended) ms then 1 + index_of recommended ms else 0)"

text \<open>The labels are made with the name of the model itself as the recommended one, as the source does.\<close>

definition setup_options :: "model_spec list \<Rightarrow> string list" where
  "setup_options candidates = map (\<lambda>m. model_option_label m (Some (ms_name m))) candidates"

definition prompt_base_model_setup :: "app_params \<Rightarrow> terminal \<Rightarrow> string \<Rightarrow> (setup_state, string) prog" where
  "prompt_base_model_setup ap t speciality =
     bindn (su_on_os (asks (load_registry ap))) (\<lambda>reg.
     bindn (liftn (ap_hardware ap)) (\<lambda>hw.
     bindn (liftn (selected_model_name reg speciality hw)) (\<lambda>recommended.
     bindn (liftn (resolve_setup_candidates reg speciality hw)) (\<lambda>candidates.
       if candidates = [] then raisen (ValueError ''no models fit the current machine for base model setup'')
       else
         bindn (su_on_console (choose_option t ''BubbleHub base model''
             (''Choose the default model for '' @ speciality @ ''.'' @ [ch_nl]
               @ ''BubbleHub will use this as your base instruct model on this machine.'')
             (setup_options candidates) (index_of recommended candidates))) (\<lambda>choice.
         let m = candidates ! nat choice in
         bindn (su_on_os (write_speciality_model_override ap speciality (ms_name m) (ms_capability m))) (\<lambda>_.
         bindn (su_on_os (asks (\<lambda>v. Inr (path_str (user_models_config_path v))))) (\<lambda>shown.
         bindn (su_on_console (console_write (''Saved '' @ speciality @ '' -> '' @ ms_name m @ '' in '' @ shown @ [ch_nl]))) (\<lambda>_.
           returnn (ms_name m)))))))))"

definition run_install_base_model_setup :: "app_params \<Rightarrow> terminal \<Rightarrow> bool \<Rightarrow> string \<Rightarrow> (setup_state, bool) prog" where
  "run_install_base_model_setup ap t output_isatty speciality =
     bindn (su_on_os (asks (needs_base_model_setup ap speciality))) (\<lambda>needed.
       if \<not> needed then returnn True
       else
         bindn (su_on_os (asks (\<lambda>v. Inr (os_environ v)))) (\<lambda>e.
         let explicit = strip (env_get e ''BUBBLEHUB_BASE_MODEL'' '''') in
         if explicit \<noteq> [] then bindn (su_on_os (select_model_for_speciality ap speciality explicit)) (\<lambda>_. returnn True)
         else if strip (env_get e ''BUBBLEHUB_SKIP_MODEL_SETUP'' '''') = ''1'' then returnn False
         else if \<not> tm_isatty t \<or> \<not> output_isatty then returnn False
         else bindn (prompt_base_model_setup ap t speciality) (\<lambda>_. returnn True)))"

section \<open>Laws\<close>

lemma map_of_rev_distinct: "distinct (map fst xs) \<Longrightarrow> map_of (rev xs) = map_of xs"
  using map_of_inject_set[of "rev xs" xs] by (simp add: rev_map[symmetric])

lemma made_dirs_same_file:
  assumes m: "make_dirs fs cwd (abs_path d) = Inr fs1" and lf: "link_free fs (d @ [f])" and tree: "tree_fs fs"
  shows "node_at fs1 cwd (abs_path (d @ [f])) = node_at fs cwd (abs_path (d @ [f]))"
proof -
  have lf0: "link_free fs d" using lf by (rule link_free_prefix) simp
  have res: "resolve fs cwd (abs_path d) = Some d" using resolve_link_free[OF lf0] .
  have lf1: "link_free fs1 (d @ [f])" using make_dirs_link_free[OF m lf] .
  have "\<not> is_prefix (d @ [f]) d" by (auto simp: is_prefix_iff)
  then have same: "fs1 (d @ [f]) = fs (d @ [f])"
    using make_dirs_adds[OF m res] unfolding only_makes_def by (metis mem_Collect_eq)
  have dirs: "fs1 k = Some Directory" if "is_prefix k (d @ [f])" "k \<noteq> d @ [f]" for k
  proof -
    from that have "is_prefix k d"
      using with_parents_prefixes[of k "d @ [f]"] with_parents_prefixes[of k d] by (simp add: with_parents.simps[of "d @ [f]"])
    then show ?thesis using make_dirs_made[OF m res] by blast
  qed
  have "fs1 (d @ [f]) \<noteq> Some (Link t)" for t using lf1 by (auto simp: link_free_def)
  moreover have "''..'' \<notin> set (d @ [f])" using lf1 by (simp add: link_free_def)
  ultimately have "lookup fs1 max_links [] (d @ [f]) = Some (d @ [f])"
    using lookup_dirs[of "[]" "d @ [f]" fs1] dirs by simp
  then show ?thesis using node_at_found[OF tree lf] same by (simp add: node_at_def)
qed

lemma opt_texts [simp]: "opt_text (py_text x) = Inr x"
  by (cases x) (simp_all add: py_text_def)

lemma mapr_dput:
  assumes "specialty_entries d = Inr es" "specialty_entry x = Inr k"
  shows "specialty_entries (dput s x d) = Inr (dput s k es)"
  using assms
  by (induction d arbitrary: es) (auto simp: specialty_entries_def dput_def res_simps split: prod.splits)

lemma specialty_entries_keys: "specialty_entries d = Inr es \<Longrightarrow> map fst es = map fst d"
  by (induction d arbitrary: es) (auto simp: specialty_entries_def res_simps)

lemma specialty_entries_lookup:
  "specialty_entries d = Inr es \<Longrightarrow> map_of d s = Some x \<Longrightarrow> \<exists>k. specialty_entry x = Inr k \<and> map_of es s = Some k"
  by (induction d arbitrary: es) (auto simp: specialty_entries_def res_simps split: if_splits)

lemma map_of_dpop: "map_of (dpop k d) j = (if j = k then None else map_of d j)"
  by (induction d) (auto simp: dpop_def)

lemma dpop_all: "list_all P d \<Longrightarrow> list_all P (dpop k d)"
  by (auto simp: dpop_def list_all_iff)

lemma dput_all: "list_all P d \<Longrightarrow> P (k, x) \<Longrightarrow> (\<And>y. P (k, y) = P (k, x)) \<Longrightarrow> list_all P (dput k x d)"
  by (induction d) (auto simp: dput_def)

lemma pinned_entry_typed:
  assumes "specialty_entry (PDict current) = Inr old \<or> current = [] \<and> sk_lora old = None"
  shows "specialty_entry (PDict (pinned_entry m c current)) =
    Inr \<lparr>sk_capability = c, sk_flavor = None, sk_lora = sk_lora old, sk_min_context_tokens = None, sk_model = Some m\<rparr>"
proof -
  have fields: "list_all (\<lambda>kv. fst kv \<in> set specialty_fields) current" and lora: "opt_text (dget current ''lora'') = Inr (sk_lora old)"
    using assms by (auto simp: specialty_entry_def res_simps dget_def split: if_splits pyval.splits)
  have "list_all (\<lambda>kv. fst kv \<in> set specialty_fields) (pinned_entry m c current)"
    unfolding pinned_entry_def
    by (intro dpop_all dput_all fields) (simp_all add: specialty_fields_def)
  then show ?thesis
    using lora by (simp add: specialty_entry_def pinned_entry_def dget_def map_of_dpop)
qed

definition config_entries :: "config option \<Rightarrow> (string \<times> specialty_kwargs) list" where
  "config_entries c = (case c of None \<Rightarrow> [] | Some c \<Rightarrow> (case cfg_specialties c of None \<Rightarrow> [] | Some es \<Rightarrow> es))"

definition config_models :: "config option \<Rightarrow> model_kwargs list option" where
  "config_models c = (case c of None \<Rightarrow> None | Some c \<Rightarrow> cfg_models c)"

definition old_lora :: "string \<Rightarrow> config option \<Rightarrow> string option" where
  "old_lora s c = (case map_of (config_entries c) s of None \<Rightarrow> None | Some k \<Rightarrow> sk_lora k)"

definition pinned_kwargs :: "string \<Rightarrow> string \<Rightarrow> string option \<Rightarrow> specialty_kwargs" where
  "pinned_kwargs m cap lora =
     \<lparr>sk_capability = cap, sk_flavor = None, sk_lora = lora, sk_min_context_tokens = None, sk_model = Some m\<rparr>"

lemma typed_config_entries:
  assumes "typed_config ap (PDict data) = Inr c"
  shows "(case map_of data ''specialties'' of None \<Rightarrow> config_entries c = []
      | Some x \<Rightarrow> (\<exists>sps. x = PDict sps \<and> specialty_entries sps = Inr (config_entries c)))
    \<and> (case map_of data ''models'' of None \<Rightarrow> config_models c = None
      | Some x \<Rightarrow> (\<exists>ms. ap_models ap x = Inr ms \<and> config_models c = Some ms))"
proof (cases "data = []")
  case True
  then show ?thesis using assms by (simp add: typed_config_def config_entries_def config_models_def)
next
  case False
  then show ?thesis using assms
    by (auto simp: typed_config_def res_simps config_entries_def config_models_def split: option.splits pyval.splits)
qed

lemma pinned_config_typed:
  assumes typed: "typed_config ap (PDict data) = Inr c" and pin: "pinned_config s m cap data = Inr d'"
  shows "\<exists>c'. typed_config ap (PDict d') = Inr (Some c') \<and> cfg_models c' = config_models c
    \<and> cfg_specialties c' = Some (dput s (pinned_kwargs m cap (old_lora s c)) (config_entries c))"
proof -
  note entries = typed_config_entries[OF typed]
  from pin obtain sps current where sps: "py_dict (dget_or data ''specialties'' (PDict [])) = Inr sps"
    and current: "py_dict (dget_or sps s (PDict [])) = Inr current"
    and d': "d' = dput ''specialties'' (PDict (dput s (PDict (pinned_entry m cap current)) sps)) data"
    by (auto simp: pinned_config_def res_simps)
  have es: "specialty_entries sps = Inr (config_entries c)"
    using sps entries by (cases "map_of data ''specialties''") (auto simp: dget_or_def specialty_entries_def)
  have "specialty_entry (PDict (pinned_entry m cap current)) = Inr (pinned_kwargs m cap (old_lora s c))"
  proof (cases "map_of sps s")
    case None
    then have "current = []" using current by (simp add: dget_or_def)
    moreover have "map_of (config_entries c) s = None"
      using None specialty_entries_keys[OF es] by (metis map_of_eq_None_iff set_map)
    ultimately show ?thesis
      using pinned_entry_typed[of current "pinned_kwargs m cap None" m cap] by (simp add: pinned_kwargs_def old_lora_def)
  next
    case (Some x)
    then obtain k where k: "specialty_entry x = Inr k" "map_of (config_entries c) s = Some k"
      using specialty_entries_lookup[OF es] by blast
    then obtain cur where "x = PDict cur" by (auto simp: specialty_entry_def split: pyval.splits)
    then have "x = PDict current" using current Some by (simp add: dget_or_def)
    then show ?thesis using pinned_entry_typed[of current k m cap] k by (simp add: pinned_kwargs_def old_lora_def)
  qed
  from mapr_dput[OF es this] have "specialty_entries (dput s (PDict (pinned_entry m cap current)) sps)
      = Inr (dput s (pinned_kwargs m cap (old_lora s c)) (config_entries c))" .
  moreover have "d' \<noteq> []" unfolding d' dput_def by (cases data) auto
  ultimately show ?thesis using entries
    by (auto simp: typed_config_def d' split: option.splits)
qed

lemma load_registry_reads:
  assumes "load_registry ap v = Inr reg" "env_nonempty (os_environ v) ''BUBBLEHUB_MODELS_CONFIG'' = None"
  shows "\<exists>data c. read_user_models_config ap v = Inr data \<and> typed_config ap (PDict data) = Inr c
    \<and> reg = registry_from_dict (merge_config (ap_bundled ap) c)"
proof (cases "os_exists v (user_models_config_path v)")
  case False
  then show ?thesis using assms
    by (intro exI[of _ "[]"] exI[of _ None])
      (auto simp: load_registry_def read_user_models_config_def typed_config_def load_default_def merge_config_def)
next
  case True
  then obtain t y c where t: "os_read_text v (user_models_config_path v) = Inr t" "ym_load (ap_yaml ap) t = Inr y"
    "typed_config ap y = Inr c" "reg = registry_from_dict (merge_config (ap_bundled ap) c)"
    using assms by (auto simp: load_registry_def read_config_def res_simps load_default_def)
  show ?thesis
  proof (cases "\<exists>d. y = PDict d")
    case True
    then show ?thesis using t \<open>os_exists v (user_models_config_path v)\<close> by (auto simp: read_user_models_config_def Let_def)
  next
    case False
    then have "c = None" "(case y of PDict d \<Rightarrow> d | _ \<Rightarrow> []) = []" using t(3) by (auto simp: typed_config_def split: pyval.splits if_splits)
    then show ?thesis using t \<open>os_exists v (user_models_config_path v)\<close>
      by (intro exI[of _ "[]"] exI[of _ None]) (simp add: read_user_models_config_def Let_def typed_config_def)
  qed
qed

lemma user_config_reads:
  assumes "user_models_config_path v = abs_path k" "node_at (os_fs v) (os_cwd v) (abs_path k) = Some (File (utf8_encode x))"
  shows "os_exists v (user_models_config_path v)" "os_read_text v (user_models_config_path v) = Inr (text_mode x)"
  using assms by (simp_all add: os_exists_def path_exists_def os_read_text_def read_file_def)

lemma user_config_same:
  assumes "node_at fs1 (os_cwd v) (user_models_config_path v) = node_at (os_fs v) (os_cwd v) (user_models_config_path v)"
  shows "read_user_models_config ap (v\<lparr>os_fs := fs1\<rparr>) = read_user_models_config ap v"
  using assms by (simp add: read_user_models_config_def user_models_config_path_def os_exists_def path_exists_def
      os_read_text_def read_file_def Let_def)

lemma written_override:
  assumes w: "write_speciality_model_override ap s m cap v = (Inr (), v')"
    and place: "user_models_config_path v = abs_path (d @ [f])" "link_free (os_fs v) (d @ [f])" "tree_fs (os_fs v)"
  shows "\<exists>data d'. read_user_models_config ap v = Inr data \<and> pinned_config s m cap data = Inr d'
    \<and> os_environ v' = os_environ v \<and> os_home v' = os_home v
    \<and> os_exists v' (user_models_config_path v) \<and> os_read_text v' (user_models_config_path v) = Inr (text_mode (ym_dump (ap_yaml ap) (PDict d')))"
proof -
  from w place(1) obtain fs1 data d' fs2 where fs1: "make_dirs (os_fs v) (os_cwd v) (abs_path d) = Inr fs1"
    and data: "read_user_models_config ap (v\<lparr>os_fs := fs1\<rparr>) = Inr data" and d': "pinned_config s m cap data = Inr d'"
    and fs2: "write_file fs1 (os_cwd v) (abs_path (d @ [f])) (utf8_encode (ym_dump (ap_yaml ap) (PDict d'))) = Inr fs2"
    and v': "v' = v\<lparr>os_fs := fs2\<rparr>"
    by (auto simp: write_speciality_model_override_def native_simps fs_change_def asks_def os_write_text_def Let_def split: sum.splits)
  have "read_user_models_config ap v = Inr data"
    using data user_config_same[of fs1 v ap] made_dirs_same_file[OF fs1 place(2,3)] place(1) by simp
  moreover have "user_models_config_path v' = abs_path (d @ [f])" using place(1) by (simp add: v' user_models_config_path_def)
  moreover have "node_at (os_fs v') (os_cwd v') (abs_path (d @ [f])) = Some (File (utf8_encode (ym_dump (ap_yaml ap) (PDict d'))))"
    using conjunct2[OF written_file_found[OF fs1 fs2 place(2)]] by (simp add: v')
  ultimately show ?thesis
    using user_config_reads[of v' "d @ [f]"] d' v' place(1) by auto
qed

lemma user_config_path_home: "os_home v' = os_home v \<Longrightarrow> user_models_config_path v' = user_models_config_path v"
  by (simp add: user_models_config_path_def)

lemma pinned_user_chose:
  assumes "pinned_config s m cap data = Inr d'" "read_user_models_config ap v = Inr d'" "strip m \<noteq> []"
  shows "needs_base_model_setup ap s v = Inr False"
  using assms by (auto simp: needs_base_model_setup_def user_chose_base_model_def pinned_config_def res_simps dget_or_def
      pinned_entry_def dget_def map_of_dpop)

lemma pinned_resolves:
  assumes "map_of (reg_specialties reg) s = Some sp" "sp_model sp = Some name" "filter (\<lambda>m. ms_name m = name) (reg_models reg) = m # ms"
  shows "resolve_specialty reg s args = Inr m \<or> (\<exists>t. resolve_specialty reg s args = Inl (KeyError t))"
  using assms by (auto simp: resolve_specialty_def resolve_candidates_def resolve_model_name_def)

lemma override_lookup:
  assumes "cfg_models c' = config_models c" "cfg_specialties c' = Some (dput s k (config_entries c))"
    "distinct (map fst (config_entries c))"
  shows "reg_models (registry_from_dict (merge_config b (Some c'))) = reg_models (registry_from_dict (merge_config b c))"
    "map_of (reg_specialties (registry_from_dict (merge_config b (Some c')))) s = Some (specialty_init s k)"
    "s' \<noteq> s \<Longrightarrow> map_of (reg_specialties (registry_from_dict (merge_config b (Some c')))) s'
      = map_of (reg_specialties (registry_from_dict (merge_config b c))) s'"
proof -
  have rev: "map_of (rev (dput s k (config_entries c))) = (map_of (rev (config_entries c)))(s \<mapsto> k)"
    using assms(3) by (simp add: map_of_rev_distinct distinct_dput)
  note look = merge_config_lookup[of b c'] merge_config_lookup[of b "the c"]
  show "reg_models (registry_from_dict (merge_config b (Some c'))) = reg_models (registry_from_dict (merge_config b c))"
    using look assms(1) by (cases c) (auto simp: config_models_def)
  show "map_of (reg_specialties (registry_from_dict (merge_config b (Some c')))) s = Some (specialty_init s k)"
    using look assms(2) rev by simp
  show "s' \<noteq> s \<Longrightarrow> map_of (reg_specialties (registry_from_dict (merge_config b (Some c')))) s'
      = map_of (reg_specialties (registry_from_dict (merge_config b c))) s'"
    using look assms(2) rev by (cases c) (auto simp: config_entries_def merge_config_def[of b None] split: option.splits)
qed

section \<open>Properties\<close>

text \<open>
  C36. A model that was chosen for a specialty is the one the next session gets, as long as no configuration is
  named by \<^verbatim>\<open>BUBBLEHUB_MODELS_CONFIG\<close> (it would come before the file that is written). Let the file of the user's
  models be at a place without links, let YAML read back the document that is written to it, and let the
  document that was there have no specialty twice. Then the registry that is read back from the
  disk pins the specialty to this model, with every other specialty and all models as they were. Resolving
  the specialty, whatever is asked of it, gives this model, or raises a KeyError when it does not
  fit; it never gives another model. And the set-up is not asked for again when the name is not blank.
\<close>

theorem selected_model_is_loaded:
  assumes select: "select_model_for_speciality ap s name v = (Inr reply, v')"
    and place: "user_models_config_path v = abs_path (d @ [f])" "link_free (os_fs v) (d @ [f])" "tree_fs (os_fs v)"
    and yaml: "\<forall>data cap d'. read_user_models_config ap v = Inr data \<and> pinned_config s name cap data = Inr d'
        \<longrightarrow> ym_load (ap_yaml ap) (text_mode (ym_dump (ap_yaml ap) (PDict d'))) = Inr (PDict d')"
      "\<forall>data sps. read_user_models_config ap v = Inr data \<and> map_of data ''specialties'' = Some (PDict sps) \<longrightarrow> distinct (map fst sps)"
    and explicit: "env_nonempty (os_environ v) ''BUBBLEHUB_MODELS_CONFIG'' = None"
  shows "\<exists>reg reg' m sp. load_registry ap v = Inr reg \<and> load_registry ap v' = Inr reg' \<and> reg_models reg' = reg_models reg
    \<and> (\<forall>s'. s' \<noteq> s \<longrightarrow> map_of (reg_specialties reg') s' = map_of (reg_specialties reg) s')
    \<and> map_of (reg_specialties reg') s = Some sp \<and> sp_model sp = Some name
    \<and> m \<in> set (reg_models reg) \<and> ms_name m = name \<and> ms_capability m = sp_capability sp
    \<and> (\<forall>args. resolve_specialty reg' s args = Inr m \<or> (\<exists>t. resolve_specialty reg' s args = Inl (KeyError t)))
    \<and> (strip name \<noteq> [] \<longrightarrow> needs_base_model_setup ap s v' = Inr False)"
proof -
  from select obtain reg m ms where reg: "load_registry ap v = Inr reg"
    and m: "filter (\<lambda>m. ms_name m = name) (reg_models reg) = m # ms"
    and w: "write_speciality_model_override ap s (ms_name m) (ms_capability m) v = (Inr (), v')"
    unfolding select_model_for_speciality_def
    by (elim bindn_Inr) (auto simp: asks_def native_simps split: list.splits option.splits if_splits prod.splits sum.splits)
  have name: "ms_name m = name" "m \<in> set (reg_models reg)" using m by (auto simp: filter_eq_Cons_iff)
  obtain data c where data: "read_user_models_config ap v = Inr data" "typed_config ap (PDict data) = Inr c"
    "reg = registry_from_dict (merge_config (ap_bundled ap) c)"
    using load_registry_reads[OF reg explicit] by blast
  obtain d' where d': "pinned_config s name (ms_capability m) data = Inr d'" "os_environ v' = os_environ v" "os_home v' = os_home v"
    "os_exists v' (user_models_config_path v)" "os_read_text v' (user_models_config_path v) = Inr (text_mode (ym_dump (ap_yaml ap) (PDict d')))"
    using written_override[OF w place] data(1) name(1) by auto
  have load: "ym_load (ap_yaml ap) (text_mode (ym_dump (ap_yaml ap) (PDict d'))) = Inr (PDict d')" using yaml(1) data(1) d'(1) by blast
  obtain c' where c': "typed_config ap (PDict d') = Inr (Some c')" "cfg_models c' = config_models c"
    "cfg_specialties c' = Some (dput s (pinned_kwargs name (ms_capability m) (old_lora s c)) (config_entries c))"
    using pinned_config_typed[OF data(2) d'(1)] by blast
  let ?reg' = "registry_from_dict (merge_config (ap_bundled ap) (Some c'))"
  have read: "read_user_models_config ap v' = Inr d'"
    using d'(4,5) load by (simp add: read_user_models_config_def user_config_path_home[OF d'(3)] Let_def)
  have reg': "load_registry ap v' = Inr ?reg'"
    using d'(2,4,5) load c'(1) explicit
    by (simp add: load_registry_def read_config_def user_config_path_home[OF d'(3)] load_default_def)
  have "distinct (map fst (config_entries c))"
  proof (cases "map_of data ''specialties''")
    case None
    then show ?thesis using typed_config_entries[OF data(2)] by simp
  next
    case (Some x)
    then obtain sps where sps: "x = PDict sps" "specialty_entries sps = Inr (config_entries c)"
      using typed_config_entries[OF data(2)] by auto
    then have "distinct (map fst sps)" using yaml(2) data(1) Some by blast
    then show ?thesis using specialty_entries_keys[OF sps(2)] by simp
  qed
  note look = override_lookup[where b = "ap_bundled ap", OF c'(2,3) this, folded data(3)]
  have pinned: "map_of (reg_specialties ?reg') s = Some (specialty_init s (pinned_kwargs name (ms_capability m) (old_lora s c)))"
    using look(2) .
  have "resolve_specialty ?reg' s args = Inr m \<or> (\<exists>t. resolve_specialty ?reg' s args = Inl (KeyError t))" for args
    using pinned_resolves[OF pinned _ m[folded look(1)]] by (simp add: specialty_init_def pinned_kwargs_def)
  moreover have "strip name \<noteq> [] \<longrightarrow> needs_base_model_setup ap s v' = Inr False"
    using pinned_user_chose[OF d'(1) read] by blast
  moreover have "map_of (reg_specialties ?reg') s' = map_of (reg_specialties reg) s'" if "s' \<noteq> s" for s' using look(3)[OF that] .
  ultimately show ?thesis
    using reg reg' look(1) pinned name
    by (intro exI[of _ reg] exI[of _ ?reg'] exI[of _ m] exI[of _ "specialty_init s (pinned_kwargs name (ms_capability m) (old_lora s c))"])
      (simp add: specialty_init_def pinned_kwargs_def)
qed

text \<open>
  Every choice of the set-up menu carries the mark \<^verbatim>\<open>(recommended)\<close>: the label is made with the name of the
  model itself in place of the recommended one.
\<close>

theorem every_option_is_recommended:
  "setup_options candidates = map (\<lambda>m. model_summary m @ '' (recommended)'') candidates"
  by (simp add: setup_options_def model_option_label_def)

text \<open>A home directory without a configuration file, one model and one specialty; JSON is YAML.\<close>

definition small_config :: config where
  "small_config = \<lparr>cfg_models = Some [\<lparr>mk_name = ''m'', mk_flavor = ''q'', mk_capability = ''c'', mk_tier = ''tiny'', mk_backend = ''llama'',
     mk_repo_id = ''r'', mk_filename = None, mk_ram_gb = 1, mk_vram_gb = 0, mk_context_tokens = None, mk_placement = None,
     mk_gpu_backends = None, mk_gpu_layers = None\<rparr>],
     cfg_specialties = Some [(''s'', \<lparr>sk_capability = ''c'', sk_flavor = None, sk_lora = None, sk_min_context_tokens = None, sk_model = None\<rparr>)],
     cfg_other = []\<rparr>"

definition json_app :: app_params where
  "json_app = \<lparr>ap_yaml = \<lparr>ym_load = json_loads, ym_dump = (\<lambda>x. json_dumps x @ [ch_nl])\<rparr>, ap_bundled = small_config,
     ap_models = (\<lambda>_. Inr []), ap_hardware = Inl (ValueError ''''), ap_number = (\<lambda>_. PNone)\<rparr>"

definition fresh_home :: os_view where
  "fresh_home = demo_os\<lparr>os_fs := map_of [([], Directory), ([''h''], Directory)], os_home := (\<lambda>_. abs_path [''h''])\<rparr>"

lemma fresh_home_selects:
  "fst (select_model_for_speciality json_app ''s'' ''m'' fresh_home) = Inr (selection_reply fresh_home ''s'' ''m'')"
  by code_simp

lemma selected_model_is_loaded_witness:
  "needs_base_model_setup json_app ''s'' (snd (select_model_for_speciality json_app ''s'' ''m'' fresh_home)) = Inr False"
proof -
  have select: "select_model_for_speciality json_app ''s'' ''m'' fresh_home
      = (Inr (selection_reply fresh_home ''s'' ''m''), snd (select_model_for_speciality json_app ''s'' ''m'' fresh_home))"
    using fresh_home_selects by (metis prod.collapse)
  have path: "user_models_config_path fresh_home = abs_path ([''h'', ''.config'', ''bubblehub''] @ [''models.yaml''])" by code_simp
  have fs: "os_fs fresh_home = [[] \<mapsto> Directory, [''h''] \<mapsto> Directory]" by (rule ext) (simp add: fresh_home_def)
  have lf: "link_free (os_fs fresh_home) ([''h'', ''.config'', ''bubblehub''] @ [''models.yaml''])"
    unfolding fs by (auto simp: link_free_def)
  have tree: "tree_fs (os_fs fresh_home)" unfolding fs by (auto simp: tree_fs_def)
  have data: "read_user_models_config json_app fresh_home = Inr []" by code_simp
  have "pinned_config ''s'' ''m'' cap [] = Inr d \<Longrightarrow> json_clean (PDict d) \<and> floats_printable (PDict d)" for cap d
    by (auto simp: pinned_config_def dget_or_def pinned_entry_def dpop_def dput_def)
  then have yaml: "ym_load (ap_yaml json_app) (text_mode (ym_dump (ap_yaml json_app) (PDict d))) = Inr (PDict d)"
    if "pinned_config ''s'' ''m'' cap [] = Inr d" for cap d
    using that json_dumps_printable[of "PDict d"] loads_dumps_line[of default_style "PDict d"] style_ok_used(1)
    by (simp add: json_app_def text_mode_printable json_dumps_def)
  have explicit: "env_nonempty (os_environ fresh_home) ''BUBBLEHUB_MODELS_CONFIG'' = None"
    by (simp add: fresh_home_def demo_os_def env_nonempty_def)
  have m: "strip ''m'' \<noteq> []" by code_simp
  note loaded = selected_model_is_loaded[OF select path lf tree _ _ explicit]
  show ?thesis
    using loaded m data yaml by (simp del: split_paired_Ex) blast
qed

end
