(* ===== verification/Telemetry.thy ===== *)
theory Telemetry
  imports Agent_Records Py_Floats
begin

text \<open>
  \<^verbatim>\<open>bubblehub/app/telemetry.py\<close>: the view of the scheduler the desktop shows. The files of \<^verbatim>\<open>/proc\<close> are
  files of the file system; one view of it stands for the whole snapshot, although processes go on while
  it is taken. The ticks of the clock and the time are parameters. A sum of floats is the left-to-right
  one of CPython before 3.12 (later versions compensate its rounding).
\<close>

section \<open>Reading values\<close>

definition dict_or_empty :: "pyval \<Rightarrow> pydict" where
  "dict_or_empty x = (case x of PDict d \<Rightarrow> d | _ \<Rightarrow> [])"

definition list_of_dicts :: "pyval \<Rightarrow> pydict list" where
  "list_of_dicts x = (case x of PList xs \<Rightarrow> concat (map (\<lambda>item. case item of PDict d \<Rightarrow> [d] | _ \<Rightarrow> []) xs) | _ \<Rightarrow> [])"

definition int_or_zero :: "pyval \<Rightarrow> int result" where
  "int_or_zero x = (case py_int x of Inr n \<Rightarrow> Inr n | Inl e \<Rightarrow> if is_type_or_value_error e then Inr 0 else Inl e)"

section \<open>The files of a process\<close>

definition proc_path :: "int \<Rightarrow> path" where
  "proc_path pid = Path True [''proc'', show_int pid]"

text \<open>The text of a file, where an \<^verbatim>\<open>OSError\<close> is no text; one that is not UTF-8 still raises.\<close>

definition proc_text :: "os_view \<Rightarrow> path \<Rightarrow> string option result" where
  "proc_text v p = (case os_read_text v p of
     Inr t \<Rightarrow> Inr (Some t) | Inl e \<Rightarrow> if is_os_error e then Inr None else Inl e)"

definition rss_of_status :: "string \<Rightarrow> int" where
  "rss_of_status t =
     (case find (startswith ''VmRSS:'') (splitlines t) of
        None \<Rightarrow> 0
      | Some line \<Rightarrow> (case split_ws line of
          _ # n # _ \<Rightarrow> (case parse_int n of Some kb \<Rightarrow> kb * 1024 | None \<Rightarrow> 0)
        | _ \<Rightarrow> 0))"

definition rss_bytes :: "os_view \<Rightarrow> int \<Rightarrow> int result" where
  "rss_bytes v pid =
     (if pid \<le> 0 then Inr 0
      else bindr (proc_text v (path_sub (proc_path pid) ''status'')) (\<lambda>t.
        Inr (case t of None \<Rightarrow> 0 | Some t \<Rightarrow> rss_of_status t)))"

definition cpu_of_stat :: "int \<Rightarrow> string \<Rightarrow> pyval" where
  "cpu_of_stat clock_ticks t =
     (let parts = split_ws t in
      if length parts < 17 then zero_float
      else (case (parse_int (parts ! 13), parse_int (parts ! 14)) of
          (Some u, Some s) \<Rightarrow> if clock_ticks = 0 then zero_float else PFloat (to_float (of_int (u + s) / of_int clock_ticks))
        | _ \<Rightarrow> zero_float))"

definition cpu_time_seconds :: "os_view \<Rightarrow> int \<Rightarrow> int \<Rightarrow> pyval result" where
  "cpu_time_seconds v clock_ticks pid =
     bindr (proc_text v (path_sub (proc_path pid) ''stat'')) (\<lambda>t.
       Inr (case t of None \<Rightarrow> zero_float | Some t \<Rightarrow> cpu_of_stat clock_ticks t))"

definition state_of_status :: "string \<Rightarrow> string" where
  "state_of_status t =
     (case find (startswith ''State:'') (splitlines t) of
        None \<Rightarrow> ''unknown'' | Some line \<Rightarrow> strip (after_char CHR '':'' line))"

definition process_state :: "os_view \<Rightarrow> int \<Rightarrow> string result" where
  "process_state v pid =
     bindr (proc_text v (path_sub (proc_path pid) ''status'')) (\<lambda>t.
       Inr (case t of None \<Rightarrow> ''missing'' | Some t \<Rightarrow> state_of_status t))"

definition process_metrics :: "os_view \<Rightarrow> int \<Rightarrow> int \<Rightarrow> pydict result" where
  "process_metrics v clock_ticks pid =
     (if pid \<le> 0 then Inr [(''available'', PBool False), (''rss_bytes'', PInt 0), (''cpu_time_seconds'', zero_float),
        (''status'', PStr ''unknown'')]
      else bindr (rss_bytes v pid) (\<lambda>rss. bindr (cpu_time_seconds v clock_ticks pid) (\<lambda>cpu.
        bindr (process_state v pid) (\<lambda>state.
          Inr [(''available'', PBool (os_exists v (proc_path pid))), (''rss_bytes'', PInt rss),
            (''cpu_time_seconds'', cpu), (''status'', PStr state)]))))"

section \<open>Memory\<close>

definition meminfo_line :: "string \<Rightarrow> (string \<times> int) list \<Rightarrow> (string \<times> int) list" where
  "meminfo_line line values =
     (case split_ws (after_char CHR '':'' line) of
        [] \<Rightarrow> values
      | n # _ \<Rightarrow> (case parse_int n of None \<Rightarrow> values | Some kb \<Rightarrow> dput (before_char CHR '':'' line) (kb * 1024) values))"

definition meminfo_of :: "string \<Rightarrow> (string \<times> int) list" where
  "meminfo_of t = fold meminfo_line (splitlines t) []"

definition meminfo :: "os_view \<Rightarrow> (string \<times> int) list result" where
  "meminfo v = bindr (proc_text v (Path True [''proc'', ''meminfo''])) (\<lambda>t.
     Inr (case t of None \<Rightarrow> [] | Some t \<Rightarrow> meminfo_of t))"

definition limit_or_hardware :: "pydict \<Rightarrow> pydict \<Rightarrow> string \<Rightarrow> int result" where
  "limit_or_hardware limits hardware key =
     bindr (int_or_zero (dget hardware key)) (\<lambda>hardware_value.
     bindr (int_or_zero (dget limits key)) (\<lambda>limit.
       Inr (if 0 < limit then (if 0 < hardware_value then min limit hardware_value else limit) else hardware_value)))"

text \<open>\<^verbatim>\<open>int(used * (total / mem_total))\<close>: both operations round to doubles.\<close>

definition scaled_used :: "int \<Rightarrow> int \<Rightarrow> int \<Rightarrow> int result" where
  "scaled_used used whole mem_total =
     float_int (to_float (double (of_int used) * double (of_int whole / of_int mem_total)))"

definition ram_used_bytes :: "(string \<times> int) list \<Rightarrow> int \<Rightarrow> int result" where
  "ram_used_bytes values whole =
     (let mem_total = (case map_of values ''MemTotal'' of None \<Rightarrow> whole | Some n \<Rightarrow> n);
          mem_available = (case map_of values ''MemAvailable'' of None \<Rightarrow> 0 | Some n \<Rightarrow> n);
          used = mem_total - mem_available in
      if mem_total \<le> 0 \<or> mem_available \<le> 0 then Inr 0
      else if 0 < whole \<and> whole < mem_total then scaled_used used whole mem_total
      else Inr used)"

definition actual_ram_used_bytes :: "os_view \<Rightarrow> int \<Rightarrow> int result" where
  "actual_ram_used_bytes v whole = bindr (meminfo v) (\<lambda>values. ram_used_bytes values whole)"

definition gib_bytes :: rat where "gib_bytes = 1024 ^ 3"

definition reserved_float :: "pydict \<Rightarrow> string \<Rightarrow> pyfloat result" where
  "reserved_float item key =
     bindr (py_float (py_or (dget_or item key (PInt 0)) (PInt 0))) (\<lambda>f. Inr (float_times f gib_bytes))"

fun sum_floats :: "pyfloat result list \<Rightarrow> pyfloat \<Rightarrow> pyfloat result" where
  "sum_floats [] s = Inr s"
| "sum_floats (x # xs) s = bindr x (\<lambda>f. sum_floats xs (float_plus s f))"

definition actual_vram_used_bytes :: "pydict \<Rightarrow> int \<Rightarrow> pydict list \<Rightarrow> int result" where
  "actual_vram_used_bytes hardware whole models =
     bindr (int_or_zero (dget hardware ''free_vram_bytes'')) (\<lambda>free.
       if 0 < whole \<and> 0 < free then Inr (max 0 (whole - min free whole))
       else bindr (sum_floats (map (\<lambda>item. reserved_float item ''vram_gb'') models) (Finite 0 ''0.0'')) float_int)"

definition percent :: "int \<Rightarrow> int \<Rightarrow> pyval" where
  "percent used whole =
     (if 0 < whole then PFloat (float_round1 (float_times (to_float (of_int used / of_int whole)) 100)) else zero_float)"

definition telemetry_warnings :: "pydict \<Rightarrow> string list result" where
  "telemetry_warnings hardware =
     bindr (int_or_zero (dget hardware ''vram_bytes'')) (\<lambda>n.
       Inr ((if n \<le> 0 then [''No dedicated VRAM telemetry is available; model GPU usage falls back to reservations.''] else [])
         @ [''Agent resource metrics use the host bubble run process until sandbox child telemetry is available.'']))"

section \<open>The snapshot\<close>

record telemetry_clock =
  tc_ticks :: int
  tc_now :: pyfloat

definition agent_view :: "os_view \<Rightarrow> int \<Rightarrow> pydict \<Rightarrow> pydict result" where
  "agent_view v clock_ticks item =
     bindr (int_or_zero (dget item ''pid'')) (\<lambda>pid. bindr (process_metrics v clock_ticks pid) (\<lambda>process.
       enrich_agent_view v (dict_merge item
         [(''pid'', PInt pid), (''running'', PBool (truthy (dget process ''available''))),
          (''pid_role'', PStr ''bubblehub-run-host-process''), (''resource_metrics'', PDict process),
          (''rss_bytes'', dget process ''rss_bytes''), (''cpu_time_seconds'', dget process ''cpu_time_seconds'')])))"

definition model_view :: "os_view \<Rightarrow> pydict \<Rightarrow> pydict result" where
  "model_view v item =
     bindr (int_or_zero (dget item ''pid'')) (\<lambda>pid. bindr (rss_bytes v pid) (\<lambda>rss.
     bindr (bindr (reserved_float item ''ram_gb'') float_int) (\<lambda>ram.
     bindr (bindr (reserved_float item ''vram_gb'') float_int) (\<lambda>vram.
       Inr (dict_merge item [(''pid'', PInt pid), (''rss_bytes'', PInt rss), (''ram_reserved_bytes'', PInt ram),
         (''vram_reserved_bytes'', PInt vram)])))))"

definition view_id :: "pydict \<Rightarrow> string" where
  "view_id item = py_str (dget_or item ''agent_id'' (PStr ''''))"

definition agent_views :: "disk \<Rightarrow> telemetry_clock \<Rightarrow> os_view \<Rightarrow> pydict \<Rightarrow> pydict list result" where
  "agent_views dk tc v snapshot_read =
     bindr (mapr (agent_view v (tc_ticks tc)) (list_of_dicts (dget snapshot_read ''agents''))) (\<lambda>live.
     bindr (known_agent_records dk v (set (map view_id live))) (\<lambda>known. Inr (live @ known)))"

definition memory_report :: "int \<Rightarrow> int \<Rightarrow> int \<Rightarrow> int \<Rightarrow> pydict" where
  "memory_report ram_total ram_used vram_total vram_used =
     [(''ram_total_bytes'', PInt ram_total), (''ram_used_bytes'', PInt ram_used),
      (''ram_used_percent'', percent ram_used ram_total),
      (''vram_total_bytes'', PInt vram_total), (''vram_used_bytes'', PInt vram_used),
      (''vram_used_percent'', percent vram_used vram_total)]"

definition snapshot_view :: "disk \<Rightarrow> telemetry_clock \<Rightarrow> os_view \<Rightarrow> pydict \<Rightarrow> pydict result" where
  "snapshot_view dk tc v snapshot_read =
     (let hardware = dict_or_empty (dget snapshot_read ''hardware''); limits = dict_or_empty (dget snapshot_read ''limits'');
          models = list_of_dicts (dget snapshot_read ''models'') in
      bindr (limit_or_hardware limits hardware ''ram_bytes'') (\<lambda>ram_total.
      bindr (limit_or_hardware limits hardware ''vram_bytes'') (\<lambda>vram_total.
      bindr (actual_ram_used_bytes v ram_total) (\<lambda>ram_used.
      bindr (actual_vram_used_bytes hardware vram_total models) (\<lambda>vram_used.
      bindr (agent_views dk tc v snapshot_read) (\<lambda>agents.
      bindr (mapr (model_view v) models) (\<lambda>model_views.
      bindr (telemetry_warnings hardware) (\<lambda>warnings.
        Inr [(''service'', PStr ''bubblehub''), (''generated_at'', PFloat (tc_now tc)), (''hardware'', PDict hardware),
          (''limits'', PDict limits), (''memory_pressure'', dget_or snapshot_read ''memory_pressure'' (PStr ''available'')),
          (''memory'', PDict (memory_report ram_total ram_used vram_total vram_used)),
          (''agents'', PList (map PDict agents)), (''models'', PList (map PDict model_views)),
          (''queue'', PList (map PDict (list_of_dicts (dget snapshot_read ''queue'')))),
          (''warnings'', PList (map PStr warnings))]))))))))"

definition control_snapshot :: "host_params \<Rightarrow> telemetry_clock \<Rightarrow> (host, pydict) prog" where
  "control_snapshot hp tc =
     bindn (on_native (status_snapshot (hp_lib hp))) (\<lambda>snapshot_read.
       on_os (asks (\<lambda>v. snapshot_view (hp_disk hp) tc v snapshot_read)))"

definition pending_access :: "native_lib \<Rightarrow> pydict list native" where
  "pending_access lib = access_pending lib"

section \<open>The memory report\<close>

lemma tenths_within:
  assumes "0 \<le> n" "n \<le> 1000"
  obtains q t where "to_float (of_int n / 10) = Finite q t" "0 \<le> q" "q \<le> 100"
proof -
  let ?x = "of_int n / 10 :: rat"
  have r: "in_range (1 / 10) 100 ?x" using assms by (auto simp: in_range_def)
  then have t: "to_float ?x = Finite (double ?x) (repr_double (double ?x))" by (rule to_float_within) simp_all
  have d: "in_range (1 / 10 / 2) ((1 + half_ulp) * b) (double ?x)" if "in_range (1 / 10) b ?x" for b
    using that by (rule double_within) simp
  have "double ?x \<le> 100"
  proof (cases "n = 1000")
    case True
    then have "?x = of_int 100" by simp
    then have "double ?x = of_int 100" using double_of_int[of 100] by simp
    then show ?thesis by simp
  next
    case False
    with assms have "n \<le> 999" by simp
    then have "in_range (1 / 10) (999 / 10) ?x" using assms by (auto simp: in_range_def)
    from d[OF this] show ?thesis by (auto simp: in_range_def half_ulp_def)
  qed
  moreover have "0 \<le> double ?x" using d[OF r] by (auto simp: in_range_def)
  ultimately show ?thesis using that t by blast
qed

lemma percent_within:
  assumes "0 \<le> used" "used \<le> whole" "0 < whole" "whole \<le> 2 ^ 50"
  shows "\<exists>q t. percent used whole = PFloat (Finite q t) \<and> 0 \<le> q \<and> q \<le> 100"
proof -
  define h1 where "h1 = 1 + half_ulp"
  have h1: "1 \<le> h1" "h1 ^ 2 \<le> 1 + 1 / 2 ^ 14" "h1 ^ 4 \<le> 1 + 1 / 2 ^ 14" by (simp_all add: h1_def half_ulp_def power_numeral_reduce)
  define x where "x = (of_int used / of_int whole :: rat)"
  have "(of_int whole :: rat) \<le> of_int (2 ^ 50)" using assms(4) by (simp only: of_int_le_iff)
  then have x: "in_range (1 / 2 ^ 50) 1 x"
    using assms(1-3) by (auto simp: x_def in_range_def field_simps mult_le_cancel_left1 intro: order_trans)
  then have fx: "to_float x = Finite (double x) (repr_double (double x))" by (rule to_float_within) simp_all
  have y: "in_range (1 / 2 ^ 50 / 2 / 2) (h1 * (h1 * 1)) (double (double x))"
    unfolding h1_def by (intro double_within x) simp_all
  then have "in_range (1 / 2 ^ 52 * 100) (h1 ^ 2 * 100) (double (double x) * 100)"
    by (intro in_range_times) (simp_all add: power2_eq_square)
  moreover define z where "z = double (double x) * 100"
  ultimately have z: "in_range (1 / 2 ^ 52 * 100) (h1 ^ 2 * 100) z" by simp
  then have fz: "to_float z = Finite (double z) (repr_double (double z))"
    by (rule to_float_within) (use h1(2) in simp_all)
  have "in_range (1 / 2 ^ 52 * 100 / 2 / 2) (h1 * (h1 * (h1 ^ 2 * 100))) (double (double z))"
    unfolding h1_def[symmetric] by (intro double_within[folded h1_def] z) simp_all
  then have "in_range 0 (h1 ^ 4 * 1000) (double (double z) * 10)"
    by (auto simp: in_range_def power_numeral_reduce)
  then have w: "0 \<le> double (double z) * 10" "double (double z) * 10 \<le> 1000 + 1 / 4"
    using h1 by (auto simp: in_range_def)
  define n where "n = round_half_even (double (double z) * 10)"
  have "0 \<le> n" unfolding n_def by (rule round_half_even_nonneg[OF w(1)])
  moreover have "n \<le> 1000" unfolding n_def by (rule round_half_even_le[of _ _ "1 / 4"]) (use w(2) in simp_all)
  ultimately obtain q t where "to_float (of_int n / 10) = Finite q t" "0 \<le> q" "q \<le> 100" by (rule tenths_within)
  moreover have "percent used whole = PFloat (to_float (of_int n / 10))"
    using assms(3) by (simp add: percent_def fx fz n_def flip: x_def z_def)
  ultimately show ?thesis by auto
qed

lemma float_int_finite: "float_int (Finite q t) = Inr (trunc_rat q)"
  by (simp add: float_int_def)

lemma scaled_used_within:
  assumes "0 \<le> used" "used < mem_total" "0 < whole" "whole < mem_total" "mem_total \<le> 2 ^ 50"
  shows "\<exists>n. scaled_used used whole mem_total = Inr n \<and> 0 \<le> n \<and> n \<le> whole"
proof -
  define h1 where "h1 = 1 + half_ulp"
  let ?u = "of_int used :: rat" and ?w = "of_int whole :: rat" and ?m = "of_int mem_total :: rat"
  have "?m \<le> of_int (2 ^ 50)" using assms(5) by (simp only: of_int_le_iff)
  then have m: "?m \<le> 2 ^ 50" by simp
  have u: "?u + 1 \<le> ?m" using assms(2) by (metis int_one_le_iff_zero_less of_int_1 of_int_add of_int_le_iff zless_imp_add1_zle)
  have pos: "1 \<le> ?w" "?w \<le> ?m" "0 < ?m" "0 \<le> ?u" using assms by (auto simp: int_one_le_iff_zero_less)
  have q: "in_range (1 / 2 ^ 50) (?w / ?m) (?w / ?m)"
    using pos m by (auto simp: in_range_def field_simps intro: order_trans mult_mono)
  define p where "p = double ?u * double (?w / ?m)"
  have du: "double ?u = ?u" using assms by (intro double_of_int) simp
  show ?thesis
  proof (cases "used = 0")
    case True
    then have "p = 0" by (simp add: p_def double_def)
    then show ?thesis using assms(3) unfolding scaled_used_def p_def[symmetric]
      by (simp add: to_float_def double_bound_def double_def float_int_finite trunc_rat_def)
  next
    case False
    then have "1 \<le> ?u" using assms(1) by simp
    have "in_range (1 / 2 ^ 50 / 2 * ?u) (h1 * (?w / ?m) * ?u) p"
      unfolding p_def du mult.commute[of ?u] using double_within[OF q] \<open>1 \<le> ?u\<close> unfolding h1_def
      by (intro in_range_times) simp_all
    then have p: "in_range (1 / 2 ^ 51) (h1 * (?w / ?m) * ?u) p"
      using \<open>1 \<le> ?u\<close> by (elim in_range_mono) simp_all
    have um: "?u / ?m \<le> 1 - 1 / 2 ^ 50" using u pos m by (simp add: field_simps)
    have "h1 * (?w / ?m) * ?u = h1 * ?w * (?u / ?m)" by simp
    also have "\<dots> \<le> h1 * ?w * (1 - 1 / 2 ^ 50)" using um pos by (intro mult_left_mono) (simp_all add: h1_def half_ulp_def)
    finally have b: "in_range (1 / 2 ^ 51) (h1 * ?w * (1 - 1 / 2 ^ 50)) p" using p by (elim in_range_mono) simp_all
    have "h1 * ?w * (1 - 1 / 2 ^ 50) \<le> 2 * ?m * 1" using pos by (intro mult_mono) (simp_all add: h1_def half_ulp_def)
    then have fp: "to_float p = Finite (double p) (repr_double (double p))"
      using m by (intro to_float_within[OF b]) simp_all
    have "in_range (1 / 2 ^ 51 / 2) (h1 * (h1 * ?w * (1 - 1 / 2 ^ 50))) (double p)"
      unfolding h1_def by (rule double_within[OF b[unfolded h1_def]]) simp
    moreover have "(h1 * h1 * (1 - 1 / 2 ^ 50)) * ?w \<le> 1 * ?w"
      using pos by (intro mult_right_mono) (simp_all add: h1_def half_ulp_def)
    then have "h1 * (h1 * ?w * (1 - 1 / 2 ^ 50)) \<le> ?w" by (simp only: mult.assoc mult.left_commute[of ?w] mult.commute[of ?w] mult_1)
    ultimately have "in_range (1 / 2 ^ 51 / 2) ?w (double p)" by (elim in_range_mono) simp
    then have d: "0 \<le> double p" "double p \<le> ?w" using pos unfolding in_range_def by (simp_all, linarith+)
    then have "0 \<le> \<lfloor>double p\<rfloor>" "\<lfloor>double p\<rfloor> \<le> whole" by (simp, linarith)
    then show ?thesis
      using d unfolding scaled_used_def p_def[symmetric] fp by (simp add: float_int_finite trunc_rat_def)
  qed
qed

definition fits_report :: "int \<Rightarrow> int \<Rightarrow> pyval \<Rightarrow> bool" where
  "fits_report used whole part \<longleftrightarrow> 0 \<le> used \<and> used \<le> whole
     \<and> (\<exists>q t. part = PFloat (Finite q t) \<and> 0 \<le> q \<and> q \<le> 100)"

lemma ram_used_within:
  assumes "map_of values ''MemTotal'' = Some mt" "map_of values ''MemAvailable'' = Some ma" "0 \<le> ma" "ma \<le> mt" "mt \<le> 2 ^ 50"
    "0 < whole"
  shows "\<exists>n. ram_used_bytes values whole = Inr n \<and> 0 \<le> n \<and> n \<le> whole"
proof -
  consider "mt \<le> 0 \<or> ma \<le> 0" | "0 < mt" "0 < ma" "mt \<le> whole" | "0 < mt" "0 < ma" "whole < mt" by linarith
  then show ?thesis
  proof cases
    case 3
    with assms scaled_used_within[of "mt - ma" mt whole] show ?thesis by (simp add: ram_used_bytes_def)
  qed (use assms in \<open>simp_all add: ram_used_bytes_def\<close>)
qed

lemma vram_used_within:
  assumes "int_or_zero (dget hardware ''free_vram_bytes'') = Inr free" "0 < free" "0 < whole"
  shows "\<exists>n. actual_vram_used_bytes hardware whole models = Inr n \<and> 0 \<le> n \<and> n \<le> whole"
  using assms by (simp add: actual_vram_used_bytes_def)

section \<open>The agents of a snapshot\<close>

lemma map_of_put_text: "k \<noteq> key \<Longrightarrow> map_of (put_text metadata key agent) k = map_of agent k"
  by (simp add: put_text_def)

lemma enrich_fields:
  assumes "enrich_agent_view v agent = Inr r"
  shows "map_of r ''agent_id'' = map_of agent ''agent_id''
    \<and> dget r ''running'' = PBool (truthy (dget_or agent ''running'' (PBool True)))"
proof -
  from assms obtain metadata where "read_agent_metadata v (py_str (dget_or agent ''agent_id'' (PStr ''''))) = Inr metadata"
    by (auto simp: enrich_agent_view_def Let_def bindr_eq_Inr)
  with assms show ?thesis
    by (cases "metadata_name metadata")
      (auto simp: enrich_agent_view_def Let_def map_of_put_text dget_def dget_or_def)
qed

lemma map_of_dict_merge: "k \<notin> fst ` set ov \<Longrightarrow> map_of (dict_merge base ov) k = map_of base k"
  by (induction ov arbitrary: base) (auto simp: dict_merge_def)

lemma agent_view_fields:
  assumes "agent_view v clk item = Inr r" "int_or_zero (dget item ''pid'') = Inr pid"
  shows "map_of r ''agent_id'' = map_of item ''agent_id''
    \<and> dget r ''running'' = PBool (0 < pid \<and> os_exists v (proc_path pid))"
proof -
  from assms obtain process where p: "process_metrics v clk pid = Inr process"
    and e: "enrich_agent_view v (dict_merge item
         [(''pid'', PInt pid), (''running'', PBool (truthy (dget process ''available''))),
          (''pid_role'', PStr ''bubblehub-run-host-process''), (''resource_metrics'', PDict process),
          (''rss_bytes'', dget process ''rss_bytes''), (''cpu_time_seconds'', dget process ''cpu_time_seconds'')]) = Inr r"
    by (auto simp: agent_view_def bindr_eq_Inr)
  have "dget process ''available'' = PBool (0 < pid \<and> os_exists v (proc_path pid))"
    using p by (auto simp: process_metrics_def bindr_eq_Inr dget_def split: if_splits)
  then show ?thesis using enrich_fields[OF e] by (simp add: map_of_dict_merge dget_or_def dict_merge_def)
qed

lemma mapr_InrD: "mapr f xs = Inr ys \<Longrightarrow> list_all2 (\<lambda>x y. f x = Inr y) xs ys"
  by (induction xs arbitrary: ys) (auto simp: bindr_eq_Inr)

definition shown_alive :: "os_view \<Rightarrow> pydict \<Rightarrow> pydict \<Rightarrow> bool" where
  "shown_alive v item r \<longleftrightarrow> view_id r = view_id item
     \<and> dget r ''running'' = PBool (case int_or_zero (dget item ''pid'') of
         Inr pid \<Rightarrow> 0 < pid \<and> os_exists v (proc_path pid) | Inl _ \<Rightarrow> False)"

lemma agent_view_alive: "agent_view v clk item = Inr r \<Longrightarrow> shown_alive v item r"
  using agent_view_fields[of v clk item r]
  by (cases "int_or_zero (dget item ''pid'')") (auto simp: shown_alive_def view_id_def dget_or_def agent_view_def)

section \<open>Properties\<close>

text \<open>
  C20. The memory of a snapshot makes sense where the numbers it is made of do. The totals are the limit of
  the scheduler or what the machine has. When the kernel reports no more RAM available than there is, up to
  a pebibyte, then the used RAM lies between nothing and a positive total of at most a pebibyte; when free
  VRAM is reported and positive, then the used VRAM lies between nothing and such a total. The percentages,
  rounded twice through doubles, then lie between 0 and 100. (Without free VRAM the reservations of the models
  are summed up, and the sum may exceed the total.)
\<close>

theorem memory_report_bounded:
  assumes view: "snapshot_view dk tc v snap = Inr r"
    and hardware: "hw = dict_or_empty (dget snap ''hardware'')"
    and limits: "limits = dict_or_empty (dget snap ''limits'')"
  shows "\<exists>rt ru rp vt vu vp. dget r ''memory'' = PDict
      [(''ram_total_bytes'', PInt rt), (''ram_used_bytes'', PInt ru), (''ram_used_percent'', rp),
       (''vram_total_bytes'', PInt vt), (''vram_used_bytes'', PInt vu), (''vram_used_percent'', vp)]
    \<and> limit_or_hardware limits hw ''ram_bytes'' = Inr rt \<and> limit_or_hardware limits hw ''vram_bytes'' = Inr vt
    \<and> (\<forall>values mt ma. meminfo v = Inr values \<and> map_of values ''MemTotal'' = Some mt \<and> map_of values ''MemAvailable'' = Some ma
         \<and> 0 \<le> ma \<and> ma \<le> mt \<and> mt \<le> 2 ^ 50 \<and> 0 < rt \<and> rt \<le> 2 ^ 50 \<longrightarrow> fits_report ru rt rp)
    \<and> (\<forall>free. int_or_zero (dget hw ''free_vram_bytes'') = Inr free \<and> 0 < free \<and> 0 < vt \<and> vt \<le> 2 ^ 50 \<longrightarrow> fits_report vu vt vp)"
proof -
  from view obtain rt vt ru vu where
    t: "limit_or_hardware limits hw ''ram_bytes'' = Inr rt" "limit_or_hardware limits hw ''vram_bytes'' = Inr vt"
    and u: "actual_ram_used_bytes v rt = Inr ru" "actual_vram_used_bytes hw vt (list_of_dicts (dget snap ''models'')) = Inr vu"
    and m: "dget r ''memory'' = PDict (memory_report rt ru vt vu)"
    by (auto simp: snapshot_view_def hardware limits Let_def bindr_eq_Inr dget_def)
  have "fits_report ru rt (percent ru rt)"
    if "meminfo v = Inr nums" "map_of nums ''MemTotal'' = Some mt" "map_of nums ''MemAvailable'' = Some ma"
      "0 \<le> ma" "ma \<le> mt" "mt \<le> 2 ^ 50" "0 < rt" "rt \<le> 2 ^ 50" for nums mt ma
    using ram_used_within[OF that(2-7)] u(1) that percent_within by (auto simp: actual_ram_used_bytes_def fits_report_def)
  moreover have "fits_report vu vt (percent vu vt)"
    if "int_or_zero (dget hw ''free_vram_bytes'') = Inr free" "0 < free" "0 < vt" "vt \<le> 2 ^ 50" for free
    using vram_used_within[OF that(1-3), of "list_of_dicts (dget snap ''models'')"] u(2) percent_within that
    by (auto simp: fits_report_def)
  ultimately show ?thesis using m t unfolding memory_report_def by blast
qed

text \<open>
  C31. The agents of a snapshot: first those of the scheduler, each with its identifier, shown as running
  exactly when its process is there; then the stopped ones, sorted, each once and none with the
  identifier of one before.
\<close>

theorem snapshot_agents_told_apart:
  assumes "agent_views dk tc v snap = Inr agents"
  shows "\<exists>live known. agents = live @ known
    \<and> list_all2 (shown_alive v) (list_of_dicts (dget snap ''agents'')) live
    \<and> sorted (map record_key known) \<and> distinct (map (\<lambda>r. dget r ''agent_id'') known)
    \<and> (\<forall>r \<in> set known. dget r ''running'' = PBool False \<and> view_id r \<notin> view_id ` set live)"
proof -
  from assms obtain live known where
    l: "mapr (agent_view v (tc_ticks tc)) (list_of_dicts (dget snap ''agents'')) = Inr live"
    and k: "known_agent_records dk v (set (map view_id live)) = Inr known" and a: "agents = live @ known"
    by (auto simp: agent_views_def bindr_eq_Inr)
  have "list_all2 (shown_alive v) (list_of_dicts (dget snap ''agents'')) live"
    using mapr_InrD[OF l] by (rule list.rel_mono_strong) (rule agent_view_alive)
  moreover have "dget r ''running'' = PBool False \<and> view_id r \<notin> view_id ` set live" if "r \<in> set known" for r
  proof -
    from known_agents_stopped[OF k] that obtain i where i: "stopped_record (set (map view_id live)) i r" by blast
    then have "view_id r = i" by (auto simp: stopped_record_def view_id_def dget_def dget_or_def split: option.splits)
    with i show ?thesis by (simp add: stopped_record_def)
  qed
  ultimately show ?thesis using known_agents_stopped[OF k] a by blast
qed

text \<open>A (small) machine with 16 KiB, 4 of them available, and one process.\<close>

definition telemetry_fs :: fs where
  "telemetry_fs = agents_fs(
     [''s''] \<mapsto> Directory, [''s'', ''sandboxes''] \<mapsto> Directory,
     [''proc''] \<mapsto> Directory, [''proc'', ''5''] \<mapsto> Directory,
     [''proc'', ''meminfo''] \<mapsto> File (''MemTotal: 16 kB'' @ [ch_nl] @ ''MemAvailable: 4 kB''))"

definition telemetry_os :: os_view where
  "telemetry_os = agents_os\<lparr>os_environ := state_env, os_fs := telemetry_fs\<rparr>"

definition telemetry_disk :: disk where
  "telemetry_disk = owned_disk\<lparr>dk_names := (\<lambda>_ d. if last d = ''sandboxes'' then [''agt-1'', ''agt-7''] else [])\<rparr>"

definition telemetry_scheduler :: pydict where
  "telemetry_scheduler = [(''hardware'', PDict [(''ram_bytes'', PInt 16384), (''vram_bytes'', PInt 64),
       (''free_vram_bytes'', PInt 16)]),
     (''agents'', PList [PDict [(''agent_id'', PStr ''agt-1''), (''pid'', PInt 5)]])]"

definition telemetry_time :: telemetry_clock where
  "telemetry_time = \<lparr>tc_ticks = 100, tc_now = Finite 0 ''0.0''\<rparr>"

lemma memory_report_bounded_witness:
  "\<exists>r ru rp vu vp. snapshot_view telemetry_disk telemetry_time telemetry_os telemetry_scheduler = Inr r
     \<and> dget r ''memory'' = PDict
      [(''ram_total_bytes'', PInt 16384), (''ram_used_bytes'', PInt ru), (''ram_used_percent'', rp),
       (''vram_total_bytes'', PInt 64), (''vram_used_bytes'', PInt vu), (''vram_used_percent'', vp)]
     \<and> fits_report ru 16384 rp \<and> fits_report vu 64 vp"
proof -
  let ?s = "snapshot_view telemetry_disk telemetry_time telemetry_os telemetry_scheduler"
  have k: "meminfo telemetry_os = Inr [(''MemTotal'', 16384), (''MemAvailable'', 4096)]" by code_simp
  have agents: "map_sum (\<lambda>_. ()) (\<lambda>_. ()) (agent_views telemetry_disk telemetry_time telemetry_os telemetry_scheduler) = Inr ()"
    by code_simp
  let ?hw = "dict_or_empty (dget telemetry_scheduler ''hardware'')" and ?ms = "list_of_dicts (dget telemetry_scheduler ''models'')"
  have parts: "limit_or_hardware (dict_or_empty (dget telemetry_scheduler ''limits'')) ?hw ''ram_bytes'' = Inr 16384"
      "limit_or_hardware (dict_or_empty (dget telemetry_scheduler ''limits'')) ?hw ''vram_bytes'' = Inr 64"
      "?ms = []" "map_sum (\<lambda>_. ()) (\<lambda>_. ()) (telemetry_warnings ?hw) = Inr ()"
    by code_simp+
  have used: "actual_ram_used_bytes telemetry_os 16384 = Inr 12288" "actual_vram_used_bytes ?hw 64 [] = Inr 48"
    by (simp add: actual_ram_used_bytes_def k ram_used_bytes_def) code_simp
  obtain r where r: "?s = Inr r"
    using agents parts(4) by (auto simp: snapshot_view_def Let_def parts(1-3) used dest!: map_sum_InrD)
  have f: "int_or_zero (dget ?hw ''free_vram_bytes'') = Inr 16" by code_simp
  show ?thesis using memory_report_bounded[OF r refl refl] r by (auto simp: parts(1,2) k f)
qed

lemma snapshot_agents_told_apart_witness:
  "\<exists>r1 r2. agent_views telemetry_disk telemetry_time telemetry_os telemetry_scheduler = Inr [r1, r2]
     \<and> view_id r1 = ''agt-1'' \<and> dget r1 ''running'' = PBool True \<and> dget r2 ''running'' = PBool False \<and> view_id r2 \<noteq> ''agt-1''"
proof -
  let ?a = "agent_views telemetry_disk telemetry_time telemetry_os telemetry_scheduler"
  have "map_sum (\<lambda>_. ()) length ?a = Inr 2" by code_simp
  then obtain r1 r2 where a: "?a = Inr [r1, r2]" by (auto dest!: map_sum_InrD simp: numeral_2_eq_2 length_Suc_conv)
  have i: "list_of_dicts (dget telemetry_scheduler ''agents'') = [[(''agent_id'', PStr ''agt-1''), (''pid'', PInt 5)]]" by code_simp
  have e: "os_exists telemetry_os (proc_path 5)" by code_simp
  from snapshot_agents_told_apart[OF a] obtain live known where l: "[r1, r2] = live @ known"
      "list_all2 (shown_alive telemetry_os) [[(''agent_id'', PStr ''agt-1''), (''pid'', PInt 5)]] live"
      "\<forall>r \<in> set known. dget r ''running'' = PBool False \<and> view_id r \<notin> view_id ` set live"
    unfolding i by blast
  then have "live = [r1]" "known = [r2]" by (auto simp: list_all2_Cons1)
  with l a e show ?thesis
    by (auto simp: shown_alive_def int_or_zero_def dget_def view_id_def dget_or_def)
qed

text \<open>
  The name of a process may have blanks in it, \<^verbatim>\<open>(my tool)\<close>; then every field of its \<^verbatim>\<open>stat\<close> line
  is one further on, and what is shown as its time adds the major faults of its children to the user time.
\<close>

theorem blank_in_name_shifts_time:
  "cpu_of_stat 1 ''7 (tool) S 1 2 3 4 5 6 7 8 9 40 500 60 0 0 20'' = PFloat (to_float 560)
   \<and> cpu_of_stat 1 ''7 (my tool) S 1 2 3 4 5 6 7 8 9 40 500 60 0 0 20'' = PFloat (to_float 540)"
proof -
  have ws: "split_ws ''7 (tool) S 1 2 3 4 5 6 7 8 9 40 500 60 0 0 20''
      = [''7'', ''(tool)'', ''S'', ''1'', ''2'', ''3'', ''4'', ''5'', ''6'', ''7'', ''8'', ''9'', ''40'', ''500'', ''60'', ''0'', ''0'', ''20'']"
    "split_ws ''7 (my tool) S 1 2 3 4 5 6 7 8 9 40 500 60 0 0 20''
      = [''7'', ''(my'', ''tool)'', ''S'', ''1'', ''2'', ''3'', ''4'', ''5'', ''6'', ''7'', ''8'', ''9'', ''40'', ''500'', ''60'', ''0'', ''0'', ''20'']"
    by code_simp+
  have n: "parse_int ''40'' = Some 40" "parse_int ''500'' = Some 500" "parse_int ''60'' = Some 60" by code_simp+
  show ?thesis by (simp add: cpu_of_stat_def Let_def ws n)
qed

end
