(* ===== verification/Control_Api.thy ===== *)
theory Control_Api
  imports Http_Api App_Models Telemetry
begin

text \<open>
  \<^verbatim>\<open>bubblehub/app/api.py\<close>: the HTTP interface of the desktop. A handler is a program on the host (the
  file system, the native library, the signals sent) that gives the one response it sends. Every request
  makes a scheduler client of its own. \<^verbatim>\<open>rq_path\<close> is the request target as \<^verbatim>\<open>BaseHTTPRequestHandler\<close> read
  it; the log messages are left out (\<open>Bubble_Log\<close> has their form), and the socket server is the caller.
\<close>

section \<open>The target of a request\<close>

text \<open>
  \<^verbatim>\<open>urlparse\<close>, of which the path and the query are used: control characters and blanks at the front and
  tabs and line ends anywhere are dropped, the parameters behind a semicolon of the last component are
  split off for the schemes that have them. Whether the text between brackets is an address is for the
  \<^verbatim>\<open>ipaddress\<close> module to say.
\<close>

definition uses_params :: "string list" where
  "uses_params = ['''', ''ftp'', ''hdl'', ''prospero'', ''http'', ''imap'', ''https'', ''shttp'', ''rtsp'', ''rtsps'', ''rtspu'',
     ''sip'', ''sips'', ''mms'', ''sftp'', ''tel'']"

definition without_params :: "string \<Rightarrow> string" where
  "without_params p =
     (let segment = rev (takeWhile (\<lambda>c. c \<noteq> CHR ''/'') (rev p)) in
      take (length p - length segment) p @ before_char CHR '';'' segment)"

definition request_url :: "(string \<Rightarrow> bool) \<Rightarrow> string \<Rightarrow> (string \<times> string) result" where
  "request_url bracket_ok url =
     (let cleaned = filter (\<lambda>c. code c \<notin> set [9, 10, 13]) (dropWhile (\<lambda>c. code c \<le> 32) url);
          scheme = fst (split_scheme cleaned); rest = snd (split_scheme cleaned); netloc = split_netloc rest;
          rest = (if startswith ''//'' rest then drop (2 + length netloc) rest else rest);
          rest = before_char CHR ''#'' rest; p = before_char CHR ''?'' rest in
      if has_char CHR ''['' netloc \<noteq> has_char CHR '']'' netloc then Inl (ValueError ''Invalid IPv6 URL'')
      else if has_char CHR ''['' netloc \<and> \<not> bracket_ok (before_char CHR '']'' (after_char CHR ''['' netloc))
      then Inl (ValueError ''netloc does not appear to be an IPv4 or IPv6 address'')
      else Inr (if scheme \<in> set uses_params then without_params p else p, after_char CHR ''?'' rest))"

text \<open>
  \<^verbatim>\<open>unquote\<close>: the percent escapes of every run of ASCII characters are bytes, read as UTF-8 with a
  replacement character for what is not; like every character beyond Latin-1 that one is a question mark.
\<close>

fun unquote_bytes :: "string \<Rightarrow> string" where
  "unquote_bytes (c # d # e # s) =
     (if c = CHR ''%'' then
        (case (hex_val d, hex_val e) of
           (Some x, Some y) \<Rightarrow> char_of (16 * x + y) # unquote_bytes s
         | _ \<Rightarrow> c # unquote_bytes (d # e # s))
      else c # unquote_bytes (d # e # s))"
| "unquote_bytes s = s"

text \<open>How many of the bytes after a first one belong to its character, as far as they are right.\<close>

definition second_byte_ok :: "nat \<Rightarrow> char \<Rightarrow> bool" where
  "second_byte_ok n d \<longleftrightarrow> tail_byte d \<and> (n = 224 \<longrightarrow> 160 \<le> code d) \<and> (n = 237 \<longrightarrow> code d < 160)
     \<and> (n = 240 \<longrightarrow> 144 \<le> code d) \<and> (n = 244 \<longrightarrow> code d < 144)"

definition tail_length :: "nat \<Rightarrow> string \<Rightarrow> nat" where
  "tail_length n s =
     (let k = (if 194 \<le> n \<and> n < 224 then 1 else if 224 \<le> n \<and> n < 240 then 2 else if 240 \<le> n \<and> n < 245 then 3 else 0) in
      case take k s of [] \<Rightarrow> 0 | d # ds \<Rightarrow> if second_byte_ok n d then Suc (length (takeWhile tail_byte ds)) else 0)"

function utf8_replace :: "string \<Rightarrow> string" where
  "utf8_replace s =
     (case s of
        [] \<Rightarrow> []
      | c # t \<Rightarrow>
          (let n = code c; k = tail_length n t in
           (if n < 128 then c
            else if n < 224 \<and> k = 1 then code_point ((n - 192) * 64 + (code (hd t) - 128))
            else CHR ''?'') # utf8_replace (drop k t)))"
  by auto

termination by (relation "measure length") auto

declare utf8_replace.simps [simp del]

function unquote :: "string \<Rightarrow> string" where
  "unquote s =
     (case s of
        [] \<Rightarrow> []
      | c # t \<Rightarrow> if code c < 128
          then utf8_replace (unquote_bytes (takeWhile (\<lambda>d. code d < 128) s)) @ unquote (dropWhile (\<lambda>d. code d < 128) s)
          else c # unquote t)"
  by auto

termination by (relation "measure length") (auto simp: le_imp_less_Suc length_dropWhile_le)

declare unquote.simps [simp del]

text \<open>\<^verbatim>\<open>parse_qs(query).get(name, [d])[0]\<close>: the first field of that name that has a value.\<close>

definition unquote_plus :: "string \<Rightarrow> string" where
  "unquote_plus s = unquote (map (\<lambda>c. if c = CHR ''+'' then CHR '' '' else c) s)"

definition query_fields :: "string \<Rightarrow> (string \<times> string) list" where
  "query_fields query =
     map (\<lambda>f. (unquote_plus (before_char CHR ''='' f), unquote_plus (after_char CHR ''='' f)))
       (filter (\<lambda>f. after_char CHR ''='' f \<noteq> []) (split_on CHR ''&'' query))"

definition query_value :: "string \<Rightarrow> string \<Rightarrow> string \<Rightarrow> string" where
  "query_value query field d = (case map_of (query_fields query) field of None \<Rightarrow> d | Some x \<Rightarrow> x)"

definition agents_prefix :: string where "agents_prefix = ''/api/agents/''"

definition agent_id_from_path :: "string \<Rightarrow> string \<Rightarrow> string result" where
  "agent_id_from_path p suffix =
     (if \<not> startswith agents_prefix p \<or> \<not> endswith suffix p then Inl (ValueError ''invalid agent manifest path'')
      else (let agent_id = strip_char CHR ''/'' (unquote (drop (length agents_prefix) (take (length p - length suffix) p))) in
        if agent_id = [] then Inl (ValueError ''agent id is required'') else Inr agent_id))"

definition agent_route :: "string \<Rightarrow> string \<Rightarrow> bool" where
  "agent_route p suffix \<longleftrightarrow> startswith agents_prefix p \<and> endswith suffix p"

section \<open>Responses\<close>

definition control_json :: "pydict \<Rightarrow> int \<Rightarrow> http_response" where
  "control_json payload status =
     (let encoded = utf8_encode (json_dumps (PDict payload)) in
      \<lparr>rs_status = status,
       rs_headers = [(''content-type'', ''application/json''), (''content-length'', show_int (int (length encoded))),
         (''access-control-allow-origin'', ''http://127.0.0.1'')],
       rs_body = encoded\<rparr>)"

definition control_error :: "int \<Rightarrow> string \<Rightarrow> http_response" where
  "control_error status message = control_json (error_payload status message) status"

definition control_bytes :: "string \<Rightarrow> string \<Rightarrow> http_response" where
  "control_bytes body content_type =
     \<lparr>rs_status = 200,
      rs_headers = [(''content-type'', content_type), (''content-length'', show_int (int (length body)))],
      rs_body = body\<rparr>"

definition control_text :: "string \<Rightarrow> string \<Rightarrow> http_response" where
  "control_text payload content_type = control_bytes (utf8_encode payload) content_type"

section \<open>Assets\<close>

record control_params =
  cp_host :: host_params
  cp_limits :: "(pyfloat option \<times> pyfloat option) result"
  cp_app :: app_params
  cp_clock :: telemetry_clock
  cp_speciality :: string
  cp_prefix :: path
  cp_version :: string
  cp_bracket_ok :: "string \<Rightarrow> bool"

definition path_subs :: "path \<Rightarrow> string list \<Rightarrow> path" where
  "path_subs = foldl path_sub"

definition configured_dir :: "os_view \<Rightarrow> string \<Rightarrow> path list" where
  "configured_dir v key = (case env_nonempty (os_environ v) key of
     None \<Rightarrow> [] | Some d \<Rightarrow> [expanduser (os_home v) (path_of d)])"

definition find_asset :: "os_view \<Rightarrow> path list \<Rightarrow> string \<Rightarrow> string \<Rightarrow> path result" where
  "find_asset v directories asset message =
     (case find (os_is_file v) (map (\<lambda>d. path_sub d asset) directories) of
        Some p \<Rightarrow> Inr p | None \<Rightarrow> Inl (FileNotFoundError (message @ asset)))"

definition static_asset :: "control_params \<Rightarrow> string \<Rightarrow> os_view \<Rightarrow> path result" where
  "static_asset cp asset v =
     find_asset v (configured_dir v ''BUBBLEHUB_APP_STATIC_DIR'' @
       [path_subs (abs_path (os_source v)) [''app'', ''static''],
        path_subs (cp_prefix cp) [''share'', ''bubblehub'', ''app'', ''static''],
        path_of ''/usr/share/bubblehub/app/static'']) asset ''Desktop static asset not found: ''"

definition icon_asset :: "control_params \<Rightarrow> string \<Rightarrow> os_view \<Rightarrow> path result" where
  "icon_asset cp asset v =
     find_asset v (configured_dir v ''BUBBLEHUB_APP_ICON_DIR'' @
       [path_subs (abs_path (os_source v)) [''app'', ''icons''],
        path_subs (abs_path (os_source v)) [''app'', ''icons'', ''models''],
        path_subs (cp_prefix cp) [''share'', ''bubblehub'', ''app'', ''icons''],
        path_subs (cp_prefix cp) [''share'', ''bubblehub'', ''app'', ''icons'', ''models''],
        path_of ''/usr/share/bubblehub/app/icons'', path_of ''/usr/share/bubblehub/app/icons/models'']) asset
       ''Desktop icon not found: ''"

definition send_static :: "control_params \<Rightarrow> string \<Rightarrow> string \<Rightarrow> http_response hosted" where
  "send_static cp asset content_type =
     asks (\<lambda>v. bindr (static_asset cp asset v) (\<lambda>p. bindr (os_read_text v p) (\<lambda>t. Inr (control_text t content_type))))"

definition allowed_icons :: "string list" where
  "allowed_icons = [''bubblehub-icon.svg'', ''nvidia.svg'', ''qwen.svg'', ''mistral.svg'']"

definition send_icon :: "control_params \<Rightarrow> string \<Rightarrow> http_response hosted" where
  "send_icon cp icon =
     (if icon \<notin> set allowed_icons then returnn (control_error 404 (''unknown icon: '' @ icon))
      else asks (\<lambda>v. bindr (icon_asset cp icon v) (\<lambda>p. bindr (read_file (os_fs v) (os_cwd v) p) (\<lambda>b.
        Inr (control_bytes b (if endswith ''.svg'' icon then ''image/svg+xml'' else ''image/png''))))))"

section \<open>The handlers\<close>

type_synonym 'a handler = "(Agent_Records.host, 'a) prog"

abbreviation cp_lib :: "control_params \<Rightarrow> native_lib" where "cp_lib cp \<equiv> hp_lib (cp_host cp)"

definition control_client :: "control_params \<Rightarrow> unit handler" where
  "control_client cp = on_native (scheduler_client (cp_lib cp) (cp_limits cp))"

definition ok_json :: "pydict \<Rightarrow> http_response" where "ok_json payload = control_json payload 200"

definition agent_manifest :: "control_params \<Rightarrow> string \<Rightarrow> pydict handler" where
  "agent_manifest cp agent_id =
     bindn (control_client cp) (\<lambda>_. bindn (on_native (access_manifest (cp_lib cp) agent_id)) (\<lambda>manifest.
       returnn [(''agent_id'', PStr agent_id), (''manifest'', PDict manifest)]))"

definition access_policies :: "string list" where "access_policies = [''always'', ''never'', ''ask'']"

definition body_text :: "pydict \<Rightarrow> string \<Rightarrow> string" where
  "body_text body key = py_str (dget_or body key (PStr ''''))"

definition apply_manifest_policy :: "control_params \<Rightarrow> string \<Rightarrow> pydict \<Rightarrow> http_response handler" where
  "apply_manifest_policy cp p body =
     bindn (liftn (agent_id_from_path p ''/manifest/policies'')) (\<lambda>agent_id.
       let policy = body_text body ''policy'' in
       if policy \<notin> set access_policies then raisen (ValueError ''policy must be one of: always, never, ask'')
       else bindn (control_client cp) (\<lambda>_.
         bindn (on_native (apply_access_policy (cp_lib cp) agent_id (body_text body ''kind'') (body_text body ''subject'')
             (body_text body ''method'') (body_text body ''path'') policy)) (\<lambda>_.
         bindn (agent_manifest cp agent_id) (\<lambda>payload. returnn (ok_json payload)))))"

definition post_stop :: "control_params \<Rightarrow> string \<Rightarrow> http_response handler" where
  "post_stop cp p =
     bindn (liftn (agent_id_from_path p ''/stop'')) (\<lambda>agent_id. bindn (control_client cp) (\<lambda>_.
       bindn (stop_agent (cp_host cp) agent_id) (\<lambda>payload. returnn (ok_json payload))))"

definition post_delete :: "control_params \<Rightarrow> string \<Rightarrow> http_response handler" where
  "post_delete cp p =
     bindn (liftn (agent_id_from_path p ''/delete'')) (\<lambda>agent_id. bindn (control_client cp) (\<lambda>_.
       bindn (delete_agent (cp_host cp) agent_id) (\<lambda>payload. returnn (ok_json payload))))"

definition post_select :: "control_params \<Rightarrow> pydict \<Rightarrow> http_response handler" where
  "post_select cp body =
     (let speciality = py_str (py_or (dget body ''speciality'') (py_or (dget body ''specialty'') (PStr (cp_speciality cp))));
          model_name = py_str (py_or (dget body ''model_name'') (py_or (dget body ''model'') (PStr ''''))) in
      if model_name = [] then raisen (ValueError ''model_name is required'')
      else bindn (on_os (select_model_for_speciality (cp_app cp) speciality model_name)) (\<lambda>payload.
        returnn (ok_json payload)))"

text \<open>Iterating over a dict or a text gives texts, which are no dicts; anything else cannot be iterated.\<close>

definition model_names :: "pyval \<Rightarrow> string list result" where
  "model_names models =
     (case models of
        PList xs \<Rightarrow> Inr (concat (map (\<lambda>item. case item of
          PDict d \<Rightarrow> if truthy (dget d ''name'') then [py_str (dget d ''name'')] else [] | _ \<Rightarrow> []) xs))
      | PDict _ \<Rightarrow> Inr [] | PStr _ \<Rightarrow> Inr []
      | _ \<Rightarrow> Inl (TypeError ''object is not iterable''))"

fun evict_all :: "control_params \<Rightarrow> string list \<Rightarrow> unit handler" where
  "evict_all cp [] = returnn ()"
| "evict_all cp (model_name # names) = bindn (on_native (evict_model (cp_lib cp) model_name)) (\<lambda>_. evict_all cp names)"

definition evicted_names :: "control_params \<Rightarrow> pydict \<Rightarrow> string list handler" where
  "evicted_names cp body =
     (if truthy (dget body ''all'') then
        bindn (on_native (status_snapshot (cp_lib cp))) (\<lambda>snap. liftn (model_names (dget_or snap ''models'' (PList []))))
      else (let model_name = py_str (py_or (dget body ''name'') (py_or (dget body ''model_name'') (PStr ''''))) in
        if model_name = [] then raisen (ValueError ''name is required unless all=true'') else returnn [model_name]))"

definition evict_models :: "control_params \<Rightarrow> pydict \<Rightarrow> http_response handler" where
  "evict_models cp body =
     bindn (control_client cp) (\<lambda>_. bindn (evicted_names cp body) (\<lambda>names. bindn (evict_all cp names) (\<lambda>_.
       returnn (ok_json [(''evicted'', PList (map PStr names))]))))"

definition control_unknown :: "string \<Rightarrow> http_response" where
  "control_unknown p = control_error 404 (''unknown endpoint: '' @ p)"

definition get_route :: "control_params \<Rightarrow> string \<Rightarrow> string \<Rightarrow> http_response handler" where
  "get_route cp p query =
     (if p = ''/'' then on_os (send_static cp ''index.html'' ''text/html; charset=utf-8'')
      else if p = ''/app.js'' then on_os (send_static cp ''app.js'' ''application/javascript; charset=utf-8'')
      else if p = ''/style.css'' then on_os (send_static cp ''style.css'' ''text/css; charset=utf-8'')
      else if startswith ''/icons/'' p then on_os (send_icon cp (path_name (path_of p)))
      else if p = ''/health'' then
        returnn (ok_json [(''status'', PStr ''ok''), (''service'', PStr ''bubblehub''), (''version'', PStr (cp_version cp)),
          (''time'', PFloat (tc_now (cp_clock cp)))])
      else if p = ''/api/telemetry'' then
        bindn (control_client cp) (\<lambda>_. bindn (control_snapshot (cp_host cp) (cp_clock cp)) (\<lambda>payload. returnn (ok_json payload)))
      else if p = ''/api/manifest/pending'' then
        bindn (control_client cp) (\<lambda>_. bindn (on_native (pending_access (cp_lib cp))) (\<lambda>pending.
          returnn (ok_json [(''pending'', PList (map PDict pending))])))
      else if agent_route p ''/manifest'' then
        bindn (liftn (agent_id_from_path p ''/manifest'')) (\<lambda>agent_id.
          bindn (agent_manifest cp agent_id) (\<lambda>payload. returnn (ok_json payload)))
      else if p = ''/api/models'' then
        bindn (on_os (asks (models_overview (cp_app cp) (query_value query ''speciality'' (cp_speciality cp))))) (\<lambda>payload.
          returnn (ok_json payload))
      else returnn (control_unknown p))"

definition control_post_route :: "control_params \<Rightarrow> string \<Rightarrow> pydict \<Rightarrow> http_response handler" where
  "control_post_route cp p body =
     (if agent_route p ''/stop'' then post_stop cp p
      else if agent_route p ''/delete'' then post_delete cp p
      else if agent_route p ''/manifest/policies'' then apply_manifest_policy cp p body
      else if p = ''/api/models/select'' then post_select cp body
      else if p = ''/api/models/evict'' then evict_models cp body
      else returnn (control_unknown p))"

text \<open>The \<^verbatim>\<open>except\<close> clauses. The target is parsed before the \<^verbatim>\<open>try\<close>: what that raises is not answered.\<close>

definition answered :: "http_response handler \<Rightarrow> http_response handler" where
  "answered m s = (case m s of
     (Inr r, s') \<Rightarrow> (Inr r, s')
   | (Inl e, s') \<Rightarrow> (Inr (control_error (if is_value_error e then 400 else 502) (exn_text e)), s'))"

definition trimmed :: "string \<Rightarrow> string" where
  "trimmed p = (let t = rstrip_char CHR ''/'' p in if t = [] then ''/'' else t)"

definition control_GET :: "control_params \<Rightarrow> http_request \<Rightarrow> http_response handler" where
  "control_GET cp req =
     bindn (liftn (request_url (cp_bracket_ok cp) (rq_path req))) (\<lambda>(p, query). answered (get_route cp (trimmed p) query))"

definition control_read_json :: "http_request \<Rightarrow> pydict result" where
  "control_read_json req =
     bindr (py_int (PStr (case rq_content_length req of None \<Rightarrow> ''0'' | Some s \<Rightarrow> s))) (\<lambda>n.
     if n \<le> 0 then Inl (ValueError ''request body is required'')
     else bindr (bindr (decode_utf8 (take (nat n) (rq_body req))) json_loads) (\<lambda>data.
       case data of PDict d \<Rightarrow> Inr d | _ \<Rightarrow> Inl (ValueError ''request body must be a JSON object'')))"

text \<open>Both servers read a body the same way.\<close>

lemma control_read_json: "control_read_json req = read_json req"
  by (auto simp: control_read_json_def read_json_def Let_def bindr_def split: sum.splits)

definition control_POST :: "control_params \<Rightarrow> http_request \<Rightarrow> http_response handler" where
  "control_POST cp req =
     bindn (liftn (request_url (cp_bracket_ok cp) (rq_path req))) (\<lambda>(p, query).
       answered (bindn (liftn (control_read_json req)) (control_post_route cp (trimmed p))))"

section \<open>What a handler calls\<close>

text \<open>Programs that append to the history of the native library, and only events of a kind.\<close>

named_theorems calls_rules \<open>the native calls a program makes\<close>

definition calls_only :: "(native_event \<Rightarrow> bool) \<Rightarrow> 'a handler \<Rightarrow> bool" where
  "calls_only P m \<longleftrightarrow> (\<forall>s. \<exists>es. ho_native (snd (m s)) = ho_native s @ es \<and> list_all P es)"

lemma calls_onlyI: "(\<And>s. \<exists>es. ho_native (snd (m s)) = ho_native s @ es \<and> list_all P es) \<Longrightarrow> calls_only P m"
  by (simp add: calls_only_def)

lemma calls_none: "(\<And>s. ho_native (snd (m s)) = ho_native s) \<Longrightarrow> calls_only P m"
  by (rule calls_onlyI) (rule exI[of _ "[]"], simp)

lemma calls_basic [calls_rules]: "calls_only P (returnn x)" "calls_only P (raisen e)" "calls_only P (liftn r)" "calls_only P (on_os m)"
  by (rule calls_none; simp add: native_simps on_os_def split: prod.splits)+

lemma calls_bindn [calls_rules]:
  assumes "calls_only P m" "\<And>x. calls_only P (k x)" shows "calls_only P (bindn m k)"
proof (rule calls_onlyI)
  fix s
  from assms(1) obtain es where es: "ho_native (snd (m s)) = ho_native s @ es" "list_all P es" unfolding calls_only_def by blast
  show "\<exists>es. ho_native (snd (bindn m k s)) = ho_native s @ es \<and> list_all P es"
  proof (cases "m s")
    case (Pair r s1)
    show ?thesis
    proof (cases r)
      case (Inl e)
      with es Pair show ?thesis by (auto simp: native_simps)
    next
      case (Inr x)
      from assms(2)[of x] obtain es' where "ho_native (snd (k x s1)) = ho_native s1 @ es'" "list_all P es'"
        unfolding calls_only_def by blast
      with es Pair Inr show ?thesis by (intro exI[of _ "es @ es'"]) (simp add: native_simps)
    qed
  qed
qed

lemma calls_if [calls_rules]: "(b \<Longrightarrow> calls_only P m) \<Longrightarrow> (\<not> b \<Longrightarrow> calls_only P m') \<Longrightarrow> calls_only P (if b then m else m')"
  by simp

lemma calls_prod [calls_rules]: "(\<And>x y. calls_only P (k x y)) \<Longrightarrow> calls_only P (case p of (x, y) \<Rightarrow> k x y)"
  by (cases p) simp

text \<open>The two shapes of a native call.\<close>

lemma calls_status: "(\<And>n. P (StatusReply c n)) \<Longrightarrow> calls_only P (on_native (status_call lib c msg))"
  by (rule calls_onlyI) (simp add: on_native_def status_call_def Let_def)

lemma calls_text:
  assumes "\<And>t. P (TextReply c t)" "P (FreeString free)"
  shows "calls_only P (on_native (text_call lib c free msg check))"
  by (rule calls_onlyI) (simp add: on_native_def text_call_def Let_def assms split: option.splits)

lemma on_native_bindn: "on_native (bindn m k) = bindn (on_native m) (\<lambda>x. on_native (k x))"
  by (rule ext) (simp add: on_native_def native_simps split: prod.splits sum.splits)

lemma on_native_basic: "on_native (returnn x) = returnn x" "on_native (liftn r) = liftn r"
  by (rule ext, simp add: on_native_def native_simps)+

lemma calls_client [calls_rules]: "(\<And>r v n. P (StatusReply (ConfigureLimits r v) n)) \<Longrightarrow> calls_only P (control_client cp)"
  unfolding control_client_def scheduler_client_def on_native_bindn on_native_basic
  by (auto simp: configure_limits_def split: prod.splits intro!: calls_rules calls_status)

lemma calls_snapshot [calls_rules]:
  "(\<And>t. P (TextReply SnapshotJson t)) \<Longrightarrow> P (FreeString SchedulerFree) \<Longrightarrow> calls_only P (on_native (status_snapshot lib))"
  unfolding status_snapshot_def snapshot_def on_native_bindn on_native_basic by (intro calls_rules calls_text)

lemma calls_manifest [calls_rules]:
  "(\<And>t. P (TextReply (AccessManifestJson (bytes i)) t)) \<Longrightarrow> P (FreeString AccessFree) \<Longrightarrow> (\<And>r v n. P (StatusReply (ConfigureLimits r v) n)) \<Longrightarrow>
     calls_only P (agent_manifest cp i)"
  unfolding agent_manifest_def access_manifest_def by (intro calls_rules calls_text)

lemma calls_stop [calls_rules]:
  assumes "\<And>t. P (TextReply SnapshotJson t)" "P (FreeString SchedulerFree)" "\<And>n. P (StatusReply (DeregisterAgent (bytes i)) n)"
  shows "calls_only P (stop_agent hp i)"
proof -
  have t: "calls_only P (terminate_process hp pid)" for pid
    by (rule calls_none) (auto simp: terminate_process_def split: sum.splits exn.splits)
  have o: "calls_only P (case a of None \<Rightarrow> raisen e | Some x \<Rightarrow> k x)" if "\<And>x. calls_only P (k x)" for a e and k :: "pydict \<Rightarrow> pydict handler"
    using that by (cases a) (simp_all add: calls_rules)
  show ?thesis unfolding stop_agent_def deregister_agent_def
    by (intro calls_rules calls_status o t assms)
qed

lemma calls_delete [calls_rules]:
  assumes "\<And>t. P (TextReply SnapshotJson t)" "P (FreeString SchedulerFree)" "\<And>n. P (StatusReply (DeregisterAgent (bytes i)) n)"
  shows "calls_only P (delete_agent hp i)"
  unfolding delete_agent_def by (intro calls_rules assms)

lemma calls_evict [calls_rules]: "(\<And>m n. P (StatusReply (EvictModel m) n)) \<Longrightarrow> calls_only P (evict_all cp names)"
  by (induction names) (auto simp: evict_model_def intro!: calls_rules calls_status)

section \<open>What a handler answers and leaves alone\<close>

definition good_response :: "http_response \<Rightarrow> bool" where
  "good_response r \<longleftrightarrow> framed r \<and> rs_status r \<in> {200, 404}"

lemma framed_control: "framed (control_json p n)" "framed (control_bytes b t)"
  by (simp_all add: framed_def control_json_def control_bytes_def Let_def)

lemma control_status [simp]: "rs_status (control_json p n) = n" "rs_status (control_error n m) = n" "rs_status (control_bytes b t) = 200"
  by (simp_all add: control_json_def control_error_def control_bytes_def Let_def)

lemma good_responses: "good_response (ok_json p)" "good_response (control_unknown q)" "good_response (control_error 404 m)"
    "good_response (control_text t c)" "good_response (control_bytes b c)"
  by (simp_all add: good_response_def ok_json_def control_unknown_def control_error_def control_text_def framed_control)

text \<open>
  The contract of a route: what it returns is a framed 200 or 404. The \<^verbatim>\<open>except\<close> clauses then answer
  everything, and change nothing of the state it leaves.
\<close>

locale control_route =
  fixes route :: "http_response handler"
  assumes good: "yields good_response route"
begin

lemma answers: "\<exists>r. answered route s = (Inr r, snd (route s)) \<and> framed r \<and> rs_status r \<in> {200, 400, 404, 502}"
proof (cases "route s")
  case (Pair q s')
  with yieldsD[OF good, of s _ s'] show ?thesis
    by (cases q) (auto simp: answered_def good_response_def control_error_def framed_control)
qed

end

lemma yields_ok: "yields good_response (bindn m (\<lambda>payload. returnn (ok_json (f payload))))"
  by (rule yields_bindn) (rule yields_basic(1), rule good_responses)

lemma yields_if [yields_rules]: "yields Q m \<Longrightarrow> yields Q m' \<Longrightarrow> yields Q (if b then m else m')"
  by simp

lemmas yields_returnn_good = yields_basic(1)[of good_response]

lemma yields_asset: "yields good_response (on_os (send_static cp n t))" "yields good_response (on_os (send_icon cp n))"
  by (auto simp: yields_def on_os_def send_static_def send_icon_def asks_def bindr_eq_Inr returnn_def good_responses split: prod.splits if_splits)

lemma yields_get: "yields good_response (get_route cp p query)"
  unfolding get_route_def
  by (auto intro!: yields_ok yields_bindn yields_asset yields_basic(1) good_responses)

lemma yields_post: "yields good_response (bindn (liftn body) (control_post_route cp p))"
  unfolding control_post_route_def[abs_def] post_stop_def post_delete_def post_select_def apply_manifest_policy_def evict_models_def Let_def
  by (rule yields_bindn, intro yields_if yields_ok yields_bindn yields_basic(2) yields_returnn_good; rule good_responses)

interpretation get_handler: control_route "get_route cp p query" for cp p query
  by unfold_locales (rule yields_get)

interpretation post_handler: control_route "bindn (liftn body) (control_post_route cp p)" for body cp p
  by unfold_locales (rule yields_post)

lemma keeps_native [keeps_rules]: "keeps ho_os (on_native m)" "keeps ho_signals (on_native m)" "keeps ho_signals (on_os k)"
  by (simp_all add: keeps_def on_os_def split: prod.splits)

lemma keeps_read [keeps_rules]: "keeps ho_os (on_os (asks f))"
  by (simp add: keeps_def on_os_def asks_def)

lemma keeps_client [keeps_rules]: "keeps ho_os (control_client cp)" "keeps ho_signals (control_client cp)"
  by (simp_all add: control_client_def keeps_rules)

lemma keeps_answered [keeps_rules]: "keeps f m \<Longrightarrow> keeps f (answered m)"
  unfolding keeps_def answered_def by (auto split: prod.splits sum.splits) (metis snd_conv)+

lemma keeps_agent_manifest [keeps_rules]: "keeps ho_os (agent_manifest cp i)" "keeps ho_signals (agent_manifest cp i)"
  unfolding agent_manifest_def by (intro keeps_rules)+

lemma keeps_evict [keeps_rules]: "keeps ho_os (evict_all cp names)" "keeps ho_signals (evict_all cp names)"
  by (induction names) (auto intro!: keeps_rules)

lemma keeps_assets [keeps_rules]: "keeps ho_os (on_os (send_static cp n t))" "keeps ho_os (on_os (send_icon cp n))"
  by (auto simp: keeps_def on_os_def send_static_def send_icon_def asks_def returnn_def split: prod.splits)

lemma keeps_get: "keeps ho_os (get_route cp p query)" "keeps ho_signals (get_route cp p query)"
  unfolding get_route_def control_snapshot_def by (intro keeps_rules)+

text \<open>Programs that only remove files of a set of places, and programs that send one signal at most.\<close>

named_theorems effect_rules \<open>files removed and signals sent\<close>

definition removes_only :: "(fs \<Rightarrow> place set) \<Rightarrow> 'a handler \<Rightarrow> bool" where
  "removes_only A m \<longleftrightarrow> (\<forall>s k. os_fs (ho_os (snd (m s))) k = os_fs (ho_os s) k
     \<or> k \<in> A (os_fs (ho_os s)) \<and> os_fs (ho_os (snd (m s))) k = None)"

definition one_signal :: "'a handler \<Rightarrow> bool" where
  "one_signal m \<longleftrightarrow> (\<forall>s. ho_signals (snd (m s)) = ho_signals s
     \<or> (\<exists>pid. 0 < pid \<and> ho_signals (snd (m s)) = ho_signals s @ [pid]))"

lemma effect_keeps: "keeps ho_os m \<Longrightarrow> removes_only A m" "keeps ho_signals m \<Longrightarrow> one_signal m"
  by (simp_all add: keeps_def removes_only_def one_signal_def)

lemma removes_bindn:
  assumes "removes_only A m" "place_rule A" "\<And>x. removes_only A (k x)" shows "removes_only A (bindn m k)"
  unfolding removes_only_def
proof (intro allI)
  fix s :: host and j
  let ?fs = "os_fs (ho_os s)"
  show "os_fs (ho_os (snd (bindn m k s))) j = ?fs j \<or> j \<in> A ?fs \<and> os_fs (ho_os (snd (bindn m k s))) j = None"
  proof (cases "m s")
    case (Pair q s1)
    let ?f1 = "os_fs (ho_os s1)"
    have m: "\<forall>j. ?f1 j = ?fs j \<or> j \<in> A ?fs \<and> ?f1 j = None"
      using assms(1) Pair unfolding removes_only_def by (metis snd_conv)
    then have sub: "A ?f1 \<subseteq> A ?fs" using assms(2) removed_rest[OF m] by (simp add: place_rule_def)
    show ?thesis
    proof (cases q)
      case (Inr x)
      have "os_fs (ho_os (snd (k x s1))) j = ?f1 j \<or> j \<in> A ?f1 \<and> os_fs (ho_os (snd (k x s1))) j = None"
        using assms(3) unfolding removes_only_def by blast
      with spec[OF m, of j] subsetD[OF sub, of j] Pair Inr show ?thesis by (auto simp: native_simps)
    qed (use m Pair in \<open>simp add: native_simps\<close>)
  qed
qed

lemma signal_before:
  assumes "keeps ho_signals m" "\<And>x. one_signal (k x)" shows "one_signal (bindn m k)"
  unfolding one_signal_def
proof
  fix s
  show "ho_signals (snd (bindn m k s)) = ho_signals s \<or> (\<exists>pid. 0 < pid \<and> ho_signals (snd (bindn m k s)) = ho_signals s @ [pid])"
    using keepsD[OF assms(1), of s] spec[OF assms(2)[unfolded one_signal_def]]
    by (cases "m s"; cases "fst (m s)") (simp_all add: native_simps, metis)
qed

lemma signal_after:
  assumes "one_signal m" "\<And>x. keeps ho_signals (k x)" shows "one_signal (bindn m k)"
  unfolding one_signal_def
proof
  fix s
  show "ho_signals (snd (bindn m k s)) = ho_signals s \<or> (\<exists>pid. 0 < pid \<and> ho_signals (snd (bindn m k s)) = ho_signals s @ [pid])"
    using spec[OF assms(1)[unfolded one_signal_def], of s] assms(2) unfolding keeps_def
    by (cases "m s"; cases "fst (m s)") (auto simp: native_simps)
qed

lemma effect_if:
  "(b \<Longrightarrow> removes_only A m) \<Longrightarrow> (\<not> b \<Longrightarrow> removes_only A m') \<Longrightarrow> removes_only A (if b then m else m')"
  "(b \<Longrightarrow> one_signal m) \<Longrightarrow> (\<not> b \<Longrightarrow> one_signal m') \<Longrightarrow> one_signal (if b then m else m')"
  by simp_all

lemma keeps_stop [keeps_rules]: "keeps ho_os (stop_agent hp i)"
  unfolding keeps_def using stop_agent_run by (metis prod.collapse)

lemma signal_stop: "one_signal (stop_agent hp i)"
  unfolding one_signal_def using stop_agent_run[of hp i] by (metis prod.collapse)

lemma signal_delete: "one_signal (delete_agent hp i)"
  unfolding delete_agent_def
  by (intro signal_before signal_after effect_if signal_stop keeps_rules; intro effect_keeps keeps_rules)

lemma removes_delete: "tree_removal (dk_rm (hp_disk hp)) \<Longrightarrow> removes_only (agent_places i) (delete_agent hp i)"
  unfolding removes_only_def using delete_agent_os by blast

lemma keeps_posts [keeps_rules]:
  "keeps ho_os (post_stop cp p)" "keeps ho_os (apply_manifest_policy cp p body)" "keeps ho_os (evict_models cp body)"
  "keeps ho_signals (apply_manifest_policy cp p body)" "keeps ho_signals (evict_models cp body)" "keeps ho_signals (post_select cp body)"
  unfolding post_stop_def apply_manifest_policy_def evict_models_def evicted_names_def post_select_def Let_def
  by (intro keeps_rules)+

lemma signal_posts: "one_signal (post_stop cp p)" "one_signal (post_delete cp p)"
  unfolding post_stop_def post_delete_def
  by (rule signal_before, rule keeps_rules, rule signal_before, rule keeps_rules, rule signal_after,
      rule signal_stop signal_delete, rule keeps_rules)+

lemma signal_post: "one_signal (bindn (liftn body) (control_post_route cp p))"
  unfolding control_post_route_def[abs_def]
  by (rule signal_before, rule keeps_rules) (intro effect_if signal_posts; intro effect_keeps keeps_rules)

lemma removes_post_delete:
  assumes "tree_removal (dk_rm (hp_disk (cp_host cp)))" "\<And>i. agent_id_from_path p ''/delete'' = Inr i \<Longrightarrow> A = agent_places i"
  shows "removes_only A (post_delete cp p)"
proof (cases "agent_id_from_path p ''/delete''")
  case (Inl e)
  then show ?thesis by (simp add: removes_only_def post_delete_def native_simps)
next
  case (Inr i)
  have "removes_only (agent_places i) (bindn (control_client cp) (\<lambda>_. bindn (delete_agent (cp_host cp) i) (\<lambda>payload. returnn (ok_json payload))))"
    by (intro removes_bindn removes_delete[OF assms(1)] agent_places_rule effect_keeps(1) keeps_rules)
  then show ?thesis unfolding assms(2)[OF Inr] post_delete_def Inr by (simp add: removes_only_def native_simps)
qed

lemma removes_post:
  assumes "tree_removal (dk_rm (hp_disk (cp_host cp)))" "p \<noteq> ''/api/models/select''" "place_rule A"
    "\<And>i. agent_id_from_path p ''/delete'' = Inr i \<Longrightarrow> A = agent_places i"
  shows "removes_only A (bindn (liftn body) (control_post_route cp p))"
  unfolding control_post_route_def[abs_def] using assms(2)
  by (intro removes_bindn assms(3) effect_if removes_post_delete[OF assms(1,4)]; (intro effect_keeps keeps_rules)?) simp_all

lemma answered_state: "snd (answered m s) = snd (m s)"
  by (simp add: answered_def split: prod.splits sum.splits)

fun reading_event :: "native_event \<Rightarrow> bool" where
  "reading_event (StatusReply (ConfigureLimits _ _) _) = True"
| "reading_event (StatusReply _ _) = False"
| "reading_event (TextReply (InferenceChatJson _) _) = False"
| "reading_event _ = True"

fun sound_event :: "native_event \<Rightarrow> bool" where
  "sound_event (StatusReply (AccessApplyPolicy _ _ policy) _) = (policy \<in> bytes ` set access_policies)"
| "sound_event _ = True"

lemma calls_pending [calls_rules]:
  "(\<And>t. P (TextReply AccessPendingJson t)) \<Longrightarrow> P (FreeString AccessFree) \<Longrightarrow> calls_only P (on_native (pending_access lib))"
  unfolding pending_access_def access_pending_def by (rule calls_text)

lemma get_reads: "calls_only reading_event (get_route cp p query)"
  unfolding get_route_def control_snapshot_def by (intro calls_rules; simp)

lemma calls_apply: "policy \<in> set access_policies \<Longrightarrow>
    calls_only sound_event (on_native (apply_access_policy lib i a b c d policy))"
  unfolding apply_access_policy_def on_native_bindn on_native_basic by (intro calls_rules calls_status) simp

lemma post_sound: "calls_only sound_event (bindn (liftn body) (control_post_route cp p))"
  unfolding control_post_route_def[abs_def] post_stop_def post_delete_def post_select_def apply_manifest_policy_def evict_models_def
    evicted_names_def Let_def
  by (intro calls_rules; simp add: calls_apply)

section \<open>Properties\<close>

text \<open>
  C30. Every request whose target can be read is answered once, with a framed response of status 200, 400,
  404 or 502, whatever the library, the disk and the body do. A target that cannot be read is the exception
  that \<^verbatim>\<open>urlparse\<close> raises outside the \<^verbatim>\<open>try\<close>: no response, and nothing done.
\<close>

theorem control_api_answers:
  "case request_url (cp_bracket_ok cp) (rq_path req) of
     Inl e \<Rightarrow> control_GET cp req s = (Inl e, s) \<and> control_POST cp req s = (Inl e, s)
   | Inr _ \<Rightarrow> (\<exists>r. fst (control_GET cp req s) = Inr r \<and> framed r \<and> rs_status r \<in> {200, 400, 404, 502})
       \<and> (\<exists>r. fst (control_POST cp req s) = Inr r \<and> framed r \<and> rs_status r \<in> {200, 400, 404, 502})"
proof (cases "request_url (cp_bracket_ok cp) (rq_path req)")
  case (Inl e)
  then show ?thesis by (simp add: control_GET_def control_POST_def native_simps)
next
  case (Inr pq)
  obtain p query where pq: "pq = (p, query)" by (cases pq)
  show ?thesis
    using get_handler.answers[of cp "trimmed p" query s] post_handler.answers[of "read_json req" cp "trimmed p" s]
    by (auto simp: control_GET_def control_POST_def control_read_json native_simps Inr pq)
qed

text \<open>
  A GET reads: the file system and everything else of the operating system stay as they are, no process is
  signalled, and the library is only asked for its snapshot, the pending requests or a manifest.
\<close>

theorem control_GET_reads_only:
  "ho_os (snd (control_GET cp req s)) = ho_os s \<and> ho_signals (snd (control_GET cp req s)) = ho_signals s
   \<and> (\<exists>es. ho_native (snd (control_GET cp req s)) = ho_native s @ es \<and> list_all reading_event es)"
proof (cases "request_url (cp_bracket_ok cp) (rq_path req)")
  case (Inl e)
  then show ?thesis by (simp add: control_GET_def native_simps)
next
  case (Inr pq)
  obtain p query where pq: "pq = (p, query)" by (cases pq)
  have "snd (control_GET cp req s) = snd (get_route cp (trimmed p) query s)"
    by (simp add: control_GET_def native_simps Inr pq answered_state)
  then show ?thesis
    using keeps_get[of cp "trimmed p" query] get_reads[of cp "trimmed p" query] unfolding keeps_def calls_only_def by metis
qed

text \<open>The places of the agent whose deletion a path asks for.\<close>

definition deleted_places :: "string \<Rightarrow> fs \<Rightarrow> place set" where
  "deleted_places p fs = {k. \<exists>middle. p = ''/api/agents/'' @ middle @ ''/delete'' \<and> k \<in> agent_places (strip_char CHR ''/'' (unquote middle)) fs}"

lemma cut_middle:
  assumes "startswith pre p" "endswith suf p" "drop (length pre) (take (length p - length suf) p) \<noteq> []"
  shows "p = pre @ drop (length pre) (take (length p - length suf) p) @ suf"
proof -
  obtain t u where p: "p = pre @ t" "p = u @ suf" using assms(1,2) unfolding startswith_iff endswith_iff by blast
  have u: "take (length p - length suf) p = u" unfolding p(2) by simp
  with assms(3) have "length pre < length u" by simp
  then have "pre = take (length pre) u" using p by (metis append_eq_conv_conj take_append less_imp_le_nat diff_is_0_eq take_0 append_Nil2)
  then show ?thesis unfolding u using p(2) append_take_drop_id[of "length pre" u] by (metis append_assoc)
qed

lemma deleted_agent_path:
  assumes "agent_id_from_path p ''/delete'' = Inr agent_id"
  obtains middle where "p = ''/api/agents/'' @ middle @ ''/delete''" "agent_id = strip_char CHR ''/'' (unquote middle)"
proof -
  let ?m = "drop (length agents_prefix) (take (length p - length ''/delete'') p)"
  have p: "startswith agents_prefix p" "endswith ''/delete'' p" "agent_id = strip_char CHR ''/'' (unquote ?m)" "agent_id \<noteq> []"
    using assms unfolding agent_id_from_path_def Let_def by (simp_all only: if_split_asm split: if_split_asm) auto
  moreover have "strip_char CHR ''/'' (unquote []) = []" by code_simp
  ultimately have "?m \<noteq> []" by metis
  from cut_middle[OF p(1,2) this] p(3) show ?thesis unfolding agents_prefix_def by (rule that)
qed

lemma deleted_places_rule: "place_rule (deleted_places p)"
  using agent_places_rule unfolding place_rule_def deleted_places_def by blast

lemma deleted_places_of: "agent_id_from_path p ''/delete'' = Inr agent_id \<Longrightarrow> deleted_places p = agent_places agent_id"
  by (erule deleted_agent_path) (simp add: deleted_places_def fun_eq_iff)

text \<open>
  C15. A POST changes little, when its target can be read and removing a tree touches nothing outside the
  tree. Unless the path is \<^verbatim>\<open>/api/models/select\<close> (which writes the models configuration), the file system
  only loses files, and only of the agent whose name stands, quoted, between \<^verbatim>\<open>/api/agents/\<close> and \<^verbatim>\<open>/delete\<close> in the path: what lies below a component with
  its name, its record, and a \<^verbatim>\<open>current-agent\<close> marker whose text, before the request, names this agent.
  One process at most is signalled; and a policy the library is given is one of the three there are.
\<close>

theorem control_POST_changes_little:
  assumes "tree_removal (dk_rm (hp_disk (cp_host cp)))" "request_url (cp_bracket_ok cp) (rq_path req) = Inr (p, query)"
    "control_POST cp req s = (r, s')"
  shows "(trimmed p \<noteq> ''/api/models/select'' \<longrightarrow> os_fs (ho_os s') k = os_fs (ho_os s) k
       \<or> k \<in> deleted_places (trimmed p) (os_fs (ho_os s)) \<and> os_fs (ho_os s') k = None)
    \<and> (ho_signals s' = ho_signals s \<or> (\<exists>pid. 0 < pid \<and> ho_signals s' = ho_signals s @ [pid]))
    \<and> (\<exists>es. ho_native s' = ho_native s @ es \<and> list_all sound_event es)"
proof -
  let ?m = "bindn (liftn (read_json req)) (control_post_route cp (trimmed p))"
  have "answered ?m s = (r, s')" using assms(2,3) by (simp add: control_POST_def control_read_json native_simps)
  then have s': "s' = snd (?m s)" using answered_state[of ?m s] by simp
  have "removes_only (deleted_places (trimmed p)) ?m" if "trimmed p \<noteq> ''/api/models/select''"
    by (rule removes_post[OF assms(1) that deleted_places_rule deleted_places_of])
  then show ?thesis
    using signal_post[of "read_json req" cp "trimmed p"] post_sound[of "read_json req" cp "trimmed p"]
    unfolding s' removes_only_def one_signal_def calls_only_def by blast
qed

definition demo_control :: control_params where
  "demo_control = \<lparr>cp_host = agents_params ''{}'', cp_limits = Inr (None, None),
     cp_app = \<lparr>ap_yaml = \<lparr>ym_load = json_loads, ym_dump = json_dumps\<rparr>, ap_bundled = \<lparr>cfg_models = None, cfg_specialties = None, cfg_other = []\<rparr>,
       ap_models = (\<lambda>_. Inr []), ap_hardware = Inl (RuntimeError ''no hardware''), ap_number = (\<lambda>_. PNone)\<rparr>,
     cp_clock = \<lparr>tc_ticks = 100, tc_now = Finite 0 ''0.0''\<rparr>, cp_speciality = ''chat'', cp_prefix = Path True [''usr''],
     cp_version = ''0.2.0'', cp_bracket_ok = (\<lambda>_. False)\<rparr>"

definition delete_request :: http_request where
  "delete_request = \<lparr>rq_path = ''/api/agents/agt%2D1/delete/?x'', rq_content_length = Some ''2'', rq_body = ''{}''\<rparr>"

lemma control_POST_changes_little_witness:
  "\<exists>r s'. control_POST demo_control delete_request agents_host = (r, s')
     \<and> os_fs (ho_os s') [''w'', ''.bubblehub'', ''agents'', ''agt-2''] = Some Directory"
proof -
  let ?k = "[''w'', ''.bubblehub'', ''agents'', ''agt-2'']"
  obtain r s' where p: "control_POST demo_control delete_request agents_host = (r, s')" by fastforce
  have "dk_rm (hp_disk (cp_host demo_control)) = rmtree_owned [[''w'', ''.bubblehub'', ''agents'', ''agt-1'', ''home'']]"
    by (simp add: demo_control_def agents_params_def owned_disk_def)
  then have rm: "tree_removal (dk_rm (hp_disk (cp_host demo_control)))" using owned_removal.tree_removal_axioms by metis
  have u: "request_url (cp_bracket_ok demo_control) (rq_path delete_request) = Inr (''/api/agents/agt%2D1/delete/'', ''x'')"
    by code_simp
  have t: "trimmed ''/api/agents/agt%2D1/delete/'' = ''/api/agents/agt%2D1/delete''"
    "agent_id_from_path ''/api/agents/agt%2D1/delete'' ''/delete'' = Inr ''agt-1''" by code_simp+
  have "?k \<notin> agent_places ''agt-1'' fs" for fs by (simp add: agent_places_def marks_agent_def)
  with control_POST_changes_little[OF rm u p, of ?k] have "os_fs (ho_os s') ?k = os_fs (ho_os agents_host) ?k"
    by (simp add: t deleted_places_of)
  also have "\<dots> = Some Directory" by code_simp
  finally show ?thesis using p by blast
qed

text \<open>A target \<^verbatim>\<open>http://[\<close> ends the handler without a response.\<close>

theorem unreadable_target_not_answered:
  "control_GET demo_control \<lparr>rq_path = ''http://['', rq_content_length = None, rq_body = []\<rparr> s
     = (Inl (ValueError ''Invalid IPv6 URL''), s)"
proof -
  have "request_url (cp_bracket_ok demo_control) ''http://['' = Inl (ValueError ''Invalid IPv6 URL'')" by code_simp
  then show ?thesis by (simp add: control_GET_def native_simps)
qed

end
