(* ===== verification/Native_Sandbox.thy ===== *)
theory Native_Sandbox
  imports Json_Text "HOL-Library.Word"
begin

text \<open>
  Starting a sandbox from \<^verbatim>\<open>bubblehub/native.py\<close>: where the helper program and the library are looked
  for, the command line of the helper (\<^verbatim>\<open>run_sandbox\<close>), the structure of the in-process call
  (\<^verbatim>\<open>run_sandbox_in_process\<close>), the option parser of the helper (\<^verbatim>\<open>main\<close> of
  \<^verbatim>\<open>libbubble/bubblehub_sandbox_main.c\<close>) that reads the command line back, and the broker loop that
  answers the access requests of a running sandbox.
\<close>

section \<open>Looking for the helper and the library\<close>

definition sandbox_helper :: "env \<Rightarrow> string option \<Rightarrow> bool \<Rightarrow> string result" where
  "sandbox_helper e found default_executable =
     (case env_nonempty e ''BUBBLEHUB_SANDBOX_HELPER'' of Some configured \<Rightarrow> Inr configured
      | None \<Rightarrow> (case found of Some (c # cs) \<Rightarrow> Inr (c # cs)
        | _ \<Rightarrow> if default_executable then Inr ''/usr/local/bin/bubblehub-sandbox''
            else Inl (LibBubbleError ''bubblehub-sandbox helper is required for sandbox execution. Run ./scripts/build.sh.'')))"

text \<open>\<open>package\<close> is the directory of \<^verbatim>\<open>native.py\<close>, \<open>parent\<close> the one above it.\<close>

definition libbubble_candidates :: "string \<Rightarrow> string \<Rightarrow> string list" where
  "libbubble_candidates package parent =
     [package @ ''/libbubble.so'', parent @ ''/libbubble/build/libbubble.so'', ''/usr/lib/libbubble.so'',
      ''/usr/lib/x86_64-linux-gnu/libbubble.so'', ''/usr/local/lib/libbubble.so'',
      ''/usr/local/lib/x86_64-linux-gnu/libbubble.so'']"

fun try_libraries :: "(string \<Rightarrow> bool) \<Rightarrow> (string \<Rightarrow> 'l result) \<Rightarrow> string list \<Rightarrow> string list \<Rightarrow> 'l result" where
  "try_libraries present cdll [] errors =
     Inl (LibBubbleError (''libbubble.so is required but could not be loaded. Run ./scripts/build.sh or install the BubbleHub native package. Details: ''
       @ (if errors = [] then ''no candidate library path exists'' else join ''; '' errors)))"
| "try_libraries present cdll (path # paths) errors =
     (if \<not> present path then try_libraries present cdll paths errors
      else (case cdll path of
          Inr lib \<Rightarrow> Inr lib
        | Inl e \<Rightarrow> if is_os_error e then try_libraries present cdll paths (errors @ [path @ '': '' @ exn_text e])
            else Inl e))"

definition load_libbubble :: "(string \<Rightarrow> bool) \<Rightarrow> (string \<Rightarrow> 'l result) \<Rightarrow> string \<Rightarrow> string \<Rightarrow> 'l result" where
  "load_libbubble present cdll package parent = try_libraries present cdll (libbubble_candidates package parent) []"

section \<open>The command line of the helper\<close>

record sandbox_call =
  sc_binary :: string
  sc_argv :: "string list"
  sc_niceness :: int
  sc_memory_max :: int
  sc_cpu_percent :: int
  sc_workdir :: string
  sc_isolate_network :: bool
  sc_root_dir :: "string option"
  sc_rootfs_dir :: "string option"
  sc_overlay_upper_dir :: "string option"
  sc_overlay_work_dir :: "string option"
  sc_inference_host :: "string option"
  sc_inference_port :: int
  sc_sandbox_inference_port :: int
  sc_http_proxy_port :: int
  sc_disable_http_proxy :: bool

definition opt_value :: "string \<Rightarrow> string option \<Rightarrow> string list" where
  "opt_value name v = (case v of None \<Rightarrow> [] | Some x \<Rightarrow> [name, x])"

definition opt_nonempty :: "string \<Rightarrow> string option \<Rightarrow> string list" where
  "opt_nonempty name v = (case v of Some (c # cs) \<Rightarrow> [name, c # cs] | _ \<Rightarrow> [])"

definition opt_int :: "string \<Rightarrow> bool \<Rightarrow> int \<Rightarrow> string list" where
  "opt_int name present n = (if present then [name, show_int n] else [])"

definition opt_flag :: "string \<Rightarrow> bool \<Rightarrow> string list" where
  "opt_flag name present = (if present then [name] else [])"

definition helper_options :: "sandbox_call \<Rightarrow> string list" where
  "helper_options c =
     [''--memory'', show_int (sc_memory_max c), ''--cpu'', show_int (sc_cpu_percent c),
      ''--niceness'', show_int (sc_niceness c), ''--workdir'', sc_workdir c]
     @ opt_value ''--root-dir'' (sc_root_dir c)
     @ opt_value ''--rootfs-dir'' (sc_rootfs_dir c)
     @ opt_value ''--overlay-upper-dir'' (sc_overlay_upper_dir c)
     @ opt_value ''--overlay-work-dir'' (sc_overlay_work_dir c)
     @ opt_flag ''--isolate-network'' (sc_isolate_network c)
     @ opt_nonempty ''--inference-host'' (sc_inference_host c)
     @ opt_int ''--inference-port'' (sc_inference_port c \<noteq> 0) (sc_inference_port c)
     @ opt_int ''--sandbox-inference-port'' (sc_sandbox_inference_port c \<noteq> 0) (sc_sandbox_inference_port c)
     @ opt_int ''--sandbox-http-proxy-port'' (0 < sc_http_proxy_port c) (sc_http_proxy_port c)
     @ opt_flag ''--no-http-proxy'' (sc_disable_http_proxy c)"

definition sandboxed_argv :: "sandbox_call \<Rightarrow> string list" where
  "sandboxed_argv c = (if sc_argv c \<noteq> [] then sc_argv c else [sc_binary c])"

definition run_sandbox_command :: "string \<Rightarrow> sandbox_call \<Rightarrow> string list" where
  "run_sandbox_command helper c = [helper] @ helper_options c @ [''--''] @ sandboxed_argv c"

section \<open>The configuration of the native call\<close>

text \<open>\<^verbatim>\<open>struct bubblehub_sandbox_config\<close>, the integers at their width in C.\<close>

record c_config =
  cc_binary :: "string option"
  cc_argv :: "string list"
  cc_niceness :: "32 word"
  cc_memory_max :: "64 word"
  cc_cpu_percent :: "32 word"
  cc_workdir :: string
  cc_root_dir :: "string option"
  cc_rootfs_dir :: "string option"
  cc_overlay_upper_dir :: "string option"
  cc_overlay_work_dir :: "string option"
  cc_agent_id :: "string option"
  cc_isolate_network :: bool
  cc_inference_host :: "string option"
  cc_inference_port :: "32 word"
  cc_sandbox_inference_port :: "32 word"
  cc_http_proxy_port :: "32 word"
  cc_access_broker_fd :: "32 word"

text \<open>
  \<^verbatim>\<open>run_sandbox_in_process\<close>: \<^verbatim>\<open>ctypes\<close> reduces an integer to the width of its field without a check.
\<close>

definition in_process_config :: "env \<Rightarrow> sandbox_call \<Rightarrow> c_config" where
  "in_process_config e c =
     \<lparr>cc_binary = Some (utf8_encode (sc_binary c)), cc_argv = map utf8_encode (sc_argv c),
      cc_niceness = of_int (sc_niceness c), cc_memory_max = of_int (sc_memory_max c),
      cc_cpu_percent = of_int (sc_cpu_percent c), cc_workdir = utf8_encode (sc_workdir c),
      cc_root_dir = map_option utf8_encode (sc_root_dir c),
      cc_rootfs_dir = map_option utf8_encode (sc_rootfs_dir c),
      cc_overlay_upper_dir = map_option utf8_encode (sc_overlay_upper_dir c),
      cc_overlay_work_dir = map_option utf8_encode (sc_overlay_work_dir c),
      cc_agent_id = map_option utf8_encode (e ''BUBBLEHUB_AGENT_ID''),
      cc_isolate_network = sc_isolate_network c,
      cc_inference_host = map_option utf8_encode (sc_inference_host c),
      cc_inference_port = of_int (sc_inference_port c),
      cc_sandbox_inference_port = of_int (sc_sandbox_inference_port c),
      cc_http_proxy_port = of_int (sc_http_proxy_port c),
      cc_access_broker_fd = of_int (- 1)\<rparr>"

section \<open>The option parser of the helper\<close>

text \<open>
  \<^verbatim>\<open>strtoull(s, &end, 10)\<close> on a 64-bit machine: white space, a sign, digits; the value saturates, a
  minus sign negates it modulo \<open>2 ^ 64\<close>; the text behind the digits is \<open>end\<close> (the whole text when
  there are none). \<^verbatim>\<open>strtol\<close> saturates at the signed bounds.
\<close>

definition strto_parts :: "string \<Rightarrow> bool \<times> string \<times> string" where
  "strto_parts s =
     (let t = dropWhile (\<lambda>c. code c \<in> set [32, 9, 10, 11, 12, 13]) s;
          neg = (t \<noteq> [] \<and> hd t = CHR ''-'');
          u = (if t \<noteq> [] \<and> hd t \<in> set ''+-'' then tl t else t);
          ds = takeWhile is_digit u in
      (neg, ds, if ds = [] then s else dropWhile is_digit u))"

definition strtoull :: "string \<Rightarrow> 64 word \<times> string" where
  "strtoull s = (case strto_parts s of (neg, ds, rest) \<Rightarrow>
     (let n = int (digits_val ds) in
      (if 2 ^ 64 \<le> n then - 1 else if neg then - of_int n else of_int n, rest)))"

definition strtol :: "string \<Rightarrow> int" where
  "strtol s = (case strto_parts s of (neg, ds, rest) \<Rightarrow>
     (let n = (if neg then - int (digits_val ds) else int (digits_val ds)) in
      max (- (2 ^ 63)) (min (2 ^ 63 - 1) n)))"

definition c_parse_bytes :: "string \<Rightarrow> 64 word" where
  "c_parse_bytes s = (case strtoull s of (base, rest) \<Rightarrow>
     (case rest of
        [] \<Rightarrow> base
      | c # _ \<Rightarrow> if c \<in> set ''Gg'' then base * 1024 * 1024 * 1024
          else if c \<in> set ''Mm'' then base * 1024 * 1024 else base))"

definition c_uint32 :: "string \<Rightarrow> 32 word" where
  "c_uint32 s = ucast (fst (strtoull s))"

definition c_int32 :: "string \<Rightarrow> 32 word" where
  "c_int32 s = of_int (strtol s)"

definition c_default :: c_config where
  "c_default =
     \<lparr>cc_binary = None, cc_argv = [], cc_niceness = 0, cc_memory_max = 2 * 1024 * 1024 * 1024,
      cc_cpu_percent = 0, cc_workdir = ''.'', cc_root_dir = None, cc_rootfs_dir = None,
      cc_overlay_upper_dir = None, cc_overlay_work_dir = None, cc_agent_id = None,
      cc_isolate_network = False, cc_inference_host = None, cc_inference_port = 0,
      cc_sandbox_inference_port = 0, cc_http_proxy_port = 0, cc_access_broker_fd = - 1\<rparr>"

definition set_option :: "string \<Rightarrow> string \<Rightarrow> c_config \<Rightarrow> c_config option" where
  "set_option name v cfg =
     (if name = ''--memory'' then Some (cfg\<lparr>cc_memory_max := c_parse_bytes v\<rparr>)
      else if name = ''--cpu'' then Some (cfg\<lparr>cc_cpu_percent := c_uint32 v\<rparr>)
      else if name = ''--niceness'' then Some (cfg\<lparr>cc_niceness := c_int32 v\<rparr>)
      else if name = ''--workdir'' then Some (cfg\<lparr>cc_workdir := v\<rparr>)
      else if name = ''--root-dir'' then Some (cfg\<lparr>cc_root_dir := Some v\<rparr>)
      else if name = ''--rootfs-dir'' then Some (cfg\<lparr>cc_rootfs_dir := Some v\<rparr>)
      else if name = ''--overlay-upper-dir'' then Some (cfg\<lparr>cc_overlay_upper_dir := Some v\<rparr>)
      else if name = ''--overlay-work-dir'' then Some (cfg\<lparr>cc_overlay_work_dir := Some v\<rparr>)
      else if name = ''--agent-id'' then Some (cfg\<lparr>cc_agent_id := Some v\<rparr>)
      else if name = ''--inference-host'' then Some (cfg\<lparr>cc_inference_host := Some v\<rparr>)
      else if name = ''--inference-port'' then Some (cfg\<lparr>cc_inference_port := c_uint32 v\<rparr>)
      else if name = ''--sandbox-inference-port'' then Some (cfg\<lparr>cc_sandbox_inference_port := c_uint32 v\<rparr>)
      else if name = ''--sandbox-http-proxy-port'' then Some (cfg\<lparr>cc_http_proxy_port := c_uint32 v\<rparr>)
      else if name = ''--access-broker-fd'' then Some (cfg\<lparr>cc_access_broker_fd := c_int32 v\<rparr>)
      else if name = ''--log-level'' then Some cfg
      else None)"

definition set_flag :: "string \<Rightarrow> c_config \<Rightarrow> c_config option" where
  "set_flag name cfg =
     (if name = ''--isolate-network'' then Some (cfg\<lparr>cc_isolate_network := True\<rparr>)
      else if name = ''--no-http-proxy'' then Some (cfg\<lparr>cc_http_proxy_port := - 1\<rparr>)
      else None)"

text \<open>\<open>None\<close> is the exit status 2 of an unknown option or of a missing value.\<close>

fun parse_options :: "string list \<Rightarrow> c_config \<Rightarrow> (c_config \<times> string list) option" where
  "parse_options [] cfg = Some (cfg, [])"
| "parse_options (arg # rest) cfg =
     (if arg = ''--'' then Some (cfg, rest)
      else (case set_flag arg cfg of
          Some cfg' \<Rightarrow> parse_options rest cfg'
        | None \<Rightarrow> (case rest of
              v # rest' \<Rightarrow> (case set_option arg v cfg of
                  Some cfg' \<Rightarrow> parse_options rest' cfg' | None \<Rightarrow> None)
            | [] \<Rightarrow> None)))"

text \<open>\<^verbatim>\<open>main\<close>: \<open>None\<close> is the exit status 2, otherwise the configuration that is run.\<close>

definition helper_main :: "string list \<Rightarrow> c_config option" where
  "helper_main args =
     (case parse_options args c_default of
        Some (cfg, binary # argv) \<Rightarrow> Some (cfg\<lparr>cc_binary := Some binary, cc_argv := binary # argv\<rparr>)
      | _ \<Rightarrow> None)"

section \<open>Reading the command line back\<close>

lemma utf8_digits: "list_all is_digit s \<Longrightarrow> utf8_encode s = s"
  by (rule utf8_encode_printable) (auto simp: list_all_iff digit_printable)

lemma utf8_show_int [simp]: "utf8_encode (show_int n) = show_int n"
  by (rule utf8_encode_printable) (rule show_int_printable)

lemma show_nat_list: "list_all is_digit (show_nat n)"
  using show_nat_digits by (auto simp: list_all_iff)

lemma digit_not_sign: "is_digit c \<Longrightarrow> c \<noteq> CHR ''-'' \<and> c \<noteq> CHR ''+'' \<and> code c \<notin> set [32, 9, 10, 11, 12, 13]"
  by (auto simp: is_digit_def)

lemma strto_parts_show: "strto_parts (show_int n) = (n < 0, show_nat (nat \<bar>n\<bar>), [])"
proof -
  obtain d ds where d: "show_nat (nat \<bar>n\<bar>) = d # ds" by (meson neq_Nil_conv show_nat_not_Nil)
  then have all: "list_all is_digit (d # ds)" using show_nat_list by metis
  then have t: "takeWhile is_digit (d # ds) = d # ds" "dropWhile is_digit (d # ds) = []"
    by (auto simp: list_all_iff)
  have h: "d \<noteq> CHR ''-''" "d \<noteq> CHR ''+''" "code d \<notin> set [32, 9, 10, 11, 12, 13]"
    using all digit_not_sign by auto
  show ?thesis
  proof (cases "n < 0")
    case True
    then have "show_int n = CHR ''-'' # d # ds" using d by (simp add: show_int_def)
    then show ?thesis using True d t h by (simp add: strto_parts_def Let_def)
  next
    case False
    then have "show_int n = d # ds" using d by (simp add: show_int_def)
    then show ?thesis using False d t h by (simp add: strto_parts_def Let_def)
  qed
qed

lemma strtoull_show: "0 \<le> n \<Longrightarrow> n < 2 ^ 64 \<Longrightarrow> strtoull (show_int n) = (of_int n, [])"
proof -
  assume n: "0 \<le> n" "n < 2 ^ 64"
  then have "\<not> 18446744073709551616 \<le> nat n" by (simp add: not_le nat_less_iff)
  with n show ?thesis by (simp add: strtoull_def strto_parts_show digits_val_show_nat)
qed

lemma strtol_show: "- (2 ^ 63) \<le> n \<Longrightarrow> n < 2 ^ 63 \<Longrightarrow> strtol (show_int n) = n"
  by (simp add: strtol_def strto_parts_show digits_val_show_nat Let_def)

lemma c_numbers:
  "0 \<le> n \<Longrightarrow> n < 2 ^ 64 \<Longrightarrow> c_parse_bytes (show_int n) = of_int n"
  "0 \<le> n \<Longrightarrow> n < 2 ^ 32 \<Longrightarrow> c_uint32 (show_int n) = of_int n"
  "- (2 ^ 31) \<le> n \<Longrightarrow> n < 2 ^ 31 \<Longrightarrow> c_int32 (show_int n) = of_int n"
proof -
  show "0 \<le> n \<Longrightarrow> n < 2 ^ 64 \<Longrightarrow> c_parse_bytes (show_int n) = of_int n"
    by (simp add: c_parse_bytes_def strtoull_show)
  show "- (2 ^ 31) \<le> n \<Longrightarrow> n < 2 ^ 31 \<Longrightarrow> c_int32 (show_int n) = of_int n"
    by (simp add: c_int32_def strtol_show)
  assume n: "0 \<le> n" "n < 2 ^ 32"
  then have "strtoull (show_int n) = (of_int n, [])" by (intro strtoull_show) auto
  moreover have "ucast (of_int n :: 64 word) = (of_int n :: 32 word)"
    using n by (intro bit_word_eqI) (simp add: bit_ucast_iff bit_word_of_int_iff)
  ultimately show "c_uint32 (show_int n) = of_int n" by (simp add: c_uint32_def)
qed

text \<open>What each piece of the command line does to the configuration.\<close>

lemma parse_flag:
  "name \<noteq> ''--'' \<Longrightarrow> set_flag name cfg = Some cfg' \<Longrightarrow> parse_options (name # rest) cfg = parse_options rest cfg'"
  by simp

lemma parse_value_option:
  "name \<noteq> ''--'' \<Longrightarrow> set_flag name cfg = None \<Longrightarrow> set_option name v cfg = Some cfg' \<Longrightarrow>
     parse_options (name # v # rest) cfg = parse_options rest cfg'"
  by simp

definition helper_numbers_fit :: "sandbox_call \<Rightarrow> bool" where
  "helper_numbers_fit c \<longleftrightarrow> 0 \<le> sc_memory_max c \<and> sc_memory_max c < 2 ^ 64
     \<and> 0 \<le> sc_cpu_percent c \<and> sc_cpu_percent c < 2 ^ 32
     \<and> - (2 ^ 31) \<le> sc_niceness c \<and> sc_niceness c < 2 ^ 31
     \<and> 0 \<le> sc_inference_port c \<and> sc_inference_port c < 2 ^ 32
     \<and> 0 \<le> sc_sandbox_inference_port c \<and> sc_sandbox_inference_port c < 2 ^ 32
     \<and> 0 \<le> sc_http_proxy_port c \<and> sc_http_proxy_port c < 2 ^ 32"

lemma utf8_names [simp]:
  "utf8_encode ''--memory'' = ''--memory''" "utf8_encode ''--cpu'' = ''--cpu''"
  "utf8_encode ''--niceness'' = ''--niceness''" "utf8_encode ''--workdir'' = ''--workdir''"
  "utf8_encode ''--root-dir'' = ''--root-dir''" "utf8_encode ''--rootfs-dir'' = ''--rootfs-dir''"
  "utf8_encode ''--overlay-upper-dir'' = ''--overlay-upper-dir''"
  "utf8_encode ''--overlay-work-dir'' = ''--overlay-work-dir''"
  "utf8_encode ''--isolate-network'' = ''--isolate-network''"
  "utf8_encode ''--inference-host'' = ''--inference-host''"
  "utf8_encode ''--inference-port'' = ''--inference-port''"
  "utf8_encode ''--sandbox-inference-port'' = ''--sandbox-inference-port''"
  "utf8_encode ''--sandbox-http-proxy-port'' = ''--sandbox-http-proxy-port''"
  "utf8_encode ''--no-http-proxy'' = ''--no-http-proxy''" "utf8_encode ''--'' = ''--''"
  by code_simp+

lemma parse_dirs:
  "parse_options (map utf8_encode (opt_value ''--root-dir'' v) @ rest) cfg
     = parse_options rest (cfg\<lparr>cc_root_dir := (if v = None then cc_root_dir cfg else map_option utf8_encode v)\<rparr>)"
  "parse_options (map utf8_encode (opt_value ''--rootfs-dir'' v) @ rest) cfg
     = parse_options rest (cfg\<lparr>cc_rootfs_dir := (if v = None then cc_rootfs_dir cfg else map_option utf8_encode v)\<rparr>)"
  "parse_options (map utf8_encode (opt_value ''--overlay-upper-dir'' v) @ rest) cfg
     = parse_options rest (cfg\<lparr>cc_overlay_upper_dir :=
         (if v = None then cc_overlay_upper_dir cfg else map_option utf8_encode v)\<rparr>)"
  "parse_options (map utf8_encode (opt_value ''--overlay-work-dir'' v) @ rest) cfg
     = parse_options rest (cfg\<lparr>cc_overlay_work_dir :=
         (if v = None then cc_overlay_work_dir cfg else map_option utf8_encode v)\<rparr>)"
  by (cases v; simp add: opt_value_def set_flag_def set_option_def)+

lemma parse_flags:
  "parse_options (map utf8_encode (opt_flag ''--isolate-network'' b) @ rest) cfg
     = parse_options rest (cfg\<lparr>cc_isolate_network := b \<or> cc_isolate_network cfg\<rparr>)"
  "parse_options (map utf8_encode (opt_flag ''--no-http-proxy'' b) @ rest) cfg
     = parse_options rest (cfg\<lparr>cc_http_proxy_port := if b then - 1 else cc_http_proxy_port cfg\<rparr>)"
  by (cases b; simp add: opt_flag_def set_flag_def)+

lemma parse_host:
  "parse_options (map utf8_encode (opt_nonempty ''--inference-host'' v) @ rest) cfg
     = parse_options rest (cfg\<lparr>cc_inference_host := (if v = None \<or> v = Some [] then cc_inference_host cfg
         else map_option utf8_encode v)\<rparr>)"
  by (cases v; cases "the v"; simp add: opt_nonempty_def set_flag_def set_option_def)

lemma parse_ports:
  "parse_options (map utf8_encode (opt_int ''--inference-port'' b n) @ rest) cfg
     = parse_options rest (cfg\<lparr>cc_inference_port := if b then c_uint32 (show_int n) else cc_inference_port cfg\<rparr>)"
  "parse_options (map utf8_encode (opt_int ''--sandbox-inference-port'' b n) @ rest) cfg
     = parse_options rest (cfg\<lparr>cc_sandbox_inference_port :=
         if b then c_uint32 (show_int n) else cc_sandbox_inference_port cfg\<rparr>)"
  "parse_options (map utf8_encode (opt_int ''--sandbox-http-proxy-port'' b n) @ rest) cfg
     = parse_options rest (cfg\<lparr>cc_http_proxy_port := if b then c_uint32 (show_int n) else cc_http_proxy_port cfg\<rparr>)"
  by (cases b; simp add: opt_int_def set_flag_def set_option_def)+

lemma parse_end: "parse_options (''--'' # rest) cfg = Some (cfg, rest)"
  by simp

lemma parse_limits:
  "parse_options (''--memory'' # m # ''--cpu'' # p # ''--niceness'' # n # ''--workdir'' # w # rest) cfg
     = parse_options rest (cfg\<lparr>cc_memory_max := c_parse_bytes m, cc_cpu_percent := c_uint32 p,
         cc_niceness := c_int32 n, cc_workdir := w\<rparr>)"
  by (simp add: set_flag_def set_option_def)

lemmas parse_pieces = parse_dirs parse_flags parse_host parse_ports parse_limits parse_end

section \<open>The broker of a running sandbox\<close>

text \<open>
  One pass of the loop of \<^verbatim>\<open>_run_with_access_broker\<close> sees the exit of the process, nothing to read,
  or the bytes of one \<^verbatim>\<open>recv\<close> (at most 4096; none at the end of the stream). \<open>br_buffer\<close> is
  \<^verbatim>\<open>child_buffer\<close>, \<open>br_sent\<close> the lines sent so far.
\<close>

datatype broker_event = Exited int | NothingReadable | Received string

datatype broker_status = Running | Returned int | Raised exn

record broker =
  br_buffer :: string
  br_sent :: "string list"
  br_status :: broker_status

type_synonym access_broker = "pydict \<Rightarrow> string result"

text \<open>The answer to one line; every exception is a denial.\<close>

definition broker_response :: "access_broker \<Rightarrow> string \<Rightarrow> string" where
  "broker_response access_broker raw =
     (case (case json_loads raw of
              Inr (PDict request) \<Rightarrow> access_broker request
            | Inr _ \<Rightarrow> Inl (ValueError ''broker request was not an object'')
            | Inl e \<Rightarrow> Inl e) of
        Inl _ \<Rightarrow> ''never''
      | Inr response \<Rightarrow> if response \<in> set [''always'', ''never'', ''ask''] then response else ''never'')"

definition wire_response :: "string \<Rightarrow> string" where
  "wire_response response =
     (if response = ''always'' then ''approve'' else if response = ''never'' then ''deny'' else ''ask'')"

definition answer_line :: "access_broker \<Rightarrow> string \<Rightarrow> string list" where
  "answer_line access_broker raw =
     (if raw = [] then [] else [wire_response (broker_response access_broker raw) @ [ch_nl]])"

lemma after_char_shorter: "has_char c s \<Longrightarrow> length (after_char c s) < length s"
proof -
  assume "has_char c s"
  then have "dropWhile (\<lambda>x. x \<noteq> c) s \<noteq> []" by (auto simp: has_char_def dropWhile_eq_Nil_conv)
  moreover have "length (dropWhile (\<lambda>x. x \<noteq> c) s) \<le> length s" by (rule length_dropWhile_le)
  ultimately show ?thesis
    unfolding after_char_def by (cases "dropWhile (\<lambda>x. x \<noteq> c) s") auto
qed

function drain :: "access_broker \<Rightarrow> string \<Rightarrow> string list \<times> string" where
  "drain access_broker buffer =
     (if has_char ch_nl buffer
      then (case drain access_broker (after_char ch_nl buffer) of (answers, rest) \<Rightarrow>
        (answer_line access_broker (before_char ch_nl buffer) @ answers, rest))
      else ([], buffer))"
  by auto

termination by (relation "measure (\<lambda>(_, s). length s)") (auto simp: after_char_shorter)

declare drain.simps [simp del]

definition broker_step :: "access_broker \<Rightarrow> broker_event \<Rightarrow> broker \<Rightarrow> broker" where
  "broker_step access_broker ev st =
     (if br_status st \<noteq> Running then st
      else (case ev of
          Exited returncode \<Rightarrow> st\<lparr>br_status := Returned returncode\<rparr>
        | NothingReadable \<Rightarrow> st
        | Received chunk \<Rightarrow>
            if chunk = [] then st
            else (case decode_utf8 chunk of
                Inl e \<Rightarrow> st\<lparr>br_status := Raised e\<rparr>
              | Inr text \<Rightarrow>
                  (case drain access_broker (br_buffer st @ text) of (answers, rest) \<Rightarrow>
                    st\<lparr>br_buffer := rest, br_sent := br_sent st @ answers\<rparr>))))"

definition broker_start :: broker where
  "broker_start = \<lparr>br_buffer = [], br_sent = [], br_status = Running\<rparr>"

definition run_broker :: "access_broker \<Rightarrow> broker_event list \<Rightarrow> broker" where
  "run_broker access_broker evs = fold (broker_step access_broker) evs broker_start"

text \<open>\<^verbatim>\<open>--access-broker-fd\<close> goes before the first \<^verbatim>\<open>--\<close>; without one \<^verbatim>\<open>command.index\<close> raises.\<close>

definition broker_command :: "int \<Rightarrow> string list \<Rightarrow> string list result" where
  "broker_command fd command =
     (if ''--'' \<in> set command then
        Inr (takeWhile (\<lambda>a. a \<noteq> ''--'') command @ [''--access-broker-fd'', show_int fd]
          @ dropWhile (\<lambda>a. a \<noteq> ''--'') command)
      else Inl (ValueError (repr_str ''--'' @ '' is not in list'')))"

subsection \<open>The answers depend on the text, not on how it arrives\<close>

lemma split_at_char: "has_char c s \<Longrightarrow> s = before_char c s @ c # after_char c s"
proof -
  assume "has_char c s"
  then obtain u v where s: "s = u @ c # v" "c \<notin> set u" by (auto simp: has_char_def dest: split_list_first)
  then have "takeWhile (\<lambda>x. x \<noteq> c) s = u" "dropWhile (\<lambda>x. x \<noteq> c) s = c # v"
    by (auto simp: takeWhile_append dropWhile_append)
  then show ?thesis using s by (simp add: before_char_def after_char_def)
qed

text \<open>The specification: the complete lines in order, and the text behind the last newline.\<close>

lemma drain_spec:
  "drain f s = (concat (map (answer_line f) (butlast (split_on ch_nl s))), last (split_on ch_nl s))"
proof (induction f s rule: drain.induct)
  case (1 f s)
  show ?case
  proof (cases "has_char ch_nl s")
    case True
    have "ch_nl \<notin> set (before_char ch_nl s)" by (auto simp: before_char_def dest: set_takeWhileD)
    then have "split_by ((=) ch_nl) (before_char ch_nl s @ ch_nl # after_char ch_nl s)
        = before_char ch_nl s # split_by ((=) ch_nl) (after_char ch_nl s)"
      by (intro split_by_append_sep) auto
    then have "split_on ch_nl s = before_char ch_nl s # split_on ch_nl (after_char ch_nl s)"
      using split_at_char[OF True] by (simp add: split_on_def)
    with True 1 show ?thesis by (simp add: drain.simps[of f s])
  next
    case False
    then have "split_on ch_nl s = [s]" by (auto simp: has_char_def split_on_def intro!: split_by_none)
    with False show ?thesis by (simp add: drain.simps[of f s])
  qed
qed

lemma split_by_append:
  "split_by p (s @ t) = butlast (split_by p s) @ (last (split_by p s) @ hd (split_by p t)) # tl (split_by p t)"
proof (induction s)
  case Nil
  then show ?case by (cases "split_by p t") auto
next
  case (Cons c s)
  obtain w ws where w: "split_by p s = w # ws" by (cases "split_by p s") auto
  with Cons show ?case by (cases ws) auto
qed

lemma split_by_last: "split_by p (last (split_by p s)) = [last (split_by p s)]"
proof (rule split_by_none)
  fix c assume c: "c \<in> set (last (split_by p s))"
  have "last (split_by p s) \<in> set (split_by p s)" by simp
  from split_by_pieces[OF this c] show "\<not> p c" by simp
qed

text \<open>Draining what is left together with more text: the two answers in a row.\<close>

lemma drain_append:
  assumes "drain f s = (a, rest)" "drain f (rest @ t) = (b, rest')"
  shows "drain f (s @ t) = (a @ b, rest')"
proof -
  let ?p = "(=) ch_nl"
  have rest: "rest = last (split_by ?p s)" and a: "a = concat (map (answer_line f) (butlast (split_by ?p s)))"
    using assms(1) by (auto simp: drain_spec split_on_def)
  have r: "split_by ?p (rest @ t) = (rest @ hd (split_by ?p t)) # tl (split_by ?p t)"
    using split_by_append[of ?p rest t] split_by_last[of ?p s] by (simp add: rest)
  have st: "split_by ?p (s @ t) = butlast (split_by ?p s) @ split_by ?p (rest @ t)"
    unfolding r by (simp add: split_by_append rest)
  have b: "b = concat (map (answer_line f) (butlast (split_by ?p (rest @ t))))"
    and r': "rest' = last (split_by ?p (rest @ t))"
    using assms(2) by (auto simp: drain_spec split_on_def)
  have ne: "split_by ?p (rest @ t) \<noteq> []" by simp
  show ?thesis
    unfolding drain_spec split_on_def st
    using ne by (simp add: a b r' butlast_append)
qed

definition event_text :: "broker_event \<Rightarrow> string option" where
  "event_text ev = (case ev of Received chunk \<Rightarrow> utf8_decode chunk | NothingReadable \<Rightarrow> Some [] | Exited _ \<Rightarrow> None)"

lemma drain_Nil_rest: "drain f s = (a, rest) \<Longrightarrow> drain f rest = ([], rest)"
  using split_by_last[of "(=) ch_nl" s] by (auto simp: drain_spec split_on_def)

lemma broker_text:
  "list_all (\<lambda>ev. event_text ev \<noteq> None) evs \<Longrightarrow> br_status st = Running \<Longrightarrow>
     drain f s = (br_sent st, br_buffer st) \<Longrightarrow>
     fold (broker_step f) evs st = st\<lparr>
       br_sent := fst (drain f (s @ concat (map (the \<circ> event_text) evs))),
       br_buffer := snd (drain f (s @ concat (map (the \<circ> event_text) evs)))\<rparr>"
proof (induction evs arbitrary: st s)
  case Nil
  then show ?case by simp
next
  case (Cons ev evs)
  from Cons.prems(1) obtain t where t: "event_text ev = Some t" by auto
  obtain b rest' where b: "drain f (br_buffer st @ t) = (b, rest')" by fastforce
  have step: "broker_step f ev st = st\<lparr>br_buffer := rest', br_sent := br_sent st @ b\<rparr>"
  proof (cases ev)
    case (Exited n)
    with t show ?thesis by (simp add: event_text_def)
  next
    case NothingReadable
    with t b drain_Nil_rest[OF Cons.prems(3)] show ?thesis
      by (simp add: event_text_def broker_step_def)
  next
    case (Received chunk)
    show ?thesis
    proof (cases "chunk = []")
      case True
      with Received t b drain_Nil_rest[OF Cons.prems(3)] show ?thesis
        by (simp add: event_text_def broker_step_def)
    next
      case False
      with Received t b Cons.prems(2) show ?thesis
        by (simp add: event_text_def broker_step_def decode_utf8_def)
    qed
  qed
  have d: "drain f (s @ t) = (br_sent st @ b, rest')" by (rule drain_append[OF Cons.prems(3) b])
  have "fold (broker_step f) evs (broker_step f ev st)
      = (broker_step f ev st)\<lparr>
         br_sent := fst (drain f ((s @ t) @ concat (map (the \<circ> event_text) evs))),
         br_buffer := snd (drain f ((s @ t) @ concat (map (the \<circ> event_text) evs)))\<rparr>"
    using Cons.prems d by (intro Cons.IH) (auto simp: step)
  then show ?case by (simp add: step t comp_def)
qed

lemma wire_response_range: "wire_response r = ''approve'' \<or> wire_response r = ''deny'' \<or> wire_response r = ''ask''"
  by (simp add: wire_response_def)

lemma merged_values:
  "(if v = None then None else map_option f v) = map_option f v"
  "(if v = None \<or> v = Some [] then None else map_option f v) = (if v = Some [] then None else map_option f v)"
  "(if n \<noteq> 0 then of_int n else 0) = (of_int n :: 32 word)"
  "0 \<le> n \<Longrightarrow> (if d then w else if 0 < n then of_int n else 0) = (if d then w else of_int n :: 32 word)"
  by auto

section \<open>Properties\<close>

text \<open>
  C32. The helper program reads back exactly the configuration the call asked for: on numbers that
  fit their C types, the parsed command line equals the structure that the in-process call would
  fill in, up to the agent id (which the helper takes from its environment later), an empty
  inference host (which counts as none) and the marker for a disabled proxy.
\<close>

theorem helper_reads_command:
  assumes "helper_numbers_fit c"
  shows "helper_main (map utf8_encode (tl (run_sandbox_command helper c)))
    = Some ((in_process_config e c)
        \<lparr>cc_binary := Some (utf8_encode (hd (sandboxed_argv c))),
         cc_argv := map utf8_encode (sandboxed_argv c),
         cc_agent_id := None,
         cc_inference_host := (if sc_inference_host c = Some [] then None
            else map_option utf8_encode (sc_inference_host c)),
         cc_http_proxy_port := (if sc_disable_http_proxy c then - 1 else of_int (sc_http_proxy_port c)),
         cc_access_broker_fd := - 1\<rparr>)"
proof -
  obtain a as where argv: "sandboxed_argv c = a # as" by (cases "sandboxed_argv c") (auto simp: sandboxed_argv_def split: if_splits)
  note fit = assms[unfolded helper_numbers_fit_def]
  have n: "c_parse_bytes (show_int (sc_memory_max c)) = of_int (sc_memory_max c)"
    "c_uint32 (show_int (sc_cpu_percent c)) = of_int (sc_cpu_percent c)"
    "c_int32 (show_int (sc_niceness c)) = of_int (sc_niceness c)"
    "c_uint32 (show_int (sc_inference_port c)) = of_int (sc_inference_port c)"
    "c_uint32 (show_int (sc_sandbox_inference_port c)) = of_int (sc_sandbox_inference_port c)"
    "c_uint32 (show_int (sc_http_proxy_port c)) = of_int (sc_http_proxy_port c)"
    using fit c_numbers by auto
  have p: "0 \<le> sc_http_proxy_port c" using fit by simp
  have cmd: "map utf8_encode (tl (run_sandbox_command helper c))
      = map utf8_encode (helper_options c) @ ''--'' # map utf8_encode (a # as)"
    by (simp add: run_sandbox_command_def argv)
  have parsed: "parse_options (map utf8_encode (helper_options c) @ ''--'' # rest) c_default
      = Some ((in_process_config e c)
        \<lparr>cc_binary := None, cc_argv := [], cc_agent_id := None,
         cc_inference_host := (if sc_inference_host c = Some [] then None
            else map_option utf8_encode (sc_inference_host c)),
         cc_http_proxy_port := (if sc_disable_http_proxy c then - 1 else of_int (sc_http_proxy_port c)),
         cc_access_broker_fd := - 1\<rparr>, rest)" for rest
    unfolding helper_options_def map_append append_assoc list.map utf8_names utf8_show_int append_Cons append_Nil
      c_default_def
    by (simp only: parse_pieces n c_config.select_convs c_config.update_convs o_def id_def)
      (simp add: in_process_config_def merged_values p)
  show ?thesis unfolding helper_main_def cmd parsed by (simp add: argv)
qed

definition demo_call :: sandbox_call where
  "demo_call = \<lparr>sc_binary = ''/bin/agent'', sc_argv = [''/bin/agent'', ''--''], sc_niceness = - 5,
     sc_memory_max = 2147483648, sc_cpu_percent = 50, sc_workdir = ''/workspace'',
     sc_isolate_network = True, sc_root_dir = Some ''/tmp/root'', sc_rootfs_dir = None,
     sc_overlay_upper_dir = None, sc_overlay_work_dir = None, sc_inference_host = Some '''',
     sc_inference_port = 8000, sc_sandbox_inference_port = 8000, sc_http_proxy_port = 0,
     sc_disable_http_proxy = True\<rparr>"

lemma helper_reads_command_witness:
  "\<exists>cfg. helper_main (map utf8_encode (tl (run_sandbox_command ''bubblehub-sandbox'' demo_call))) = Some cfg
     \<and> cc_niceness cfg = - 5 \<and> cc_memory_max cfg = 2147483648 \<and> cc_argv cfg = [''/bin/agent'', ''--'']
     \<and> cc_inference_host cfg = None \<and> cc_http_proxy_port cfg = - 1"
proof -
  have "helper_numbers_fit demo_call" by (simp add: helper_numbers_fit_def demo_call_def)
  moreover have "map utf8_encode (sandboxed_argv demo_call) = [''/bin/agent'', ''--'']" by code_simp
  ultimately show ?thesis
    using helper_reads_command[of demo_call "''bubblehub-sandbox''" "\<lambda>_. None"]
    by (simp add: in_process_config_def demo_call_def)
qed

text \<open>
  C22. The broker answers the text of the stream, not its packets: while the process runs, and when each chunk
  decodes by itself (see below for one that does not), the answers are those to the complete lines of the whole text, in their
  order, and what follows the last newline is kept for later.
\<close>

theorem broker_independent_of_chunks:
  assumes "list_all (\<lambda>ev. event_text ev \<noteq> None) evs"
  shows "run_broker f evs =
    (let ls = split_on ch_nl (concat (map (the \<circ> event_text) evs)) in
     \<lparr>br_buffer = last ls, br_sent = concat (map (answer_line f) (butlast ls)), br_status = Running\<rparr>)"
  using broker_text[OF assms, of broker_start f "[]"]
  by (simp add: run_broker_def broker_start_def drain_spec split_on_def Let_def)

lemma broker_independent_of_chunks_witness:
  "br_sent (run_broker (\<lambda>_. Inr ''always'') [Received ''{}'', NothingReadable, Received [ch_nl, CHR ''x'', ch_nl]])
     = [''approve'' @ [ch_nl], ''deny'' @ [ch_nl]]"
proof -
  have "list_all (\<lambda>ev. event_text ev \<noteq> None) [Received ''{}'', NothingReadable, Received [ch_nl, CHR ''x'', ch_nl]]"
    by code_simp
  from broker_independent_of_chunks[OF this, of "\<lambda>_. Inr ''always''"]
  have "br_sent (run_broker (\<lambda>_. Inr ''always'') [Received ''{}'', NothingReadable, Received [ch_nl, CHR ''x'', ch_nl]])
     = concat (map (answer_line (\<lambda>_. Inr ''always'')) (butlast (split_on ch_nl
         (concat (map (the \<circ> event_text) [Received ''{}'', NothingReadable, Received [ch_nl, CHR ''x'', ch_nl]])))))"
    by (simp add: Let_def)
  also have "\<dots> = [''approve'' @ [ch_nl], ''deny'' @ [ch_nl]]" by code_simp
  finally show ?thesis .
qed

text \<open>
  The text that reaches the loop: chunk by chunk, until the process has ended or a chunk does not decode.
\<close>

fun received_text :: "broker_event list \<Rightarrow> string" where
  "received_text [] = []"
| "received_text (Exited n # evs) = []"
| "received_text (NothingReadable # evs) = received_text evs"
| "received_text (Received chunk # evs) = (case utf8_decode chunk of None \<Rightarrow> [] | Some t \<Rightarrow> t @ received_text evs)"

lemma broker_stopped: "br_status st \<noteq> Running \<Longrightarrow> fold (broker_step f) evs st = st"
  by (induction evs) (simp_all add: broker_step_def)

lemma broker_received:
  "br_status st = Running \<Longrightarrow> drain f (br_buffer st) = ([], br_buffer st) \<Longrightarrow>
     br_sent (fold (broker_step f) evs st) = br_sent st @ fst (drain f (br_buffer st @ received_text evs))"
proof (induction evs arbitrary: st)
  case (Cons ev evs)
  show ?case
  proof (cases ev)
    case (Exited n)
    then have "broker_step f ev st = st\<lparr>br_status := Returned n\<rparr>" using Cons.prems by (simp add: broker_step_def)
    then show ?thesis using Exited Cons.prems by (simp add: broker_stopped drain_Nil_rest)
  next
    case NothingReadable
    then have "broker_step f ev st = st" by (simp add: broker_step_def)
    then show ?thesis using NothingReadable Cons by simp
  next
    case (Received chunk)
    show ?thesis
    proof (cases "utf8_decode chunk")
      case None
      then have "chunk \<noteq> []" by auto
      with None Received Cons.prems have "broker_step f ev st = st\<lparr>br_status := Raised (UnicodeDecodeError ''invalid utf-8'')\<rparr>" by (simp add: broker_step_def decode_utf8_def)
      then show ?thesis using None Received Cons.prems by (auto simp: broker_stopped)
    next
      case (Some t)
      obtain b rest where b: "drain f (br_buffer st @ t) = (b, rest)" by fastforce
      have t: "chunk = [] \<Longrightarrow> t = []" using Some by simp
      have step: "broker_step f ev st = st\<lparr>br_buffer := rest, br_sent := br_sent st @ b\<rparr>"
        using Received Some Cons.prems b t by (cases "chunk = []") (auto simp: broker_step_def decode_utf8_def)
      obtain c rest' where c: "drain f (rest @ received_text evs) = (c, rest')" by fastforce
      from drain_append[OF b c] have "fst (drain f (br_buffer st @ t @ received_text evs)) = b @ c" by simp
      moreover have "br_sent (fold (broker_step f) evs (broker_step f ev st)) = br_sent (broker_step f ev st) @ fst (drain f (rest @ received_text evs))"
        using Cons.IH[of "broker_step f ev st"] drain_Nil_rest[OF b] Cons.prems(1) by (simp add: step)
      ultimately show ?thesis using Received Some c step[unfolded Received] by simp
    qed
  qed
qed simp

text \<open>
  C1. The broker fails closed: whatever arrives, the lines sent are the answers to the complete lines
  received that are not empty, one each and in their order; the answer to a line is \<^verbatim>\<open>approve\<close> when the line is
  a JSON object that the policy callback answers with \<^verbatim>\<open>always\<close>, \<^verbatim>\<open>ask\<close> when it answers \<^verbatim>\<open>ask\<close>, and
  \<^verbatim>\<open>deny\<close> for everything else: another text, an exception of the callback, a line that is no JSON or no object.
\<close>

theorem broker_fails_closed:
  "br_sent (run_broker f evs) =
     map (\<lambda>line. (case json_loads line of
             Inr (PDict request) \<Rightarrow>
               (if f request = Inr ''always'' then ''approve'' else if f request = Inr ''ask'' then ''ask'' else ''deny'')
           | _ \<Rightarrow> ''deny'') @ [ch_nl])
       (filter (\<lambda>line. line \<noteq> []) (butlast (split_on ch_nl (received_text evs))))"
proof -
  have "answer_line f line = (if line = [] then [] else [(case json_loads line of
             Inr (PDict request) \<Rightarrow>
               (if f request = Inr ''always'' then ''approve'' else if f request = Inr ''ask'' then ''ask'' else ''deny'')
           | _ \<Rightarrow> ''deny'') @ [ch_nl]])" for line
    by (auto simp: answer_line_def broker_response_def wire_response_def split: sum.splits pyval.splits)
  then have "concat (map (answer_line f) ls) = map (\<lambda>line. (case json_loads line of
             Inr (PDict request) \<Rightarrow>
               (if f request = Inr ''always'' then ''approve'' else if f request = Inr ''ask'' then ''ask'' else ''deny'')
           | _ \<Rightarrow> ''deny'') @ [ch_nl]) (filter (\<lambda>line. line \<noteq> []) ls)" for ls
    by (induction ls) simp_all
  moreover have "drain f [] = ([], [])" by (simp add: drain.simps has_char_def)
  ultimately show ?thesis using broker_received[of broker_start f evs]
    by (simp add: run_broker_def broker_start_def drain_spec)
qed

text \<open>
  A \<^verbatim>\<open>recv\<close> that ends inside a character ends the broker: the two bytes of one letter, received
  one by one, raise \<^verbatim>\<open>UnicodeDecodeError\<close> out of the loop while the sandbox runs on, although the
  same bytes in one chunk are a valid request that is answered.
\<close>

theorem broker_breaks_inside_character:
  "br_status (run_broker f [Received (''{'' @ [CHR 0x22] @ take 1 (utf8_encode [CHR 0xE9])),
      Received (drop 1 (utf8_encode [CHR 0xE9]) @ [CHR 0x22] @ '':1}'' @ [ch_nl])])
     = Raised (UnicodeDecodeError ''invalid utf-8'')
   \<and> br_sent (run_broker (\<lambda>_. Inr ''always'') [Received (''{'' @ [CHR 0x22] @ utf8_encode [CHR 0xE9] @ [CHR 0x22] @ '':1}'' @ [ch_nl])])
     = [''approve'' @ [ch_nl]]"
proof
  have "decode_utf8 (''{'' @ [CHR 0x22] @ take 1 (utf8_encode [CHR 0xE9])) = Inl (UnicodeDecodeError ''invalid utf-8'')"
    by code_simp
  then show "br_status (run_broker f [Received (''{'' @ [CHR 0x22] @ take 1 (utf8_encode [CHR 0xE9])),
      Received (drop 1 (utf8_encode [CHR 0xE9]) @ [CHR 0x22] @ '':1}'' @ [ch_nl])])
     = Raised (UnicodeDecodeError ''invalid utf-8'')"
    by (simp add: run_broker_def broker_step_def broker_start_def)
  show "br_sent (run_broker (\<lambda>_. Inr ''always'') [Received (''{'' @ [CHR 0x22] @ utf8_encode [CHR 0xE9] @ [CHR 0x22] @ '':1}'' @ [ch_nl])])
     = [''approve'' @ [ch_nl]]" by code_simp
qed

end
