(* ===== verification/Run_Agent.thy ===== *)
theory Run_Agent
  imports Agent_Records Inference_Config Native_Sandbox
begin

text \<open>
  \<^verbatim>\<open>bubble run\<close>: \<^verbatim>\<open>run_agent\<close> of \<^verbatim>\<open>bubblehub/cli/run.py\<close> with the environment it builds for the agent, the
  endpoint it forwards and the clean-up of every way out. What the sandbox itself does is a parameter.
\<close>

section \<open>The state of a run\<close>

record run_state =
  rs_host :: host
  rs_net :: net

definition on_host :: "(host, 'a) prog \<Rightarrow> (run_state, 'a) prog" where
  "on_host m s = (case m (rs_host s) of (r, h) \<Rightarrow> (r, s\<lparr>rs_host := h\<rparr>))"

definition on_net :: "(net, 'a) prog \<Rightarrow> (run_state, 'a) prog" where
  "on_net m s = (case m (rs_net s) of (r, n) \<Rightarrow> (r, s\<lparr>rs_net := n\<rparr>))"

abbreviation on_view :: "'a hosted \<Rightarrow> (run_state, 'a) prog" where "on_view m \<equiv> on_host (on_os m)"
abbreviation on_library :: "'a native \<Rightarrow> (run_state, 'a) prog" where "on_library m \<equiv> on_host (on_native m)"

abbreviation view_of :: "run_state \<Rightarrow> os_view" where "view_of s \<equiv> ho_os (rs_host s)"

text \<open>
  The surroundings: the host, the network, the client's limits, the fresh identifier and temporary
  directories, and what running the agent gives, with and without the sandbox: an exit code or an
  exception, the file system it leaves and the calls the broker makes.
\<close>

record run_params =
  rp_host :: host_params
  rp_probe :: probe
  rp_package :: string
  rp_models :: "pydict result"
  rp_limits :: "(pyfloat option \<times> pyfloat option) result"
  rp_hex :: string
  rp_own_pid :: int
  rp_gid :: nat
  rp_linux :: bool
  rp_staging :: place
  rp_workspace :: place
  rp_copied :: "unit result"
  rp_globbed :: "path \<Rightarrow> string list"
  rp_prefix_lib :: path
  rp_plain :: "string list \<Rightarrow> path \<Rightarrow> env \<Rightarrow> int result"
  rp_sandbox :: "env \<Rightarrow> sandbox_call \<Rightarrow> bool \<Rightarrow> fs \<Rightarrow> int result \<times> fs \<times> history"

record run_args =
  rg_binary :: string
  rg_extra_args :: "string list"
  rg_name :: "string option"
  rg_niceness :: int
  rg_memory :: string
  rg_cpu :: int
  rg_speciality :: "string option"
  rg_workdir :: "path option"
  rg_root_dir :: "path option"
  rg_unsafe_no_sandbox :: bool
  rg_force_new_sandbox :: bool
  rg_allow_network :: bool
  rg_interactive_access :: bool

section \<open>The memory limit\<close>

definition parse_bytes :: "string \<Rightarrow> int result" where
  "parse_bytes value =
     (let stripped = strip value in
      if stripped = [] then Inl (BadParameter ''memory limit cannot be empty'')
      else
        (let suffix = lower [last stripped];
             number = (if suffix \<in> set [''g'', ''m''] then butlast stripped else stripped) in
         case parse_int number of
           None \<Rightarrow> Inl (BadParameter (''invalid memory limit: '' @ value))
         | Some base \<Rightarrow>
             Inr (if suffix = ''g'' then base * 1024 * 1024 * 1024 else if suffix = ''m'' then base * 1024 * 1024 else base)))"

section \<open>The forwarded endpoint\<close>

record sandbox_endpoint =
  se_host :: string
  se_host_port :: int
  se_sandbox_port :: int

definition sandbox_base_url :: "sandbox_endpoint \<Rightarrow> string" where
  "sandbox_base_url e = ''http://127.0.0.1:'' @ show_int (se_sandbox_port e)"

definition sandbox_inference_endpoint :: "string \<Rightarrow> sandbox_endpoint result" where
  "sandbox_inference_endpoint host_base_url =
     bindr (urlparse host_base_url) (\<lambda>parsed.
       if pu_scheme parsed \<notin> set [''http'', ''''] then Inl (BadParameter ''sandboxed inference endpoint must use HTTP'')
       else bindr (pu_port parsed) (\<lambda>p.
         let port = (case p of Some n \<Rightarrow> if n \<noteq> 0 then n else 80 | None \<Rightarrow> 80) in
         Inr \<lparr>se_host = (case pu_hostname parsed of Some h \<Rightarrow> h | None \<Rightarrow> ''127.0.0.1''),
           se_host_port = port, se_sandbox_port = port\<rparr>))"

section \<open>The environment of the agent\<close>

definition passed_state_keys :: "string list" where
  "passed_state_keys = [''BUBBLEHUB_STATE_DIR'', ''XDG_STATE_HOME'', ''HOME'', ''BUBBLEHUB_SANDBOX_HELPER'', ''LD_LIBRARY_PATH'']"

definition pass_key :: "env \<Rightarrow> string \<Rightarrow> env \<Rightarrow> env" where
  "pass_key environ k e = (case env_nonempty environ k of None \<Rightarrow> e | Some x \<Rightarrow> e(k \<mapsto> x))"

definition agent_env :: "env \<Rightarrow> nat \<Rightarrow> nat \<Rightarrow> string \<Rightarrow> string option \<Rightarrow> int \<Rightarrow> env" where
  "agent_env environ uid gid agent_id agent_name niceness =
     (let e = Map.empty(''BUBBLEHUB_AGENT_ID'' \<mapsto> agent_id);
          e = (case agent_name of None \<Rightarrow> e | Some n \<Rightarrow> e(''BUBBLEHUB_AGENT_NAME'' \<mapsto> n));
          e = e(''BUBBLEHUB_NICENESS'' \<mapsto> show_int niceness, ''BUBBLEHUB_HOST_UID'' \<mapsto> show_nat uid,
            ''BUBBLEHUB_HOST_GID'' \<mapsto> show_nat gid,
            ''BUBBLEHUB_LOG_FILE'' \<mapsto> env_get environ ''BUBBLEHUB_LOG_FILE'' '''',
            ''BUBBLEHUB_LOG_LEVEL'' \<mapsto> env_get environ ''BUBBLEHUB_LOG_LEVEL'' '''',
            ''BUBBLEHUB_ENABLE_SECCOMP'' \<mapsto> env_get environ ''BUBBLEHUB_ENABLE_SECCOMP'' '''') in
      fold (pass_key environ) passed_state_keys e)"

definition python_env :: "path option \<Rightarrow> bool \<Rightarrow> env \<Rightarrow> env" where
  "python_env site rootfs e =
     (let e = (case site of None \<Rightarrow> e | Some p \<Rightarrow> e(''BUBBLEHUB_PYTHONPATH'' \<mapsto> path_str p)) in
      if rootfs then e(''BUBBLEHUB_ROOTFS_RELEASE'' \<mapsto> ''ubuntu-26.04'') else e)"

definition sandbox_inference_env :: "sandbox_endpoint \<Rightarrow> env \<Rightarrow> env" where
  "sandbox_inference_env endpoint e =
     e(''BUBBLEHUB_API_BASE_URL'' \<mapsto> sandbox_base_url endpoint, ''OPENAI_BASE_URL'' \<mapsto> sandbox_base_url endpoint @ ''/v1'',
       ''BUBBLEHUB_SANDBOX_INFERENCE_HOST'' \<mapsto> ''127.0.0.1'',
       ''BUBBLEHUB_SANDBOX_INFERENCE_PORT'' \<mapsto> show_int (se_sandbox_port endpoint),
       ''BUBBLEHUB_NETWORK'' \<mapsto> ''inference-only'')"

text \<open>\<^verbatim>\<open>_append_no_proxy\<close> stands in \<^verbatim>\<open>cli/run.py\<close> a second time.\<close>

definition sandbox_no_proxy :: "string \<Rightarrow> string" where
  "sandbox_no_proxy value =
     (let entries = filter (\<lambda>s. s \<noteq> []) (map strip (split_on CHR '','' value)) in
      join '','' (fold (\<lambda>entry es. if entry \<notin> set es then es @ [entry] else es) [''127.0.0.1'', ''localhost''] entries))"

definition sandbox_http_proxy_port :: int where "sandbox_http_proxy_port = 18080"

definition sandbox_http_proxy_env :: "int \<Rightarrow> env \<Rightarrow> env" where
  "sandbox_http_proxy_env proxy_port e =
     (let proxy_url = ''http://127.0.0.1:'' @ show_int proxy_port;
          e = e(''HTTP_PROXY'' \<mapsto> proxy_url, ''HTTPS_PROXY'' \<mapsto> proxy_url, ''http_proxy'' \<mapsto> proxy_url,
            ''https_proxy'' \<mapsto> proxy_url, ''BUBBLEHUB_HTTP_PROXY_PORT'' \<mapsto> show_int proxy_port);
          e = e(''NO_PROXY'' \<mapsto> sandbox_no_proxy (env_get e ''NO_PROXY'' '''')) in
      e(''no_proxy'' \<mapsto> sandbox_no_proxy (env_get e ''no_proxy'' '''')))"

section \<open>Starting the sandbox\<close>

definition set_environ :: "env \<Rightarrow> (run_state, unit) prog" where
  "set_environ e = on_view (\<lambda>v. (Inr (), v\<lparr>os_environ := e\<rparr>))"

text \<open>The call itself: the file system and the calls of the broker are the sandbox's.\<close>

definition native_run_sandbox :: "run_params \<Rightarrow> sandbox_call \<Rightarrow> bool \<Rightarrow> (run_state, int) prog" where
  "native_run_sandbox rp c broker s =
     (case rp_sandbox rp (os_environ (view_of s)) c broker (os_fs (view_of s)) of (r, fs', calls) \<Rightarrow>
        (r, s\<lparr>rs_host := (rs_host s)\<lparr>ho_os := (view_of s)\<lparr>os_fs := fs'\<rparr>, ho_native := ho_native (rs_host s) @ calls\<rparr>\<rparr>))"

definition run_native_sandbox ::
  "run_params \<Rightarrow> string list \<Rightarrow> string \<Rightarrow> (int \<Rightarrow> sandbox_call) \<Rightarrow> env \<Rightarrow> bool \<Rightarrow> (run_state, int) prog" where
  "run_native_sandbox rp target_args memory c e broker =
     (if target_args = [] then raisen (BadParameter ''missing sandbox command'')
      else bindn (on_view (asks Inr)) (\<lambda>v. let original_env = os_environ v in
         finallyn (bindn (set_environ e) (\<lambda>_. bindn (liftn (parse_bytes memory)) (\<lambda>m. native_run_sandbox rp (c m) broker)))
           (set_environ original_env)))"

section \<open>The run\<close>

text \<open>A fresh temporary directory, and its removal, for which one that is gone already is no error.\<close>

definition make_temp :: "place \<Rightarrow> (place \<times> node) list \<Rightarrow> unit hosted" where
  "make_temp d content = fs_change (\<lambda>fs _. Inr ((fs(d \<mapsto> Directory)) ++ map_of content))"

definition cleanup_temp :: "disk \<Rightarrow> place \<Rightarrow> unit hosted" where
  "cleanup_temp dk d v = (case fs_remove dk d v of (Inl (FileNotFoundError _), v') \<Rightarrow> (Inr (), v') | other \<Rightarrow> other)"

definition stage_binary :: "run_params \<Rightarrow> place \<Rightarrow> bool \<Rightarrow> unit hosted" where
  "stage_binary rp binary staged v =
     (if staged then make_temp (rp_staging rp)
        [(rp_staging rp @ [path_name (abs_path binary)], (case os_fs v binary of Some n \<Rightarrow> n | None \<Rightarrow> File []))] v
      else (Inr (), v))"

record launch =
  la_agent_id :: string
  la_paths :: sandbox_paths
  la_rootfs :: "place option"
  la_overlay :: "overlay_paths option"
  la_env :: env
  la_endpoint :: string
  la_binary :: place
  la_sandbox_binary :: path
  la_staging :: bool
  la_workspace :: bool

text \<open>What is decided before the agent is registered.\<close>

definition choose_paths :: "run_params \<Rightarrow> run_args \<Rightarrow>
    (run_state, sandbox_paths \<times> place option \<times> place \<times> persistent_sandbox) prog" where
  "choose_paths rp a =
     bindn (on_view (asks (\<lambda>v. resolve_sandbox_paths v (rg_root_dir a) (rg_workdir a)))) (\<lambda>paths.
     bindn (on_view (asks resolve_rootfs_dir)) (\<lambda>rootfs.
     bindn (on_view (asks (\<lambda>v. resolve_binary v (rg_binary a) (bx_host_workdir paths)))) (\<lambda>binary.
     bindn (on_view (select_persistent_sandbox (hp_disk (rp_host rp)) (bx_host_root_dir paths) (rg_force_new_sandbox a)))
       (\<lambda>persistent. returnn (paths, rootfs, binary, persistent)))))"

definition choose_run :: "run_params \<Rightarrow> run_args \<Rightarrow>
    (run_state, sandbox_paths \<times> place option \<times> place \<times> persistent_sandbox) prog" where
  "choose_run rp a =
     bindn (on_library (scheduler_client (hp_lib (rp_host rp)) (rp_limits rp))) (\<lambda>_. choose_paths rp a)"

definition register_run :: "run_params \<Rightarrow> run_args \<Rightarrow> sandbox_paths \<Rightarrow> place \<Rightarrow> persistent_sandbox \<Rightarrow> (run_state, string) prog" where
  "register_run rp a paths binary persistent =
     on_library (client_register_agent (hp_lib (rp_host rp)) (rp_hex rp) (rp_own_pid rp) (path_str (abs_path binary))
       (rg_niceness a) (rg_speciality a) None (pb_agent_id persistent))"

text \<open>What happens between the registration and the \<^verbatim>\<open>try\<close>.\<close>

definition prepare_launch ::
  "run_params \<Rightarrow> run_args \<Rightarrow> sandbox_paths \<Rightarrow> place option \<Rightarrow> place \<Rightarrow> string \<Rightarrow> (run_state, launch) prog" where
  "prepare_launch rp a paths rootfs binary agent_id =
     (let agent_name = normalize_agent_name (rg_name a) in
      bindn (on_view (record_persistent_sandbox (bx_host_root_dir paths) agent_id)) (\<lambda>_.
      bindn (on_view (write_agent_metadata agent_id agent_name (bx_host_root_dir paths)
         (Some (path_str (bx_host_workdir paths))) (path_str (abs_path binary)))) (\<lambda>_.
      bindn (on_view (asks (\<lambda>v. prepare_sandbox_binary v (rp_staging rp) (rp_copied rp) binary paths agent_id)))
        (\<lambda>(paths, sandbox_binary, staged).
      bindn (on_view (stage_binary rp binary staged)) (\<lambda>_.
      let workspace = rootfs \<noteq> None \<and> bx_host_root_dir paths = None;
          paths = (if workspace then \<lparr>bx_host_workdir = abs_path (rp_workspace rp), bx_sandbox_workdir = ''/workspace'',
             bx_host_root_dir = Some (path_str (abs_path (rp_workspace rp)))\<rparr> else paths) in
      bindn (on_view (if workspace then make_temp (rp_workspace rp) [] else returnn ())) (\<lambda>_.
      bindn (on_view (\<lambda>v. case prepare_overlay_paths (os_cwd v) (bx_host_root_dir paths) agent_id rootfs (os_fs v) of
          (r, fs') \<Rightarrow> (r, v\<lparr>os_fs := fs'\<rparr>))) (\<lambda>overlay.
      bindn (on_view (asks Inr)) (\<lambda>v.
      let e = agent_env (os_environ v) (os_uid v) (rp_gid rp) agent_id agent_name (rg_niceness a) in
      bindn (on_view (prepare_access_manifest_dir agent_id e)) (\<lambda>_.
      bindn (on_view (asks Inr)) (\<lambda>v.
      let e = python_env (bubblehub_site_packages v (rp_globbed rp) (rp_prefix_lib rp)) (rootfs \<noteq> None) e in
      bindn (on_net (apply_inference_env (rp_probe rp) v (rp_package rp) (rp_models rp) (rg_speciality a) e)) (\<lambda>(e, endpoint).
        returnn \<lparr>la_agent_id = agent_id, la_paths = paths, la_rootfs = rootfs, la_overlay = overlay, la_env = e,
          la_endpoint = endpoint, la_binary = binary, la_sandbox_binary = sandbox_binary, la_staging = staged,
          la_workspace = workspace\<rparr>)))))))))))"

definition launch_call :: "run_args \<Rightarrow> launch \<Rightarrow> sandbox_endpoint \<Rightarrow> string list \<Rightarrow> int \<Rightarrow> sandbox_call" where
  "launch_call a l endpoint sandbox_args memory =
     \<lparr>sc_binary = hd sandbox_args, sc_argv = sandbox_args, sc_niceness = rg_niceness a, sc_memory_max = memory,
      sc_cpu_percent = rg_cpu a, sc_workdir = bx_sandbox_workdir (la_paths l), sc_isolate_network = \<not> rg_allow_network a,
      sc_root_dir = bx_host_root_dir (la_paths l), sc_rootfs_dir = map_option (\<lambda>d. path_str (abs_path d)) (la_rootfs l),
      sc_overlay_upper_dir = map_option (\<lambda>p. path_str (abs_path (ov_upper_dir p))) (la_overlay l),
      sc_overlay_work_dir = map_option (\<lambda>p. path_str (abs_path (ov_work_dir p))) (la_overlay l),
      sc_inference_host = Some (se_host endpoint), sc_inference_port = se_host_port endpoint,
      sc_sandbox_inference_port = se_sandbox_port endpoint,
      sc_http_proxy_port = (if rg_allow_network a then 0 else sandbox_http_proxy_port), sc_disable_http_proxy = False\<rparr>"

definition launch_env :: "run_args \<Rightarrow> launch \<Rightarrow> sandbox_endpoint \<Rightarrow> env" where
  "launch_env a l inference =
     (let e = sandbox_inference_env inference (la_env l) in
      if \<not> rg_allow_network a then sandbox_http_proxy_env sandbox_http_proxy_port e else e)"

text \<open>The body of the \<^verbatim>\<open>try\<close>: it always ends in an exception, \<^verbatim>\<open>typer.Exit\<close> among them.\<close>

definition launch_agent :: "run_params \<Rightarrow> run_args \<Rightarrow> launch \<Rightarrow> (run_state, unit) prog" where
  "launch_agent rp a l =
     bindn (on_view (asks Inr)) (\<lambda>v.
     let sandbox_args = argv_for_binary v (la_sandbox_binary l) @ rg_extra_args a;
         host_args = argv_for_binary v (abs_path (la_binary l)) @ rg_extra_args a in
     if \<not> rp_linux rp \<and> \<not> rg_unsafe_no_sandbox a
     then raisen (BadParameter ''bubble run sandbox is Linux-only; use --unsafe-no-sandbox for local development'')
     else if rg_unsafe_no_sandbox a then
       bindn (liftn (rp_plain rp host_args (bx_host_workdir (la_paths l)) (la_env l))) (\<lambda>code. raisen (TyperExit code))
     else
       bindn (liftn (sandbox_inference_endpoint (la_endpoint l))) (\<lambda>inference.
       bindn (run_native_sandbox rp sandbox_args (rg_memory a) (launch_call a l inference sandbox_args)
           (launch_env a l inference) (rg_interactive_access a \<and> \<not> rg_allow_network a)) (\<lambda>code. raisen (TyperExit code))))"

definition remove_temporaries :: "run_params \<Rightarrow> launch \<Rightarrow> unit hosted" where
  "remove_temporaries rp l =
     bindn (if la_staging l then cleanup_temp (hp_disk (rp_host rp)) (rp_staging rp) else returnn ()) (\<lambda>_.
       if la_workspace l then cleanup_temp (hp_disk (rp_host rp)) (rp_workspace rp) else returnn ())"

definition end_run :: "run_params \<Rightarrow> launch \<Rightarrow> (run_state, unit) prog" where
  "end_run rp l =
     bindn (on_view (remove_temporaries rp l)) (\<lambda>_. on_library (deregister_agent (hp_lib (rp_host rp)) (la_agent_id l)))"

text \<open>Everything before the \<^verbatim>\<open>try\<close>, and the whole.\<close>

definition start_run :: "run_params \<Rightarrow> run_args \<Rightarrow> (run_state, launch) prog" where
  "start_run rp a =
     bindn (choose_run rp a) (\<lambda>(paths, rootfs, binary, persistent).
     bindn (register_run rp a paths binary persistent) (\<lambda>agent_id.
       prepare_launch rp a paths rootfs binary agent_id))"

definition run_agent :: "run_params \<Rightarrow> run_args \<Rightarrow> (run_state, unit) prog" where
  "run_agent rp a = bindn (start_run rp a) (\<lambda>l. finallyn (launch_agent rp a l) (end_run rp l))"

section \<open>Laws\<close>

abbreviation environ_of :: "run_state \<Rightarrow> env" where "environ_of s \<equiv> os_environ (view_of s)"
abbreviation calls_of :: "run_state \<Rightarrow> history" where "calls_of s \<equiv> ho_native (rs_host s)"

lemma keeps_on_view [keeps_rules]: "keeps os_environ m \<Longrightarrow> keeps environ_of (on_view m)"
  by (auto simp: keeps_def on_host_def on_os_def split: prod.splits) (metis snd_conv)

lemma keeps_on_library [keeps_rules]: "keeps environ_of (on_library m)"
  by (auto simp: keeps_def on_host_def on_native_def split: prod.splits)

lemma keeps_on_net [keeps_rules]: "keeps environ_of (on_net m)" "keeps calls_of (on_net m)"
  by (auto simp: keeps_def on_net_def split: prod.splits)

lemma calls_on_view [keeps_rules]: "keeps calls_of (on_view m)"
  by (auto simp: keeps_def on_host_def on_os_def split: prod.splits)

lemma keeps_temp [keeps_rules]: "keeps os_environ (make_temp d content)"
  unfolding make_temp_def by (rule keeps_fs)

lemma keeps_cleanup [keeps_rules]: "keeps os_environ (cleanup_temp dk d)"
  using keepsD[OF keeps_fs(2)] unfolding keeps_def cleanup_temp_def by (auto split: prod.splits sum.splits exn.splits)

lemma keeps_stage [keeps_rules]: "keeps os_environ (stage_binary rp binary staged)"
  unfolding stage_binary_def[abs_def] using keeps_temp by (auto simp: keeps_def)

lemma keeps_choose [keeps_rules]: "keeps environ_of (choose_run rp a)"
  unfolding choose_run_def choose_paths_def by (intro keeps_rules)

lemma keeps_register [keeps_rules]: "keeps environ_of (register_run rp a paths binary persistent)"
  unfolding register_run_def by (intro keeps_rules)

lemma keeps_overlay [keeps_rules]: "keeps os_environ (\<lambda>v. case f v of (r, fs') \<Rightarrow> (r, v\<lparr>os_fs := fs'\<rparr>))"
  by (simp add: keeps_def split: prod.splits)

lemma keeps_prepare [keeps_rules]: "keeps environ_of (prepare_launch rp a paths rootfs binary agent_id)"
  unfolding prepare_launch_def Let_def by (intro keeps_rules)

lemma calls_prepare: "keeps calls_of (prepare_launch rp a paths rootfs binary agent_id)"
  unfolding prepare_launch_def Let_def by (intro keeps_rules)

lemma keeps_start [keeps_rules]: "keeps environ_of (start_run rp a)"
  unfolding start_run_def by (intro keeps_rules)

lemma keeps_temporaries [keeps_rules]: "keeps os_environ (remove_temporaries rp l)"
  unfolding remove_temporaries_def by (intro keeps_rules)

lemma keeps_end [keeps_rules]: "keeps environ_of (end_run rp l)"
  unfolding end_run_def by (intro keeps_rules)

lemma environ_set: "environ_of (snd (set_environ e s)) = e" "fst (set_environ e s) = Inr ()"
  by (simp_all add: set_environ_def on_host_def on_os_def)

lemma finally_restores: "environ_of (snd (finallyn m (set_environ e) s)) = e"
proof -
  obtain r s' where "m s = (r, s')" by fastforce
  then show ?thesis by (simp add: finallyn_def set_environ_def on_host_def on_os_def)
qed

lemma keeps_native_run [keeps_rules]: "keeps environ_of (run_native_sandbox rp args memory c e broker)"
  unfolding run_native_sandbox_def Let_def
  by (simp add: keeps_def native_simps on_host_def on_os_def asks_def finally_restores)

lemma keeps_launch [keeps_rules]: "keeps environ_of (launch_agent rp a l)"
  unfolding launch_agent_def Let_def by (intro keeps_rules)

lemma yields_on_net: "yields Q m \<Longrightarrow> yields Q (on_net m)"
  by (auto simp: yields_def on_net_def split: prod.splits)

text \<open>Every variable the agent can see.\<close>

definition agent_env_keys :: "string set" where
  "agent_env_keys =
        {''BUBBLEHUB_STATE_DIR'', ''XDG_STATE_HOME'', ''HOME'', ''BUBBLEHUB_SANDBOX_HELPER'', ''LD_LIBRARY_PATH''}
        \<union> {''BUBBLEHUB_LOG_FILE'', ''BUBBLEHUB_LOG_LEVEL'', ''BUBBLEHUB_ENABLE_SECCOMP''}
        \<union> {''BUBBLEHUB_AGENT_ID'', ''BUBBLEHUB_AGENT_NAME'', ''BUBBLEHUB_NICENESS'', ''BUBBLEHUB_HOST_UID'', ''BUBBLEHUB_HOST_GID'',
           ''BUBBLEHUB_PYTHONPATH'', ''BUBBLEHUB_ROOTFS_RELEASE'', ''BUBBLEHUB_API_BASE_URL'', ''OPENAI_BASE_URL'', ''OPENAI_API_KEY'',
           ''BUBBLEHUB_SPECIALITY'', ''NO_PROXY'', ''no_proxy'', ''BUBBLEHUB_SANDBOX_INFERENCE_HOST'', ''BUBBLEHUB_SANDBOX_INFERENCE_PORT'',
           ''BUBBLEHUB_NETWORK'', ''HTTP_PROXY'', ''HTTPS_PROXY'', ''http_proxy'', ''https_proxy'', ''BUBBLEHUB_HTTP_PROXY_PORT''}"

named_theorems env_rules \<open>environments that stay inside a set of names\<close>

definition env_inside :: "string set \<Rightarrow> env \<Rightarrow> bool" where
  "env_inside K e \<longleftrightarrow> dom e \<subseteq> K"

lemma env_inside_rules [env_rules]:
  "env_inside K Map.empty"
  "k \<in> K \<Longrightarrow> env_inside K e \<Longrightarrow> env_inside K (e(k \<mapsto> x))"
  "k \<in> K \<Longrightarrow> env_inside K e \<Longrightarrow> env_inside K (pass_key environ k e)"
  "k \<in> K \<Longrightarrow> env_inside K e \<Longrightarrow> env_inside K (env_default k d e)"
  by (auto simp: env_inside_def pass_key_def env_default_def split: option.splits)

lemma env_inside_option [env_rules]:
  "env_inside K e \<Longrightarrow> (\<And>x. env_inside K (f x)) \<Longrightarrow> env_inside K (case o1 of None \<Rightarrow> e | Some x \<Rightarrow> f x)"
  "env_inside K e \<Longrightarrow> env_inside K e' \<Longrightarrow> env_inside K (if b then e else e')"
  by (simp_all split: option.split)

lemma pass_key_other: "k' \<noteq> k \<Longrightarrow> pass_key environ k e k' = e k'"
  by (auto simp: pass_key_def split: option.splits)

lemma agent_env_inside [env_rules]: "env_inside agent_env_keys (agent_env environ uid gid i n nice)"
  unfolding agent_env_def passed_state_keys_def Let_def fold_simps comp_apply id_apply
  by (intro env_rules; simp add: agent_env_keys_def)

lemma python_env_inside [env_rules]: "env_inside agent_env_keys e \<Longrightarrow> env_inside agent_env_keys (python_env site rootfs e)"
  unfolding python_env_def Let_def by (intro env_rules; simp add: agent_env_keys_def)

lemma inference_env_inside [env_rules]: "env_inside agent_env_keys e \<Longrightarrow> env_inside agent_env_keys (inference_env url sp c e)"
  unfolding inference_env_def Let_def by (intro env_rules; simp add: agent_env_keys_def)

lemma launch_env_inside [env_rules]: "env_inside agent_env_keys (la_env l) \<Longrightarrow> env_inside agent_env_keys (launch_env a l inference)"
  unfolding launch_env_def sandbox_inference_env_def sandbox_http_proxy_env_def Let_def
  by (intro env_rules; simp add: agent_env_keys_def)

lemma agent_env_values:
  "agent_env environ uid gid i n nice ''OPENAI_API_KEY'' = None"
  "agent_env environ uid gid i n nice ''BUBBLEHUB_AGENT_ID'' = Some i"
  by (simp_all add: agent_env_def passed_state_keys_def pass_key_other Let_def split: option.split)

lemma python_env_values [simp]:
  "k \<notin> {''BUBBLEHUB_PYTHONPATH'', ''BUBBLEHUB_ROOTFS_RELEASE''} \<Longrightarrow> python_env site rootfs e k = e k"
  by (auto simp: python_env_def Let_def split: option.split)

text \<open>The variables of the host that are handed down, and with which value.\<close>

definition handed_down :: "env \<Rightarrow> env \<Rightarrow> bool" where
  "handed_down environ e \<longleftrightarrow>
     (\<forall>k \<in> {''BUBBLEHUB_STATE_DIR'', ''XDG_STATE_HOME'', ''HOME'', ''BUBBLEHUB_SANDBOX_HELPER'', ''LD_LIBRARY_PATH''}. e k = env_nonempty environ k)
     \<and> (\<forall>k \<in> {''BUBBLEHUB_LOG_FILE'', ''BUBBLEHUB_LOG_LEVEL'', ''BUBBLEHUB_ENABLE_SECCOMP''}. e k = Some (env_get environ k []))"

lemma pass_key_same: "e k = None \<Longrightarrow> pass_key environ k e k = env_nonempty environ k"
  by (auto simp: pass_key_def split: option.splits)

lemma agent_env_handed: "handed_down environ (agent_env environ uid gid i n nice)"
  by (simp add: handed_down_def agent_env_def passed_state_keys_def pass_key_other pass_key_same Let_def split: option.split)

lemma handed_python: "handed_down environ e \<Longrightarrow> handed_down environ (python_env site rootfs e)"
  by (simp add: handed_down_def)

lemma handed_inference: "handed_down environ e \<Longrightarrow> handed_down environ (inference_env url sp c e)"
  by (simp add: handed_down_def inference_env_def Let_def env_default_def)

lemma handed_launch: "handed_down environ (la_env l) \<Longrightarrow> handed_down environ (launch_env a l inference)"
  by (simp add: handed_down_def launch_env_def sandbox_inference_env_def sandbox_http_proxy_env_def Let_def)

lemma inference_env_values:
  "inference_env url sp c e ''OPENAI_API_KEY'' = (case e ''OPENAI_API_KEY'' of None \<Rightarrow> Some ''bubblehub-local'' | Some k \<Rightarrow> Some k)"
  "inference_env url sp c e ''BUBBLEHUB_AGENT_ID'' = e ''BUBBLEHUB_AGENT_ID''"
  by (auto simp: inference_env_def Let_def env_default_def split: option.split)

lemma launch_env_values:
  "launch_env a l inference ''OPENAI_API_KEY'' = la_env l ''OPENAI_API_KEY''"
  "launch_env a l inference ''BUBBLEHUB_AGENT_ID'' = la_env l ''BUBBLEHUB_AGENT_ID''"
  "launch_env a l inference ''BUBBLEHUB_API_BASE_URL'' = Some (sandbox_base_url inference)"
  by (simp_all add: launch_env_def sandbox_inference_env_def sandbox_http_proxy_env_def Let_def)

text \<open>What a program returns when it starts in an environment, which it keeps.\<close>

definition yields_in :: "env \<Rightarrow> ('a \<Rightarrow> bool) \<Rightarrow> (run_state, 'a) prog \<Rightarrow> bool" where
  "yields_in E Q m \<longleftrightarrow> (\<forall>s x s'. environ_of s = E \<longrightarrow> m s = (Inr x, s') \<longrightarrow> Q x)"

lemma yields_in_after: "keeps environ_of m \<Longrightarrow> yields_in E R m \<Longrightarrow> (\<And>x. R x \<Longrightarrow> yields_in E Q (k x)) \<Longrightarrow> yields_in E Q (bindn m k)"
proof (unfold yields_in_def, intro allI impI)
  fix s y s'
  assume keeps: "keeps environ_of m" and m: "\<forall>s x s'. environ_of s = E \<longrightarrow> m s = (Inr x, s') \<longrightarrow> R x"
    and k: "\<And>x. R x \<Longrightarrow> \<forall>s y s'. environ_of s = E \<longrightarrow> k x s = (Inr y, s') \<longrightarrow> Q y" and s: "environ_of s = E" and run: "bindn m k s = (Inr y, s')"
  from run obtain x h where x: "m s = (Inr x, h)" "k x h = (Inr y, s')" by (rule bindn_Inr)
  have "environ_of h = E" using keepsD[OF keeps x(1)] s by simp
  moreover have "R x" using m s x(1) by blast
  ultimately show "Q y" using k x(2) by blast
qed

lemma yields_in_bindn: "keeps environ_of m \<Longrightarrow> (\<And>x. yields_in E Q (k x)) \<Longrightarrow> yields_in E Q (bindn m k)"
  using yields_in_after[of m E "\<lambda>_. True" Q k] by (simp add: yields_in_def)

lemma yields_in_view: "(\<And>v. os_environ v = E \<Longrightarrow> yields_in E Q (k v)) \<Longrightarrow> yields_in E Q (bindn (on_view (asks Inr)) k)"
  unfolding yields_in_def by (auto simp: native_simps on_host_def on_os_def asks_def)

lemma yields_in_any: "yields Q m \<Longrightarrow> yields_in E Q m"
  by (auto simp: yields_def yields_in_def)

lemma yields_in_prod: "(\<And>x y. p = (x, y) \<Longrightarrow> yields_in E Q (k x y)) \<Longrightarrow> yields_in E Q (case p of (x, y) \<Rightarrow> k x y)"
  by (cases p) simp

lemma prepared_handed: "yields_in E (\<lambda>l. handed_down E (la_env l)) (prepare_launch rp a paths rootfs binary agent_id)"
proof -
  let ?q = "\<lambda>(e, endpoint). handed_down E e"
  have "yields ?q (on_net (apply_inference_env (rp_probe rp) v (rp_package rp) (rp_models rp) (rg_speciality a)
      (python_env site (rootfs \<noteq> None) (agent_env (os_environ u) uid gid agent_id n nice))))" if "os_environ u = E" for u v site uid gid n nice
    using that unfolding apply_inference_env_def
    by (intro yields_on_net yields_rules) (auto intro: handed_inference handed_python agent_env_handed)
  note net = this
  show ?thesis
    unfolding prepare_launch_def Let_def
    by (intro yields_in_view yields_in_after[where R = ?q, OF _ yields_in_any[OF net]] yields_in_bindn yields_in_prod keeps_rules)
      (auto simp: yields_in_def native_simps)
qed

text \<open>What a prepared launch carries.\<close>

definition launch_of :: "string \<Rightarrow> launch \<Rightarrow> bool" where
  "launch_of agent_id l \<longleftrightarrow> la_agent_id l = agent_id \<and> env_inside agent_env_keys (la_env l)
     \<and> la_env l ''OPENAI_API_KEY'' = Some ''bubblehub-local'' \<and> la_env l ''BUBBLEHUB_AGENT_ID'' = Some agent_id"

lemma prepared_launch: "yields (launch_of agent_id) (prepare_launch rp a paths rootfs binary agent_id)"
proof -
  let ?q = "\<lambda>(e, endpoint). env_inside agent_env_keys e \<and> e ''OPENAI_API_KEY'' = Some ''bubblehub-local''
    \<and> e ''BUBBLEHUB_AGENT_ID'' = Some agent_id"
  have "yields ?q (on_net (apply_inference_env (rp_probe rp) v (rp_package rp) (rp_models rp) (rg_speciality a)
      (python_env site (rootfs \<noteq> None) (agent_env environ uid gid agent_id n nice))))" for v site environ uid gid n nice
    unfolding apply_inference_env_def
    by (intro yields_on_net yields_rules) (auto simp: inference_env_values agent_env_values intro!: env_rules)
  then show ?thesis
    unfolding prepare_launch_def Let_def
    by (intro yields_rules yields_after[of ?q]) (auto simp: launch_of_def)
qed

lemma library_calls: "on_library m s = (r, s') \<Longrightarrow> m (calls_of s) = (r, calls_of s')"
  by (auto simp: on_host_def on_native_def split: prod.splits)

lemma choose_run_calls:
  assumes "choose_run rp a s = (Inr x, s1)"
  shows "\<exists>ram vram. rp_limits rp = Inr (ram, vram) \<and>
    calls_of s1 = calls_of s @ [StatusReply (ConfigureLimits (limit_or_zero ram) (limit_or_zero vram)) 0]"
proof -
  from assms obtain u s0 where u: "on_library (scheduler_client (hp_lib (rp_host rp)) (rp_limits rp)) s = (Inr u, s0)"
    and rest: "choose_paths rp a s0 = (Inr x, s1)"
    unfolding choose_run_def by (elim bindn_Inr)
  have "calls_of s1 = calls_of s0" 
    using keepsD[of calls_of "choose_paths rp a", OF _ rest] unfolding choose_paths_def by (simp add: keeps_rules)
  with library_calls[OF u] show ?thesis
    by (auto simp: scheduler_client_def native_simps configure_limits_def status_call_def Let_def
        split: sum.splits prod.splits if_splits)
qed

lemma register_run_calls:
  assumes "register_run rp a paths binary persistent s1 = (Inr agent_id, s2)"
  shows "agent_id = client_agent_id (pb_agent_id persistent) (rp_hex rp) \<and>
    calls_of s2 = calls_of s1 @ [StatusReply (RegisterAgent (bytes agent_id) (rp_own_pid rp)
      (bytes (path_str (abs_path binary))) (rg_niceness a) (map_option bytes (rg_speciality a))) 0]"
  using library_calls[OF assms[unfolded register_run_def]]
  by (auto simp: client_register_agent_def register_agent_def native_simps status_call_def Let_def split: if_splits)

definition registration_calls :: "run_params \<Rightarrow> run_args \<Rightarrow> string \<Rightarrow> history \<Rightarrow> bool" where
  "registration_calls rp a agent_id h \<longleftrightarrow> (\<exists>ram vram binary.
     h = [StatusReply (ConfigureLimits ram vram) 0,
       StatusReply (RegisterAgent (bytes agent_id) (rp_own_pid rp) binary (rg_niceness a) (map_option bytes (rg_speciality a))) 0])"

lemma registered_calls:
  assumes "choose_run rp a s = (Inr (paths, rootfs, binary, persistent), s1)"
    "register_run rp a paths binary persistent s1 = (Inr agent_id, s2)"
  shows "\<exists>h. calls_of s2 = calls_of s @ h \<and> registration_calls rp a agent_id h"
  using choose_run_calls[OF assms(1)] register_run_calls[OF assms(2)] by (auto simp: registration_calls_def)

lemma start_run_launch:
  assumes "start_run rp a s = (Inr l, s')"
  shows "\<exists>h. calls_of s' = calls_of s @ h \<and> registration_calls rp a (la_agent_id l) h \<and> launch_of (la_agent_id l) l"
proof -
  from assms obtain paths rootfs binary persistent s1 agent_id s2 where
    c: "choose_run rp a s = (Inr (paths, rootfs, binary, persistent), s1)" and
    r: "register_run rp a paths binary persistent s1 = (Inr agent_id, s2)" and
    p: "prepare_launch rp a paths rootfs binary agent_id s2 = (Inr l, s')"
    unfolding start_run_def by (auto elim!: bindn_Inr)
  have l: "launch_of agent_id l" using yieldsD[OF prepared_launch p] .
  then have "la_agent_id l = agent_id" by (simp add: launch_of_def)
  then show ?thesis using registered_calls[OF c r] keepsD[OF calls_prepare p] l by auto
qed

lemma start_run_handed:
  assumes "start_run rp a s = (Inr l, s')" shows "handed_down (environ_of s) (la_env l)"
proof -
  from assms obtain paths rootfs binary persistent s1 agent_id s2 where
    c: "choose_run rp a s = (Inr (paths, rootfs, binary, persistent), s1)" and
    r: "register_run rp a paths binary persistent s1 = (Inr agent_id, s2)" and
    p: "prepare_launch rp a paths rootfs binary agent_id s2 = (Inr l, s')"
    unfolding start_run_def by (auto elim!: bindn_Inr)
  have "environ_of s2 = environ_of s" using keepsD[OF keeps_choose c] keepsD[OF keeps_register r] by simp
  then show ?thesis using prepared_handed[of "environ_of s"] p unfolding yields_in_def by metis
qed

text \<open>The calls the broker makes while the sandbox runs.\<close>

named_theorems grows_rules \<open>programs that only add calls\<close>

definition grows :: "(run_state, 'a) prog \<Rightarrow> bool" where
  "grows m \<longleftrightarrow> (\<forall>s. \<exists>h. calls_of (snd (m s)) = calls_of s @ h)"

lemma growsD: "grows m \<Longrightarrow> m s = (r, s') \<Longrightarrow> \<exists>h. calls_of s' = calls_of s @ h"
  unfolding grows_def by (metis snd_conv)

lemma grows_keeps [grows_rules]: "keeps calls_of m \<Longrightarrow> grows m"
  by (simp add: keeps_def grows_def)

lemma grows_bindn [grows_rules]: "grows m \<Longrightarrow> (\<And>x. grows (k x)) \<Longrightarrow> grows (bindn m k)"
  unfolding grows_def by (auto simp: native_simps split: prod.splits sum.splits) (metis append_assoc snd_conv)+

lemma grows_if [grows_rules]: "grows m \<Longrightarrow> grows m' \<Longrightarrow> grows (if b then m else m')"
  by simp

lemma grows_finally [grows_rules]: "grows m \<Longrightarrow> grows c \<Longrightarrow> grows (finallyn m c)"
  unfolding grows_def finallyn_def by (auto split: prod.splits sum.splits) (metis append_assoc snd_conv)+

lemma grows_native [grows_rules]: "grows (native_run_sandbox rp c broker)"
  by (auto simp: grows_def native_run_sandbox_def split: prod.splits)

lemma grows_launch: "grows (launch_agent rp a l)"
  unfolding launch_agent_def run_native_sandbox_def set_environ_def Let_def
  by (intro grows_if grows_bindn grows_finally grows_native; intro grows_keeps keeps_rules)

lemma launch_agent_raises: "\<exists>e. fst (launch_agent rp a l s) = Inl e"
  by (auto simp: launch_agent_def Let_def native_simps on_host_def on_os_def asks_def split: prod.splits sum.splits)

section \<open>Properties\<close>

text \<open>
  C12. Whatever happens, \<^verbatim>\<open>bubble run\<close> leaves the environment of its process as it found it, although the
  sandbox is started with the environment of the process replaced by the agent's.
\<close>

theorem run_agent_restores_environment:
  "os_environ (ho_os (rs_host (snd (run_agent rp a s)))) = os_environ (ho_os (rs_host s))"
proof -
  have "keeps environ_of (run_agent rp a)" unfolding run_agent_def by (intro keeps_rules)
  then show ?thesis by (simp add: keeps_def)
qed

text \<open>
  C14. The environment the sandbox's helper is started with is closed. Eight variables are handed down from the
  host, each with the value it has there: five when they are set and not empty, three always, empty when
  they are not set. Any other variable is one of 21 that the code sets itself, whatever the host has. The
  API key is the placeholder, never the key of the user; identifier and niceness are those of the
  run, and requests go to the forwarded port. (What the helper adds inside, \<^verbatim>\<open>PATH\<close> for instance, is its own.)
\<close>

theorem agent_environment_is_closed:
  assumes "start_run rp a s = (Inr l, s')"
  shows "(\<forall>k \<in> {''BUBBLEHUB_STATE_DIR'', ''XDG_STATE_HOME'', ''HOME'', ''BUBBLEHUB_SANDBOX_HELPER'', ''LD_LIBRARY_PATH''}.
        launch_env a l inference k = env_nonempty (os_environ (ho_os (rs_host s))) k)
    \<and> (\<forall>k \<in> {''BUBBLEHUB_LOG_FILE'', ''BUBBLEHUB_LOG_LEVEL'', ''BUBBLEHUB_ENABLE_SECCOMP''}.
        launch_env a l inference k = Some (env_get (os_environ (ho_os (rs_host s))) k []))
    \<and> dom (launch_env a l inference) \<subseteq>
        {''BUBBLEHUB_STATE_DIR'', ''XDG_STATE_HOME'', ''HOME'', ''BUBBLEHUB_SANDBOX_HELPER'', ''LD_LIBRARY_PATH''}
        \<union> {''BUBBLEHUB_LOG_FILE'', ''BUBBLEHUB_LOG_LEVEL'', ''BUBBLEHUB_ENABLE_SECCOMP''}
        \<union> {''BUBBLEHUB_AGENT_ID'', ''BUBBLEHUB_AGENT_NAME'', ''BUBBLEHUB_NICENESS'', ''BUBBLEHUB_HOST_UID'', ''BUBBLEHUB_HOST_GID'',
           ''BUBBLEHUB_PYTHONPATH'', ''BUBBLEHUB_ROOTFS_RELEASE'', ''BUBBLEHUB_API_BASE_URL'', ''OPENAI_BASE_URL'', ''OPENAI_API_KEY'',
           ''BUBBLEHUB_SPECIALITY'', ''NO_PROXY'', ''no_proxy'', ''BUBBLEHUB_SANDBOX_INFERENCE_HOST'', ''BUBBLEHUB_SANDBOX_INFERENCE_PORT'',
           ''BUBBLEHUB_NETWORK'', ''HTTP_PROXY'', ''HTTPS_PROXY'', ''http_proxy'', ''https_proxy'', ''BUBBLEHUB_HTTP_PROXY_PORT''}
    \<and> launch_env a l inference ''OPENAI_API_KEY'' = Some ''bubblehub-local''
    \<and> launch_env a l inference ''BUBBLEHUB_AGENT_ID'' = Some (la_agent_id l)
    \<and> launch_env a l inference ''BUBBLEHUB_API_BASE_URL'' = Some (sandbox_base_url inference)"
proof -
  from start_run_launch[OF assms] have l: "launch_of (la_agent_id l) l" by blast
  then have d: "dom (launch_env a l inference) \<subseteq> agent_env_keys"
    using launch_env_inside[of l a inference] by (simp add: launch_of_def env_inside_def)
  have h: "handed_down (os_environ (ho_os (rs_host s))) (launch_env a l inference)"
    using start_run_handed[OF assms] by (rule handed_launch)
  have v: "launch_env a l inference ''OPENAI_API_KEY'' = Some ''bubblehub-local''" "launch_env a l inference ''BUBBLEHUB_AGENT_ID'' = Some (la_agent_id l)"
    using l by (simp_all add: launch_of_def launch_env_values)
  show ?thesis using h d v launch_env_values(3)[of a l inference] unfolding handed_down_def agent_env_keys_def by (elim conjE) (intro conjI)
qed

text \<open>
  C11. A run that got as far as the \<^verbatim>\<open>try\<close> is registered once, and always leaves by an exception. When its
  temporary directories can be removed it is deregistered as the last thing, however the agent ended, and the
  exception is the one of the launch unless the library refuses to deregister. When one of them
  cannot be removed, that error ends the run instead and the agent stays registered.
\<close>

theorem launched_agent_is_deregistered:
  assumes start: "start_run rp a s = (Inr l, s1)" and launch: "launch_agent rp a l s1 = (r, s2)"
  shows "\<exists>registration broker s3. registration_calls rp a (la_agent_id l) registration \<and> isl r
    \<and> (case fst (remove_temporaries rp l (ho_os (rs_host s2))) of
         Inr _ \<Rightarrow> (\<exists>n. run_agent rp a s = (if n = 0 then r else Inl (LibBubbleError ''native scheduler failed to deregister agent''), s3)
           \<and> ho_native (rs_host s3) = ho_native (rs_host s) @ registration @ broker @ [StatusReply (DeregisterAgent (bytes (la_agent_id l))) n])
       | Inl e \<Rightarrow> run_agent rp a s = (Inl e, s3) \<and> ho_native (rs_host s3) = ho_native (rs_host s) @ registration @ broker)"
proof -
  obtain registration where reg: "calls_of s1 = calls_of s @ registration" "registration_calls rp a (la_agent_id l) registration"
    using start_run_launch[OF start] by blast
  obtain broker where broker: "calls_of s2 = calls_of s1 @ broker" using growsD[OF grows_launch launch] by blast
  have raised: "isl r" using launch_agent_raises[of rp a l s1] launch by auto
  let ?n = "nl_status (hp_lib (rp_host rp)) (calls_of s2) (DeregisterAgent (bytes (la_agent_id l)))"
  obtain t v where t: "remove_temporaries rp l (ho_os (rs_host s2)) = (t, v)" by fastforce
  have run: "run_agent rp a s = finallyn (\<lambda>_. (r, s2)) (end_run rp l) s1" by (simp add: run_agent_def native_simps start finallyn_def launch)
  show ?thesis
  proof (cases t)
    case (Inl e)
    then obtain s3 where "end_run rp l s2 = (Inl e, s3)" "calls_of s3 = calls_of s2"
      by (auto simp: end_run_def native_simps on_host_def on_os_def t)
    then have "run_agent rp a s = (Inl e, s3) \<and> calls_of s3 = calls_of s @ registration @ broker"
      by (simp add: run finallyn_def reg broker)
    with raised reg(2) show ?thesis unfolding t Inl fst_conv sum.case by blast
  next
    case (Inr u)
    then obtain s3 where "end_run rp l s2 = (if ?n = 0 then Inr () else Inl (LibBubbleError ''native scheduler failed to deregister agent''), s3)"
      "calls_of s3 = calls_of s2 @ [StatusReply (DeregisterAgent (bytes (la_agent_id l))) ?n]"
      by (auto simp: end_run_def native_simps on_host_def on_os_def on_native_def t deregister_agent_def status_call_def Let_def)
    then have "run_agent rp a s = (if ?n = 0 then r else Inl (LibBubbleError ''native scheduler failed to deregister agent''), s3)
      \<and> calls_of s3 = calls_of s @ registration @ broker @ [StatusReply (DeregisterAgent (bytes (la_agent_id l))) ?n]"
      by (simp add: run finallyn_def reg broker)
    with raised reg(2) show ?thesis unfolding t Inr fst_conv sum.case by blast
  qed
qed

text \<open>
  Between the registration and the \<^verbatim>\<open>try\<close> nothing is undone: a run whose preparation fails, because
  the binary lies outside the root directory for instance, leaves its agent registered.
\<close>

theorem failed_preparation_stays_registered:
  assumes "choose_run rp a s = (Inr (paths, rootfs, binary, persistent), s1)"
    "register_run rp a paths binary persistent s1 = (Inr agent_id, s2)"
    "prepare_launch rp a paths rootfs binary agent_id s2 = (Inl e, s3)"
  shows "run_agent rp a s = (Inl e, s3) \<and> (\<exists>registration. registration_calls rp a agent_id registration
    \<and> ho_native (rs_host s3) = ho_native (rs_host s) @ registration)"
proof -
  have "run_agent rp a s = (Inl e, s3)" by (simp add: run_agent_def start_run_def native_simps assms)
  then show ?thesis using registered_calls[OF assms(1,2)] keepsD[OF calls_prepare assms(3)] by auto
qed

text \<open>
  The address in the configuration survives its way through the URL: the server is started on the host
  and the port of the configuration, the sandbox forwards exactly that port, and the agent reaches it at
  the loopback address under the same number.
\<close>

theorem configured_endpoint_is_forwarded:
  assumes "plain_host (ic_host c)" "0 < ic_port c" "ic_port c \<le> 65535"
  shows "config_for_base_url (base_url c) c = Inr c
    \<and> sandbox_inference_endpoint (base_url c) = Inr \<lparr>se_host = ic_host c, se_host_port = ic_port c, se_sandbox_port = ic_port c\<rparr>"
  using assms by (simp add: config_for_own_url sandbox_inference_endpoint_def urlparse_base_url Let_def)

lemma configured_endpoint_is_forwarded_witness:
  "sandbox_inference_endpoint (base_url local_config) = Inr \<lparr>se_host = ''127.0.0.1'', se_host_port = 80, se_sandbox_port = 80\<rparr>"
proof -
  have "plain_host (ic_host local_config)" by code_simp
  from configured_endpoint_is_forwarded[OF this] show ?thesis by (simp add: local_config_def)
qed

text \<open>A run of \<^verbatim>\<open>/bin/ls\<close>, with a server that answers and a sandbox that ends with 0.\<close>

definition run_demo :: run_params where
  "run_demo = \<lparr>rp_host = agents_params ''{}'', rp_probe = (\<lambda>_ _. (Inr 200, 0)), rp_package = ''/p'', rp_models = Inr [],
     rp_limits = Inr (None, None), rp_hex = ''7'', rp_own_pid = 7, rp_gid = 7, rp_linux = True,
     rp_staging = [''tmp'', ''s''], rp_workspace = [''tmp'', ''w''], rp_copied = Inr (), rp_globbed = (\<lambda>_. []),
     rp_prefix_lib = path_of ''/usr/lib'', rp_plain = (\<lambda>_ _ _. Inr 0), rp_sandbox = (\<lambda>_ _ _ fs. (Inr 0, fs, []))\<rparr>"

definition run_demo_args :: run_args where
  "run_demo_args = \<lparr>rg_binary = ''/bin/ls'', rg_extra_args = [], rg_name = None, rg_niceness = 0, rg_memory = ''1g'', rg_cpu = 50,
     rg_speciality = None, rg_workdir = None, rg_root_dir = None, rg_unsafe_no_sandbox = False, rg_force_new_sandbox = False,
     rg_allow_network = False, rg_interactive_access = False\<rparr>"

definition run_demo_state :: "string \<Rightarrow> run_state" where
  "run_demo_state state_dir = \<lparr>rs_host = agents_host\<lparr>ho_os := agents_os\<lparr>os_environ := Map.empty(''BUBBLEHUB_STATE_DIR'' \<mapsto> state_dir, ''BUBBLEHUB_API_BASE_URL'' \<mapsto> ''http://h:8''),
     os_fs := agents_fs([''bin''] \<mapsto> Directory, [''bin'', ''ls''] \<mapsto> File [], [''x''] \<mapsto> File [])\<rparr>\<rparr>,
     rs_net = \<lparr>nt_now = 0, nt_daemons = []\<rparr>\<rparr>"

abbreviation demo_view :: "string \<Rightarrow> os_view" where "demo_view d \<equiv> ho_os (rs_host (run_demo_state d))"

abbreviation demo_run_paths :: sandbox_paths where
  "demo_run_paths \<equiv> \<lparr>bx_host_workdir = abs_path [], bx_sandbox_workdir = ''/workspace'', bx_host_root_dir = None\<rparr>"

abbreviation no_persistent :: persistent_sandbox where "no_persistent \<equiv> \<lparr>pb_agent_id = None, pb_reused = False\<rparr>"

lemma demo_metadata: "fst (write_agent_metadata ''agt-7'' None None (Some ''/'') ''/bin/ls'' (demo_view ''/s'')) = Inr ()" by code_simp

lemma demo_system:
  "fst (bindn (write_agent_metadata ''agt-7'' None None (Some ''/'') ''/bin/ls'') (\<lambda>_. asks (\<lambda>v. is_sandbox_system_binary v (abs_path [''bin'', ''ls'']))) (demo_view ''/s''))
   = Inr True" by code_simp

lemma demo_manifest:
  "fst (bindn (write_agent_metadata ''agt-7'' None None (Some ''/'') ''/bin/ls'') (\<lambda>_. 
     fs_change (\<lambda>fs cwd. make_dirs fs cwd (path_sub (path_sub (path_of ''/s'') ''sandboxes'') ''agt-7''))) (demo_view ''/s'')) = Inr ()" by code_simp

lemma demo_paths:
  assumes "d \<in> {''/s'', ''/x''}"
  shows "resolve_sandbox_paths (demo_view d) None None = Inr demo_run_paths"
  "resolve_rootfs_dir (demo_view d) = Inr None" "resolve_binary (demo_view d) ''/bin/ls'' (abs_path []) = Inr [''bin'', ''ls'']"
  using assms by (elim insertE emptyE; hypsubst; code_simp)+

lemma demo_choose:
  assumes "d \<in> {''/s'', ''/x''}"
  shows "\<exists>h. choose_run run_demo run_demo_args (run_demo_state d) = (Inr (demo_run_paths, None, [''bin'', ''ls''], no_persistent),
    (run_demo_state d)\<lparr>rs_host := (rs_host (run_demo_state d))\<lparr>ho_native := h\<rparr>\<rparr>)"
proof -
  have a: "rg_root_dir run_demo_args = None" "rg_workdir run_demo_args = None" "rg_binary run_demo_args = ''/bin/ls''"
    by (simp_all add: run_demo_args_def)
  have c: "scheduler_client (hp_lib (rp_host run_demo)) (rp_limits run_demo) h = (Inr (), h @ [StatusReply (ConfigureLimits (limit_or_zero None) (limit_or_zero None)) 0])" for h
    by (simp add: run_demo_def agents_params_def scheduler_client_def native_simps configure_limits_def status_call_def)
  show ?thesis
    by (simp add: choose_run_def choose_paths_def native_simps on_host_def on_os_def on_native_def asks_def a c demo_paths[OF assms]
        select_persistent_sandbox_def) (rule exI, rule refl)
qed

lemma demo_register:
  "\<exists>h. register_run run_demo run_demo_args paths binary no_persistent s = (Inr ''agt-7'', s\<lparr>rs_host := (rs_host s)\<lparr>ho_native := h\<rparr>\<rparr>)"
  by (simp add: register_run_def on_host_def on_native_def client_register_agent_def run_demo_def agents_params_def Let_def
      native_simps register_agent_def status_call_def client_agent_id_def) (rule exI, rule refl)

lemma prepare_system_binary:
  assumes "write_agent_metadata i (normalize_agent_name (rg_name a)) None (Some (path_str wd)) (path_str (abs_path b)) (view_of s) = (Inr (), v1)"
    "is_sandbox_system_binary v1 (abs_path b) = Inr True"
    "prepare_access_manifest_dir i (agent_env (os_environ v1) (os_uid v1) (rp_gid rp) i (normalize_agent_name (rg_name a)) (rg_niceness a)) v1 = (Inr (), v2)"
    "\<And>e. \<exists>e' url n. apply_inference_env (rp_probe rp) v2 (rp_package rp) (rp_models rp) (rg_speciality a) e (rs_net s) = (Inr (e', url), n)"
  shows "\<exists>l s'. prepare_launch rp a \<lparr>bx_host_workdir = wd, bx_sandbox_workdir = t, bx_host_root_dir = None\<rparr> None b i s = (Inr l, s')
    \<and> \<not> la_staging l \<and> \<not> la_workspace l"
proof -
  let ?e = "python_env (bubblehub_site_packages v2 (rp_globbed rp) (rp_prefix_lib rp)) False
    (agent_env (os_environ v1) (os_uid v1) (rp_gid rp) i (normalize_agent_name (rg_name a)) (rg_niceness a))"
  obtain e' url n where "apply_inference_env (rp_probe rp) v2 (rp_package rp) (rp_models rp) (rg_speciality a) ?e (rs_net s) = (Inr (e', url), n)"
    using assms(4) by blast
  then show ?thesis
    using assms(1-3) by (simp add: prepare_launch_def Let_def native_simps on_host_def on_os_def on_net_def asks_def record_persistent_sandbox_def
      prepare_sandbox_binary_def stage_binary_def prepare_overlay_paths_def)
qed

lemma healthy_endpoint:
  assumes "\<And>w u. probe w u = (Inr 200, 0)" "models = Inr []" "os_environ v ''BUBBLEHUB_INFERENCE_PORT'' = None"
  shows "\<exists>e' url n. apply_inference_env probe v package models sp e w = (Inr (e', url), n)"
proof -
  have "\<exists>c. load_inference_config (os_environ v) [] = Inr c"
    using assms(3) by (simp add: load_inference_config_def Let_def env_value_def optional_int_def dget_def dget_or_def)
  then show ?thesis
    using assms(1,2) by (auto simp: apply_inference_env_def native_simps ensure_inference_endpoint_def Let_def is_healthy_def get_status_def)
qed

lemma demo_texts:
  "path_str (abs_path []) = ''/''" "path_str (abs_path [''bin'', ''ls'']) = ''/bin/ls''" "normalize_agent_name (rg_name run_demo_args) = None"
  "rg_niceness run_demo_args = 0"
  by code_simp+

lemma demo_prepared:
  assumes "view_of s = demo_view ''/s''"
  shows "\<exists>l s1. prepare_launch run_demo run_demo_args demo_run_paths None [''bin'', ''ls''] ''agt-7'' s = (Inr l, s1) \<and> \<not> la_staging l \<and> \<not> la_workspace l"
proof -
  obtain v1 where v1: "write_agent_metadata ''agt-7'' None None (Some ''/'') ''/bin/ls'' (demo_view ''/s'') = (Inr (), v1)"
    using demo_metadata by (metis prod.collapse)
  have env: "os_environ v1 = os_environ (demo_view ''/s'')" using keepsD[OF keeps_metadata v1] .
  have sys: "is_sandbox_system_binary v1 (abs_path [''bin'', ''ls'']) = Inr True"
    using demo_system by (simp add: native_simps v1 asks_def)
  let ?e = "agent_env (os_environ v1) (os_uid v1) (rp_gid run_demo) ''agt-7'' None 0"
  have "?e ''BUBBLEHUB_STATE_DIR'' = Some ''/s''"
    by (simp add: env run_demo_state_def agent_env_def passed_state_keys_def pass_key_def env_nonempty_def)
  then have acc: "access_state_root v1 ?e = path_of ''/s''"
    by (simp add: access_state_root_def state_root_def env_nonempty_def expanduser_def) code_simp
  obtain v2 where v2: "prepare_access_manifest_dir ''agt-7'' ?e v1 = (Inr (), v2)"
    using demo_manifest by (cases "prepare_access_manifest_dir ''agt-7'' ?e v1") (simp add: native_simps v1 prepare_access_manifest_dir_def acc)
  have port: "os_environ v2 ''BUBBLEHUB_INFERENCE_PORT'' = None"
    unfolding keepsD[OF keeps_manifest_dir v2] env by (simp add: run_demo_state_def)
  have "rp_probe run_demo w u = (Inr 200, 0)" "rp_models run_demo = Inr []" for w u by (simp_all add: run_demo_def)
  note endpoint = healthy_endpoint[of "rp_probe run_demo", OF this port]
  show ?thesis
    by (rule prepare_system_binary[where ?v1.0 = v1 and ?v2.0 = v2]) (simp_all only: demo_texts assms v1 v2 sys endpoint)
qed

lemma demo_started: "\<exists>l s1. start_run run_demo run_demo_args (run_demo_state ''/s'') = (Inr l, s1) \<and> \<not> la_staging l \<and> \<not> la_workspace l"
proof -
  let ?s = "\<lambda>h. (run_demo_state ''/s'')\<lparr>rs_host := (rs_host (run_demo_state ''/s''))\<lparr>ho_native := h\<rparr>\<rparr>"
  obtain h where c: "choose_run run_demo run_demo_args (run_demo_state ''/s'') = (Inr (demo_run_paths, None, [''bin'', ''ls''], no_persistent), ?s h)"
    using demo_choose[of "''/s''"] by auto
  obtain h' where r: "register_run run_demo run_demo_args demo_run_paths [''bin'', ''ls''] no_persistent (?s h)
      = (Inr ''agt-7'', (?s h)\<lparr>rs_host := (rs_host (?s h))\<lparr>ho_native := h'\<rparr>\<rparr>)"
    using demo_register by blast
  have "view_of ((?s h)\<lparr>rs_host := (rs_host (?s h))\<lparr>ho_native := h'\<rparr>\<rparr>) = demo_view ''/s''" by simp
  from demo_prepared[OF this] show ?thesis by (auto simp: start_run_def native_simps c r)
qed

lemma agent_environment_is_closed_witness:
  "\<exists>l s1. start_run run_demo run_demo_args (run_demo_state ''/s'') = (Inr l, s1)
     \<and> launch_env run_demo_args l \<lparr>se_host = ''h'', se_host_port = 8, se_sandbox_port = 8\<rparr> ''OPENAI_API_KEY'' = Some ''bubblehub-local''"
  using demo_started agent_environment_is_closed by blast

lemma launched_agent_is_deregistered_witness:
  "\<exists>(l :: launch) n h. ho_native (rs_host (snd (run_agent run_demo run_demo_args (run_demo_state ''/s''))))
     = h @ [StatusReply (DeregisterAgent (bytes (la_agent_id l))) n]"
proof -
  obtain l s1 where s1: "start_run run_demo run_demo_args (run_demo_state ''/s'') = (Inr l, s1)" "\<not> la_staging l" "\<not> la_workspace l"
    using demo_started by blast
  then have "fst (remove_temporaries run_demo l v) = Inr ()" for v by (simp add: remove_temporaries_def native_simps)
  with launched_agent_is_deregistered[OF s1(1) surjective_pairing] obtain n registration broker s3 r where
    "run_agent run_demo run_demo_args (run_demo_state ''/s'') = (r, s3)"
    "ho_native (rs_host s3) = ho_native (rs_host (run_demo_state ''/s'')) @ registration @ broker
       @ [StatusReply (DeregisterAgent (bytes (la_agent_id l))) n]"
    by (auto simp only: sum.case)
  then have "ho_native (rs_host (snd (run_agent run_demo run_demo_args (run_demo_state ''/s''))))
     = (ho_native (rs_host (run_demo_state ''/s'')) @ registration @ broker) @ [StatusReply (DeregisterAgent (bytes (la_agent_id l))) n]" by simp
  then show ?thesis by blast
qed

lemma failed_preparation_stays_registered_witness:
  "\<exists>e s3 h. run_agent run_demo run_demo_args (run_demo_state ''/x'') = (Inl e, s3)
     \<and> ho_native (rs_host s3) = h \<and> registration_calls run_demo run_demo_args ''agt-7'' h"
proof -
  let ?s = "\<lambda>h. (run_demo_state ''/x'')\<lparr>rs_host := (rs_host (run_demo_state ''/x''))\<lparr>ho_native := h\<rparr>\<rparr>"
  obtain h where c: "choose_run run_demo run_demo_args (run_demo_state ''/x'') = (Inr (demo_run_paths, None, [''bin'', ''ls''], no_persistent), ?s h)"
    using demo_choose[of "''/x''"] by auto
  obtain h' where r: "register_run run_demo run_demo_args demo_run_paths [''bin'', ''ls''] no_persistent (?s h)
      = (Inr ''agt-7'', (?s h)\<lparr>rs_host := (rs_host (?s h))\<lparr>ho_native := h'\<rparr>\<rparr>)"
    using demo_register by blast
  have "isl (fst (write_agent_metadata ''agt-7'' None None (Some ''/'') ''/bin/ls'' (demo_view ''/x'')))" by code_simp
  then obtain e v where "write_agent_metadata ''agt-7'' None None (Some ''/'') ''/bin/ls'' (demo_view ''/x'') = (Inl e, v)"
    by (metis isl_def prod.collapse)
  then have "\<exists>s3. prepare_launch run_demo run_demo_args demo_run_paths None [''bin'', ''ls''] ''agt-7'' (?s h') = (Inl e, s3)"
    by (simp add: prepare_launch_def Let_def native_simps on_host_def on_os_def record_persistent_sandbox_def demo_texts)
  then obtain s3 where "prepare_launch run_demo run_demo_args demo_run_paths None [''bin'', ''ls''] ''agt-7''
      ((?s h)\<lparr>rs_host := (rs_host (?s h))\<lparr>ho_native := h'\<rparr>\<rparr>) = (Inl e, s3)" by auto
  from failed_preparation_stays_registered[OF c r this] show ?thesis
    by (auto simp: run_demo_state_def agents_host_def)
qed

end
