(* ===== verification/Bubble_Log.thy ===== *)
theory Bubble_Log
  imports Persistent_Agents Native_Hardware
begin

text \<open>
  \<^verbatim>\<open>bubblehub/log.py\<close>: the log options of the command line, the level, the log file and what is printed
  where. The module's globals, the disk, the environment, standard error and the settings pushed into
  the native library are one state.
\<close>

section \<open>Levels\<close>

datatype log_level = LogError | LogInfo | LogDebug

fun level_value :: "log_level \<Rightarrow> int" where
  "level_value LogError = 0"
| "level_value LogInfo = 1"
| "level_value LogDebug = 2"

lemma level_value_inj: "level_value x = level_value y \<longleftrightarrow> x = y"
  by (cases x; cases y) simp_all

text \<open>An \<^verbatim>\<open>IntEnum\<close>: the order is that of the values.\<close>

instantiation log_level :: linorder
begin

definition less_eq_log_level :: "log_level \<Rightarrow> log_level \<Rightarrow> bool" where
  "less_eq_log_level x y \<longleftrightarrow> level_value x \<le> level_value y"

definition less_log_level :: "log_level \<Rightarrow> log_level \<Rightarrow> bool" where
  "less_log_level x y \<longleftrightarrow> level_value x < level_value y"

instance
  by standard (auto simp: less_eq_log_level_def less_log_level_def level_value_inj)

end

fun level_name :: "log_level \<Rightarrow> string" where
  "level_name LogError = ''ERROR''"
| "level_name LogInfo = ''INFO''"
| "level_name LogDebug = ''DEBUG''"

fun level_text :: "log_level \<Rightarrow> string" where
  "level_text LogError = ''error''"
| "level_text LogInfo = ''info''"
| "level_text LogDebug = ''debug''"

section \<open>The command line\<close>

record log_options =
  lo_cleaned :: "string list"
  lo_level :: "string option"
  lo_file :: "string option"

definition keep_arg :: "string \<Rightarrow> log_options \<Rightarrow> log_options" where
  "keep_arg arg o1 = o1\<lparr>lo_cleaned := lo_cleaned o1 @ [arg]\<rparr>"

fun extract_options :: "string list \<Rightarrow> log_options \<Rightarrow> log_options result" where
  "extract_options [] o1 = Inr o1"
| "extract_options (arg # argv) o1 =
     (if arg = ''--'' then Inr (o1\<lparr>lo_cleaned := lo_cleaned o1 @ arg # argv\<rparr>)
      else if arg = ''--log-level'' then
        (case argv of [] \<Rightarrow> Inl (ValueError ''--log-level requires a value'')
         | x # rest \<Rightarrow> extract_options rest (o1\<lparr>lo_level := Some x\<rparr>))
      else if startswith ''--log-level='' arg then extract_options argv (o1\<lparr>lo_level := Some (after_char CHR ''='' arg)\<rparr>)
      else if arg = ''--log-file'' then
        (case argv of [] \<Rightarrow> Inl (ValueError ''--log-file requires a path'')
         | x # rest \<Rightarrow> extract_options rest (o1\<lparr>lo_file := Some x\<rparr>))
      else if startswith ''--log-file='' arg then extract_options argv (o1\<lparr>lo_file := Some (after_char CHR ''='' arg)\<rparr>)
      else extract_options argv (keep_arg arg o1))"

definition extract_global_log_options :: "string list \<Rightarrow> log_options result" where
  "extract_global_log_options argv = extract_options argv \<lparr>lo_cleaned = [], lo_level = None, lo_file = None\<rparr>"

section \<open>The state of the module\<close>

record log_state =
  lg_level :: log_level
  lg_configured :: bool
  lg_handle :: "place option"
  lg_os :: os_view
  lg_stderr :: string
  lg_native :: "(string \<times> string option) list"

text \<open>The process: its uid, its uid map and whether the native library loads.\<close>

record log_params =
  lp_euid :: int
  lp_uid_map :: "string result"
  lp_library :: bool

abbreviation lg_env :: "log_state \<Rightarrow> env" where "lg_env s \<equiv> os_environ (lg_os s)"

definition set_env :: "string \<Rightarrow> string option \<Rightarrow> log_state \<Rightarrow> log_state" where
  "set_env k x s = s\<lparr>lg_os := (lg_os s)\<lparr>os_environ := (lg_env s)(k := x)\<rparr>\<rparr>"

definition sync_native_logging :: "log_params \<Rightarrow> string \<Rightarrow> log_state \<Rightarrow> log_state" where
  "sync_native_logging lp level s =
     (if lp_library lp then s\<lparr>lg_native := lg_native s @ [(level, lg_env s ''BUBBLEHUB_LOG_FILE'')]\<rparr> else s)"

definition log_is_sandboxed :: "log_params \<Rightarrow> env \<Rightarrow> bool" where
  "log_is_sandboxed lp e \<longleftrightarrow> e ''BUBBLEHUB_SANDBOX'' = Some ''1'' \<or> is_sandboxed (lp_euid lp) (lp_uid_map lp) e = Inr True"

section \<open>The log file\<close>

text \<open>\<^verbatim>\<open>Path(value).resolve()\<close> with its \<^verbatim>\<open>OSError\<close> caught: any other error ends the loop.\<close>

fun resolve_roots :: "os_view \<Rightarrow> string list \<Rightarrow> place list result" where
  "resolve_roots v [] = Inr []"
| "resolve_roots v (x # xs) =
     (case os_resolve v (path_of x) of
        Inr d \<Rightarrow> bindr (resolve_roots v xs) (\<lambda>ds. Inr (d # ds))
      | Inl e \<Rightarrow> if is_os_error e then resolve_roots v xs else Inl e)"

fun add_unique :: "'a list \<Rightarrow> 'a list \<Rightarrow> 'a list" where
  "add_unique unique [] = unique"
| "add_unique unique (x # xs) = add_unique (if x \<in> set unique then unique else unique @ [x]) xs"

definition sandbox_root_variables :: "string list" where
  "sandbox_root_variables = [''BUBBLEHUB_AGENT_HOME'', ''BUBBLEHUB_WORKSPACE'', ''TMPDIR'', ''HOME'']"

definition sandbox_log_roots :: "log_params \<Rightarrow> os_view \<Rightarrow> place list result" where
  "sandbox_log_roots lp v =
     (let values = List.map_filter (env_nonempty (os_environ v)) sandbox_root_variables in
      bindr (resolve_roots v values) (\<lambda>roots.
      bindr (if log_is_sandboxed lp (os_environ v) then resolve_roots v [''/workspace''] else Inr []) (\<lambda>workspace.
        Inr (add_unique [] (roots @ workspace)))))"

definition is_allowed_sandbox_log_file :: "log_params \<Rightarrow> os_view \<Rightarrow> path \<Rightarrow> bool result" where
  "is_allowed_sandbox_log_file lp v p =
     (case os_resolve v (expanduser (os_home v) p) of
        Inl e \<Rightarrow> if is_os_error e then Inr False else Inl e
      | Inr d \<Rightarrow> bindr (sandbox_log_roots lp v) (\<lambda>roots.
          Inr (list_ex (\<lambda>rt. is_relative_to (abs_path d) (abs_path rt)) roots)))"

text \<open>\<^verbatim>\<open>open("a")\<close>: the file is made when it is not there.\<close>

definition open_append :: "place \<Rightarrow> unit hosted" where
  "open_append d = fs_change (\<lambda>fs cwd.
     case resolve fs cwd (abs_path d) of
       Some k \<Rightarrow> (case fs k of Some (File _) \<Rightarrow> Inr fs | _ \<Rightarrow> write_file fs cwd (abs_path d) [])
     | None \<Rightarrow> Inl (OSError ''Too many levels of symbolic links''))"

definition open_log_file :: "path \<Rightarrow> place hosted" where
  "open_log_file p =
     bindn (asks (\<lambda>v. os_resolve v p)) (\<lambda>d.
     bindn (fs_change (\<lambda>fs cwd. make_dirs fs cwd (path_parent (abs_path d)))) (\<lambda>_.
     bindn (open_append d) (\<lambda>_. returnn d)))"

text \<open>The end of every path but one of \<^verbatim>\<open>_configure_log_file\<close>: no log file.\<close>

definition no_log_file :: "log_params \<Rightarrow> log_state \<Rightarrow> log_state" where
  "no_log_file lp s =
     (let s = set_env ''BUBBLEHUB_LOG_FILE'' None s in
      sync_native_logging lp (env_get (lg_env s) ''BUBBLEHUB_LOG_LEVEL'' ''error'') s)"

definition configure_log_file :: "log_params \<Rightarrow> string option \<Rightarrow> (log_state, unit) prog" where
  "configure_log_file lp log_file s0 =
     (let s = s0\<lparr>lg_handle := None\<rparr>;
          resolved = (case log_file of None \<Rightarrow> env_nonempty (lg_env s) ''BUBBLEHUB_LOG_FILE'' | Some f \<Rightarrow> Some f) in
      case resolved of
        None \<Rightarrow> (Inr (), no_log_file lp s)
      | Some [] \<Rightarrow> (Inr (), no_log_file lp s)
      | Some f \<Rightarrow>
          (let p = expanduser (os_home (lg_os s)) (path_of f) in
           case (if log_is_sandboxed lp (lg_env s) then is_allowed_sandbox_log_file lp (lg_os s) p else Inr True) of
             Inl e \<Rightarrow> (Inl e, s)
           | Inr False \<Rightarrow> (Inr (), no_log_file lp s)
           | Inr True \<Rightarrow>
               (case open_log_file p (lg_os s) of
                  (Inl e, v) \<Rightarrow>
                    if is_os_error e then (Inr (), no_log_file lp (s\<lparr>lg_os := v\<rparr>)) else (Inl e, s\<lparr>lg_os := v\<rparr>)
                | (Inr d, v) \<Rightarrow>
                    (let s = set_env ''BUBBLEHUB_LOG_FILE'' (Some (path_str (abs_path d))) (s\<lparr>lg_os := v, lg_handle := Some d\<rparr>) in
                     (Inr (), sync_native_logging lp (env_get (lg_env s) ''BUBBLEHUB_LOG_LEVEL'' ''error'') s)))))"

section \<open>Configuring and printing\<close>

definition read_level :: "string \<Rightarrow> log_level" where
  "read_level raw =
     (let raw = lower (strip raw) in
      if raw = ''debug'' then LogDebug else if raw = ''info'' then LogInfo else LogError)"

definition configure_logging :: "log_params \<Rightarrow> string option \<Rightarrow> string option \<Rightarrow> (log_state, string) prog" where
  "configure_logging lp level log_file s =
     (let raw = (case level of Some (c # cs) \<Rightarrow> c # cs | _ \<Rightarrow> env_get (lg_env s) ''BUBBLEHUB_LOG_LEVEL'' ''error'');
          resolved = level_text (read_level raw);
          s = set_env ''BUBBLEHUB_LOG_LEVEL'' (Some resolved) (s\<lparr>lg_level := read_level raw\<rparr>);
          s = s\<lparr>lg_configured := True\<rparr> in
      bindn (configure_log_file lp log_file) (\<lambda>_ s. (Inr resolved, sync_native_logging lp resolved s)) s)"

definition should_emit :: "log_params \<Rightarrow> log_level \<Rightarrow> (log_state, bool) prog" where
  "should_emit lp level s =
     (if level = LogError then (Inr True, s)
      else bindn (if lg_configured s then returnn '''' else configure_logging lp None None) (\<lambda>_ s.
        (Inr (level \<le> lg_level s), s)) s)"

text \<open>The frames of the stack, innermost first, as file and line.\<close>

fun caller_location :: "(string \<times> nat) list \<Rightarrow> string \<times> nat" where
  "caller_location [] = (''unknown'', 0)"
| "caller_location ((filename, line) # frames) =
     (let p = path_of filename in
      if path_name p = ''log.py'' \<and> path_name (path_parent p) = ''bubblehub'' then caller_location frames
      else (path_name p, line))"

definition format_params :: "string list \<Rightarrow> string" where
  "format_params params = join '' '' params"

definition log_message_text :: "log_level \<Rightarrow> string \<times> nat \<Rightarrow> string \<Rightarrow> string list \<Rightarrow> string" where
  "log_message_text level loc text params =
     (let message = level_name level @ '' '' @ fst loc @ '':'' @ show_nat (snd loc) @ '' '' @ text in
      if params = [] then message else message @ '':'' @ format_params params)"

text \<open>A file that was unlinked since it was opened takes the line along.\<close>

definition print_line :: "string \<Rightarrow> log_state \<Rightarrow> log_state" where
  "print_line message s =
     (case lg_handle s of
        None \<Rightarrow> s\<lparr>lg_stderr := lg_stderr s @ message @ [ch_nl]\<rparr>
      | Some d \<Rightarrow>
          (case os_fs (lg_os s) d of
             Some (File content) \<Rightarrow>
               s\<lparr>lg_os := (lg_os s)\<lparr>os_fs := (os_fs (lg_os s))(d \<mapsto> File (content @ utf8_encode (message @ [ch_nl])))\<rparr>\<rparr>
           | _ \<Rightarrow> s))"

definition emit :: "log_params \<Rightarrow> (string \<times> nat) list \<Rightarrow> log_level \<Rightarrow> string \<Rightarrow> string list \<Rightarrow> (log_state, unit) prog" where
  "emit lp stack level text params =
     bindn (should_emit lp level) (\<lambda>go s.
       (Inr (), if go then print_line (log_message_text level (caller_location stack) text params) s else s))"

abbreviation log_error where "log_error lp stack \<equiv> emit lp stack LogError"
abbreviation log_info where "log_info lp stack \<equiv> emit lp stack LogInfo"
abbreviation log_debug where "log_debug lp stack \<equiv> emit lp stack LogDebug"

section \<open>Reading the options\<close>

text \<open>A command line, word by word, up to the first \<^verbatim>\<open>--\<close>.\<close>

datatype log_word = PlainWord string | LevelWord string | LevelPair string | FileWord string | FilePair string

definition plain_word :: "string \<Rightarrow> bool" where
  "plain_word a \<longleftrightarrow> a \<noteq> ''--'' \<and> a \<noteq> ''--log-level'' \<and> \<not> startswith ''--log-level='' a \<and> a \<noteq> ''--log-file''
     \<and> \<not> startswith ''--log-file='' a"

fun word_args :: "log_word \<Rightarrow> string list" where
  "word_args (PlainWord a) = [a]"
| "word_args (LevelWord x) = [''--log-level='' @ x]"
| "word_args (LevelPair x) = [''--log-level'', x]"
| "word_args (FileWord x) = [''--log-file='' @ x]"
| "word_args (FilePair x) = [''--log-file'', x]"

fun word_ok :: "log_word \<Rightarrow> bool" where
  "word_ok (PlainWord a) = plain_word a"
| "word_ok _ = True"

fun word_level :: "log_word \<Rightarrow> string option" where
  "word_level (LevelWord x) = Some x"
| "word_level (LevelPair x) = Some x"
| "word_level _ = None"

fun word_file :: "log_word \<Rightarrow> string option" where
  "word_file (FileWord x) = Some x"
| "word_file (FilePair x) = Some x"
| "word_file _ = None"

fun word_plain :: "log_word \<Rightarrow> string option" where
  "word_plain (PlainWord a) = Some a"
| "word_plain _ = None"

definition last_value :: "(log_word \<Rightarrow> string option) \<Rightarrow> string option \<Rightarrow> log_word list \<Rightarrow> string option" where
  "last_value f d ws = fold (\<lambda>w x. case f w of None \<Rightarrow> x | Some y \<Rightarrow> Some y) ws d"

lemma last_value_simps [simp]:
  "last_value f d [] = d" "last_value f d (w # ws) = last_value f (case f w of None \<Rightarrow> d | Some y \<Rightarrow> Some y) ws"
  by (simp_all add: last_value_def)

lemma option_words:
  "startswith ''--log-level='' (''--log-level='' @ x)" "after_char CHR ''='' (''--log-level='' @ x) = x"
  "startswith ''--log-file='' (''--log-file='' @ x)" "after_char CHR ''='' (''--log-file='' @ x) = x"
  "\<not> startswith ''--log-level='' (''--log-file='' @ x)"
  by (simp_all add: startswith_def after_char_def)

lemma extract_word:
  "word_ok w \<Longrightarrow> extract_options (word_args w @ argv) o1 =
     extract_options argv (o1\<lparr>lo_cleaned := lo_cleaned o1 @ (case word_plain w of None \<Rightarrow> [] | Some a \<Rightarrow> [a]),
       lo_level := (case word_level w of None \<Rightarrow> lo_level o1 | Some y \<Rightarrow> Some y),
       lo_file := (case word_file w of None \<Rightarrow> lo_file o1 | Some y \<Rightarrow> Some y)\<rparr>)"
  by (cases w) (simp_all add: plain_word_def keep_arg_def option_words startswith_def after_char_def)

lemma extract_words:
  "list_all word_ok ws \<Longrightarrow> tail = [] \<or> hd tail = ''--'' \<Longrightarrow>
     extract_options (concat (map word_args ws) @ tail) o1 =
       Inr (o1\<lparr>lo_cleaned := lo_cleaned o1 @ List.map_filter word_plain ws @ tail,
         lo_level := last_value word_level (lo_level o1) ws, lo_file := last_value word_file (lo_file o1) ws\<rparr>)"
proof (induction ws arbitrary: o1)
  case Nil
  then show ?case by (cases tail) (simp_all add: map_filter_simps)
next
  case (Cons w ws)
  then have "word_ok w" "list_all word_ok ws" by simp_all
  note step = extract_word[OF this(1), of "concat (map word_args ws) @ tail" o1]
  show ?case
    using Cons.IH[OF \<open>list_all word_ok ws\<close> Cons.prems(2)] step
    by (simp add: map_filter_simps split: option.splits)
qed

text \<open>Every command line is of that form, or stops inside an option.\<close>

lemma startswith_split: "startswith p s \<Longrightarrow> \<exists>x. s = p @ x"
  unfolding startswith_def by (metis append_take_drop_id)

lemma command_line_words:
  "\<exists>ws tail. list_all word_ok ws \<and> argv = concat (map word_args ws) @ tail
     \<and> (tail = [] \<or> hd tail = ''--'' \<or> tail = [''--log-level''] \<or> tail = [''--log-file''])"
proof (induction argv rule: length_induct)
  case (1 argv)
  have more: ?case if "word_ok w" "argv = word_args w @ rest" "length rest < length argv" for w rest
  proof -
    from 1 that(3) obtain ws tail where "list_all word_ok ws" "rest = concat (map word_args ws) @ tail"
      "tail = [] \<or> hd tail = ''--'' \<or> tail = [''--log-level''] \<or> tail = [''--log-file'']" by blast
    with that(1,2) show ?thesis by (intro exI[of _ "w # ws"] exI[of _ tail]) simp
  qed
  show ?case
  proof (cases argv)
    case Nil
    then show ?thesis by (intro exI[of _ "[]"] exI[of _ "[]"]) simp
  next
    case (Cons a rest)
    have stop: ?thesis if "argv = tail" "hd tail = ''--'' \<or> tail = [''--log-level''] \<or> tail = [''--log-file'']" for tail
      using that by (intro exI[of _ "[]"] exI[of _ tail]) simp
    consider "a = ''--''" | "a = ''--log-level''" | "a = ''--log-file''" | x where "a = ''--log-level='' @ x"
      | x where "a = ''--log-file='' @ x" | "plain_word a"
      using startswith_split unfolding plain_word_def by blast
    then show ?thesis
    proof cases
      case 1
      then show ?thesis using Cons stop by simp
    next
      case 2
      show ?thesis
      proof (cases rest)
        case Nil
        then show ?thesis using Cons 2 stop by simp
      next
        case (Cons x rest')
        then show ?thesis using more[of "LevelPair x" rest'] \<open>argv = a # rest\<close> 2 by simp
      qed
    next
      case 3
      show ?thesis
      proof (cases rest)
        case Nil
        then show ?thesis using Cons 3 stop by simp
      next
        case (Cons x rest')
        then show ?thesis using more[of "FilePair x" rest'] \<open>argv = a # rest\<close> 3 by simp
      qed
    next
      case (4 x)
      then show ?thesis using more[of "LevelWord x" rest] Cons by simp
    next
      case (5 x)
      then show ?thesis using more[of "FileWord x" rest] Cons by simp
    next
      case 6
      then show ?thesis using more[of "PlainWord a" rest] Cons by simp
    qed
  qed
qed

text \<open>What is left holds no log option any more: reading it again changes nothing.\<close>

fun_cases word_plainE: "word_plain w = Some a"

lemma cleaned_words_plain: "list_all word_ok ws \<Longrightarrow> list_all plain_word (List.map_filter word_plain ws)"
  by (induction ws) (auto simp: map_filter_simps split: option.splits elim!: word_plainE)

lemma plain_words_kept: "list_all plain_word as \<Longrightarrow> list_all word_ok (map PlainWord as) \<and> concat (map word_args (map PlainWord as)) = as
    \<and> List.map_filter word_plain (map PlainWord as) = as \<and> last_value word_level d (map PlainWord as) = d
    \<and> last_value word_file d (map PlainWord as) = d"
  by (induction as) (simp_all add: map_filter_simps)

lemma extract_again:
  assumes "list_all word_ok ws" "tail = [] \<or> hd tail = ''--''"
  shows "extract_global_log_options (List.map_filter word_plain ws @ tail) =
    Inr \<lparr>lo_cleaned = List.map_filter word_plain ws @ tail, lo_level = None, lo_file = None\<rparr>"
proof -
  let ?as = "map PlainWord (List.map_filter word_plain ws)"
  note kept = plain_words_kept[OF cleaned_words_plain[OF assms(1)]]
  have "extract_options (concat (map word_args ?as) @ tail) \<lparr>lo_cleaned = [], lo_level = None, lo_file = None\<rparr> =
    Inr \<lparr>lo_cleaned = List.map_filter word_plain ?as @ tail, lo_level = last_value word_level None ?as, lo_file = last_value word_file None ?as\<rparr>"
    using extract_words[of ?as tail "\<lparr>lo_cleaned = [], lo_level = None, lo_file = None\<rparr>"] kept assms(2) by simp
  then show ?thesis using kept by (simp add: extract_global_log_options_def)
qed

section \<open>Laws of the log file\<close>

lemma set_env_sel [simp]:
  "lg_env (set_env k x s) = (lg_env s)(k := x)" "lg_level (set_env k x s) = lg_level s" "lg_handle (set_env k x s) = lg_handle s"
  "lg_configured (set_env k x s) = lg_configured s" "lg_native (set_env k x s) = lg_native s"
  "os_fs (lg_os (set_env k x s)) = os_fs (lg_os s)" "os_cwd (lg_os (set_env k x s)) = os_cwd (lg_os s)"
  "os_home (lg_os (set_env k x s)) = os_home (lg_os s)" "lg_stderr (set_env k x s) = lg_stderr s"
  by (simp_all add: set_env_def)

lemma sync_sel [simp]:
  "lg_os (sync_native_logging lp l s) = lg_os s" "lg_level (sync_native_logging lp l s) = lg_level s"
  "lg_handle (sync_native_logging lp l s) = lg_handle s" "lg_configured (sync_native_logging lp l s) = lg_configured s"
  "lg_stderr (sync_native_logging lp l s) = lg_stderr s"
  by (simp_all add: sync_native_logging_def)

lemma open_log_file_env: "open_log_file p v = (r, v') \<Longrightarrow> os_environ v' = os_environ v"
  by (rule keepsD[of os_environ "open_log_file p"]) (auto simp: open_log_file_def open_append_def intro!: keeps_rules)

text \<open>
  The globals and the environment say the same: the level, the open file and what the native library
  was told last.
\<close>

definition log_consistent :: "log_params \<Rightarrow> log_state \<Rightarrow> bool" where
  "log_consistent lp s \<longleftrightarrow> lg_env s ''BUBBLEHUB_LOG_LEVEL'' = Some (level_text (lg_level s))
     \<and> lg_env s ''BUBBLEHUB_LOG_FILE'' = map_option (\<lambda>d. path_str (abs_path d)) (lg_handle s)
     \<and> (lp_library lp \<longrightarrow> lg_native s \<noteq> [] \<and> last (lg_native s) = (level_text (lg_level s), lg_env s ''BUBBLEHUB_LOG_FILE''))"

definition file_consistent :: "log_state \<Rightarrow> log_state \<Rightarrow> bool" where
  "file_consistent s s' \<longleftrightarrow> lg_level s' = lg_level s \<and> lg_configured s' = lg_configured s
     \<and> lg_env s' ''BUBBLEHUB_LOG_LEVEL'' = lg_env s ''BUBBLEHUB_LOG_LEVEL''
     \<and> lg_env s' ''BUBBLEHUB_LOG_FILE'' = map_option (\<lambda>d. path_str (abs_path d)) (lg_handle s')"

lemma no_log_file_consistent: "lg_handle s = None \<Longrightarrow> file_consistent s (no_log_file lp s)"
  by (simp add: file_consistent_def no_log_file_def Let_def)

lemma configure_log_file_consistent:
  "configure_log_file lp log_file s = (Inr u, s') \<Longrightarrow> file_consistent s s'"
  unfolding configure_log_file_def Let_def
  by (auto split: option.splits list.splits sum.splits bool.splits prod.splits if_splits
      dest!: open_log_file_env simp: file_consistent_def no_log_file_def Let_def)

lemma configure_logging_consistent:
  assumes "configure_logging lp level log_file s = (Inr r, s')"
  shows "log_consistent lp s' \<and> lg_configured s' \<and> r = level_text (lg_level s')"
  using assms unfolding configure_logging_def Let_def
  by (auto simp: native_simps sync_native_logging_def log_consistent_def file_consistent_def split: prod.splits sum.splits
      dest!: configure_log_file_consistent)

lemma print_line_sel [simp]:
  "lg_level (print_line m s) = lg_level s" "lg_handle (print_line m s) = lg_handle s"
  "lg_env (print_line m s) = lg_env s" "lg_native (print_line m s) = lg_native s" "lg_configured (print_line m s) = lg_configured s"
  by (auto simp: print_line_def split: option.splits node.splits)

lemma print_line_consistent [simp]: "log_consistent lp (print_line m s) = log_consistent lp s"
  by (simp add: log_consistent_def)

lemma emit_consistent:
  assumes "log_consistent lp s \<or> \<not> lg_configured s" "emit lp stack level text params s = (Inr u, s')"
  shows "log_consistent lp s' \<or> \<not> lg_configured s'"
  using assms
  by (auto simp: emit_def native_simps should_emit_def dest: configure_logging_consistent split: if_splits prod.splits sum.splits)

text \<open>Where the file of a sandboxed process can be.\<close>

lemma resolve_roots_from: "resolve_roots v xs = Inr ds \<Longrightarrow> d \<in> set ds \<Longrightarrow> \<exists>x\<in>set xs. os_resolve v (path_of x) = Inr d"
  by (induction xs arbitrary: ds) (auto simp: bindr_def split: sum.splits if_splits)

lemma set_add_unique [simp]: "set (add_unique u xs) = set u \<union> set xs"
  by (induction u xs rule: add_unique.induct) auto

definition sandbox_log_place :: "os_view \<Rightarrow> place \<Rightarrow> bool" where
  "sandbox_log_place v d \<longleftrightarrow> (\<exists>x rt. (x = ''/workspace'' \<or> (\<exists>k\<in>set sandbox_root_variables. os_environ v k = Some x))
     \<and> os_resolve v (path_of x) = Inr rt \<and> is_prefix rt d)"

lemma sandbox_log_roots_from:
  assumes "sandbox_log_roots lp v = Inr roots" "rt \<in> set roots"
  shows "\<exists>x. (x = ''/workspace'' \<or> (\<exists>k\<in>set sandbox_root_variables. os_environ v k = Some x)) \<and> os_resolve v (path_of x) = Inr rt"
proof -
  let ?xs = "List.map_filter (env_nonempty (os_environ v)) sandbox_root_variables"
  let ?ws = "if log_is_sandboxed lp (os_environ v) then resolve_roots v [''/workspace''] else Inr []"
  from assms(1) obtain ds ws where ds: "resolve_roots v ?xs = Inr ds" "?ws = Inr ws" "roots = add_unique [] (ds @ ws)"
    unfolding sandbox_log_roots_def Let_def by (auto simp only: bindr_eq_Inr sum.inject)
  from ds(3) assms(2) have "rt \<in> set ds \<or> rt \<in> set ws" by simp
  then obtain x where "x \<in> set ?xs \<or> x = ''/workspace''" "os_resolve v (path_of x) = Inr rt"
    using resolve_roots_from[OF ds(1), of rt] resolve_roots_from[of v "[''/workspace'']" ws rt] ds(2)
    by (fastforce split: if_splits)
  moreover have "x \<in> set ?xs \<Longrightarrow> \<exists>k\<in>set sandbox_root_variables. env_nonempty (os_environ v) k = Some x"
    by (auto simp: List.map_filter_def)
  ultimately show ?thesis by (auto simp: env_nonempty_Some)
qed

lemma allowed_log_place:
  assumes "is_allowed_sandbox_log_file lp v p = Inr True" "os_resolve v (expanduser (os_home v) p) = Inr d"
  shows "sandbox_log_place v d"
proof -
  from assms obtain roots rt where "sandbox_log_roots lp v = Inr roots" "rt \<in> set roots" "is_prefix rt d"
    by (auto simp: is_allowed_sandbox_log_file_def bindr_def list_ex_iff is_relative_to_def split: sum.splits)
  with sandbox_log_roots_from show ?thesis unfolding sandbox_log_place_def by metis
qed

lemma expanduser_twice: "(\<And>c. is_absolute (home c)) \<Longrightarrow> expanduser home (expanduser home p) = expanduser home p"
  by (cases p; auto simp: expanduser_def path_join_def split: list.splits)

lemma open_log_file_place: "open_log_file p v = (Inr d, v') \<Longrightarrow> os_resolve v p = Inr d"
  unfolding open_log_file_def by (elim bindn_Inr) (simp add: asks_def returnn_def)

lemma configure_log_file_place:
  assumes "configure_log_file lp log_file s = (Inr u, s')" "lg_handle s' = Some d" "log_is_sandboxed lp (lg_env s)"
    "\<And>c. is_absolute (os_home (lg_os s) c)"
  shows "sandbox_log_place (lg_os s) d"
proof -
  from assms(1-3) obtain f v where f: "is_allowed_sandbox_log_file lp (lg_os s) (expanduser (os_home (lg_os s)) (path_of f)) = Inr True"
    "open_log_file (expanduser (os_home (lg_os s)) (path_of f)) (lg_os s) = (Inr d, v)"
    unfolding configure_log_file_def Let_def
    by (auto simp: no_log_file_def Let_def split: option.splits list.splits sum.splits bool.splits prod.splits if_splits)
  show ?thesis
    using allowed_log_place[OF f(1)] open_log_file_place[OF f(2)] expanduser_twice[OF assms(4)] by simp
qed

section \<open>Properties\<close>

text \<open>
  The log options can stand anywhere before \<^verbatim>\<open>--\<close>, in either spelling, the last one counts, and what
  remains of the command line is the rest in its order; the words after \<^verbatim>\<open>--\<close> are left alone.
\<close>

theorem log_options_read_back:
  assumes "list_all word_ok ws" "tail = [] \<or> hd tail = ''--''"
  shows "extract_global_log_options (concat (map word_args ws) @ tail) =
    Inr \<lparr>lo_cleaned = List.map_filter word_plain ws @ tail, lo_level = last_value word_level None ws, lo_file = last_value word_file None ws\<rparr>"
  using extract_words[OF assms] by (simp add: extract_global_log_options_def)

lemma log_options_read_back_witness:
  "extract_global_log_options [''run'', ''--log-level'', ''info'', ''x'', ''--log-level=debug'', ''--'', ''--log-file'', ''f''] =
    Inr \<lparr>lo_cleaned = [''run'', ''x'', ''--'', ''--log-file'', ''f''], lo_level = Some ''debug'', lo_file = None\<rparr>"
proof -
  let ?ws = "[PlainWord ''run'', LevelPair ''info'', PlainWord ''x'', LevelWord ''debug'']"
  have "list_all word_ok ?ws" by code_simp
  from log_options_read_back[OF this, of "[''--'', ''--log-file'', ''f'']"] show ?thesis by (simp add: map_filter_simps)
qed

text \<open>
  After \<^verbatim>\<open>configure_logging\<close> the module, the environment and the native library agree on the level and the
  file, whatever became of the file, and every message keeps it so.
\<close>

theorem logging_stays_consistent:
  assumes "configure_logging lp level log_file s = (Inr r, s1)" "emit lp stack l text params s1 = (Inr u, s2)"
  shows "log_consistent lp s1 \<and> log_consistent lp s2 \<and> r = level_text (lg_level s1) \<and> lg_level s2 = lg_level s1"
proof -
  have s1: "log_consistent lp s1" "lg_configured s1" "r = level_text (lg_level s1)" using configure_logging_consistent[OF assms(1)] by simp_all
  then show ?thesis using assms(2)
    by (auto simp: emit_def native_simps should_emit_def split: if_splits)
qed

text \<open>
  Inside the sandbox the log file stays inside: a file that is opened lies below the home directory of
  the agent, its workspace, \<^verbatim>\<open>TMPDIR\<close> or \<^verbatim>\<open>HOME\<close>, links resolved, and otherwise there is none.
\<close>

theorem sandbox_log_stays_inside:
  assumes "configure_logging lp level log_file s = (Inr r, s')" "log_is_sandboxed lp (lg_env s)"
    "\<forall>c. is_absolute (os_home (lg_os s) c)" "lg_handle s' = Some d"
  shows "\<exists>x rt. (x = ''/workspace'' \<or> (\<exists>k\<in>set [''BUBBLEHUB_AGENT_HOME'', ''BUBBLEHUB_WORKSPACE'', ''TMPDIR'', ''HOME'']. lg_env s k = Some x))
    \<and> os_resolve (lg_os s) (path_of x) = Inr rt \<and> is_prefix rt d"
proof -
  let ?l = "read_level (case level of Some (c # cs) \<Rightarrow> c # cs | _ \<Rightarrow> env_get (lg_env s) ''BUBBLEHUB_LOG_LEVEL'' ''error'')"
  let ?s = "(set_env ''BUBBLEHUB_LOG_LEVEL'' (Some (level_text ?l)) (s\<lparr>lg_level := ?l\<rparr>))\<lparr>lg_configured := True\<rparr>"
  from assms(1) obtain s1 where s1: "configure_log_file lp log_file ?s = (Inr (), s1)" "lg_handle s' = lg_handle s1"
    unfolding configure_logging_def Let_def by (auto simp: native_simps split: prod.splits sum.splits)
  have "is_sandboxed e u ((lg_env s)(''BUBBLEHUB_LOG_LEVEL'' := x)) = is_sandboxed e u (lg_env s)" for e u x
    by (simp add: is_sandboxed_def)
  then have "log_is_sandboxed lp (lg_env ?s)" using assms(2) by (simp add: log_is_sandboxed_def)
  from configure_log_file_place[OF s1(1) _ this] have "sandbox_log_place (lg_os ?s) d" using s1(2) assms(3,4) by simp
  then show ?thesis unfolding sandbox_log_place_def os_resolve_def by (auto simp: sandbox_root_variables_def)
qed

definition sandbox_log_state :: log_state where
  "sandbox_log_state = \<lparr>lg_level = LogError, lg_configured = False, lg_handle = None,
     lg_os = agents_os\<lparr>os_environ := map_of [(''BUBBLEHUB_SANDBOX'', ''1''), (''HOME'', ''/w'')]\<rparr>, lg_stderr = [], lg_native = []\<rparr>"

definition no_library :: log_params where "no_library = \<lparr>lp_euid = 7, lp_uid_map = Inr [], lp_library = False\<rparr>"

lemma demo_configured:
  "fst (configure_logging no_library (Some ''info'') (Some ''/w/log'') sandbox_log_state) = Inr ''info''"
  "lg_handle (snd (configure_logging no_library (Some ''info'') (Some ''/w/log'') sandbox_log_state)) = Some [''w'', ''log'']"
  "lg_handle (snd (configure_logging no_library (Some ''info'') (Some ''/etc/log'') sandbox_log_state)) = None"
  by code_simp+

lemma sandbox_log_stays_inside_witness:
  "\<exists>x rt. (x = ''/workspace'' \<or> (\<exists>k\<in>set [''BUBBLEHUB_AGENT_HOME'', ''BUBBLEHUB_WORKSPACE'', ''TMPDIR'', ''HOME'']. lg_env sandbox_log_state k = Some x))
    \<and> os_resolve (lg_os sandbox_log_state) (path_of x) = Inr rt \<and> is_prefix rt [''w'', ''log'']"
proof -
  have c: "configure_logging no_library (Some ''info'') (Some ''/w/log'') sandbox_log_state
      = (Inr ''info'', snd (configure_logging no_library (Some ''info'') (Some ''/w/log'') sandbox_log_state))"
    using demo_configured(1) by (metis prod.collapse)
  have "log_is_sandboxed no_library (lg_env sandbox_log_state)" by (simp add: log_is_sandboxed_def sandbox_log_state_def)
  moreover have "\<forall>c. is_absolute (os_home (lg_os sandbox_log_state) c)"
    by (simp add: sandbox_log_state_def agents_os_def demo_os_def)
  ultimately show ?thesis by (rule sandbox_log_stays_inside[OF c _ _ demo_configured(2)])
qed

lemma logging_stays_consistent_witness:
  "\<exists>s1 s2. configure_logging no_library (Some ''info'') None sandbox_log_state = (Inr ''info'', s1)
     \<and> emit no_library [(''/a/bubblehub/log.py'', 3), (''x.py'', 4)] LogInfo ''hello'' [] s1 = (Inr (), s2)
     \<and> log_consistent no_library s1 \<and> log_consistent no_library s2"
proof -
  let ?c = "configure_logging no_library (Some ''info'') None sandbox_log_state"
  let ?e = "emit no_library [(''/a/bubblehub/log.py'', 3), (''x.py'', 4)] LogInfo ''hello'' [] (snd ?c)"
  have "fst ?c = Inr ''info''" "fst ?e = Inr ()" by code_simp+
  then have c: "?c = (Inr ''info'', snd ?c)" "?e = (Inr (), snd ?e)" by (metis prod.collapse)+
  from logging_stays_consistent[OF this] show ?thesis using c by blast
qed

end
