(* ===== verification/Cli_Commands.thy ===== *)
theory Cli_Commands
  imports Control_Api Run_Agent Bubble_Log
begin

text \<open>
  The commands of \<^verbatim>\<open>bubble\<close> besides \<^verbatim>\<open>run\<close>: \<^verbatim>\<open>bubblehub/cli/main.py\<close>, \<^verbatim>\<open>manifest.py\<close>,
  \<^verbatim>\<open>shell.py\<close>, \<^verbatim>\<open>ps.py\<close>, \<^verbatim>\<open>queue.py\<close>, \<^verbatim>\<open>serve.py\<close>, \<^verbatim>\<open>poc.py\<close>, \<^verbatim>\<open>prompt.py\<close>, and the two
  daemons. What a command prints is part of its state, as lines and tables; how rich lays them out, and the
  declarations of options by typer, are left out. A loop that only an interrupt ends is given the number of
  its rounds; the waiting between them is left out.
\<close>

section \<open>The state of a command\<close>

text \<open>A line, a table (its title, header and rows), or a bar (its title and texts, the whole and what is completed).\<close>

datatype shown =
    Echo string
  | Table string "string list" "string list list"
  | Bar string "string list" int int

text \<open>
  The host, the terminal of the model menus, what has been printed, and how many questions were asked.
  \<open>cl_ask\<close> is rich's \<^verbatim>\<open>Prompt.ask\<close>: from the number of questions before, the question, the choices and
  the default to the answer, or to the exception that the end of the input is.
\<close>

record cli_state =
  ci_host :: host
  ci_console :: console
  ci_out :: "shown list"
  ci_asked :: nat

type_synonym 'a cli = "(cli_state, 'a) prog"

record cli_params =
  cl_control :: control_params
  cl_models :: "pydict result"
  cl_euid :: int
  cl_uid_map :: "string result"
  cl_ask :: "nat \<Rightarrow> string \<Rightarrow> string list \<Rightarrow> string \<Rightarrow> string result"

definition on_cli :: "'a handler \<Rightarrow> 'a cli" where
  "on_cli m s = (case m (ci_host s) of (r, h) \<Rightarrow> (r, s\<lparr>ci_host := h\<rparr>))"

definition say :: "shown list \<Rightarrow> unit cli" where
  "say xs s = (Inr (), s\<lparr>ci_out := ci_out s @ xs\<rparr>)"

definition ask :: "cli_params \<Rightarrow> string \<Rightarrow> string list \<Rightarrow> string \<Rightarrow> string cli" where
  "ask cl question choices d s = (cl_ask cl (ci_asked s) question choices d, s\<lparr>ci_asked := Suc (ci_asked s)\<rparr>)"

definition on_setup :: "(setup_state, 'a) prog \<Rightarrow> 'a cli" where
  "on_setup m s =
     (case m \<lparr>su_os = ho_os (ci_host s), su_console = ci_console s\<rparr> of
        (r, u) \<Rightarrow> (r, s\<lparr>ci_host := (ci_host s)\<lparr>ho_os := su_os u\<rparr>, ci_console := su_console u\<rparr>))"

abbreviation cl_lib :: "cli_params \<Rightarrow> native_lib" where "cl_lib cl \<equiv> cp_lib (cl_control cl)"
abbreviation cl_app :: "cli_params \<Rightarrow> app_params" where "cl_app cl \<equiv> cp_app (cl_control cl)"
abbreviation cl_client :: "cli_params \<Rightarrow> unit cli" where "cl_client cl \<equiv> on_cli (control_client (cl_control cl))"
abbreviation on_lib :: "'a native \<Rightarrow> 'a cli" where "on_lib m \<equiv> on_cli (on_native m)"
abbreviation see :: "(os_view \<Rightarrow> 'a result) \<Rightarrow> 'a cli" where "see f \<equiv> on_cli (on_os (asks f))"

text \<open>\<^verbatim>\<open>str(item.get(column, ""))\<close> for the columns; iterating over a value; \<^verbatim>\<open>item.get\<close> of what is no dict.\<close>

definition row_of :: "string list \<Rightarrow> pydict \<Rightarrow> string list" where
  "row_of columns item = map (\<lambda>c. py_str (dget_or item c (PStr ''''))) columns"

fun py_iter :: "pyval \<Rightarrow> pyval list result" where
  "py_iter (PList xs) = Inr xs"
| "py_iter (PDict d) = Inr (map (\<lambda>kv. PStr (fst kv)) d)"
| "py_iter (PStr s) = Inr (map (\<lambda>c. PStr [c]) s)"
| "py_iter _ = Inl (TypeError ''object is not iterable'')"

fun with_get :: "pyval \<Rightarrow> pydict result" where
  "with_get (PDict d) = Inr d"
| "with_get _ = Inl (AttributeError ''object has no attribute get'')"

definition dicts_of :: "pyval list \<Rightarrow> pydict list" where
  "dicts_of xs = concat (map (\<lambda>x. case x of PDict d \<Rightarrow> [d] | _ \<Rightarrow> []) xs)"

section \<open>Commands for the host only\<close>

definition cli_sandboxed :: "cli_params \<Rightarrow> os_view \<Rightarrow> bool result" where
  "cli_sandboxed cl v = is_sandboxed (cl_euid cl) (cl_uid_map cl) (os_environ v)"

definition host_only :: "string \<Rightarrow> exn" where
  "host_only command = BadParameter (command @ '' is only available to the real host user, not from inside a BubbleHub sandbox'')"

definition deny_in_sandbox :: "cli_params \<Rightarrow> string \<Rightarrow> unit cli" where
  "deny_in_sandbox cl command =
     bindn (see (cli_sandboxed cl)) (\<lambda>inside. if inside then raisen (host_only command) else returnn ())"

section \<open>models and specialties\<close>

definition choose_base_model :: "cli_params \<Rightarrow> terminal \<Rightarrow> string \<Rightarrow> unit cli" where
  "choose_base_model cl t speciality s =
     (case on_setup (prompt_base_model_setup (cl_app cl) t speciality) s of
        (Inr _, s') \<Rightarrow> (Inr (), s')
      | (Inl e, s') \<Rightarrow> (Inl (if is_value_error e then BadParameter (exn_text e) else e), s'))"

definition models_command :: "cli_params \<Rightarrow> terminal \<Rightarrow> bool \<Rightarrow> string \<Rightarrow> unit cli" where
  "models_command cl t subcommand speciality =
     (if subcommand then returnn ()
      else bindn (deny_in_sandbox cl ''bubble models'') (\<lambda>_. choose_base_model cl t speciality))"

definition models_setup :: "cli_params \<Rightarrow> terminal \<Rightarrow> bool \<Rightarrow> string \<Rightarrow> unit cli" where
  "models_setup cl t output_isatty speciality =
     bindn (deny_in_sandbox cl ''bubble models setup'') (\<lambda>_.
     bindn (on_setup (run_install_base_model_setup (cl_app cl) t output_isatty speciality)) (\<lambda>configured.
       if configured then returnn ()
       else say [Echo ''Base model setup skipped. Choose one later with: bubble models'']))"

definition model_row :: "string option \<Rightarrow> model_spec \<Rightarrow> string list" where
  "model_row selected m =
     [if Some (ms_name m) = selected then ''*'' else '''', ms_name m, ms_flavor m, ms_capability m, ms_backend m, ms_tier m,
      format_g (ms_ram_gb m) @ ''G'', format_g (ms_vram_gb m) @ ''G'', show_int (ms_context_tokens m), ms_repo_id m]"

definition models_list :: "cli_params \<Rightarrow> string \<Rightarrow> unit cli" where
  "models_list cl speciality =
     bindn (see (load_registry (cl_app cl))) (\<lambda>reg.
     bindn (liftn (ap_hardware (cl_app cl))) (\<lambda>hw.
     let tier = select_tier (hw_ram_bytes hw) (hw_vram_bytes hw) in
     bindn (liftn (selected_model_name reg speciality hw)) (\<lambda>selected.
     bindn (say [Echo (''Machine tier: [bold]'' @ mt_name tier @ ''[/bold] (RAM='' @ show_int (hw_ram_bytes hw div 1024 ^ 3) @ ''GiB, VRAM=''
             @ show_int (hw_vram_bytes hw div 1024 ^ 3) @ ''GiB)'')]) (\<lambda>_.
     bindn (say (case selected of None \<Rightarrow> [] | Some m \<Rightarrow> [Echo (speciality @ '' -> [bold green]'' @ m @ ''[/bold green]'')])) (\<lambda>_.
       say [Table '''' [''Use'', ''Model'', ''Flavor'', ''Capability'', ''Backend'', ''Tier'', ''RAM'', ''VRAM'', ''Ctx'', ''Repo'']
              (map (model_row selected) (reg_models reg))])))))"

definition models_stop :: "cli_params \<Rightarrow> unit cli" where
  "models_stop cl =
     bindn (deny_in_sandbox cl ''bubble models stop'') (\<lambda>_. bindn (cl_client cl) (\<lambda>_.
     bindn (on_lib (status_snapshot (cl_lib cl))) (\<lambda>snap.
     bindn (liftn (model_names (dget_or snap ''models'' (PList [])))) (\<lambda>loaded.
       if loaded = [] then say [Echo ''No loaded models to stop.'']
       else bindn (on_cli (evict_all (cl_control cl) loaded)) (\<lambda>_.
         say [Echo (''Stopped '' @ show_int (int (length loaded)) @ '' loaded model(s).'')])))))"

text \<open>A field padded with blanks on its right.\<close>

definition ljust :: "nat \<Rightarrow> string \<Rightarrow> string" where
  "ljust n s = s @ replicate (n - length s) CHR '' ''"

definition or_text :: "string option \<Rightarrow> string \<Rightarrow> string" where
  "or_text x d = (case x of Some (c # s) \<Rightarrow> c # s | _ \<Rightarrow> d)"

definition specialty_line :: "string \<times> specialty \<Rightarrow> shown" where
  "specialty_line = (\<lambda>(n, sp). Echo (ljust 20 n @ '' capability='' @ ljust 9 (sp_capability sp)
     @ '' flavor='' @ ljust 8 (or_text (sp_flavor sp) ''auto'') @ '' model='' @ ljust 24 (or_text (sp_model sp) ''auto'')
     @ '' lora='' @ or_text (sp_lora sp) ''-''))"

definition specialties_list :: "cli_params \<Rightarrow> unit cli" where
  "specialties_list cl = bindn (see (load_registry (cl_app cl))) (\<lambda>reg.
     say (map specialty_line (sort_key fst (reg_specialties reg))))"

section \<open>The entry point\<close>

definition version_callback :: "string \<Rightarrow> bool \<Rightarrow> unit cli" where
  "version_callback version given =
     (if given then bindn (say [Echo (''bubble '' @ version)]) (\<lambda>_. raisen (TyperExit 0)) else returnn ())"

text \<open>\<^verbatim>\<open>run_cli\<close> up to the call of typer: the arguments typer is given. \<^verbatim>\<open>SystemExit(2)\<close> is written \<open>TyperExit 2\<close>.\<close>

definition run_cli :: "log_params \<Rightarrow> string list \<Rightarrow> (log_state, string list) prog" where
  "run_cli lp argv s =
     (case extract_global_log_options argv of
        Inl e \<Rightarrow>
          if is_value_error e
          then (Inl (TyperExit 2), s\<lparr>lg_stderr := lg_stderr s @ ''ERROR main.py run_cli invalid log option:'' @ exn_text e @ [ch_nl]\<rparr>)
          else (Inl e, s)
      | Inr options \<Rightarrow> bindn (configure_logging lp (lo_level options) (lo_file options)) (\<lambda>_. returnn (lo_cleaned options)) s)"

section \<open>manifest\<close>

definition given_text :: "string option \<Rightarrow> bool" where
  "given_text x \<longleftrightarrow> x \<noteq> None \<and> x \<noteq> Some []"

text \<open>A \<^verbatim>\<open>Path\<close> is always true, so a root directory that is given counts.\<close>

definition resolve_agent_id :: "string option \<Rightarrow> path option \<Rightarrow> os_view \<Rightarrow> string result" where
  "resolve_agent_id agent_id root_dir v =
     (if given_text agent_id = (root_dir \<noteq> None) then Inl (BadParameter ''provide exactly one of --agent-id or --root-dir'')
      else (case agent_id of
        Some i \<Rightarrow> if is_valid_agent_id i then Inr i else Inl (BadParameter ''invalid agent id'')
      | None \<Rightarrow> bindr (os_resolve v (expanduser (os_home v) (the root_dir))) (\<lambda>root.
          let marker = path_subs (abs_path root) [''.bubblehub'', ''current-agent''] in
          if \<not> os_is_file v marker then Inl (BadParameter (''persistent sandbox marker not found: '' @ path_str marker))
          else bindr (os_read_text v marker) (\<lambda>t.
            if is_valid_agent_id (strip t) then Inr (strip t)
            else Inl (BadParameter ''persistent sandbox marker contains an invalid agent id'')))))"

definition manifest_policies :: "pydict \<Rightarrow> pydict list result" where
  "manifest_policies manifest = bindr (py_iter (dget_or manifest ''policies'' (PList []))) (\<lambda>xs. Inr (dicts_of xs))"

definition star_if_empty :: "string \<Rightarrow> string" where
  "star_if_empty s = (if s = [] then ''*'' else s)"

definition policy_row :: "nat \<Rightarrow> pydict \<Rightarrow> string list" where
  "policy_row n item =
     [show_nat n, body_text item ''policy'', body_text item ''kind'', body_text item ''subject'',
      star_if_empty (body_text item ''method''), star_if_empty (body_text item ''path'')]"

definition policies_table :: "pydict list \<Rightarrow> shown" where
  "policies_table policies =
     Table ''Manifest Policies'' [''#'', ''policy'', ''kind'', ''subject'', ''method'', ''path'']
       (map (\<lambda>(n, item). policy_row n item) (zip [1..<Suc (length policies)] policies))"

definition choose_policy_index :: "cli_params \<Rightarrow> nat \<Rightarrow> int option cli" where
  "choose_policy_index cl many =
     bindn (ask cl ''Policy to edit'' (map show_nat [1..<Suc many] @ [''q'']) ''q'') (\<lambda>choice.
       if choice = ''q'' then returnn None
       else bindn (liftn (py_int (PStr choice))) (\<lambda>n. returnn (Some (n - 1))))"

text \<open>\<^verbatim>\<open>policies[selected]\<close>: a negative index counts from the end.\<close>

definition py_nth :: "'a list \<Rightarrow> int \<Rightarrow> 'a result" where
  "py_nth xs i =
     (let n = int (length xs); k = (if i < 0 then i + n else i) in
      if 0 \<le> k \<and> k < n then Inr (xs ! nat k) else Inl (IndexError ''list index out of range''))"

definition edit_policy :: "cli_params \<Rightarrow> string \<Rightarrow> pydict list \<Rightarrow> int \<Rightarrow> unit cli" where
  "edit_policy cl agent_id policies selected =
     bindn (liftn (py_nth policies selected)) (\<lambda>item.
     bindn (ask cl ''Policy'' access_policies (py_str (dget_or item ''policy'' (PStr ''ask'')))) (\<lambda>policy.
     bindn (on_lib (apply_access_policy (cl_lib cl) agent_id (body_text item ''kind'') (body_text item ''subject'')
         (body_text item ''method'') (body_text item ''path'') policy)) (\<lambda>_.
     bindn (say [Echo (''Updated policy '' @ show_int (selected + 1) @ '' to [bold]'' @ policy @ ''[/bold].'')]) (\<lambda>_.
     bindn (on_lib (access_manifest (cl_lib cl) agent_id)) (\<lambda>updated.
     bindn (liftn (manifest_policies updated)) (\<lambda>policies.
       say [policies_table policies]))))))"

definition manifest_command :: "cli_params \<Rightarrow> string option \<Rightarrow> path option \<Rightarrow> bool \<Rightarrow> unit cli" where
  "manifest_command cl agent_id root_dir edit =
     bindn (see (resolve_agent_id agent_id root_dir)) (\<lambda>resolved.
     bindn (cl_client cl) (\<lambda>_.
     bindn (on_lib (access_manifest (cl_lib cl) resolved)) (\<lambda>manifest.
     bindn (liftn (manifest_policies manifest)) (\<lambda>policies.
     bindn (say [Echo (''[bold]Access manifest[/bold] agent_id='' @ resolved), policies_table policies]) (\<lambda>_.
       if policies = [] then say [Echo ''No manifest policies.'']
       else if \<not> edit then returnn ()
       else bindn (choose_policy_index cl (length policies)) (\<lambda>choice.
         case choice of None \<Rightarrow> returnn () | Some selected \<Rightarrow> edit_policy cl resolved policies selected))))))"

section \<open>ps and queue\<close>

text \<open>\<^verbatim>\<open>int(int(value) / 1024**3)\<close>: the quotient is a double, and one too large raises what is not caught.\<close>

definition gib_quotient :: "int \<Rightarrow> rat result" where
  "gib_quotient n = (case to_float (of_int n / gib_bytes) of
     Finite q _ \<Rightarrow> Inr q | _ \<Rightarrow> Inl (OverflowError ''integer division result too large for a float''))"

definition ps_gib :: "pyval \<Rightarrow> int result" where
  "ps_gib x = (case py_int x of
     Inl e \<Rightarrow> if is_type_or_value_error e then Inr 0 else Inl e
   | Inr n \<Rightarrow> bindr (gib_quotient n) (\<lambda>q. Inr (trunc_rat q)))"

definition limits_line :: "pydict \<Rightarrow> pydict \<Rightarrow> shown result" where
  "limits_line limits hardware =
     bindr (ps_gib (dget limits ''ram_bytes'')) (\<lambda>a. bindr (ps_gib (dget hardware ''ram_bytes'')) (\<lambda>b.
     bindr (ps_gib (dget limits ''vram_bytes'')) (\<lambda>c. bindr (ps_gib (dget hardware ''vram_bytes'')) (\<lambda>d.
       Inr (Echo (''RAM limit: [bold]'' @ show_int a @ ''GiB[/bold] (hardware '' @ show_int b @ ''GiB), VRAM limit: [bold]''
         @ show_int c @ ''GiB[/bold] (hardware '' @ show_int d @ ''GiB)''))))))"

definition ps_agent_columns :: "string list" where
  "ps_agent_columns = [''agent_id'', ''pid'', ''binary'', ''status'', ''niceness'', ''specialty'']"

definition ps_model_columns :: "string list" where
  "ps_model_columns = [''name'', ''specialty'', ''backend'', ''ram_gb'', ''vram_gb'', ''pid'', ''port'', ''refcount'']"

definition ps_agent_rows :: "pyval \<Rightarrow> os_view \<Rightarrow> string list list result" where
  "ps_agent_rows agents v = bindr (py_iter agents) (\<lambda>xs.
     mapr (\<lambda>d. bindr (enrich_agent_view v d) (\<lambda>e. Inr (row_of (''display_name'' # ps_agent_columns) e))) (dicts_of xs))"

definition ps_model_rows :: "pyval \<Rightarrow> string list list result" where
  "ps_model_rows models = bindr (py_iter models) (mapr (\<lambda>x. bindr (with_get x) (\<lambda>d. Inr (row_of ps_model_columns d))))"

definition ps_snapshot :: "cli_params \<Rightarrow> unit cli" where
  "ps_snapshot cl =
     bindn (on_lib (status_snapshot (cl_lib cl))) (\<lambda>snap.
     bindn (say [Echo (''Memory pressure: [bold]'' @ py_str (dget snap ''memory_pressure'') @ ''[/bold]'')]) (\<lambda>_.
     bindn (case (dget snap ''hardware'', dget snap ''limits'') of
         (PDict hardware, PDict limits) \<Rightarrow> bindn (liftn (limits_line limits hardware)) (\<lambda>line. say [line])
       | _ \<Rightarrow> returnn ()) (\<lambda>_.
     bindn (see (ps_agent_rows (dget snap ''agents''))) (\<lambda>agents.
     bindn (say [Table ''Agents'' (''name'' # ps_agent_columns) agents]) (\<lambda>_.
     bindn (liftn (ps_model_rows (dget snap ''models''))) (\<lambda>models.
       say [Table ''Loaded Models'' ps_model_columns models]))))))"

definition ps_stop :: "cli_params \<Rightarrow> string \<Rightarrow> unit cli" where
  "ps_stop cl agent_id =
     bindn (on_cli (stop_agent (cp_host (cl_control cl)) agent_id)) (\<lambda>stopped.
       say [Echo (''Stopped '' @ py_str (dget stopped ''agent_id'') @ '' (pid '' @ py_str (dget stopped ''pid'') @ '').'')])"

definition ps_command :: "cli_params \<Rightarrow> string option \<Rightarrow> unit cli" where
  "ps_command cl kill =
     bindn (deny_in_sandbox cl ''bubble ps'') (\<lambda>_. bindn (cl_client cl) (\<lambda>_.
       case kill of Some (c # cs) \<Rightarrow> ps_stop cl (c # cs) | _ \<Rightarrow> ps_snapshot cl))"

definition queue_columns :: "string list" where
  "queue_columns = [''job_id'', ''kind'', ''specialty'', ''model_name'', ''niceness'', ''wait_seconds'', ''reason'']"

definition queue_rows :: "pyval list \<Rightarrow> string list list result" where
  "queue_rows queue =
     (if queue = [] then Inr [replicate 6 '''' @ [''No waiting jobs; admitted work appears in bubble ps/dashboard models.'']]
      else mapr (\<lambda>x. bindr (with_get x) (\<lambda>d. Inr (row_of queue_columns d))) queue)"

definition queue_render :: "cli_params \<Rightarrow> unit cli" where
  "queue_render cl =
     bindn (cl_client cl) (\<lambda>_. bindn (on_lib (queue_snapshot (cl_lib cl))) (\<lambda>queue.
     bindn (liftn (queue_rows queue)) (\<lambda>rows. say [Table ''BubbleHub Waiting Queue'' queue_columns rows])))"

fun rounds :: "nat \<Rightarrow> unit cli \<Rightarrow> unit cli" where
  "rounds 0 m = returnn ()"
| "rounds (Suc n) m = bindn m (\<lambda>_. rounds n m)"

definition queue_command :: "cli_params \<Rightarrow> bool \<Rightarrow> nat \<Rightarrow> unit cli" where
  "queue_command cl watch n = rounds (if watch then n else 1) (queue_render cl)"

section \<open>serve, the daemons and shell\<close>

text \<open>What the HTTP service is started with; the service itself is \<open>Http_Api\<close>.\<close>

definition serve_config ::
  "env \<Rightarrow> pydict \<Rightarrow> string option \<Rightarrow> int option \<Rightarrow> string option \<Rightarrow> int \<Rightarrow> api_config result" where
  "serve_config e models host port speciality niceness =
     bindr (load_inference_config e models) (\<lambda>defaults.
       Inr \<lparr>ac_host = or_text host (ic_host defaults),
            ac_port = (case port of Some n \<Rightarrow> if n \<noteq> 0 then n else ic_port defaults | None \<Rightarrow> ic_port defaults),
            ac_default_specialty = or_text speciality (ic_default_specialty defaults), ac_niceness = niceness\<rparr>)"

definition serve_command ::
  "cli_params \<Rightarrow> string option \<Rightarrow> int option \<Rightarrow> string option \<Rightarrow> int \<Rightarrow> api_config cli" where
  "serve_command cl host port speciality niceness =
     bindn (liftn (cl_models cl)) (\<lambda>models.
     bindn (see (\<lambda>v. serve_config (os_environ v) models host port speciality niceness)) (\<lambda>config.
     bindn (say [Echo (''Serving BubbleHub HTTP API on http://'' @ ac_host config @ '':'' @ show_int (ac_port config))]) (\<lambda>_.
       returnn config)))"

definition inference_daemon_config :: "cli_params \<Rightarrow> api_config cli" where
  "inference_daemon_config cl =
     bindn (liftn (cl_models cl)) (\<lambda>models.
     bindn (see (\<lambda>v. load_inference_config (os_environ v) models)) (\<lambda>config.
       returnn \<lparr>ac_host = ic_host config, ac_port = ic_port config, ac_default_specialty = ic_default_specialty config,
         ac_niceness = 0\<rparr>))"

definition node_daemon :: "cli_params \<Rightarrow> nat \<Rightarrow> unit cli" where
  "node_daemon cl n =
     bindn (cl_client cl) (\<lambda>_.
     bindn (say [Echo ''bubblehub-node running (MVP local scheduler)'']) (\<lambda>_.
     bindn (rounds n (bindn (on_lib (status_snapshot (cl_lib cl))) (\<lambda>snap. say [Echo (json_dumps_sorted (PDict snap))]))) (\<lambda>_.
       raisen (TyperExit 0))))"

definition telemetry_of_client :: "cli_params \<Rightarrow> pydict cli" where
  "telemetry_of_client cl = bindn (cl_client cl) (\<lambda>_. on_lib (status_snapshot (cl_lib cl)))"

text \<open>\<open>options\<close> holds what the command line gave; \<open>which_bash\<close> is \<^verbatim>\<open>shutil.which("bash")\<close>.\<close>

definition chosen_shell :: "string option \<Rightarrow> env \<Rightarrow> string" where
  "chosen_shell which_bash e = (case env_nonempty e ''SHELL'' of Some s \<Rightarrow> s | None \<Rightarrow> or_text which_bash ''/bin/sh'')"

definition shell_args :: "string option \<Rightarrow> env \<Rightarrow> string list \<Rightarrow> run_args \<Rightarrow> run_args" where
  "shell_args which_bash e extra options =
     options\<lparr>rg_binary := chosen_shell which_bash e, rg_extra_args := (if extra = [] then [''-i''] else extra), rg_niceness := 0,
       rg_unsafe_no_sandbox := False, rg_interactive_access := True\<rparr>"

definition shell_banner :: "string list \<Rightarrow> shown list" where
  "shell_banner extra =
     (if extra = [] then [Echo ''Entering BubbleHub sandbox shell. Run `exit` to return to the host shell.''] else [])"

definition shell_command :: "run_params \<Rightarrow> string option \<Rightarrow> string list \<Rightarrow> run_args \<Rightarrow> (run_state, unit) prog" where
  "shell_command rp which_bash extra options s = run_agent rp (shell_args which_bash (environ_of s) extra options) s"

section \<open>poc and prompt\<close>

definition default_speciality :: "cli_params \<Rightarrow> string option \<Rightarrow> string cli" where
  "default_speciality cl speciality =
     (case speciality of
        Some (c # cs) \<Rightarrow> returnn (c # cs)
      | _ \<Rightarrow> bindn (liftn (cl_models cl)) (\<lambda>models. bindn (see (\<lambda>v. load_inference_config (os_environ v) models)) (\<lambda>config.
          returnn (ic_default_specialty config))))"

definition poc_quits :: "string list" where "poc_quits = ['':q'', '':quit'', ''exit'', ''quit'']"

text \<open>The lines that are typed; behind the last one the input ends or is interrupted.\<close>

fun poc_loop :: "engine_world \<Rightarrow> engine_session \<Rightarrow> string list \<Rightarrow> unit cli" where
  "poc_loop w session [] = say [Echo '''']"
| "poc_loop w session (line # lines) =
     (let prompt = strip line in
      if prompt \<in> set poc_quits then returnn ()
      else if prompt = [] then poc_loop w session lines
      else bindn (on_lib (session_chat w session [chat_msg ''user'' prompt] None)) (\<lambda>answer.
        bindn (say [Echo answer]) (\<lambda>_. poc_loop w session lines)))"

definition poc_command ::
  "cli_params \<Rightarrow> engine_world \<Rightarrow> string option \<Rightarrow> int \<Rightarrow> string option \<Rightarrow> string option \<Rightarrow> string list \<Rightarrow> unit cli" where
  "poc_command cl w speciality niceness flavor capability lines =
     bindn (default_speciality cl speciality) (\<lambda>name.
     bindn (say [Echo (''[bold]BubbleHub POC[/bold] speciality='' @ name @ '' niceness='' @ show_int niceness)]) (\<lambda>_.
     bindn (on_lib (session_enter w (new_session name niceness flavor capability))) (\<lambda>session.
       poc_loop w session lines)))"

text \<open>\<open>run_prompt\<close> asks for answers in turn: the history of the library after the questions so far.\<close>

definition asked_history :: "engine_world \<Rightarrow> engine_session \<Rightarrow> history \<Rightarrow> asked \<Rightarrow> history" where
  "asked_history w session h asked = fold (\<lambda>messages h. snd (session_chat w session messages None h)) asked h"

definition session_prompt :: "engine_world \<Rightarrow> engine_session \<Rightarrow> string result option \<Rightarrow> string \<Rightarrow> string native" where
  "session_prompt w session structure prompt h =
     (case run_prompt (\<lambda>asked messages. fst (session_chat w session messages None (asked_history w session h asked))) structure prompt of
        (r, asked) \<Rightarrow> (r, asked_history w session h asked))"

definition prompt_command ::
  "cli_params \<Rightarrow> engine_world \<Rightarrow> string option \<Rightarrow> path option \<Rightarrow> string \<Rightarrow> int \<Rightarrow> path option \<Rightarrow> unit cli" where
  "prompt_command cl w speciality structure prompt niceness output =
     bindn (default_speciality cl speciality) (\<lambda>name.
     bindn (on_lib (session_enter w (new_session name niceness None None))) (\<lambda>session.
     bindn (see (\<lambda>v. Inr (map_option (os_read_text v) structure))) (\<lambda>file.
     bindn (on_lib (session_prompt w session file prompt)) (\<lambda>payload.
       case output of
         Some p \<Rightarrow> on_cli (on_os (os_write_text p (payload @ [ch_nl])))
       | None \<Rightarrow> say [Echo payload]))))"

section \<open>What a command does to the library\<close>

lemmas cli_simps = native_simps on_cli_def say_def ask_def

text \<open>
  Programs that leave the operating system and the processes alone and make native calls of a kind, at
  most \<open>n\<close> of them changes of a policy.
\<close>

named_theorems limited_rules \<open>how often a command changes a policy\<close>

fun applies_policy :: "native_event \<Rightarrow> bool" where
  "applies_policy (StatusReply (AccessApplyPolicy _ _ _) _) = True"
| "applies_policy _ = False"

definition limited :: "(native_event \<Rightarrow> bool) \<Rightarrow> nat \<Rightarrow> 'a cli \<Rightarrow> bool" where
  "limited P n m \<longleftrightarrow> (\<forall>s. let h = ci_host s; h' = ci_host (snd (m s)) in
     ho_os h' = ho_os h \<and> ho_signals h' = ho_signals h
     \<and> (\<exists>es. ho_native h' = ho_native h @ es \<and> list_all P es \<and> length (filter applies_policy es) \<le> n))"

lemma limitedI:
  assumes "\<And>s. ho_os (ci_host (snd (m s))) = ho_os (ci_host s)" "\<And>s. ho_signals (ci_host (snd (m s))) = ho_signals (ci_host s)"
    "\<And>s. \<exists>es. ho_native (ci_host (snd (m s))) = ho_native (ci_host s) @ es \<and> list_all P es \<and> length (filter applies_policy es) \<le> n"
  shows "limited P n m"
  using assms by (simp add: limited_def Let_def)

lemma limited_none: "(\<And>s. ci_host (snd (m s)) = ci_host s) \<Longrightarrow> limited P n m"
  by (rule limitedI) simp_all

lemma limited_basic [limited_rules]:
  "limited P n (returnn x)" "limited P n (raisen e)" "limited P n (liftn r)" "limited P n (say xs)" "limited P n (ask cl q cs d)"
  by (rule limited_none; simp add: cli_simps)+

lemma limited_see [limited_rules]: "limited P n (see f)"
  by (rule limited_none) (simp add: on_cli_def on_os_def asks_def)

lemma limited_bindn:
  assumes "limited P i m" "\<And>x. limited P j (k x)" "i + j \<le> n" shows "limited P n (bindn m k)"
proof -
  have "let h = ci_host s; h' = ci_host (snd (bindn m k s)) in ho_os h' = ho_os h \<and> ho_signals h' = ho_signals h
     \<and> (\<exists>es. ho_native h' = ho_native h @ es \<and> list_all P es \<and> length (filter applies_policy es) \<le> n)" for s
  proof -
    obtain r s1 where p: "m s = (r, s1)" by fastforce
    from assms(1) obtain es where m: "ho_os (ci_host s1) = ho_os (ci_host s)" "ho_signals (ci_host s1) = ho_signals (ci_host s)"
        "ho_native (ci_host s1) = ho_native (ci_host s) @ es" "list_all P es" "length (filter applies_policy es) \<le> i"
      unfolding limited_def Let_def by (metis p snd_conv)
    show ?thesis
    proof (cases r)
      case (Inl e)
      with m p assms(3) show ?thesis by (auto simp: native_simps intro!: exI[of _ es])
    next
      case (Inr x)
      from assms(2)[of x] obtain es' where "ho_os (ci_host (snd (k x s1))) = ho_os (ci_host s1)"
          "ho_signals (ci_host (snd (k x s1))) = ho_signals (ci_host s1)"
          "ho_native (ci_host (snd (k x s1))) = ho_native (ci_host s1) @ es'" "list_all P es'" "length (filter applies_policy es') \<le> j"
        unfolding limited_def Let_def by metis
      with m p Inr assms(3) show ?thesis by (auto simp: native_simps intro!: exI[of _ "es @ es'"])
    qed
  qed
  then show ?thesis by (simp add: limited_def)
qed

lemma limited_first: "limited P 0 m \<Longrightarrow> (\<And>x. limited P n (k x)) \<Longrightarrow> limited P n (bindn m k)"
  by (rule limited_bindn[where i = 0 and j = n]) simp_all

lemma limited_last: "limited P n m \<Longrightarrow> (\<And>x. limited P 0 (k x)) \<Longrightarrow> limited P n (bindn m k)"
  by (rule limited_bindn[where i = n and j = 0]) simp_all

lemma limited_if [limited_rules]: "(b \<Longrightarrow> limited P n m) \<Longrightarrow> (\<not> b \<Longrightarrow> limited P n m') \<Longrightarrow> limited P n (if b then m else m')"
  by simp

lemma on_cli_state [simp]: "ci_host (snd (on_cli m s)) = snd (m (ci_host s))"
  by (simp add: on_cli_def split: prod.splits)

lemma limited_native:
  assumes "calls_only (\<lambda>e. P e \<and> \<not> applies_policy e) (on_native m)" shows "limited P n (on_lib m)"
proof (rule limitedI)
  fix s
  from assms obtain es where es: "ho_native (ci_host (snd (on_lib m s))) = ho_native (ci_host s) @ es"
      "list_all (\<lambda>e. P e \<and> \<not> applies_policy e) es"
    unfolding calls_only_def on_cli_state by blast
  then have "list_all P es" "filter applies_policy es = []" by (auto simp: filter_empty_conv list_all_iff)
  with es show "\<exists>es. ho_native (ci_host (snd (on_lib m s))) = ho_native (ci_host s) @ es \<and> list_all P es \<and> length (filter applies_policy es) \<le> n"
    by fastforce
qed (simp_all add: on_native_def split: prod.splits)

text \<open>What the manifest command may ask of the library for an agent.\<close>

fun manifest_event :: "string \<Rightarrow> native_event \<Rightarrow> bool" where
  "manifest_event i (StatusReply (AccessApplyPolicy a _ _) _) = (a = bytes i)"
| "manifest_event i (StatusReply (ConfigureLimits _ _) _) = True"
| "manifest_event i (StatusReply _ _) = False"
| "manifest_event i (TextReply c _) = (c = AccessManifestJson (bytes i))"
| "manifest_event i (FreeString f) = (f = AccessFree)"

lemma limited_manifest: "limited (manifest_event i) n (on_lib (access_manifest lib i))"
  unfolding access_manifest_def by (intro limited_native calls_text) simp_all

lemma limited_client: "limited (manifest_event i) n (cl_client cl)"
  unfolding control_client_def by (intro limited_native, fold control_client_def, intro calls_rules) simp

lemma limited_apply: "limited (manifest_event i) 1 (on_lib (apply_access_policy lib i a b c d policy))"
proof (rule limitedI)
  fix s
  show "\<exists>es. ho_native (ci_host (snd (on_lib (apply_access_policy lib i a b c d policy) s))) = ho_native (ci_host s) @ es
      \<and> list_all (manifest_event i) es \<and> length (filter applies_policy es) \<le> 1"
    by (cases "access_request_of a b c d") (simp_all add: on_native_def apply_access_policy_def status_call_def native_simps Let_def)
qed (simp_all add: on_native_def split: prod.splits)

lemma limited_edit: "limited (manifest_event i) 1 (edit_policy cl i policies selected)"
  unfolding edit_policy_def
  by (rule limited_first, rule limited_rules, rule limited_first, rule limited_rules, rule limited_last, rule limited_apply)
     (intro limited_first limited_rules limited_manifest)

lemma limited_choose: "limited P n (choose_policy_index cl many)"
  unfolding choose_policy_index_def by (intro limited_first limited_rules)

lemma limited_command:
  "limited (manifest_event i) (if edit then 1 else 0)
     (bindn (cl_client cl) (\<lambda>_. bindn (on_lib (access_manifest (cl_lib cl) i)) (\<lambda>manifest.
        bindn (liftn (manifest_policies manifest)) (\<lambda>policies.
        bindn (say [Echo (''[bold]Access manifest[/bold] agent_id='' @ i), policies_table policies]) (\<lambda>_.
          if policies = [] then say [Echo ''No manifest policies.'']
          else if \<not> edit then returnn ()
          else bindn (choose_policy_index cl (length policies)) (\<lambda>choice.
            case choice of None \<Rightarrow> returnn () | Some selected \<Rightarrow> edit_policy cl i policies selected))))))"
proof -
  have o: "limited (manifest_event i) 1 (case choice of None \<Rightarrow> returnn () | Some selected \<Rightarrow> edit_policy cl i policies selected)" for choice policies
    using limited_edit by (cases choice) (simp_all add: limited_rules)
  show ?thesis
    by (intro limited_if limited_first limited_client limited_manifest limited_choose limited_rules) (use o in simp)
qed

section \<open>The shape of what is printed\<close>

fun shown_ok :: "shown \<Rightarrow> bool" where
  "shown_ok (Echo _) = True"
| "shown_ok (Bar _ _ whole completed) = (1 \<le> whole \<and> completed \<le> whole)"
| "shown_ok (Table _ columns rows) = list_all (\<lambda>row. length row = length columns) rows"

text \<open>Programs that print only tables whose rows are as long as their headers and bars that are not overfull.\<close>

named_theorems shape_rules \<open>the tables a program prints\<close>

definition shapely :: "'a cli \<Rightarrow> bool" where
  "shapely m \<longleftrightarrow> (\<forall>s. \<exists>xs. ci_out (snd (m s)) = ci_out s @ xs \<and> list_all shown_ok xs)"

lemma shapely_none: "(\<And>s. ci_out (snd (m s)) = ci_out s) \<Longrightarrow> shapely m"
  by (simp add: shapely_def)

lemma shapely_basic [shape_rules]:
  "shapely (returnn x)" "shapely (raisen e)" "shapely (liftn r)" "shapely (ask cl q cs d)" "shapely (on_cli k)" "shapely (on_setup p)"
  by (rule shapely_none; simp add: cli_simps on_setup_def split: prod.splits)+

lemma shapely_say: "list_all shown_ok xs \<Longrightarrow> shapely (say xs)"
  by (simp add: shapely_def say_def)

lemma shapely_echo [shape_rules]: "shapely (say [])" "shapely (say [Echo a])" "shapely (say (map (\<lambda>x. Echo (f x)) ys))"
  by (rule shapely_say; simp add: list_all_iff)+

lemma shapely_bindn:
  assumes "shapely m" "\<And>x s s'. m s = (Inr x, s') \<Longrightarrow> shapely (k x)" shows "shapely (bindn m k)"
  unfolding shapely_def
proof
  fix s
  obtain r s1 where p: "m s = (r, s1)" by fastforce
  from assms(1) obtain xs where m: "ci_out s1 = ci_out s @ xs" "list_all shown_ok xs"
    unfolding shapely_def by (metis p snd_conv)
  show "\<exists>xs. ci_out (snd (bindn m k s)) = ci_out s @ xs \<and> list_all shown_ok xs"
  proof (cases r)
    case (Inl e)
    with m p show ?thesis by (simp add: native_simps)
  next
    case (Inr x)
    from assms(2)[OF p[unfolded Inr]] obtain ys where "ci_out (snd (k x s1)) = ci_out s1 @ ys" "list_all shown_ok ys"
      unfolding shapely_def by blast
    with m p Inr show ?thesis by (auto simp: native_simps intro!: exI[of _ "xs @ ys"])
  qed
qed

lemma shapely_then [shape_rules]: "shapely m \<Longrightarrow> (\<And>x. shapely (k x)) \<Longrightarrow> shapely (bindn m k)"
  by (rule shapely_bindn)

lemma shapely_if [shape_rules]: "(b \<Longrightarrow> shapely m) \<Longrightarrow> (\<not> b \<Longrightarrow> shapely m') \<Longrightarrow> shapely (if b then m else m')"
  by simp

lemma shapely_lift [shape_rules]: "(\<And>x. r = Inr x \<Longrightarrow> shapely (k x)) \<Longrightarrow> shapely (bindn (liftn r) k)"
  by (rule shapely_bindn) (simp_all add: shape_rules native_simps)

lemma shapely_see [shape_rules]: "(\<And>v x. f v = Inr x \<Longrightarrow> shapely (k x)) \<Longrightarrow> shapely (bindn (see f) k)"
  by (rule shapely_bindn) (auto simp: shape_rules on_cli_def on_os_def asks_def)

lemma mapr_all: "mapr f xs = Inr ys \<Longrightarrow> (\<And>x y. f x = Inr y \<Longrightarrow> P y) \<Longrightarrow> list_all P ys"
  by (induction xs arbitrary: ys) (auto simp: bindr_eq_Inr)

lemma length_row_of [simp]: "length (row_of columns d) = length columns"
  by (simp add: row_of_def)

lemma rows_ok:
  "ps_agent_rows a v = Inr rows \<Longrightarrow> shown_ok (Table t (''name'' # ps_agent_columns) rows)"
  "ps_model_rows m = Inr rows \<Longrightarrow> shown_ok (Table t ps_model_columns rows)"
  "queue_rows q = Inr rows \<Longrightarrow> shown_ok (Table t queue_columns rows)"
  by (auto simp: ps_agent_rows_def ps_model_rows_def queue_rows_def queue_columns_def bindr_eq_Inr split: if_splits elim!: mapr_all)

lemma policies_ok: "shown_ok (policies_table policies)"
  by (auto simp: policies_table_def policy_row_def list_all_iff)

lemma shapely_manifest [shape_rules]: "shapely (manifest_command cl agent_id root_dir edit)"
proof -
  have e: "shapely (edit_policy cl i policies selected)" for i policies selected
    unfolding edit_policy_def by (intro shape_rules shapely_say) (simp add: policies_ok)
  have "shapely (choose_policy_index cl many)" for many
    unfolding choose_policy_index_def by (intro shape_rules)
  moreover have "shapely (case choice of None \<Rightarrow> returnn () | Some selected \<Rightarrow> edit_policy cl i policies selected)" for choice i policies
    by (cases choice) (simp_all add: shape_rules e)
  ultimately show ?thesis
    unfolding manifest_command_def by (intro shapely_then shapely_if shapely_basic shapely_echo shapely_say) (simp_all add: policies_ok)
qed

lemma shapely_ps [shape_rules]: "shapely (ps_command cl kill)"
proof -
  have l: "shapely (case p of (PDict hardware, PDict limits) \<Rightarrow> bindn (liftn (limits_line limits hardware)) (\<lambda>line. say [line]) | _ \<Rightarrow> returnn ())" for p
    by (auto simp: shape_rules limits_line_def bindr_eq_Inr intro!: shapely_lift split: prod.splits pyval.splits)
  have "shapely (ps_snapshot cl)" unfolding ps_snapshot_def
    by (intro shapely_see shapely_lift shapely_then[OF l] shape_rules shapely_say) (simp_all add: rows_ok del: shown_ok.simps)
  moreover have "shapely (ps_stop cl i)" for i unfolding ps_stop_def by (intro shape_rules)
  ultimately show ?thesis unfolding ps_command_def deny_in_sandbox_def
    by (intro shape_rules) (auto split: option.splits list.splits)
qed

lemma shapely_rounds [shape_rules]: "shapely m \<Longrightarrow> shapely (rounds n m)"
  by (induction n) (simp_all add: shape_rules)

lemma shapely_queue [shape_rules]: "shapely (queue_command cl watch n)"
  unfolding queue_command_def queue_render_def
  by (intro shapely_rounds shapely_lift shape_rules shapely_say) (simp add: rows_ok del: shown_ok.simps)

lemma shapely_listings [shape_rules]:
  "shapely (models_setup cl t atty sp)" "shapely (models_stop cl)" "shapely (specialties_list cl)"
  unfolding models_setup_def models_stop_def specialties_list_def deny_in_sandbox_def specialty_line_def case_prod_beta
  by (intro shape_rules)+

lemma shapely_models [shape_rules]: "shapely (models_command cl t sub sp)" "shapely (models_list cl sp)"
proof -
  have "snd (choose_base_model cl t sp s) = snd (on_setup (prompt_base_model_setup (cl_app cl) t sp) s)" for s
    by (simp add: choose_base_model_def split: prod.splits sum.splits)
  then have "shapely (choose_base_model cl t sp)"
    using shapely_basic(6)[of "prompt_base_model_setup (cl_app cl) t sp"] by (simp add: shapely_def)
  then show "shapely (models_command cl t sub sp)" unfolding models_command_def deny_in_sandbox_def by (intro shape_rules)
  show "shapely (models_list cl sp)" unfolding models_list_def Let_def
    by (intro shape_rules shapely_then shapely_say) (auto simp: list_all_iff model_row_def split: option.splits)
qed

section \<open>The conversation\<close>

lemma bindn_assoc: "bindn (bindn m f) g = bindn m (\<lambda>x. bindn (f x) g)"
  by (rule ext) (simp add: native_simps split: prod.splits sum.splits)

text \<open>The questions of a conversation: the lines before the one that quits, stripped, without the blank ones.\<close>

definition poc_prompts :: "string list \<Rightarrow> string list" where
  "poc_prompts lines = filter (\<lambda>p. p \<noteq> []) (takeWhile (\<lambda>p. p \<notin> set poc_quits) (map strip lines))"

fun in_turn :: "('a \<Rightarrow> ('s, unit) prog) \<Rightarrow> 'a list \<Rightarrow> ('s, unit) prog" where
  "in_turn f [] = returnn ()"
| "in_turn f (x # xs) = bindn (f x) (\<lambda>_. in_turn f xs)"

definition poc_answer :: "engine_world \<Rightarrow> engine_session \<Rightarrow> string \<Rightarrow> unit cli" where
  "poc_answer w session prompt =
     bindn (on_lib (session_chat w session [chat_msg ''user'' prompt] None)) (\<lambda>answer. say [Echo answer])"

section \<open>Properties\<close>

text \<open>
  C17. \<^verbatim>\<open>bubble manifest\<close> works on the one agent that its options name, an agent with a valid identifier: it
  leaves the file system and the processes alone, asks the library only for that agent's manifest, and
  changes at most one of its policies; without \<^verbatim>\<open>--edit\<close> it changes none. When the options name no agent,
  nothing at all happens.
\<close>

theorem manifest_edits_one_policy:
  "case resolve_agent_id agent_id root_dir (ho_os (ci_host s)) of
     Inl e \<Rightarrow> manifest_command cl agent_id root_dir edit s = (Inl e, s)
   | Inr i \<Rightarrow> is_valid_agent_id i \<and>
       (let s' = snd (manifest_command cl agent_id root_dir edit s) in
        ho_os (ci_host s') = ho_os (ci_host s) \<and> ho_signals (ci_host s') = ho_signals (ci_host s)
        \<and> (\<exists>es. ho_native (ci_host s') = ho_native (ci_host s) @ es \<and> list_all (manifest_event i) es
             \<and> length (filter applies_policy es) \<le> (if edit then 1 else 0)))"
proof (cases "resolve_agent_id agent_id root_dir (ho_os (ci_host s))")
  case (Inl e)
  then show ?thesis by (simp add: manifest_command_def cli_simps on_os_def asks_def)
next
  case (Inr i)
  have "is_valid_agent_id i"
    using Inr by (auto simp: resolve_agent_id_def Let_def bindr_eq_Inr split: if_splits option.splits)
  moreover have "see (resolve_agent_id agent_id root_dir) s = (Inr i, s)"
    using Inr by (simp add: on_cli_def on_os_def asks_def)
  ultimately show ?thesis
    using limited_command[of i edit cl] unfolding limited_def manifest_command_def Inr by (simp add: bindn_simps Let_def)
qed

text \<open>
  The loop of \<^verbatim>\<open>bubble poc\<close> is a conversation: each question is sent on its own, in order, and its answer
  printed before the next; lines behind the one that quits are not read, and an input that ends without it
  ends the loop with an empty line.
\<close>

theorem poc_loop_is_a_conversation:
  "poc_loop w session lines =
     bindn (in_turn (poc_answer w session) (poc_prompts lines))
       (\<lambda>_. if list_ex (\<lambda>l. strip l \<in> set poc_quits) lines then returnn () else say [Echo ''''])"
proof (induction lines)
  case Nil
  then show ?case by (simp add: poc_prompts_def native_simps)
next
  case (Cons line lines)
  have blank: "[] \<notin> set poc_quits" by (simp add: poc_quits_def)
  show ?case
  proof (cases "strip line \<in> set poc_quits \<or> strip line = []")
    case True
    with blank Cons.IH show ?thesis by (auto simp: poc_prompts_def native_simps)
  next
    case False
    then have "poc_prompts (line # lines) = strip line # poc_prompts lines" by (simp add: poc_prompts_def)
    with False Cons.IH show ?thesis by (simp add: poc_answer_def Let_def bindn_assoc)
  qed
qed

end
