(* ===== verification/Dashboard.thy ===== *)
theory Dashboard
  imports Cli_Commands
begin

text \<open>
  The dashboard in the terminal: \<^verbatim>\<open>bubblehub/tui/dashboard.py\<close> and the command that opens it
  (\<^verbatim>\<open>bubblehub/cli/dashboard.py\<close>). The panels are shown without their frames; a frame of the live display
  is what one rendering prints, and the dot of an agent, no Latin-1 character, is a question mark.
\<close>

section \<open>Access requests that wait\<close>

definition pending_access_label :: "pydict \<Rightarrow> string" where
  "pending_access_label item =
     (let p = body_text item ''path''; subject = body_text item ''subject'' in
      body_text item ''agent_id'' @ '': '' @ body_text item ''kind'' @ '' '' @ star_if_empty (body_text item ''method'') @ '' ''
        @ (if p = [] then subject else subject @ p))"

definition manifest_scope_for_pending :: "pydict \<Rightarrow> string \<times> string" where
  "manifest_scope_for_pending item =
     (if body_text item ''kind'' = ''http'' then (''*'', ''*'') else (body_text item ''method'', body_text item ''path''))"

definition resolve_item :: "cli_params \<Rightarrow> pydict \<Rightarrow> unit cli" where
  "resolve_item cl item =
     (let agent_id = body_text item ''agent_id'' in
      if agent_id = [] then returnn ()
      else bindn (say [Echo (pending_access_label item)]) (\<lambda>_.
        bindn (ask cl ''Policy'' access_policies ''ask'') (\<lambda>choice.
        let (verb, p) = manifest_scope_for_pending item in
        on_lib (apply_access_policy (cl_lib cl) agent_id (body_text item ''kind'') (body_text item ''subject'') verb p choice))))"

definition resolve_pending_access :: "cli_params \<Rightarrow> unit cli" where
  "resolve_pending_access cl =
     bindn (cl_client cl) (\<lambda>_. bindn (on_lib (access_pending (cl_lib cl))) (\<lambda>pending.
       if pending = [] then returnn ()
       else bindn (say [Echo ''[bold]Pending sandbox access requests[/bold]'']) (\<lambda>_. in_turn (resolve_item cl) pending)))"

section \<open>Helpers the dashboard repeats from the telemetry\<close>

definition dash_int_or_zero :: "pyval \<Rightarrow> int result" where
  "dash_int_or_zero x = (case py_int x of Inr n \<Rightarrow> Inr n | Inl e \<Rightarrow> if is_type_or_value_error e then Inr 0 else Inl e)"

lemma dash_int_or_zero [simp]: "dash_int_or_zero = int_or_zero"
  by (simp add: fun_eq_iff dash_int_or_zero_def int_or_zero_def)

definition dash_limit_or_hardware :: "pyval \<Rightarrow> pyval \<Rightarrow> string \<Rightarrow> int result" where
  "dash_limit_or_hardware limits hardware key =
     bindr (case hardware of PDict d \<Rightarrow> dash_int_or_zero (dget d key) | _ \<Rightarrow> Inr 0) (\<lambda>hardware_value.
       case limits of
         PDict l \<Rightarrow> bindr (dash_int_or_zero (dget l key)) (\<lambda>limit.
           Inr (if 0 < limit then (if 0 < hardware_value then min limit hardware_value else limit) else hardware_value))
       | _ \<Rightarrow> Inr hardware_value)"

definition dash_reserved :: "pydict \<Rightarrow> pyfloat result" where
  "dash_reserved item = bindr (py_float (dget_or item ''vram_gb'' (PInt 0))) (\<lambda>f. Inr (float_times f gib_bytes))"

definition dash_vram_used_bytes :: "pyval \<Rightarrow> int \<Rightarrow> pydict list \<Rightarrow> int result" where
  "dash_vram_used_bytes hardware whole models =
     bindr (case hardware of PDict d \<Rightarrow> dash_int_or_zero (dget d ''free_vram_bytes'') | _ \<Rightarrow> Inr 0) (\<lambda>free.
       if 0 < whole \<and> 0 < free then Inr (max 0 (whole - min free whole))
       else bindr (sum_floats (map dash_reserved models) (Finite 0 ''0.0'')) float_int)"

text \<open>The loops over the lines of \<^verbatim>\<open>/proc\<close>, as they are written.\<close>

fun dash_meminfo_lines :: "string list \<Rightarrow> (string \<times> int) list \<Rightarrow> (string \<times> int) list" where
  "dash_meminfo_lines [] values = values"
| "dash_meminfo_lines (line # lines) values =
     (let key = before_char CHR '':'' line; parts = split_ws (after_char CHR '':'' line) in
      if parts = [] then dash_meminfo_lines lines values
      else case parse_int (parts ! 0) of
          Some n \<Rightarrow> dash_meminfo_lines lines (dput key (n * 1024) values)
        | None \<Rightarrow> dash_meminfo_lines lines values)"

definition dash_meminfo :: "os_view \<Rightarrow> (string \<times> int) list result" where
  "dash_meminfo v = bindr (proc_text v (Path True [''proc'', ''meminfo''])) (\<lambda>t.
     Inr (case t of None \<Rightarrow> [] | Some t \<Rightarrow> dash_meminfo_lines (splitlines t) []))"

definition dash_ram_used_bytes :: "os_view \<Rightarrow> int \<Rightarrow> int result" where
  "dash_ram_used_bytes v whole =
     bindr (dash_meminfo v) (\<lambda>meminfo.
       let mem_total = (case map_of meminfo ''MemTotal'' of None \<Rightarrow> whole | Some n \<Rightarrow> n);
           mem_available = (case map_of meminfo ''MemAvailable'' of None \<Rightarrow> 0 | Some n \<Rightarrow> n) in
       if mem_total \<le> 0 \<or> mem_available \<le> 0 then Inr 0
       else let used = mem_total - mem_available in
         if 0 < whole \<and> whole < mem_total then scaled_used used whole mem_total else Inr used)"

fun dash_rss_lines :: "string list \<Rightarrow> int" where
  "dash_rss_lines [] = 0"
| "dash_rss_lines (line # lines) =
     (if \<not> startswith ''VmRSS:'' line then dash_rss_lines lines
      else let parts = split_ws line in
        if length parts < 2 then 0
        else case parse_int (parts ! 1) of Some n \<Rightarrow> n * 1024 | None \<Rightarrow> 0)"

definition dash_rss_bytes :: "os_view \<Rightarrow> int \<Rightarrow> int result" where
  "dash_rss_bytes v pid =
     (if pid \<le> 0 then Inr 0
      else bindr (proc_text v (path_sub (proc_path pid) ''status'')) (\<lambda>t.
        Inr (case t of None \<Rightarrow> 0 | Some t \<Rightarrow> dash_rss_lines (splitlines t))))"

section \<open>Texts\<close>

definition format_fixed :: "nat \<Rightarrow> rat \<Rightarrow> string" where
  "format_fixed k q = fixed_text (nat (round_half_even (q * 10 ^ k))) k"

definition format_bytes :: "int \<Rightarrow> string result" where
  "format_bytes n =
     (if n \<le> 0 then Inr ''0GiB''
      else bindr (gib_quotient n) (\<lambda>gib. Inr (format_fixed (if 10 \<le> gib then 0 else 1) gib @ ''GiB'')))"

fun format_g_float :: "pyfloat \<Rightarrow> string" where
  "format_g_float (Finite q _) = format_g (double q)"
| "format_g_float PosInf = ''inf''"
| "format_g_float NegInf = ''-inf''"
| "format_g_float NotANumber = ''nan''"

definition general_text :: "pyval \<Rightarrow> string result" where
  "general_text x = bindr (py_float x) (\<lambda>f. Inr (format_g_float f))"

section \<open>Bars and tables\<close>

definition memory_bar :: "string \<Rightarrow> int \<Rightarrow> int \<Rightarrow> string \<Rightarrow> string \<Rightarrow> shown result" where
  "memory_bar panel whole used label state =
     bindr (format_bytes used) (\<lambda>u. bindr (format_bytes whole) (\<lambda>w.
       let safe = max whole 1 in
       Inr (Bar panel [label, u @ '' / '' @ w, ''state='' @ state] safe (min used safe))))"

definition dash_agent_columns :: "string list" where
  "dash_agent_columns = [''state'', ''name'', ''agent_id'', ''binary'', ''status'', ''niceness'', ''specialty'', ''pid'', ''rss'', ''cpu_time'']"

definition dash_agent_row :: "pydict \<Rightarrow> string list result" where
  "dash_agent_row item =
     bindr (dash_int_or_zero (dget item ''rss_bytes'')) (\<lambda>n. bindr (format_bytes n) (\<lambda>rss.
     bindr (general_text (dget_or item ''cpu_time_seconds'' (PInt 0))) (\<lambda>cpu.
       Inr ([if truthy (dget item ''running'') then ''[green]?[/green]'' else ''[red]?[/red]'',
             py_str (dget_or item ''display_name'' (dget_or item ''name'' (PStr '''')))]
          @ row_of [''agent_id'', ''binary'', ''status'', ''niceness'', ''specialty'', ''pid''] item @ [rss, cpu @ ''s'']))))"

definition dash_model_columns :: "string list" where
  "dash_model_columns = [''name'', ''backend'', ''specialty'', ''ram_reserved'', ''vram_reserved'', ''rss'', ''pid'', ''port'', ''refcount'']"

definition dash_model_row :: "os_view \<Rightarrow> pydict \<Rightarrow> string list result" where
  "dash_model_row v item =
     bindr (dash_int_or_zero (dget item ''pid'')) (\<lambda>pid.
     bindr (general_text (dget_or item ''ram_gb'' (PInt 0))) (\<lambda>ram.
     bindr (general_text (dget_or item ''vram_gb'' (PInt 0))) (\<lambda>vram.
     bindr (dash_int_or_zero (dget item ''rss_bytes'')) (\<lambda>known.
     bindr (if known \<noteq> 0 then Inr known else dash_rss_bytes v pid) (\<lambda>n. bindr (format_bytes n) (\<lambda>rss.
       Inr (row_of [''name'', ''backend'', ''specialty''] item @ [ram @ ''G'', vram @ ''G'', rss]
         @ row_of [''pid'', ''port'', ''refcount''] item)))))))"

definition dash_queue_columns :: "string list" where
  "dash_queue_columns = [''job_id'', ''model_name'', ''niceness'', ''wait_seconds'', ''reason'']"

definition table_of :: "string \<Rightarrow> string list \<Rightarrow> (pydict \<Rightarrow> string list result) \<Rightarrow> pyval \<Rightarrow> shown result" where
  "table_of title columns row items =
     bindr (py_iter items) (\<lambda>xs. bindr (mapr (\<lambda>x. bindr (with_get x) row) xs) (\<lambda>rows. Inr (Table title columns rows)))"

definition dash_queue_table :: "pyval \<Rightarrow> shown result" where
  "dash_queue_table queue =
     (if \<not> truthy queue
      then Inr (Table ''Waiting Queue'' dash_queue_columns [replicate 4 '''' @ [''No waiting jobs; admitted work appears under models/agents.'']])
      else table_of ''Waiting Queue'' dash_queue_columns (\<lambda>d. Inr (row_of dash_queue_columns d)) queue)"

definition dash_agents_table :: "pyval \<Rightarrow> shown result" where
  "dash_agents_table agents = table_of ''Agents'' dash_agent_columns dash_agent_row agents"

definition dash_models_table :: "os_view \<Rightarrow> pyval \<Rightarrow> shown result" where
  "dash_models_table v models = table_of ''Loaded Model Reservations'' dash_model_columns (dash_model_row v) models"

section \<open>Rendering and the command\<close>

definition render_snapshot :: "pydict \<Rightarrow> os_view \<Rightarrow> shown list result" where
  "render_snapshot snap v =
     (let memory = dict_or_empty (dget snap ''memory'') in
      bindr (dash_int_or_zero (dget memory ''ram_total_bytes'')) (\<lambda>ram_total.
      bindr (dash_int_or_zero (dget memory ''ram_used_bytes'')) (\<lambda>ram_used.
      bindr (dash_int_or_zero (dget memory ''vram_total_bytes'')) (\<lambda>vram_total.
      bindr (dash_int_or_zero (dget memory ''vram_used_bytes'')) (\<lambda>vram_used.
      bindr (memory_bar ''BubbleHub Memory'' ram_total ram_used ''RAM'' (py_str (dget snap ''memory_pressure''))) (\<lambda>ram.
      bindr (memory_bar ''BubbleHub GPU'' vram_total vram_used ''VRAM'' (if vram_total = 0 then ''n/a'' else ''tracked'')) (\<lambda>vram.
      bindr (dash_agents_table (dget snap ''agents'')) (\<lambda>agents.
      bindr (dash_models_table v (dget snap ''models'')) (\<lambda>models.
      bindr (dash_queue_table (dget snap ''queue'')) (\<lambda>queue.
        Inr [ram, vram, agents, models, queue]))))))))))"

definition render_dashboard :: "cli_params \<Rightarrow> unit cli" where
  "render_dashboard cl =
     bindn (cl_client cl) (\<lambda>_.
     bindn (on_cli (control_snapshot (cp_host (cl_control cl)) (cp_clock (cl_control cl)))) (\<lambda>snap.
     bindn (see (render_snapshot snap)) say))"

text \<open>The live display renders once before its loop; \<open>n\<close> is the number of rounds until it is interrupted.\<close>

definition run_dashboard :: "cli_params \<Rightarrow> bool \<Rightarrow> nat \<Rightarrow> unit cli" where
  "run_dashboard cl once n =
     bindn (resolve_pending_access cl) (\<lambda>_. rounds (if once then 1 else Suc n) (render_dashboard cl))"

definition dashboard_command :: "cli_params \<Rightarrow> bool \<Rightarrow> nat \<Rightarrow> unit cli" where
  "dashboard_command cl once n = bindn (deny_in_sandbox cl ''bubble dashboard'') (\<lambda>_. run_dashboard cl once n)"

section \<open>Deciding requests\<close>

definition for_agent :: "pydict \<Rightarrow> bool" where
  "for_agent item \<longleftrightarrow> body_text item ''agent_id'' \<noteq> []"

text \<open>
  The event that decides a request with a policy: the library is told the agent, the kind and the subject of
  the request, and every method and path for an http request, its own otherwise.
\<close>

fun decides :: "pydict \<Rightarrow> string \<Rightarrow> native_event \<Rightarrow> bool" where
  "decides item policy (StatusReply (AccessApplyPolicy agent request told) _) =
     (agent = bytes (body_text item ''agent_id'') \<and> told = bytes policy \<and>
      request = \<lparr>ar_kind = bytes (body_text item ''kind''), ar_subject = bytes (body_text item ''subject''),
        ar_method = bytes (if body_text item ''kind'' = ''http'' then ''*'' else body_text item ''method''),
        ar_path = bytes (if body_text item ''kind'' = ''http'' then ''*'' else body_text item ''path'')\<rparr>)"
| "decides item policy _ = False"

lemma access_request_of_bytes: "access_request_of kind subject verb p = Inr request \<Longrightarrow>
    request = \<lparr>ar_kind = bytes kind, ar_subject = bytes subject, ar_method = bytes verb, ar_path = bytes p\<rparr>"
  by (auto simp: access_request_of_def c_char_field_def Let_def bindr_eq_Inr split: if_splits)

definition asks_choices :: "cli_params \<Rightarrow> bool" where
  "asks_choices cl \<longleftrightarrow> (\<forall>n question choices d a. cl_ask cl n question choices d = Inr a \<longrightarrow> a \<in> set choices \<or> a = d)"

text \<open>The answer of the operator to the \<open>n\<close>th question.\<close>

abbreviation policy_answer :: "cli_params \<Rightarrow> nat \<Rightarrow> string result" where
  "policy_answer cl n \<equiv> cl_ask cl n ''Policy'' [''always'', ''never'', ''ask''] ''ask''"

lemma resolve_item_run:
  assumes "asks_choices cl" "resolve_item cl item s = (r, s')"
  shows "ho_os (ci_host s') = ho_os (ci_host s) \<and> ho_signals (ci_host s') = ho_signals (ci_host s)
    \<and> ci_asked s' = (if for_agent item then Suc (ci_asked s) else ci_asked s)
    \<and> (\<exists>es. ho_native (ci_host s') = ho_native (ci_host s) @ es
         \<and> (if for_agent item
            then es = [] \<and> r \<noteq> Inr () \<or> (\<exists>e policy. es = [e] \<and> decides item policy e
              \<and> policy_answer cl (ci_asked s) = Inr policy \<and> policy \<in> {''always'', ''never'', ''ask''})
            else es = [] \<and> r = Inr ()))"
proof (cases "for_agent item")
  case False
  with assms(2) show ?thesis by (simp add: resolve_item_def for_agent_def native_simps)
next
  case True
  obtain verb p where scope: "manifest_scope_for_pending item = (verb, p)" by fastforce
  let ?ask = "cl_ask cl (ci_asked s) ''Policy'' access_policies ''ask''"
  let ?request = "access_request_of (body_text item ''kind'') (body_text item ''subject'') verb p"
  have chosen: "choice \<in> {''always'', ''never'', ''ask''}" if "?ask = Inr choice" for choice
    using assms(1) that unfolding asks_choices_def by (fastforce simp: access_policies_def)
  have told: "decides item choice (StatusReply (AccessApplyPolicy (bytes (body_text item ''agent_id'')) request (bytes choice)) n)"
    if "?request = Inr request" for choice request n
    using access_request_of_bytes[OF that] scope by (auto simp: manifest_scope_for_pending_def split: if_splits)
  show ?thesis
  proof (cases ?ask)
    case (Inl e)
    with True assms(2) show ?thesis by (auto simp: resolve_item_def for_agent_def scope cli_simps Let_def)
  next
    case choice: (Inr choice)
    show ?thesis
    proof (cases ?request)
      case (Inl e)
      with True assms(2) choice show ?thesis
        by (auto simp: resolve_item_def for_agent_def scope cli_simps on_native_def apply_access_policy_def Let_def)
    next
      case (Inr request)
      with True assms(2) choice have "ho_os (ci_host s') = ho_os (ci_host s) \<and> ho_signals (ci_host s') = ho_signals (ci_host s)
          \<and> ci_asked s' = Suc (ci_asked s)
          \<and> (\<exists>n. ho_native (ci_host s') = ho_native (ci_host s)
              @ [StatusReply (AccessApplyPolicy (bytes (body_text item ''agent_id'')) request (bytes choice)) n])"
        by (auto simp: resolve_item_def for_agent_def scope cli_simps on_native_def apply_access_policy_def status_call_def Let_def)
      with told[OF Inr] chosen[OF choice] choice True show ?thesis by (auto simp: access_policies_def)
    qed
  qed
qed

lemma resolve_items_run:
  assumes "asks_choices cl" "in_turn (resolve_item cl) pending s = (r, s')"
  shows "ho_os (ci_host s') = ho_os (ci_host s) \<and> ho_signals (ci_host s') = ho_signals (ci_host s)
    \<and> (\<exists>es. ho_native (ci_host s') = ho_native (ci_host s) @ es \<and> length es \<le> length (filter for_agent pending)
         \<and> (r = Inr () \<longrightarrow> length es = length (filter for_agent pending))
         \<and> (\<forall>i < length es. \<exists>policy. policy_answer cl (ci_asked s + i) = Inr policy
              \<and> policy \<in> {''always'', ''never'', ''ask''} \<and> decides (filter for_agent pending ! i) policy (es ! i)))"
  using assms(2)
proof (induction pending arbitrary: s)
  case Nil
  then show ?case by (simp add: native_simps)
next
  case (Cons item pending)
  obtain r1 s1 where one: "resolve_item cl item s = (r1, s1)" by fastforce
  note run = resolve_item_run[OF assms(1) one]
  show ?case
  proof (cases r1)
    case (Inl e)
    with Cons.prems one have "s' = s1" "r = Inl e" by (simp_all add: native_simps)
    with run Inl show ?thesis by (auto split: if_splits)
  next
    case (Inr u)
    with Cons.prems one have "in_turn (resolve_item cl) pending s1 = (r, s')" by (simp add: native_simps)
    from Cons.IH[OF this] obtain es where es: "ho_os (ci_host s') = ho_os (ci_host s1)" "ho_signals (ci_host s') = ho_signals (ci_host s1)"
        "ho_native (ci_host s') = ho_native (ci_host s1) @ es" "length es \<le> length (filter for_agent pending)"
        "r = Inr () \<longrightarrow> length es = length (filter for_agent pending)"
        "\<And>i. i < length es \<Longrightarrow> \<exists>policy. policy_answer cl (ci_asked s1 + i) = Inr policy
           \<and> policy \<in> {''always'', ''never'', ''ask''} \<and> decides (filter for_agent pending ! i) policy (es ! i)"
      by blast
    show ?thesis
    proof (cases "for_agent item")
      case False
      with run have "ho_native (ci_host s1) = ho_native (ci_host s)" "ci_asked s1 = ci_asked s" by auto
      with False es run show ?thesis by (auto intro!: exI[of _ es])
    next
      case True
      with run Inr obtain e policy where e: "ho_native (ci_host s1) = ho_native (ci_host s) @ [e]" "decides item policy e"
          "policy_answer cl (ci_asked s) = Inr policy" "policy \<in> {''always'', ''never'', ''ask''}" "ci_asked s1 = Suc (ci_asked s)"
        by auto
      have "\<exists>policy. policy_answer cl (ci_asked s + i) = Inr policy
          \<and> policy \<in> {''always'', ''never'', ''ask''} \<and> decides ((item # filter for_agent pending) ! i) policy ((e # es) ! i)"
        if "i < length (e # es)" for i
        using that e es(6)[of "i - 1"] by (cases i) auto
      with True e(1) es(1-5) run show ?thesis by (intro conjI exI[of _ "e # es"]) auto
    qed
  qed
qed

section \<open>The shape of a rendering\<close>

lemma bar_ok: "memory_bar panel whole used label state = Inr x \<Longrightarrow> shown_ok x"
  by (auto simp: memory_bar_def Let_def bindr_eq_Inr)

lemma table_ok:
  assumes "table_of title columns row items = Inr x" "\<And>d r. row d = Inr r \<Longrightarrow> length r = length columns"
  shows "shown_ok x"
  using assms by (auto simp: table_of_def bindr_eq_Inr elim!: mapr_all)

lemma dash_rows:
  "dash_agent_row d = Inr r \<Longrightarrow> length r = length dash_agent_columns"
  "dash_model_row v d = Inr r \<Longrightarrow> length r = length dash_model_columns"
  by (auto simp: dash_agent_row_def dash_model_row_def dash_agent_columns_def dash_model_columns_def bindr_eq_Inr)

lemma queue_table_ok: "dash_queue_table q = Inr x \<Longrightarrow> shown_ok x"
  by (auto simp: dash_queue_table_def dash_queue_columns_def split: if_splits elim!: table_ok)

lemma render_ok: "render_snapshot snap v = Inr xs \<Longrightarrow> list_all shown_ok xs"
  by (auto simp: render_snapshot_def dash_agents_table_def dash_models_table_def Let_def bindr_eq_Inr intro: bar_ok queue_table_ok elim!: table_ok dash_rows)

lemma shapely_dashboard [shape_rules]: "shapely (dashboard_command cl once n)"
proof -
  have "shapely (render_dashboard cl)" unfolding render_dashboard_def
    by (intro shapely_see shapely_then shapely_basic shapely_say) (rule render_ok)
  moreover have i: "shapely (resolve_item cl item)" for item
    unfolding resolve_item_def Let_def case_prod_beta by (intro shape_rules)
  have "shapely (in_turn (resolve_item cl) items)" for items
    by (induction items) (simp_all add: shape_rules i)
  ultimately show ?thesis
    unfolding dashboard_command_def run_dashboard_def resolve_pending_access_def deny_in_sandbox_def by (intro shape_rules)
qed

section \<open>Properties\<close>

text \<open>
  C18. The dashboard decides the access requests that wait in their order, each once, and asks once for each
  (requests that name no agent are skipped). For the \<open>i\<close>th of them the library is told the agent, the kind
  and the subject of that request; every method and path when its kind is http, its own method and path
  otherwise; and the policy the operator answered to the \<open>i\<close>th question, one of the three there are when the
  prompt returns a choice or its default. When a question or a decision fails, the requests behind it stay
  as they are. No file changes and no process is signalled.
\<close>

theorem dashboard_decides_in_order:
  assumes "asks_choices cl" "in_turn (resolve_item cl) pending s = (r, s')"
    "todo = filter (\<lambda>item. body_text item ''agent_id'' \<noteq> []) pending"
  shows "ho_os (ci_host s') = ho_os (ci_host s) \<and> ho_signals (ci_host s') = ho_signals (ci_host s)
    \<and> (\<exists>es. ho_native (ci_host s') = ho_native (ci_host s) @ es \<and> length es \<le> length todo
         \<and> (r = Inr () \<longrightarrow> length es = length todo)
         \<and> (\<forall>i < length es. \<exists>policy. policy_answer cl (ci_asked s + i) = Inr policy
              \<and> policy \<in> {''always'', ''never'', ''ask''} \<and> decides (todo ! i) policy (es ! i)))"
proof -
  have "todo = filter for_agent pending" using assms(3) by (simp add: for_agent_def[abs_def])
  with resolve_items_run[OF assms(1,2)] show ?thesis by simp
qed

text \<open>
  Whatever the library, the disk and the answers are, every table a command prints has rows as long as its
  header, and every bar at least one unit, no more than all of them completed.
\<close>

theorem output_is_well_shaped:
  "shapely (manifest_command cl agent_id root_dir edit) \<and> shapely (ps_command cl kill) \<and> shapely (queue_command cl watch n)
   \<and> shapely (models_command cl t sub sp) \<and> shapely (models_setup cl t atty sp) \<and> shapely (models_list cl sp)
   \<and> shapely (models_stop cl) \<and> shapely (specialties_list cl) \<and> shapely (dashboard_command cl once n)"
  by (intro conjI shape_rules)

definition number_or_absent :: "pydict \<Rightarrow> string \<Rightarrow> bool" where
  "number_or_absent d key = (case map_of d key of None \<Rightarrow> True | Some (PInt _) \<Rightarrow> True | Some (PFloat _) \<Rightarrow> True | _ \<Rightarrow> False)"

lemma dash_meminfo_lines: "dash_meminfo_lines ls vs = fold meminfo_line ls vs"
proof (induction ls arbitrary: vs)
  case (Cons line ls)
  then show ?case by (auto simp: meminfo_line_def Let_def neq_Nil_conv split: list.splits option.splits)
qed simp

lemma dash_rss_lines: "dash_rss_lines (splitlines t) = rss_of_status t"
proof -
  have "dash_rss_lines ls = (case find (startswith ''VmRSS:'') ls of None \<Rightarrow> 0
      | Some line \<Rightarrow> (case split_ws line of _ # n # _ \<Rightarrow> (case parse_int n of Some kb \<Rightarrow> kb * 1024 | None \<Rightarrow> 0) | _ \<Rightarrow> 0))" for ls
    by (induction ls) (auto simp: Let_def split: list.splits option.splits)
  then show ?thesis by (simp add: rss_of_status_def)
qed

text \<open>
  What the dashboard repeats of the telemetry gives the same: the memory in use and the memory of a
  process, the limit, whatever the values are, and the memory of the models in use, as long as their
  reservations are numbers.
\<close>

theorem dashboard_agrees_with_telemetry:
  "dash_ram_used_bytes v whole = actual_ram_used_bytes v whole \<and> dash_rss_bytes v pid = rss_bytes v pid
   \<and> dash_limit_or_hardware limits hardware key = limit_or_hardware (dict_or_empty limits) (dict_or_empty hardware) key
   \<and> (list_all (\<lambda>d. number_or_absent d ''vram_gb'') models \<longrightarrow>
        dash_vram_used_bytes hardware whole models = actual_vram_used_bytes (dict_or_empty hardware) whole models)"
proof (intro conjI)
  show "dash_ram_used_bytes v whole = actual_ram_used_bytes v whole"
    unfolding dash_ram_used_bytes_def actual_ram_used_bytes_def dash_meminfo_def meminfo_def meminfo_of_def dash_meminfo_lines
    by (cases "proc_text v (Path True [''proc'', ''meminfo''])") (simp_all add: ram_used_bytes_def Let_def cong: if_cong)
  show "dash_rss_bytes v pid = rss_bytes v pid" unfolding dash_rss_bytes_def rss_bytes_def dash_rss_lines ..
  have n: "int_or_zero (dget [] k) = Inr 0" for k by (simp add: int_or_zero_def dget_def)
  show "dash_limit_or_hardware limits hardware key = limit_or_hardware (dict_or_empty limits) (dict_or_empty hardware) key"
    unfolding dash_limit_or_hardware_def limit_or_hardware_def dict_or_empty_def
    by (cases hardware; cases limits) (auto simp: n intro!: arg_cong[where f = "bindr _"])
  have z: "py_float (PInt 0) = Inr (Finite 0 ''0.0'')" by code_simp
  have f: "float_times x c = float_times (Finite 0 ''0.0'') c" if "\<not> truthy (PFloat x)" for x c
    using that by (cases x) auto
  have "dash_reserved d = reserved_float d ''vram_gb''" if "number_or_absent d ''vram_gb''" for d
    using that unfolding dash_reserved_def reserved_float_def number_or_absent_def dget_or_def py_or_def
    by (auto simp: z simp del: py_float.simps(2) truthy.simps(4) split: option.splits pyval.splits dest: f)
  then have "map dash_reserved models = map (\<lambda>d. reserved_float d ''vram_gb'') models"
    if "list_all (\<lambda>d. number_or_absent d ''vram_gb'') models"
    using that by (simp add: list_all_iff)
  then show "list_all (\<lambda>d. number_or_absent d ''vram_gb'') models \<longrightarrow>
        dash_vram_used_bytes hardware whole models = actual_vram_used_bytes (dict_or_empty hardware) whole models"
    unfolding dash_vram_used_bytes_def actual_vram_used_bytes_def dict_or_empty_def
    by (intro impI, cases hardware) (simp_all add: n del: map_eq_conv cong: if_cong)
qed

lemma dashboard_agrees_with_telemetry_witness:
  "dash_vram_used_bytes PNone 0 [[(''vram_gb'', PInt 2)], []] = actual_vram_used_bytes [] 0 [[(''vram_gb'', PInt 2)], []]"
  using dashboard_agrees_with_telemetry[where limits = PNone and hardware = PNone and key = "[]" and models = "[[(''vram_gb'', PInt 2)], []]" and whole = 0]
  by (simp add: number_or_absent_def dict_or_empty_def)

definition demo_cli :: cli_params where
  "demo_cli = \<lparr>cl_control = demo_control, cl_models = Inr [], cl_euid = 1000, cl_uid_map = Inr [],
     cl_ask = (\<lambda>n question choices d. Inr (case choices of [] \<Rightarrow> d | c # _ \<Rightarrow> c))\<rparr>"

definition demo_cli_state :: cli_state where
  "demo_cli_state = \<lparr>ci_host = agents_host, ci_console = demo_console '''', ci_out = [], ci_asked = 0\<rparr>"

definition demo_pending :: "pydict list" where
  "demo_pending = [[(''agent_id'', PStr ''agt-1''), (''kind'', PStr ''http''), (''subject'', PStr ''x.org'')], [(''agent_id'', PStr '''')]]"

lemma dashboard_decides_in_order_witness:
  "\<exists>r s'. in_turn (resolve_item demo_cli) demo_pending demo_cli_state = (r, s') \<and> ho_signals (ci_host s') = ho_signals agents_host
     \<and> (\<exists>es. ho_native (ci_host s') = ho_native agents_host @ es
          \<and> (\<forall>i < length es. decides (demo_pending ! i) ''always'' (es ! i)))"
proof -
  obtain r s' where run: "in_turn (resolve_item demo_cli) demo_pending demo_cli_state = (r, s')" by fastforce
  have "asks_choices demo_cli" by (auto simp: asks_choices_def demo_cli_def split: list.splits)
  moreover have "filter (\<lambda>item. body_text item ''agent_id'' \<noteq> []) demo_pending = [demo_pending ! 0]" by code_simp
  ultimately have "ho_signals (ci_host s') = ho_signals (ci_host demo_cli_state)
      \<and> (\<exists>es. ho_native (ci_host s') = ho_native (ci_host demo_cli_state) @ es \<and> length es \<le> 1
         \<and> (\<forall>i < length es. decides ([demo_pending ! 0] ! i) ''always'' (es ! i)))"
    using dashboard_decides_in_order[OF _ run refl] by (auto simp: demo_cli_def)
  then obtain es where "ho_signals (ci_host s') = ho_signals agents_host" "ho_native (ci_host s') = ho_native agents_host @ es"
      "length es \<le> 1" "\<And>i. i < length es \<Longrightarrow> decides ([demo_pending ! 0] ! i) ''always'' (es ! i)"
    by (auto simp: demo_cli_state_def)
  moreover have "decides (demo_pending ! i) ''always'' (es ! i)" if "i < length es" for i
  proof -
    have "i = 0" using that calculation(3) by simp
    then show ?thesis using calculation(4)[OF that] by simp
  qed
  ultimately show ?thesis using run by blast
qed

text \<open>A reservation that is null, which the telemetry counts as zero, ends the rendering with a \<^verbatim>\<open>TypeError\<close>.\<close>

theorem null_reservation_ends_rendering:
  "dash_model_row v [(''ram_gb'', PNone)] = Inl (TypeError ''float() argument must be a string or a real number'')
   \<and> (\<exists>f. reserved_float [(''ram_gb'', PNone)] ''ram_gb'' = Inr f)"
proof
  have "int_or_zero (dget [(''ram_gb'', PNone)] ''pid'') = Inr 0" by code_simp
  then show "dash_model_row v [(''ram_gb'', PNone)] = Inl (TypeError ''float() argument must be a string or a real number'')"
    by (simp add: dash_model_row_def general_text_def dget_or_def)
  have "py_float (PInt 0) = Inr (Finite 0 ''0.0'')" by code_simp
  then show "\<exists>f. reserved_float [(''ram_gb'', PNone)] ''ram_gb'' = Inr f"
    by (simp add: reserved_float_def dget_or_def py_or_def del: py_float.simps(2))
qed

end
