(* ===== verification/Desktop_App.thy ===== *)
theory Desktop_App
  imports Dashboard
begin

text \<open>
  The start of the desktop application: \<^verbatim>\<open>bubblehub/app/desktop.py\<close> and the command over it
  (\<^verbatim>\<open>bubblehub/cli/app.py\<close>). The local interface it serves is \<open>Control_Api\<close>; the native window, cargo
  and the scripts are programs it runs, whose outcome is a parameter.
\<close>

section \<open>The state\<close>

datatype server_event = Listening string | ShutDown | Closed

text \<open>
  The host, the terminal (its output is standard error), the programs run with their environment, and what
  happened to the server.
\<close>

record desktop_state =
  dt_os :: os_view
  dt_console :: console
  dt_runs :: "(string list \<times> env) list"
  dt_server :: "server_event list"
  dt_stdout :: "string list"

type_synonym 'a desktop = "(desktop_state, 'a) prog"

text \<open>
  Binding the port (\<open>dp_bind\<close>: the port that was bound), running a program (its exit status, or the
  exception when it cannot be started, and the files it leaves), \<^verbatim>\<open>shutil.which\<close>, whether a file can be
  executed, copying a file and making it executable.
\<close>

record desktop_params =
  dp_bind :: "string \<Rightarrow> int \<Rightarrow> int result"
  dp_run :: "string list \<Rightarrow> env \<Rightarrow> fs \<Rightarrow> int result \<times> fs"
  dp_which :: "os_view \<Rightarrow> string \<Rightarrow> string option"
  dp_executable :: "os_view \<Rightarrow> path \<Rightarrow> bool"
  dp_copy :: "path \<Rightarrow> path \<Rightarrow> unit hosted"
  dp_chmod :: "path \<Rightarrow> unit hosted"
  dp_prefix :: path
  dp_terminal :: terminal
  dp_stderr_isatty :: bool

record desktop_config =
  dc_host :: string
  dc_port :: int
  dc_server_only :: bool

definition on_dt_os :: "'a hosted \<Rightarrow> 'a desktop" where
  "on_dt_os m s = (case m (dt_os s) of (r, v) \<Rightarrow> (r, s\<lparr>dt_os := v\<rparr>))"

definition on_dt_console :: "(console, 'a) prog \<Rightarrow> 'a desktop" where
  "on_dt_console m s = (case m (dt_console s) of (r, c) \<Rightarrow> (r, s\<lparr>dt_console := c\<rparr>))"

abbreviation look :: "(os_view \<Rightarrow> 'a result) \<Rightarrow> 'a desktop" where "look f \<equiv> on_dt_os (asks f)"

definition subprocess_run :: "desktop_params \<Rightarrow> string list \<Rightarrow> env \<Rightarrow> int desktop" where
  "subprocess_run dp args e s =
     (case dp_run dp args e (os_fs (dt_os s)) of
        (r, fs) \<Rightarrow> (r, s\<lparr>dt_os := (dt_os s)\<lparr>os_fs := fs\<rparr>, dt_runs := dt_runs s @ [(args, e)]\<rparr>))"

definition check_run :: "desktop_params \<Rightarrow> string list \<Rightarrow> unit desktop" where
  "check_run dp args =
     bindn (look (\<lambda>v. Inr (os_environ v))) (\<lambda>e. bindn (subprocess_run dp args e) (\<lambda>n.
       if n \<noteq> 0 then raisen (CalledProcessError (''Command returned non-zero exit status '' @ show_int n)) else returnn ()))"

section \<open>Where the application is\<close>

definition data_dirs :: "desktop_params \<Rightarrow> os_view \<Rightarrow> string list \<Rightarrow> path list" where
  "data_dirs dp v below =
     [path_subs (abs_path (os_source v)) below, path_subs (dp_prefix dp) ([''share'', ''bubblehub''] @ below),
      path_subs (path_of ''/usr/share/bubblehub'') below]"

definition app_manifest_path :: "desktop_params \<Rightarrow> os_view \<Rightarrow> path result" where
  "app_manifest_path dp v =
     (case find (os_is_file v) (data_dirs dp v [''app'', ''Cargo.toml'']) of
        Some p \<Rightarrow> Inr p | None \<Rightarrow> Inl (RuntimeError ''BubbleHub desktop app source was not found in this installation.''))"

definition app_deps_script :: "desktop_params \<Rightarrow> os_view \<Rightarrow> path option" where
  "app_deps_script dp v = find (os_is_file v) (data_dirs dp v [''scripts'', ''install-app-deps.sh''])"

definition tauri_candidates :: "desktop_params \<Rightarrow> os_view \<Rightarrow> path list" where
  "tauri_candidates dp v =
     [path_subs (os_home v ''~'') [''.local'', ''share'', ''bubblehub'', ''app'', ''bubblehub''],
      path_subs (dp_prefix dp) [''share'', ''bubblehub'', ''app'', ''bubblehub''],
      path_of ''/usr/share/bubblehub/app/bubblehub'',
      path_subs (abs_path (os_source v)) [''app'', ''target'', ''release'', ''bubblehub''],
      path_subs (abs_path (os_source v)) [''app'', ''target'', ''debug'', ''bubblehub'']]"

section \<open>Installing it\<close>

definition run_app_deps_installer :: "desktop_params \<Rightarrow> unit desktop" where
  "run_app_deps_installer dp =
     bindn (look (\<lambda>v. Inr (os_environ v ''BUBBLEHUB_SKIP_APP_DEPS'' = Some ''1''))) (\<lambda>skip.
       if skip then returnn ()
       else bindn (look (\<lambda>v. Inr (app_deps_script dp v))) (\<lambda>script.
         case script of None \<Rightarrow> returnn () | Some p \<Rightarrow> check_run dp [''bash'', path_str p]))"

definition find_cargo :: "desktop_params \<Rightarrow> string desktop" where
  "find_cargo dp =
     bindn (look (\<lambda>v. Inr (dp_which dp v ''cargo''))) (\<lambda>cargo.
     bindn (case cargo of
         Some c \<Rightarrow> returnn (Some c)
       | None \<Rightarrow> bindn (run_app_deps_installer dp) (\<lambda>_. look (\<lambda>v. Inr (dp_which dp v ''cargo'')))) (\<lambda>cargo.
     case cargo of
       Some c \<Rightarrow> returnn c | None \<Rightarrow> raisen (RuntimeError ''cargo is required to install the BubbleHub desktop app.'')))"

definition mkdir_parents :: "path \<Rightarrow> unit desktop" where
  "mkdir_parents p = on_dt_os (fs_change (\<lambda>fs cwd. make_dirs fs cwd p))"

definition install_tauri_app :: "desktop_params \<Rightarrow> path desktop" where
  "install_tauri_app dp =
     bindn (look (app_manifest_path dp)) (\<lambda>manifest.
     bindn (find_cargo dp) (\<lambda>cargo.
     bindn (look (\<lambda>v. Inr (os_home v ''~''))) (\<lambda>home.
     let target_dir = path_subs home [''.cache'', ''bubblehub'', ''app-target''];
         install_dir = path_subs home [''.local'', ''share'', ''bubblehub'', ''app''];
         installed = path_sub install_dir ''bubblehub'' in
     bindn (mkdir_parents install_dir) (\<lambda>_. bindn (mkdir_parents target_dir) (\<lambda>_.
     bindn (run_app_deps_installer dp) (\<lambda>_.
     bindn (check_run dp [cargo, ''build'', ''--release'', ''--manifest-path'', path_str manifest, ''--target-dir'', path_str target_dir]) (\<lambda>_.
     bindn (on_dt_os (dp_copy dp (path_subs target_dir [''release'', ''bubblehub'']) installed)) (\<lambda>_.
     bindn (on_dt_os (dp_chmod dp installed)) (\<lambda>_.
     bindn (on_dt_console (console_write (''Installed desktop application: '' @ path_str installed @ [ch_nl]))) (\<lambda>_.
       returnn installed))))))))))"

definition normalize_yes_no :: "string \<Rightarrow> bool option" where
  "normalize_yes_no s =
     (let lowered = lower (strip s) in
      if lowered \<in> set [''1'', ''true'', ''yes'', ''y'', ''on''] then Some True
      else if lowered \<in> set [''0'', ''false'', ''no'', ''n'', ''off''] then Some False else None)"

definition can_prompt :: "desktop_params \<Rightarrow> bool" where
  "can_prompt dp \<longleftrightarrow> tm_isatty (dp_terminal dp) \<and> dp_stderr_isatty dp"

definition ask_install_desktop_app :: "desktop_params \<Rightarrow> bool desktop" where
  "ask_install_desktop_app dp =
     bindn (on_dt_console (choose_option (dp_terminal dp) ''BubbleHub''
         (''The desktop app is not installed yet.'' @ [ch_nl] @ ''Do you want to install it now?'' @ [ch_nl]
           @ ''You can keep using built-in CLI commands if you prefer.'')
         [''Install desktop app now'', ''Keep using CLI commands only''] 0)) (\<lambda>selected. returnn (selected = 0))"

definition explicit_choice :: "env \<Rightarrow> bool option" where
  "explicit_choice e = normalize_yes_no (env_get e ''BUBBLEHUB_INSTALL_APP'' '''')"

definition prompt_and_install_tauri_app :: "desktop_params \<Rightarrow> path option desktop" where
  "prompt_and_install_tauri_app dp =
     bindn (look (\<lambda>v. Inr (explicit_choice (os_environ v)))) (\<lambda>explicit.
       if explicit = None \<and> \<not> can_prompt dp then returnn None
       else if explicit = Some False then returnn None
       else bindn (if explicit = None then ask_install_desktop_app dp else returnn True) (\<lambda>agreed.
         if \<not> agreed then returnn None
         else bindn (install_tauri_app dp) (\<lambda>p. returnn (Some p))))"

definition tauri_command :: "desktop_params \<Rightarrow> string list desktop" where
  "tauri_command dp =
     bindn (look (\<lambda>v. Inr (env_nonempty (os_environ v) ''BUBBLEHUB_TAURI_BIN''))) (\<lambda>configured.
     case configured of
       Some c \<Rightarrow> returnn [c]
     | None \<Rightarrow>
         bindn (look (\<lambda>v. Inr (find (\<lambda>p. os_is_file v p \<and> dp_executable dp v p) (tauri_candidates dp v)))) (\<lambda>found.
         case found of
           Some p \<Rightarrow> returnn [path_str p]
         | None \<Rightarrow> bindn (prompt_and_install_tauri_app dp) (\<lambda>installed.
             case installed of
               Some p \<Rightarrow> returnn [path_str p]
             | None \<Rightarrow> raisen (RuntimeError (''The desktop application is not installed. Run `BUBBLEHUB_INSTALL_APP=1 bubblehub` ''
                 @ ''from an interactive terminal, or set BUBBLEHUB_TAURI_BIN to the desktop executable.'')))))"

section \<open>Running it\<close>

definition launch_tauri_app :: "desktop_params \<Rightarrow> string \<Rightarrow> unit desktop" where
  "launch_tauri_app dp url =
     bindn (tauri_command dp) (\<lambda>command.
     bindn (look (\<lambda>v. Inr ((os_environ v)(''BUBBLEHUB_APP_URL'' \<mapsto> url)))) (\<lambda>e.
     bindn (subprocess_run dp (command @ [url]) e) (\<lambda>n.
       if n \<noteq> 0 then raisen (RuntimeError (''Desktop application exited with status '' @ show_int n)) else returnn ())))"

definition server_does :: "server_event list \<Rightarrow> unit desktop" where
  "server_does es s = (Inr (), s\<lparr>dt_server := dt_server s @ es\<rparr>)"

text \<open>\<^verbatim>\<open>_serve_until_interrupt\<close>: it prints the address and waits for the interrupt that ends it.\<close>

definition serve_until_interrupt :: "string \<Rightarrow> unit desktop" where
  "serve_until_interrupt url s = (Inr (), s\<lparr>dt_stdout := dt_stdout s @ [''bubblehub: '' @ url]\<rparr>)"

definition desktop_url :: "desktop_config \<Rightarrow> int \<Rightarrow> string" where
  "desktop_url dc port = ''http://'' @ dc_host dc @ '':'' @ show_int port @ ''/''"

definition run_desktop_app :: "desktop_params \<Rightarrow> desktop_config \<Rightarrow> unit desktop" where
  "run_desktop_app dp dc =
     bindn (liftn (dp_bind dp (dc_host dc) (dc_port dc))) (\<lambda>port.
     let url = desktop_url dc port in
     bindn (server_does [Listening url]) (\<lambda>_.
       finallyn (if dc_server_only dc then serve_until_interrupt url else launch_tauri_app dp url) (server_does [ShutDown, Closed])))"

text \<open>\<^verbatim>\<open>except RuntimeError\<close>: the exceptions that are one, \<^verbatim>\<open>typer.Exit\<close> included.\<close>

fun is_runtime_error :: "exn \<Rightarrow> bool" where
  "is_runtime_error (RuntimeError _) = True"
| "is_runtime_error (LibBubbleError _) = True"
| "is_runtime_error (DownloadError _) = True"
| "is_runtime_error (TyperExit _) = True"
| "is_runtime_error _ = False"

definition app_command :: "cli_params \<Rightarrow> desktop_params \<Rightarrow> desktop_config \<Rightarrow> unit desktop" where
  "app_command cl dp dc =
     bindn (look (cli_sandboxed cl)) (\<lambda>inside.
       if inside then raisen (host_only ''bubblehub'')
       else (\<lambda>s. case run_desktop_app dp dc s of
         (Inl e, s') \<Rightarrow> (Inl (if is_runtime_error e then BadParameter (exn_text e) else e), s')
       | (Inr u, s') \<Rightarrow> (Inr u, s')))"

section \<open>What the steps leave alone\<close>

lemma keeps_steps [keeps_rules]:
  "keeps dt_server (on_dt_os m)" "keeps dt_server (on_dt_console c)" "keeps dt_server (subprocess_run dp args e)"
  "keeps dt_server (serve_until_interrupt url)" "keeps dt_runs (on_dt_os m)" "keeps dt_runs (on_dt_console c)"
  "keeps dt_os (on_dt_console c)"
  by (simp_all add: keeps_def on_dt_os_def on_dt_console_def subprocess_run_def serve_until_interrupt_def split: prod.splits)

lemma keeps_look [keeps_rules]: "keeps dt_os (look f)"
  by (simp add: keeps_def on_dt_os_def asks_def)

lemma keeps_case [keeps_rules]: "keeps f n \<Longrightarrow> (\<And>x. keeps f (k x)) \<Longrightarrow> keeps f (case x of None \<Rightarrow> n | Some x \<Rightarrow> k x)"
  by (cases x) simp_all

lemma keeps_install [keeps_rules]: "keeps dt_server (install_tauri_app dp)"
  unfolding install_tauri_app_def find_cargo_def run_app_deps_installer_def check_run_def mkdir_parents_def Let_def
  by (intro keeps_rules)

lemma keeps_ask [keeps_rules]:
  "keeps dt_server (ask_install_desktop_app dp)" "keeps dt_runs (ask_install_desktop_app dp)" "keeps dt_os (ask_install_desktop_app dp)"
  unfolding ask_install_desktop_app_def by (intro keeps_rules)+

lemma keeps_launch_app [keeps_rules]: "keeps dt_server (launch_tauri_app dp url)"
  unfolding launch_tauri_app_def tauri_command_def prompt_and_install_tauri_app_def by (intro keeps_rules)

lemma look_run: "look f s = (f (dt_os s), s)"
  by (simp add: on_dt_os_def asks_def)

text \<open>Consent to the installation: by the environment, or by the answer at a terminal.\<close>

definition consents :: "desktop_params \<Rightarrow> desktop_state \<Rightarrow> bool" where
  "consents dp s \<longleftrightarrow>
     (case explicit_choice (os_environ (dt_os s)) of
        Some b \<Rightarrow> b
      | None \<Rightarrow> can_prompt dp \<and> fst (ask_install_desktop_app dp s) = Inr True)"

lemma no_consent_no_install:
  assumes "\<not> consents dp s" "prompt_and_install_tauri_app dp s = (r, s')"
  shows "dt_os s' = dt_os s \<and> dt_runs s' = dt_runs s"
proof (cases "explicit_choice (os_environ (dt_os s))")
  case (Some b)
  with assms show ?thesis by (simp add: consents_def prompt_and_install_tauri_app_def native_simps look_run)
next
  case None
  obtain a s1 where ask: "ask_install_desktop_app dp s = (a, s1)" by fastforce
  note kept = keepsD[OF keeps_ask(2) ask] keepsD[OF keeps_ask(3) ask]
  show ?thesis
  proof (cases "can_prompt dp")
    case True
    with assms None ask have "a \<noteq> Inr True" by (simp add: consents_def)
    with assms(2) None True ask have "s' = s1"
      by (cases a) (auto simp: prompt_and_install_tauri_app_def native_simps look_run)
    with kept show ?thesis by simp
  qed (use assms(2) None in \<open>simp add: prompt_and_install_tauri_app_def native_simps look_run\<close>)
qed

definition desktop_body :: "desktop_params \<Rightarrow> desktop_config \<Rightarrow> string \<Rightarrow> unit desktop" where
  "desktop_body dp dc url = (if dc_server_only dc then serve_until_interrupt url else launch_tauri_app dp url)"

lemma run_desktop_app_eq:
  assumes "dp_bind dp (dc_host dc) (dc_port dc) = Inr port"
  shows "run_desktop_app dp dc s =
    (case desktop_body dp dc (desktop_url dc port) (s\<lparr>dt_server := dt_server s @ [Listening (desktop_url dc port)]\<rparr>) of
       (r, s2) \<Rightarrow> (r, s2\<lparr>dt_server := dt_server s2 @ [ShutDown, Closed]\<rparr>))"
  by (simp add: run_desktop_app_def desktop_body_def native_simps Let_def finallyn_def server_does_def assms)

section \<open>Properties\<close>

text \<open>
  C29. The server of the desktop is closed on every way out, once, after it was opened: whether the window
  ends, the application is missing, its installation fails or the interrupt comes. When the port cannot be
  bound nothing is done.
\<close>

theorem desktop_server_always_closed:
  "case dp_bind dp (dc_host dc) (dc_port dc) of
     Inl e \<Rightarrow> run_desktop_app dp dc s = (Inl e, s)
   | Inr port \<Rightarrow> dt_server (snd (run_desktop_app dp dc s)) = dt_server s @ [Listening (desktop_url dc port), ShutDown, Closed]"
proof (cases "dp_bind dp (dc_host dc) (dc_port dc)")
  case (Inl e)
  then show ?thesis by (simp add: run_desktop_app_def native_simps)
next
  case (Inr port)
  let ?m = "desktop_body dp dc (desktop_url dc port)"
  let ?s1 = "s\<lparr>dt_server := dt_server s @ [Listening (desktop_url dc port)]\<rparr>"
  have "keeps dt_server ?m" unfolding desktop_body_def by (intro keeps_rules)
  then have "dt_server (snd (?m ?s1)) = dt_server ?s1" unfolding keeps_def by blast
  then show ?thesis by (cases "?m ?s1") (simp add: run_desktop_app_eq Inr)
qed

text \<open>
  C19. Without consent nothing is installed: looking for the application runs no program and changes no file
  unless the environment says yes, or it says nothing and the question at a terminal is answered with the
  first option.
\<close>

theorem desktop_installs_with_consent:
  assumes "\<not> consents dp s" "tauri_command dp s = (r, s')"
  shows "dt_os s' = dt_os s \<and> dt_runs s' = dt_runs s"
proof -
  obtain a s1 where p: "prompt_and_install_tauri_app dp s = (a, s1)" by fastforce
  have "s' = s \<or> s' = s1" using assms(2)
    by (auto simp: tauri_command_def native_simps look_run p split: option.splits sum.splits)
  with no_consent_no_install[OF assms(1) p] show ?thesis by auto
qed

text \<open>
  C16. The commands that are for the host refuse inside a sandbox before they do anything: nothing is printed,
  asked, called, run or changed.
\<close>

theorem host_commands_refused_in_sandbox:
  assumes "cli_sandboxed cl (ho_os (ci_host s)) = Inr True" "cli_sandboxed cl (dt_os d) = Inr True"
  shows "ps_command cl kill s = (Inl (host_only ''bubble ps''), s)
    \<and> models_command cl t False sp s = (Inl (host_only ''bubble models''), s)
    \<and> models_setup cl t atty sp s = (Inl (host_only ''bubble models setup''), s)
    \<and> models_stop cl s = (Inl (host_only ''bubble models stop''), s)
    \<and> dashboard_command cl once n s = (Inl (host_only ''bubble dashboard''), s)
    \<and> app_command cl dp dc d = (Inl (host_only ''bubblehub''), d)"
proof -
  have "deny_in_sandbox cl name s = (Inl (host_only name), s)" for name
    using assms(1) by (simp add: deny_in_sandbox_def cli_simps on_os_def asks_def)
  then show ?thesis
    using assms(2) by (simp add: ps_command_def models_command_def models_setup_def models_stop_def dashboard_command_def app_command_def
      native_simps look_run)
qed

text \<open>
  The window that opens shows this server: when the application has ended well, the last program run was
  the one that was found or installed, with the address the server listens at as its argument and in its
  environment.
\<close>

theorem desktop_window_shows_the_server:
  assumes "run_desktop_app dp dc s = (Inr (), s')" "\<not> dc_server_only dc"
  shows "\<exists>url command e. last (dt_server s') = Closed \<and> Listening url \<in> set (dt_server s')
     \<and> dt_runs s' \<noteq> [] \<and> last (dt_runs s') = (command @ [url], e) \<and> e ''BUBBLEHUB_APP_URL'' = Some url"
proof -
  from assms(1) obtain port where port: "dp_bind dp (dc_host dc) (dc_port dc) = Inr port"
    by (cases "dp_bind dp (dc_host dc) (dc_port dc)") (simp_all add: run_desktop_app_def native_simps)
  let ?url = "desktop_url dc port"
  let ?s1 = "s\<lparr>dt_server := dt_server s @ [Listening ?url]\<rparr>"
  from assms port obtain s2 where l: "launch_tauri_app dp ?url ?s1 = (Inr (), s2)" and s': "s' = s2\<lparr>dt_server := dt_server s2 @ [ShutDown, Closed]\<rparr>"
    by (auto simp: run_desktop_app_eq desktop_body_def split: prod.splits)
  have "dt_server s2 = dt_server s @ [Listening ?url]" using keepsD[OF keeps_launch_app l] by simp
  moreover obtain command e where "dt_runs s2 \<noteq> [] \<and> last (dt_runs s2) = (command @ [?url], e) \<and> e ''BUBBLEHUB_APP_URL'' = Some ?url"
    using l by (auto simp: launch_tauri_app_def native_simps look_run subprocess_run_def split: prod.splits sum.splits if_splits)
  ultimately show ?thesis using s' by (intro exI[of _ ?url] exI[of _ command] exI[of _ e]) simp
qed

section \<open>Concrete runs\<close>

definition demo_desktop :: desktop_params where
  "demo_desktop = \<lparr>dp_bind = (\<lambda>_ _. Inr 8011), dp_run = (\<lambda>_ _ fs. (Inr 0, fs)), dp_which = (\<lambda>_ _. None),
     dp_executable = (\<lambda>_ _. False), dp_copy = (\<lambda>_ _. returnn ()), dp_chmod = (\<lambda>_. returnn ()), dp_prefix = Path True [''usr''],
     dp_terminal = demo_terminal, dp_stderr_isatty = False\<rparr>"

definition demo_window :: desktop_config where
  "demo_window = \<lparr>dc_host = ''127.0.0.1'', dc_port = 8010, dc_server_only = False\<rparr>"

definition demo_desktop_state :: "env \<Rightarrow> desktop_state" where
  "demo_desktop_state e = \<lparr>dt_os = (ho_os agents_host)\<lparr>os_environ := e\<rparr>, dt_console = demo_console '''', dt_runs = [], dt_server = [],
     dt_stdout = []\<rparr>"

abbreviation inside_env :: env where "inside_env \<equiv> [''BUBBLEHUB_SANDBOX'' \<mapsto> ''1'']"

lemma desktop_installs_with_consent_witness:
  "\<exists>r s'. tauri_command demo_desktop (demo_desktop_state Map.empty) = (r, s') \<and> dt_runs s' = []"
proof -
  obtain r s' where run: "tauri_command demo_desktop (demo_desktop_state Map.empty) = (r, s')" by fastforce
  have "normalize_yes_no [] = None" by code_simp
  then have "\<not> consents demo_desktop (demo_desktop_state Map.empty)"
    by (simp add: consents_def explicit_choice_def env_get_def can_prompt_def demo_desktop_def demo_desktop_state_def)
  from desktop_installs_with_consent[OF this run] run show ?thesis by (auto simp: demo_desktop_state_def)
qed

lemma host_commands_refused_in_sandbox_witness:
  "let s = demo_cli_state\<lparr>ci_host := agents_host\<lparr>ho_os := (ho_os agents_host)\<lparr>os_environ := inside_env\<rparr>\<rparr>\<rparr> in
     models_stop demo_cli s = (Inl (host_only ''bubble models stop''), s)"
proof -
  let ?s = "demo_cli_state\<lparr>ci_host := agents_host\<lparr>ho_os := (ho_os agents_host)\<lparr>os_environ := inside_env\<rparr>\<rparr>\<rparr>"
  have "is_sandboxed (cl_euid demo_cli) (cl_uid_map demo_cli) inside_env = Inr True" by code_simp
  then have "cli_sandboxed demo_cli (ho_os (ci_host ?s)) = Inr True" "cli_sandboxed demo_cli (dt_os (demo_desktop_state inside_env)) = Inr True"
    by (simp_all add: cli_sandboxed_def demo_desktop_state_def)
  from host_commands_refused_in_sandbox[OF this] show ?thesis by (simp add: Let_def)
qed

lemma desktop_window_shows_the_server_witness:
  "\<exists>s' url command e. run_desktop_app demo_desktop demo_window (demo_desktop_state [''BUBBLEHUB_TAURI_BIN'' \<mapsto> ''/t'']) = (Inr (), s')
     \<and> last (dt_runs s') = (command @ [url], e) \<and> e ''BUBBLEHUB_APP_URL'' = Some url"
proof -
  let ?s = "demo_desktop_state [''BUBBLEHUB_TAURI_BIN'' \<mapsto> ''/t'']"
  have b: "dp_bind demo_desktop (dc_host demo_window) (dc_port demo_window) = Inr 8011" by (simp add: demo_desktop_def)
  have "fst (run_desktop_app demo_desktop demo_window ?s) = Inr ()"
    unfolding run_desktop_app_eq[OF b]
    by (simp add: desktop_body_def demo_window_def launch_tauri_app_def tauri_command_def native_simps look_run subprocess_run_def
      demo_desktop_def demo_desktop_state_def env_nonempty_def)
  then obtain s' where run: "run_desktop_app demo_desktop demo_window ?s = (Inr (), s')" by (metis prod.collapse)
  from desktop_window_shows_the_server[OF this] run show ?thesis by (auto simp: demo_window_def)
qed

end
