(* ===== verification/Example_Agents.thy ===== *)
theory Example_Agents
  imports Cli_Commands
begin

text \<open>
  The agents of \<^verbatim>\<open>examples/\<close>: the client of the Model Context Protocol (\<^verbatim>\<open>mcp_agent/simple_agent.py\<close>,
  started by \<^verbatim>\<open>mcp_agent.py\<close>), its two tools (\<^verbatim>\<open>addition.py\<close>, \<^verbatim>\<open>web_search_tool.py\<close>) and
  \<^verbatim>\<open>basic/basic_agent.py\<close>. A tool is a process that reads lines and writes lines; the texts of the pipes
  carry no carriage return. What the request library gives is a parameter.
\<close>

section \<open>A tool: lines in, lines out\<close>

type_synonym mcp_handler = "pydict \<Rightarrow> pydict option result"

definition mcp_result :: "pyval \<Rightarrow> pydict \<Rightarrow> pydict" where
  "mcp_result request_id x = [(''jsonrpc'', PStr ''2.0''), (''id'', request_id), (''result'', PDict x)]"

definition mcp_error :: "pyval \<Rightarrow> int \<Rightarrow> string \<Rightarrow> pydict" where
  "mcp_error request_id error_code message =
     [(''jsonrpc'', PStr ''2.0''), (''id'', request_id),
      (''error'', PDict [(''code'', PInt error_code), (''message'', PStr message)])]"

definition mcp_line :: "pydict \<Rightarrow> string" where
  "mcp_line d = json_dumps_compact (PDict d) @ [ch_nl]"

text \<open>\<^verbatim>\<open>main\<close> of the tools: what has been written, and the exception that ended it, if any.\<close>

fun mcp_serve :: "mcp_handler \<Rightarrow> string list \<Rightarrow> unit result \<times> string" where
  "mcp_serve handle [] = (Inr (), [])"
| "mcp_serve handle (line # lines) =
     (if strip line = [] then mcp_serve handle lines
      else (case bindr (json_loads line) (\<lambda>v. bindr (with_get v) handle) of
          Inl e \<Rightarrow> (Inl e, [])
        | Inr None \<Rightarrow> mcp_serve handle lines
        | Inr (Some response) \<Rightarrow> (case mcp_serve handle lines of (r, out) \<Rightarrow> (r, mcp_line response @ out))))"

definition initialize_reply :: "string \<Rightarrow> pydict" where
  "initialize_reply server =
     [(''protocolVersion'', PStr ''2025-06-18''),
      (''serverInfo'', PDict [(''name'', PStr server), (''version'', PStr ''0.1.0'')]),
      (''capabilities'', PDict [(''tools'', PDict [])])]"

definition tool_entry :: "string \<Rightarrow> string \<Rightarrow> (string \<times> string) list \<Rightarrow> pyval" where
  "tool_entry tool description props =
     PDict [(''name'', PStr tool), (''description'', PStr description),
       (''inputSchema'', PDict [(''type'', PStr ''object''),
          (''properties'', PDict (map (\<lambda>(f, t). (f, PDict [(''type'', PStr t)])) props)),
          (''required'', PList (map (\<lambda>(f, _). PStr f) props))])]"

definition text_content :: "string \<Rightarrow> pyval" where
  "text_content t = PList [PDict [(''type'', PStr ''text''), (''text'', PStr t)]]"

section \<open>The addition tool\<close>

definition addition_value :: "pydict \<Rightarrow> int result" where
  "addition_value arguments =
     bindr (py_int (dget_or arguments ''a'' (PInt 0))) (\<lambda>a. bindr (py_int (dget_or arguments ''b'' (PInt 0))) (\<lambda>b. Inr (a + b)))"

definition addition_call :: "pyval \<Rightarrow> pydict \<Rightarrow> pydict result" where
  "addition_call request_id params =
     (if dget params ''name'' \<noteq> PStr ''add'' then Inr (mcp_error request_id (- 32601) ''unknown tool'')
      else bindr (with_get (dget_or params ''arguments'' (PDict []))) (\<lambda>arguments.
        case addition_value arguments of
          Inl e \<Rightarrow> if is_type_or_value_error e then Inr (mcp_error request_id (- 32602) ''a and b must be integers'') else Inl e
        | Inr n \<Rightarrow> Inr (mcp_result request_id
            [(''content'', text_content (show_int n)), (''structuredContent'', PDict [(''result'', PInt n)])])))"

definition addition_handle :: mcp_handler where
  "addition_handle request =
     (let verb = dget request ''method''; request_id = dget request ''id'' in
      if verb = PStr ''notifications/initialized'' then Inr None
      else if verb = PStr ''initialize'' then Inr (Some (mcp_result request_id (initialize_reply ''bubblehub-addition'')))
      else if verb = PStr ''tools/list'' then
        Inr (Some (mcp_result request_id [(''tools'', PList [tool_entry ''add'' ''Add two integers without network access.''
          [(''a'', ''integer''), (''b'', ''integer'')]])]))
      else if verb = PStr ''tools/call'' then
        bindr (with_get (dget_or request ''params'' (PDict []))) (\<lambda>params.
          bindr (addition_call request_id params) (\<lambda>r. Inr (Some r)))
      else Inr (Some (mcp_error request_id (- 32601) ''unknown method'')))"

section \<open>The search tool\<close>

text \<open>
  \<^verbatim>\<open>requests.get\<close>: the class and the text of the exception, or the status, the final address and the text.
\<close>

type_synonym search_get = "string \<Rightarrow> (string \<times> string) list \<Rightarrow> string \<times> string + int \<times> string \<times> string"

definition default_search_url :: string where
  "default_search_url = ''http://searx.tiekoetter.com/search''"

definition search_web :: "search_get \<Rightarrow> env \<Rightarrow> string \<Rightarrow> string" where
  "search_web get e query =
     (if query = [] then ''search_error=query is required''
      else (case get (env_get e ''BUBBLEHUB_MCP_SEARCH_URL'' default_search_url) [(''q'', query), (''format'', ''json'')] of
          Inl (cls, message) \<Rightarrow> ''search_error='' @ cls @ '': '' @ message
        | Inr (status, url, body) \<Rightarrow> ''search_status='' @ show_int status @ '' url='' @ url @ '' body=''
            @ take 200 (map (\<lambda>c. if c = ch_nl then CHR '' '' else c) (strip body))))"

definition search_call :: "search_get \<Rightarrow> env \<Rightarrow> pyval \<Rightarrow> pydict \<Rightarrow> pydict result" where
  "search_call get e request_id params =
     (if dget params ''name'' \<noteq> PStr ''web_search'' then Inr (mcp_error request_id (- 32601) ''unknown tool'')
      else bindr (with_get (dget_or params ''arguments'' (PDict []))) (\<lambda>arguments.
        Inr (mcp_result request_id [(''content'', text_content (search_web get e (strip (body_text arguments ''query''))))])))"

definition search_handle :: "search_get \<Rightarrow> env \<Rightarrow> mcp_handler" where
  "search_handle get e request =
     (let verb = dget request ''method''; request_id = dget request ''id'' in
      if verb = PStr ''notifications/initialized'' then Inr None
      else if verb = PStr ''initialize'' then Inr (Some (mcp_result request_id (initialize_reply ''bubblehub-web-search'')))
      else if verb = PStr ''tools/list'' then
        Inr (Some (mcp_result request_id [(''tools'', PList [tool_entry ''web_search''
          ''Search the web using the open-source SearXNG metasearch API.'' [(''query'', ''string'')]])]))
      else if verb = PStr ''tools/call'' then
        bindr (with_get (dget_or request ''params'' (PDict []))) (\<lambda>params.
          bindr (search_call get e request_id params) (\<lambda>r. Inr (Some r)))
      else Inr (Some (mcp_error request_id (- 32601) ''unknown method'')))"

section \<open>The client's side of the pipes\<close>

text \<open>
  A child process: from all that was written to its standard input to all it has written to its standard
  output, and whether it has ended. Reading a line of a process that neither writes nor ends waits for
  ever, which is the outcome \<open>None\<close>.
\<close>

record tool_process =
  tp_output :: "string \<Rightarrow> string \<times> bool"
  tp_stderr :: "string \<Rightarrow> string"

record pipe_state =
  ps_sent :: string
  ps_read :: nat
  ps_terminated :: bool

type_synonym 'a waiting = "pipe_state \<Rightarrow> ('a result \<times> pipe_state) option"

definition bindw :: "'a waiting \<Rightarrow> ('a \<Rightarrow> 'b waiting) \<Rightarrow> 'b waiting" where
  "bindw m f s = (case m s of
     None \<Rightarrow> None | Some (Inl e, s') \<Rightarrow> Some (Inl e, s') | Some (Inr x, s') \<Rightarrow> f x s')"

definition complete_lines :: "string \<Rightarrow> string list" where
  "complete_lines s = map (\<lambda>l. l @ [ch_nl]) (butlast (split_on ch_nl s))"

definition output_lines :: "string \<Rightarrow> bool \<Rightarrow> string list" where
  "output_lines out ended =
     complete_lines out @ (if ended \<and> last (split_on ch_nl out) \<noteq> [] then [last (split_on ch_nl out)] else [])"

text \<open>The tool that serves a handler.\<close>

definition tool_of :: "mcp_handler \<Rightarrow> tool_process" where
  "tool_of handle = \<lparr>tp_output = (\<lambda>sent. case mcp_serve handle (complete_lines sent) of
       (Inl _, out) \<Rightarrow> (out, True) | (Inr _, out) \<Rightarrow> (out, False)), tp_stderr = (\<lambda>_. '''')\<rparr>"

definition send_message :: "tool_process \<Rightarrow> pydict \<Rightarrow> unit waiting" where
  "send_message tp message s =
     (if snd (tp_output tp (ps_sent s)) then Some (Inl (OSError ''Broken pipe''), s)
      else Some (Inr (), s\<lparr>ps_sent := ps_sent s @ mcp_line message\<rparr>))"

text \<open>\<^verbatim>\<open>key in data\<close>\<close>

fun py_in :: "string \<Rightarrow> pyval \<Rightarrow> bool result" where
  "py_in k (PDict d) = Inr (map_of d k \<noteq> None)"
| "py_in k (PList xs) = Inr (PStr k \<in> set xs)"
| "py_in k (PStr s) = Inr (contains k s)"
| "py_in k _ = Inl (TypeError ''argument is not iterable'')"

definition skipped_message :: "pyval \<Rightarrow> bool result" where
  "skipped_message v = bindr (py_in ''method'' v) (\<lambda>m. if m then bindr (py_in ''id'' v) (\<lambda>i. Inr (\<not> i)) else Inr False)"

definition reply_message :: "pyval \<Rightarrow> pyval result" where
  "reply_message v = bindr (py_in ''error'' v) (\<lambda>bad.
     if bad then bindr (py_item v ''error'') (\<lambda>x. Inl (RuntimeError (json_dumps_sorted x))) else Inr v)"

text \<open>The loop of \<^verbatim>\<open>read_message\<close> over the lines there are: its outcome and how many characters it read.\<close>

fun read_lines :: "string option \<Rightarrow> string list \<Rightarrow> (pyval result \<times> nat) option" where
  "read_lines stderr [] = map_option (\<lambda>t. (Inl (RuntimeError (''MCP tool exited without a response: '' @ t)), 0)) stderr"
| "read_lines stderr (line # lines) =
     (case bindr (json_loads line) (\<lambda>v. bindr (skipped_message v) (\<lambda>skip.
          if skip then Inr None else bindr (reply_message v) (\<lambda>r. Inr (Some r)))) of
        Inl e \<Rightarrow> Some (Inl e, length line)
      | Inr (Some v) \<Rightarrow> Some (Inr v, length line)
      | Inr None \<Rightarrow> map_option (map_prod id (\<lambda>n. length line + n)) (read_lines stderr lines))"

definition read_message :: "tool_process \<Rightarrow> pyval waiting" where
  "read_message tp s =
     (let (out, ended) = tp_output tp (ps_sent s) in
      map_option (\<lambda>(r, n). (r, s\<lparr>ps_read := ps_read s + n\<rparr>))
        (read_lines (if ended then Some (tp_stderr tp (ps_sent s)) else None) (output_lines (drop (ps_read s) out) ended)))"

section \<open>The conversation\<close>

definition initialize_request :: pydict where
  "initialize_request =
     [(''jsonrpc'', PStr ''2.0''), (''id'', PInt 1), (''method'', PStr ''initialize''),
      (''params'', PDict [(''protocolVersion'', PStr ''2025-06-18''), (''capabilities'', PDict []),
         (''clientInfo'', PDict [(''name'', PStr ''bubblehub-simple-agent''), (''version'', PStr ''0.1.0'')])])]"

definition initialized_note :: pydict where
  "initialized_note = [(''jsonrpc'', PStr ''2.0''), (''method'', PStr ''notifications/initialized''), (''params'', PDict [])]"

definition list_request :: pydict where
  "list_request = [(''jsonrpc'', PStr ''2.0''), (''id'', PInt 3), (''method'', PStr ''tools/list''), (''params'', PDict [])]"

definition call_request :: "string \<Rightarrow> pydict \<Rightarrow> pydict" where
  "call_request tool arguments =
     [(''jsonrpc'', PStr ''2.0''), (''id'', PInt 4), (''method'', PStr ''tools/call''),
      (''params'', PDict [(''name'', PStr tool), (''arguments'', PDict arguments)])]"

definition format_tool_result :: "pydict \<Rightarrow> string result" where
  "format_tool_result x =
     (let content = dget_or x ''content'' (PList []) in
      bindr (if truthy content then bindr (py_first content) (\<lambda>c. Inr (Some c)) else Inr None) (\<lambda>first.
        case first of
          Some (PDict c) \<Rightarrow> (let t = dget c ''text'' in Inr (if t = PNone then py_str (PDict c) else py_str t))
        | _ \<Rightarrow>
            (case dget x ''structuredContent'' of
               PDict d \<Rightarrow> (case map_of d ''result'' of
                   Some r \<Rightarrow> Inr (py_str r) | None \<Rightarrow> Inr (json_dumps_sorted (PDict x)))
             | _ \<Rightarrow> Inr (json_dumps_sorted (PDict x)))))"

definition stdio_session :: "tool_process \<Rightarrow> string \<Rightarrow> pydict \<Rightarrow> string waiting" where
  "stdio_session tp tool arguments =
     bindw (send_message tp initialize_request) (\<lambda>_. bindw (read_message tp) (\<lambda>_.
     bindw (send_message tp initialized_note) (\<lambda>_. bindw (send_message tp list_request) (\<lambda>_. bindw (read_message tp) (\<lambda>_.
     bindw (send_message tp (call_request tool arguments)) (\<lambda>_. bindw (read_message tp) (\<lambda>response s.
       Some (bindr (with_get response) (\<lambda>d. bindr (with_get (dget_or d ''result'' (PDict []))) format_tool_result), s))))))))"

text \<open>\<^verbatim>\<open>finally\<close>: the pipe is closed and the process ended and waited for, killed when it does not end.\<close>

definition call_stdio_mcp :: "tool_process \<Rightarrow> string \<Rightarrow> pydict \<Rightarrow> (string result \<times> pipe_state) option" where
  "call_stdio_mcp tp tool arguments =
     map_option (map_prod id (\<lambda>s. s\<lparr>ps_terminated := True\<rparr>))
       (stdio_session tp tool arguments \<lparr>ps_sent = [], ps_read = 0, ps_terminated = False\<rparr>)"

section \<open>The agents\<close>

definition proxy_config :: "env \<Rightarrow> string option" where
  "proxy_config e =
     (case env_nonempty e ''HTTP_PROXY'' of
        Some p \<Rightarrow> Some p
      | None \<Rightarrow> (case env_nonempty e ''http_proxy'' of
          Some p \<Rightarrow> Some p
        | None \<Rightarrow> map_option (\<lambda>port. ''http://127.0.0.1:'' @ port) (env_nonempty e ''BUBBLEHUB_HTTP_PROXY_PORT'')))"

text \<open>
  The requests without the settings of the environment: the address, the payload of a POST and the proxy;
  the status and the text.
\<close>

record agent_world =
  aw_get :: "string \<Rightarrow> string option \<Rightarrow> (int \<times> string) result"
  aw_post :: "string \<Rightarrow> pyval \<Rightarrow> string option \<Rightarrow> (int \<times> string) result"
  aw_addition :: tool_process
  aw_search :: tool_process

record agent_args =
  aa_query :: string
  aa_http_url :: "string option"
  aa_direct_url :: "string option"
  aa_addition :: bool
  aa_a :: int
  aa_b :: int

definition http_text :: "int \<times> string \<Rightarrow> string" where
  "http_text = (\<lambda>(status, body). ''status='' @ show_int status @ '' body='' @ strip body)"

definition call_direct_http :: "agent_world \<Rightarrow> env \<Rightarrow> string \<Rightarrow> string result" where
  "call_direct_http aw e url = bindr (aw_get aw url (proxy_config e)) (\<lambda>r. Inr (http_text r))"

definition call_http_mcp :: "agent_world \<Rightarrow> env \<Rightarrow> string \<Rightarrow> string \<Rightarrow> string result" where
  "call_http_mcp aw e url query =
     bindr (aw_post aw url (PDict [(''jsonrpc'', PStr ''2.0''), (''id'', PInt 1), (''method'', PStr ''tools/call''),
         (''params'', PDict [(''name'', PStr ''web_search''), (''arguments'', PDict [(''query'', PStr query)])])]) (proxy_config e))
       (\<lambda>r. Inr (http_text r))"

definition call_stdio_tool :: "agent_world \<Rightarrow> string \<Rightarrow> (string result \<times> pipe_state) option" where
  "call_stdio_tool aw query = call_stdio_mcp (aw_search aw) ''web_search'' [(''query'', PStr query)]"

definition call_addition_tool :: "agent_world \<Rightarrow> int \<Rightarrow> int \<Rightarrow> (string result \<times> pipe_state) option" where
  "call_addition_tool aw a b = call_stdio_mcp (aw_addition aw) ''add'' [(''a'', PInt a), (''b'', PInt b)]"

text \<open>The label and the text the agent prints; \<open>None\<close> when it waits for a tool that never answers.\<close>

definition agent_text :: "agent_world \<Rightarrow> env \<Rightarrow> agent_args \<Rightarrow> (string \<times> string result) option" where
  "agent_text aw e aa =
     (case aa_direct_url aa of
        Some (c # cs) \<Rightarrow> Some (''direct_http_result: '', call_direct_http aw e (c # cs))
      | _ \<Rightarrow> (case aa_http_url aa of
          Some (c # cs) \<Rightarrow> Some (''mcp_http_result: '', call_http_mcp aw e (c # cs) (aa_query aa))
        | _ \<Rightarrow>
            if aa_addition aa then map_option (\<lambda>x. (''mcp_addition_result: '', fst x)) (call_addition_tool aw (aa_a aa) (aa_b aa))
            else map_option (\<lambda>x. (''mcp_stdio_result: '', fst x)) (call_stdio_tool aw (aa_query aa))))"

definition mode_count :: "agent_args \<Rightarrow> nat" where
  "mode_count aa = length (filter id [given_text (aa_http_url aa), given_text (aa_direct_url aa), aa_addition aa])"

text \<open>The exit status, what was printed and what went to standard error. \<^verbatim>\<open>parser.error\<close> exits with 2.\<close>

definition agent_main :: "agent_world \<Rightarrow> env \<Rightarrow> agent_args \<Rightarrow> (int result \<times> string list \<times> string list) option" where
  "agent_main aw e aa =
     (if 1 < mode_count aa then Some (Inl (TyperExit 2), [], [''choose only one of --http-url, --direct-url, or --addition''])
      else map_option (\<lambda>(label, r).
        (case r of
           Inl x \<Rightarrow> (Inl x, [], [])
         | Inr t \<Rightarrow>
             if e ''BUBBLEHUB_EXPECT_PROXY_DENY'' = Some ''1'' \<and> \<not> contains ''403'' t
             then (Inr 2, [label @ t], [''expected proxy denial, got: '' @ t])
             else (Inr 0, [label @ t], []))) (agent_text aw e aa))"

definition basic_prompt :: string where
  "basic_prompt = ''Reply with one short sentence confirming the BubbleHub basic agent can reach the local model.''"

text \<open>\<^verbatim>\<open>examples/basic/basic_agent.py\<close>, with the specialty that the shim makes of an empty one as \<open>fallback\<close>.\<close>

definition basic_agent :: "engine_world \<Rightarrow> string \<Rightarrow> env \<Rightarrow> unit cli" where
  "basic_agent w fallback e =
     (let specialty = env_get e ''BUBBLEHUB_SPECIALITY'' ''default-instruct''; home = path_of (env_get e ''HOME'' ''.'');
          test_path = path_sub home ''test.txt'' in
      bindn (liftn (py_int (PStr (env_get e ''BUBBLEHUB_NICENESS'' ''0'')))) (\<lambda>niceness.
      bindn (say [Echo ''BubbleHub basic agent starting'', Echo (''agent_id='' @ env_get e ''BUBBLEHUB_AGENT_ID'' ''not-set''),
        Echo (''sandbox='' @ env_get e ''BUBBLEHUB_SANDBOX'' ''0''), Echo (''specialty='' @ specialty),
        Echo (''niceness='' @ show_int niceness)]) (\<lambda>_.
      bindn (on_lib (openai_create w (first_name None (Some specialty) fallback) niceness [chat_msg ''user'' basic_prompt] [])) (\<lambda>answer.
      bindn (say [Echo ''model_response:'', Echo (strip answer), Echo ''BubbleHub basic agent finished'']) (\<lambda>_.
      bindn (see (\<lambda>v. if os_exists v test_path then bindr (os_read_text v test_path) (\<lambda>t. Inr (''existing_home_data='' @ t))
          else Inr ''existing_home_data=<missing>'')) (\<lambda>line.
      bindn (say [Echo line, Echo (''Writing data to home directory '' @ path_str home)]) (\<lambda>_.
      bindn (on_cli (on_os (os_write_text test_path ''Hello, world!''))) (\<lambda>_.
        say [Echo ''Data written to home directory'']))))))))"

section \<open>Lines that are written are read\<close>

lemma json_clean_floats: "json_clean v \<Longrightarrow> floats_printable v"
proof (induction v rule: json_clean.induct)
  case (3 d)
  then show ?case by (auto simp: list_all_iff)
qed (auto simp: list_all_iff)

lemma compact_no_newline: "json_clean v \<Longrightarrow> ch_nl \<notin> set (json_dumps_compact v)"
  unfolding json_dumps_compact_def
  by (intro printable_no_newline dumps_at_printable json_clean_floats) (auto simp: compact_style_def printable_def)

abbreviation mcp_text :: "pydict list \<Rightarrow> string" where "mcp_text ds \<equiv> concat (map mcp_line ds)"

definition all_clean :: "pydict list \<Rightarrow> bool" where
  "all_clean ds \<longleftrightarrow> list_all (\<lambda>d. json_clean (PDict d)) ds"

lemma split_mcp_text: "all_clean ds \<Longrightarrow> split_on ch_nl (mcp_text ds) = map (\<lambda>d. json_dumps_compact (PDict d)) ds @ [[]]"
proof (induction ds)
  case Nil
  then show ?case by (simp add: split_on_def)
next
  case (Cons d ds)
  then have "ch_nl \<notin> set (json_dumps_compact (PDict d))" by (intro compact_no_newline) (simp add: all_clean_def)
  then have "split_by ((=) ch_nl) (json_dumps_compact (PDict d) @ ch_nl # mcp_text ds)
     = json_dumps_compact (PDict d) # split_by ((=) ch_nl) (mcp_text ds)"
    by (intro split_by_append_sep) auto
  with Cons show ?case unfolding split_on_def by (simp add: mcp_line_def all_clean_def)
qed

lemma complete_mcp_text: "all_clean ds \<Longrightarrow> complete_lines (mcp_text ds) = map mcp_line ds"
  by (simp add: complete_lines_def split_mcp_text mcp_line_def)

lemma loads_mcp_line: "json_clean (PDict d) \<Longrightarrow> json_loads (mcp_line d) = Inr (PDict d)"
  unfolding mcp_line_def json_dumps_compact_def by (intro loads_dumps_line style_ok_used)

lemma mcp_line_not_blank: "strip (mcp_line d) \<noteq> []"
proof -
  have "CHR ''{'' \<in> set (json_dumps_compact (PDict d))" by (simp add: json_dumps_compact_def)
  then have "CHR ''{'' \<in> set (mcp_line d)" by (simp add: mcp_line_def)
  then have "CHR ''{'' \<in> set (takeWhile is_space (mcp_line d)) \<union> set (dropWhile is_space (mcp_line d))"
    by (metis set_append takeWhile_dropWhile_id)
  moreover have "\<not> is_space CHR ''{''" by (simp add: is_space_def)
  ultimately have "\<exists>c\<in>set (dropWhile is_space (mcp_line d)). \<not> is_space c"
    by (auto dest: set_takeWhileD)
  then show ?thesis by (auto simp: strip_def lstrip_def rstrip_def dropWhile_eq_Nil_conv)
qed

section \<open>A conversation with a tool\<close>

definition answer_of :: "mcp_handler \<Rightarrow> pydict \<Rightarrow> pydict option" where
  "answer_of handle d = (case handle d of Inr x \<Rightarrow> x | Inl _ \<Rightarrow> None)"

lemma mcp_serve_lines:
  assumes "all_clean ds" "\<And>d. d \<in> set ds \<Longrightarrow> handle d = Inr (answer_of handle d)"
  shows "mcp_serve handle (map mcp_line ds) = (Inr (), mcp_text (List.map_filter (answer_of handle) ds))"
  using assms
proof (induction ds)
  case (Cons d ds)
  then have "json_clean (PDict d)" "handle d = Inr (answer_of handle d)" by (simp_all add: all_clean_def)
  with Cons show ?case
    by (cases "answer_of handle d") (simp_all add: mcp_line_not_blank loads_mcp_line all_clean_def map_filter_simps)
qed (simp add: map_filter_simps)

lemma tool_output:
  assumes "all_clean ds" "\<And>d. d \<in> set ds \<Longrightarrow> handle d = Inr (answer_of handle d)"
  shows "tp_output (tool_of handle) (mcp_text ds) = (mcp_text (List.map_filter (answer_of handle) ds), False)"
  by (simp add: tool_of_def complete_mcp_text[OF assms(1)] mcp_serve_lines[OF assms])

lemma read_next:
  assumes "tp_output tp sent = (mcp_text (before @ mcp_result i x # after), False)" "all_clean (mcp_result i x # after)"
  shows "read_message tp \<lparr>ps_sent = sent, ps_read = length (mcp_text before), ps_terminated = t\<rparr>
     = Some (Inr (PDict (mcp_result i x)), \<lparr>ps_sent = sent, ps_read = length (mcp_text (before @ [mcp_result i x])), ps_terminated = t\<rparr>)"
proof -
  let ?r = "mcp_result i x"
  have "json_loads (mcp_line ?r) = Inr (PDict ?r)" using assms(2) by (intro loads_mcp_line) (simp add: all_clean_def)
  then have "read_lines None (map mcp_line (?r # after)) = Some (Inr (PDict ?r), length (mcp_line ?r))"
    by (simp add: skipped_message_def reply_message_def mcp_result_def)
  moreover have "output_lines (mcp_text (?r # after)) False = map mcp_line (?r # after)"
    using complete_mcp_text[OF assms(2)] by (simp add: output_lines_def)
  ultimately show ?thesis using assms(1) by (simp add: read_message_def)
qed

text \<open>
  The contract of a tool: it answers the introduction and the list of its tools, keeps silent on the
  notification, and answers the call with a result. A client that follows the protocol then gets that
  result, and waits for no line that does not come.
\<close>

locale mcp_tool =
  fixes handle :: mcp_handler and tool :: string and arguments reply :: pydict
  assumes introduces: "\<exists>x. handle initialize_request = Inr (Some (mcp_result (PInt 1) x)) \<and> json_clean (PDict x)"
    and silent: "handle initialized_note = Inr None"
    and lists: "\<exists>x. handle list_request = Inr (Some (mcp_result (PInt 3) x)) \<and> json_clean (PDict x)"
    and calls: "handle (call_request tool arguments) = Inr (Some (mcp_result (PInt 4) reply))"
    and clean: "json_clean (PDict arguments)" "json_clean (PDict reply)"
begin

lemma conversation: "\<exists>s. call_stdio_mcp (tool_of handle) tool arguments = Some (format_tool_result reply, s) \<and> ps_terminated s"
proof -
  from introduces lists obtain x y where xy: "handle initialize_request = Inr (Some (mcp_result (PInt 1) x))" "json_clean (PDict x)"
      "handle list_request = Inr (Some (mcp_result (PInt 3) y))" "json_clean (PDict y)"
    by blast
  note answers = xy(1,3) silent calls
  let ?tp = "tool_of handle" and ?q = "call_request tool arguments"
  let ?r1 = "mcp_result (PInt 1) x" and ?r2 = "mcp_result (PInt 3) y" and ?r3 = "mcp_result (PInt 4) reply"
  have requests: "all_clean [initialize_request, initialized_note, list_request, ?q]"
    using clean(1) by (simp add: all_clean_def initialize_request_def initialized_note_def list_request_def call_request_def)
  have replies: "all_clean [?r1, ?r2, ?r3]" using xy clean(2) by (simp add: all_clean_def mcp_result_def)
  have out: "tp_output ?tp (mcp_text ds) = (mcp_text (List.map_filter (answer_of handle) ds), False)"
    if "set ds \<subseteq> {initialize_request, initialized_note, list_request, ?q}" for ds
  proof (rule tool_output)
    show "all_clean ds" using requests that by (auto simp: all_clean_def list_all_iff)
  qed (use that answers in \<open>auto simp: answer_of_def\<close>)
  have a: "answer_of handle initialize_request = Some ?r1" "answer_of handle initialized_note = None"
      "answer_of handle list_request = Some ?r2" "answer_of handle ?q = Some ?r3"
    by (simp_all add: answer_of_def answers)
  have out0: "tp_output ?tp [] = ([], False)" using out[of "[]"] by (simp add: map_filter_simps)
  have out1: "tp_output ?tp (mcp_text [initialize_request]) = (mcp_text ([] @ ?r1 # []), False)"
    using out[of "[initialize_request]"] by (simp add: map_filter_simps a)
  have out2: "tp_output ?tp (mcp_text [initialize_request, initialized_note]) = (mcp_text [?r1], False)"
    using out[of "[initialize_request, initialized_note]"] by (simp add: map_filter_simps a)
  have out3: "tp_output ?tp (mcp_text [initialize_request, initialized_note, list_request]) = (mcp_text ([?r1] @ ?r2 # []), False)"
    using out[of "[initialize_request, initialized_note, list_request]"] by (simp add: map_filter_simps a)
  have out4: "tp_output ?tp (mcp_text [initialize_request, initialized_note, list_request, ?q]) = (mcp_text ([?r1, ?r2] @ ?r3 # []), False)"
    using out[of "[initialize_request, initialized_note, list_request, ?q]"] by (simp add: map_filter_simps a)
  have c: "all_clean [?r1]" "all_clean [?r2]" "all_clean [?r3]" using replies by (simp_all add: all_clean_def)
  note steps = read_next[OF out1 c(1), of False] read_next[OF out3 c(2), of False] read_next[OF out4 c(3), of False]
  have reply: "dget_or ?r3 ''result'' (PDict []) = PDict reply" by (simp add: mcp_result_def dget_or_def)
  show ?thesis
    using steps out0 out1 out2 out3 by (simp add: call_stdio_mcp_def stdio_session_def bindw_def send_message_def reply)
qed

end

section \<open>The two tools\<close>

definition sum_reply :: "int \<Rightarrow> int \<Rightarrow> pydict" where
  "sum_reply a b = [(''content'', text_content (show_int (a + b))), (''structuredContent'', PDict [(''result'', PInt (a + b))])]"

definition search_reply :: "search_get \<Rightarrow> env \<Rightarrow> string \<Rightarrow> pydict" where
  "search_reply get e query = [(''content'', text_content (search_web get e (strip query)))]"

lemmas request_defs = initialize_request_def initialized_note_def list_request_def call_request_def dget_def dget_or_def

interpretation addition_tool: mcp_tool addition_handle "''add''" "[(''a'', PInt a), (''b'', PInt b)]" "sum_reply a b" for a b
  by unfold_locales
    (auto simp: addition_handle_def addition_call_def addition_value_def request_defs sum_reply_def text_content_def
      initialize_reply_def tool_entry_def)

interpretation search_tool: mcp_tool "search_handle get e" "''web_search''" "[(''query'', PStr query)]" "search_reply get e query"
  for get e query
  by unfold_locales
    (auto simp: search_handle_def search_call_def request_defs search_reply_def text_content_def
      initialize_reply_def tool_entry_def body_text_def)

lemma format_replies:
  "format_tool_result (sum_reply a b) = Inr (show_int (a + b))"
  "format_tool_result (search_reply get e query) = Inr (search_web get e (strip query))"
  by (simp_all add: format_tool_result_def sum_reply_def search_reply_def text_content_def dget_or_def dget_def Let_def)

section \<open>Properties\<close>

text \<open>
  C34. The agent and its tools understand each other: over the pipes, through the JSON text of every message,
  the addition tool gives the sum of the two numbers whatever they are, and the search tool the result of
  the search; the agent never waits for a line that does not come, and the tool is ended.
\<close>

theorem tools_answer_the_agent:
  assumes "aw_addition aw = tool_of addition_handle" "aw_search aw = tool_of (search_handle get e)"
  shows "(\<exists>s. call_addition_tool aw a b = Some (Inr (show_int (a + b)), s) \<and> ps_terminated s)
    \<and> (\<exists>s. call_stdio_tool aw query = Some (Inr (search_web get e (strip query)), s) \<and> ps_terminated s)"
  using addition_tool.conversation[of a b] search_tool.conversation[of get e query] assms
  by (simp add: call_addition_tool_def call_stdio_tool_def format_replies)

definition demo_agent_world :: agent_world where
  "demo_agent_world = \<lparr>aw_get = (\<lambda>_ _. Inr (200, '''')), aw_post = (\<lambda>_ _ _. Inr (200, '''')),
     aw_addition = tool_of addition_handle, aw_search = tool_of (search_handle (\<lambda>_ _. Inl (''ConnectionError'', ''refused'')) Map.empty)\<rparr>"

lemma tools_answer_the_agent_witness:
  "\<exists>s. call_addition_tool demo_agent_world 123 456 = Some (Inr (show_int 579), s) \<and> ps_terminated s"
  using tools_answer_the_agent[of demo_agent_world "\<lambda>_ _. Inl (''ConnectionError'', ''refused'')" Map.empty 123 456 "''x''"]
  by (simp add: demo_agent_world_def)

end
