(* ===== verification/Gpu_Setup.thy ===== *)
theory Gpu_Setup
  imports App_Models
begin

text \<open>
  The whole of \<^verbatim>\<open>bubblehub/gpu_setup.py\<close>'s \<^verbatim>\<open>main\<close>: the profile file it writes, its messages and the
  installation it runs. \<open>Native_Hardware\<close> has the choice of the profile and the exit status alone.
\<close>

section \<open>The profile\<close>

definition asdict_hardware :: "hardware_info \<Rightarrow> pydict" where
  "asdict_hardware hw =
     [(''ram_bytes'', PInt (hw_ram_bytes hw)), (''vram_bytes'', PInt (hw_vram_bytes hw)), (''free_vram_bytes'', PInt (hw_free_vram_bytes hw)),
      (''gpu_vendor'', PStr (hw_gpu_vendor hw)), (''gpu_name'', PStr (hw_gpu_name hw)), (''gpu_backend'', PStr (hw_gpu_backend hw)),
      (''gpu_backends'', PList (map PStr (hw_gpu_backends hw))), (''gpu_compute_capability'', PStr (hw_gpu_compute hw)),
      (''gpu_device'', PStr (hw_gpu_device hw))]"

definition profile_dict :: "install_profile \<Rightarrow> pydict" where
  "profile_dict p =
     [(''backend'', PStr (ip_backend p)), (''install_vllm'', PBool (ip_install_vllm p)), (''supported'', PBool (ip_supported p)),
      (''reason'', PStr (ip_reason p)), (''hardware'', PDict (asdict_hardware (ip_hardware p)))]"

definition write_profile :: "path \<Rightarrow> install_profile \<Rightarrow> unit hosted" where
  "write_profile p profile =
     bindn (fs_change (\<lambda>fs cwd. make_dirs fs cwd (path_parent p))) (\<lambda>_.
       os_write_text p (json_dumps_indent (PDict (profile_dict profile)) @ [ch_nl]))"

section \<open>The run\<close>

record setup_run =
  sr_os :: os_view
  sr_out :: "string list"
  sr_err :: "string list"
  sr_pips :: "string list"

type_synonym 'a installing = "(setup_run, 'a) prog"

definition on_sr_os :: "'a hosted \<Rightarrow> 'a installing" where
  "on_sr_os m s = (case m (sr_os s) of (r, v) \<Rightarrow> (r, s\<lparr>sr_os := v\<rparr>))"

definition print_out :: "string \<Rightarrow> unit installing" where "print_out t s = (Inr (), s\<lparr>sr_out := sr_out s @ [t]\<rparr>)"
definition print_err :: "string \<Rightarrow> unit installing" where "print_err t s = (Inr (), s\<lparr>sr_err := sr_err s @ [t]\<rparr>)"

definition pip_install :: "(string \<Rightarrow> int) \<Rightarrow> string \<Rightarrow> int installing" where
  "pip_install pip target s = (Inr (pip target), s\<lparr>sr_pips := sr_pips s @ [target]\<rparr>)"

definition install_vllm :: "(string \<Rightarrow> int) \<Rightarrow> string \<Rightarrow> bool \<Rightarrow> int installing" where
  "install_vllm pip wheel forced =
     bindn (print_out ''BubbleHub GPU setup: installing vLLM optional dependencies...'') (\<lambda>_.
     bindn (pip_install pip (wheel @ ''[vllm]'')) (\<lambda>status.
     bindn (if status \<noteq> 0 \<and> forced then print_err ''BubbleHub GPU setup failed: vLLM optional dependency install failed.'' else returnn ()) (\<lambda>_.
       returnn status)))"

definition setup_settle :: "(string \<Rightarrow> int) \<Rightarrow> gpu_args \<Rightarrow> install_profile \<Rightarrow> int installing" where
  "setup_settle pip args profile =
     (if \<not> ip_supported profile then
        (if ga_mode args = ''auto'' then
           bindn (print_err (''BubbleHub GPU setup: '' @ ip_reason profile @ ''; continuing with CPU runtime.'')) (\<lambda>_. returnn 0)
         else bindn (print_err (''BubbleHub GPU setup failed: '' @ ip_reason profile)) (\<lambda>_. returnn 1))
      else if ip_install_vllm profile \<and> \<not> ga_no_install args then
        (case ga_wheel args of
           Some (c # cs) \<Rightarrow> bindn (install_vllm pip (path_str (path_of (c # cs))) (ga_mode args = ''vllm'')) (\<lambda>status.
             if status \<noteq> 0 \<and> ga_mode args = ''auto''
             then bindn (print_err ''BubbleHub GPU setup: vLLM install failed; continuing with non-vLLM runtime.'') (\<lambda>_. returnn 0)
             else returnn status)
         | _ \<Rightarrow> bindn (print_err ''BubbleHub GPU setup failed: --wheel is required to install vLLM extras.'') (\<lambda>_. returnn 1))
      else bindn (print_out (''BubbleHub GPU setup: '' @ ip_backend profile @ '' ('' @ ip_reason profile @ '')'')) (\<lambda>_. returnn 0))"

definition setup_main :: "(string \<Rightarrow> int) \<Rightarrow> gpu_args \<Rightarrow> string option \<Rightarrow> hardware_info result \<Rightarrow> int installing" where
  "setup_main pip args profile_out hardware =
     bindn (liftn hardware) (\<lambda>hw.
     let profile = choose_install_profile hw (ga_mode args) in
     bindn (case profile_out of
         Some (c # cs) \<Rightarrow> on_sr_os (write_profile (path_of (c # cs)) profile)
       | _ \<Rightarrow> returnn ()) (\<lambda>_. setup_settle pip args profile))"

section \<open>Laws\<close>

text \<open>The profile with its fields in the order of their names.\<close>

definition stored_profile :: "install_profile \<Rightarrow> pydict" where
  "stored_profile p =
     (let hw = ip_hardware p in
      [(''backend'', PStr (ip_backend p)),
       (''hardware'', PDict
         [(''free_vram_bytes'', PInt (hw_free_vram_bytes hw)), (''gpu_backend'', PStr (hw_gpu_backend hw)),
          (''gpu_backends'', PList (map PStr (hw_gpu_backends hw))), (''gpu_compute_capability'', PStr (hw_gpu_compute hw)),
          (''gpu_device'', PStr (hw_gpu_device hw)), (''gpu_name'', PStr (hw_gpu_name hw)), (''gpu_vendor'', PStr (hw_gpu_vendor hw)),
          (''ram_bytes'', PInt (hw_ram_bytes hw)), (''vram_bytes'', PInt (hw_vram_bytes hw))]),
       (''install_vllm'', PBool (ip_install_vllm p)), (''reason'', PStr (ip_reason p)), (''supported'', PBool (ip_supported p))])"

lemma sort_profile: "sort_keys (PDict (profile_dict p)) = PDict (stored_profile p)"
  by (simp add: profile_dict_def asdict_hardware_def stored_profile_def Let_def comp_def)

lemma stored_profile_clean: "json_clean (PDict (stored_profile p))"
  by (simp add: stored_profile_def Let_def list_all_iff)

text \<open>The profile file is read back as the profile.\<close>

lemma profile_text_reads_back: "json_loads (json_dumps_indent (PDict (profile_dict p)) @ [ch_nl]) = Inr (PDict (stored_profile p))"
  unfolding json_dumps_indent_def sort_profile by (intro loads_dumps_line style_ok_used stored_profile_clean)

text \<open>The run settles on the exit status and the installations of \<open>gpu_setup_main\<close>, also when it writes the profile.\<close>

lemma setup_settle_result:
  assumes "\<And>w. ga_wheel args = Some w \<Longrightarrow> path_str (path_of w) = w"
  shows "case setup_settle pip args (choose_install_profile hw (ga_mode args)) s of (r, s') \<Rightarrow>
     \<exists>status pips. gpu_setup_main pip args (Inr hw) = Inr (status, pips) \<and> r = Inr status \<and> sr_pips s' = sr_pips s @ pips \<and> sr_os s' = sr_os s"
  using assms
  by (auto simp: setup_settle_def gpu_setup_main_def Let_def install_vllm_def install_vllm_extra_def pip_install_def
      print_out_def print_err_def native_simps split: option.splits list.splits)

theorem setup_main_refines:
  assumes "\<And>w. ga_wheel args = Some w \<Longrightarrow> path_str (path_of w) = w" "setup_main pip args profile_out (Inr hw) s = (Inr status, s')"
  shows "\<exists>pips. gpu_setup_main pip args (Inr hw) = Inr (status, pips) \<and> sr_pips s' = sr_pips s @ pips"
proof -
  let ?w = "case profile_out of Some (c # cs) \<Rightarrow> on_sr_os (write_profile (path_of (c # cs)) (choose_install_profile hw (ga_mode args))) | _ \<Rightarrow> returnn ()"
  have k: "sr_pips (snd (?w s)) = sr_pips s"
    by (auto simp: on_sr_os_def native_simps split: option.splits list.splits prod.splits)
  from assms(2) obtain s1 where "?w s = (Inr (), s1)" "setup_settle pip args (choose_install_profile hw (ga_mode args)) s1 = (Inr status, s')"
    unfolding setup_main_def Let_def by (cases "?w s") (auto simp: native_simps split: sum.splits)
  with setup_settle_result[of args pip hw s1, OF assms(1)] k show ?thesis by auto
qed

end
