(* ===== verification/Windows_Icon.thy ===== *)
theory Windows_Icon
  imports Agent_Records Py_Floats "HOL-Library.Word"
begin

text \<open>
  \<^verbatim>\<open>scripts/ci/write-windows-icon.py\<close>: the icon file of the Windows build. Bytes are characters, the
  checksum works on 32-bit words, the drawing on doubles. \<^verbatim>\<open>zlib\<close>'s compression, \<^verbatim>\<open>pow\<close> of the C
  library and the two renderers the script may find are parameters. Reference readers of PNG and ICO
  files say what was written.
\<close>

unbundle bit_operations_syntax

section \<open>struct.pack\<close>

fun le_bytes :: "nat \<Rightarrow> nat \<Rightarrow> string" where
  "le_bytes 0 n = []"
| "le_bytes (Suc k) n = char_of (n mod 256) # le_bytes k (n div 256)"

definition be_bytes :: "nat \<Rightarrow> nat \<Rightarrow> string" where
  "be_bytes k n = rev (le_bytes k n)"

definition format_width :: "char \<Rightarrow> nat" where
  "format_width c = (if c = CHR ''B'' then 1 else if c = CHR ''H'' then 2 else 4)"

definition pack_field :: "(nat \<Rightarrow> nat \<Rightarrow> string) \<Rightarrow> char \<Rightarrow> nat \<Rightarrow> string result" where
  "pack_field enc c n =
     (if n < 256 ^ format_width c then Inr (enc (format_width c) n)
      else Inl (StructError ((if c = CHR ''B'' then ''ubyte'' else [CHR 0x27, c, CHR 0x27]) @
        '' format requires 0 <= number <= '' @ show_nat (256 ^ format_width c - 1))))"

fun pack_fields :: "(nat \<Rightarrow> nat \<Rightarrow> string) \<Rightarrow> string \<Rightarrow> nat list \<Rightarrow> string result" where
  "pack_fields enc [] [] = Inr []"
| "pack_fields enc (c # cs) (n # ns) =
     bindr (pack_field enc c n) (\<lambda>b. bindr (pack_fields enc cs ns) (\<lambda>bs. Inr (b @ bs)))"
| "pack_fields enc _ _ = Inl (StructError ''wrong number of items to pack'')"

text \<open>The formats of the script: a byte order, then \<^verbatim>\<open>B\<close>, \<^verbatim>\<open>H\<close> and \<^verbatim>\<open>I\<close>.\<close>

fun struct_pack :: "string \<Rightarrow> nat list \<Rightarrow> string result" where
  "struct_pack (order # cs) ns = pack_fields (if order = CHR ''>'' then be_bytes else le_bytes) cs ns"
| "struct_pack [] ns = Inl (StructError ''no format'')"

text \<open>The reader of the same formats: the values and what follows them.\<close>

fun le_value :: "string \<Rightarrow> nat" where
  "le_value [] = 0"
| "le_value (c # cs) = code c + 256 * le_value cs"

definition be_value :: "string \<Rightarrow> nat" where
  "be_value s = le_value (rev s)"

fun unpack_fields :: "(string \<Rightarrow> nat) \<Rightarrow> string \<Rightarrow> string \<Rightarrow> (nat list \<times> string) option" where
  "unpack_fields dec [] s = Some ([], s)"
| "unpack_fields dec (c # cs) s =
     (if length s < format_width c then None
      else map_option (\<lambda>(ns, r). (dec (take (format_width c) s) # ns, r)) (unpack_fields dec cs (drop (format_width c) s)))"

fun struct_unpack :: "string \<Rightarrow> string \<Rightarrow> (nat list \<times> string) option" where
  "struct_unpack (order # cs) s = unpack_fields (if order = CHR ''>'' then be_value else le_value) cs s"
| "struct_unpack [] s = None"

text \<open>What a byte order promises: fixed widths, and values that come back.\<close>

locale byte_order =
  fixes enc :: "nat \<Rightarrow> nat \<Rightarrow> string" and dec :: "string \<Rightarrow> nat"
  assumes width [simp]: "length (enc k n) = k"
    and decoded: "n < 256 ^ k \<Longrightarrow> dec (enc k n) = n"
begin

lemma pack_back: "pack_fields enc cs ns = Inr bs \<Longrightarrow> unpack_fields dec cs (bs @ rest) = Some (ns, rest)"
proof (induction cs arbitrary: ns bs)
  case Nil
  then show ?case by (cases ns) auto
next
  case (Cons c cs)
  then obtain n ms where ns: "ns = n # ms" by (cases ns) auto
  with Cons.prems obtain b bs' where b: "pack_field enc c n = Inr b" "pack_fields enc cs ms = Inr bs'" "bs = b @ bs'"
    by (auto simp: bindr_eq_Inr)
  then have "b = enc (format_width c) n" "n < 256 ^ format_width c" by (auto simp: pack_field_def split: if_splits)
  with b Cons.IH[OF b(2)] ns show ?case by (simp add: decoded)
qed

lemma pack_length: "pack_fields enc cs ns = Inr bs \<Longrightarrow> length bs = sum_list (map format_width cs)"
proof (induction cs arbitrary: ns bs)
  case Nil
  then show ?case by (cases ns) auto
next
  case (Cons c cs)
  then show ?case by (cases ns) (auto simp: bindr_eq_Inr pack_field_def split: if_splits)
qed

text \<open>No two lists of values are packed into the same bytes.\<close>

lemma pack_inj: "pack_fields enc cs ns = Inr bs \<Longrightarrow> pack_fields enc cs ms = Inr bs \<Longrightarrow> ns = ms"
  using pack_back[of cs ns bs "[]"] pack_back[of cs ms bs "[]"] by simp

end

lemma le_bytes_length [simp]: "length (le_bytes k n) = k"
  by (induction k arbitrary: n) auto

lemma le_bytes_back: "n < 256 ^ k \<Longrightarrow> le_value (le_bytes k n) = n"
proof (induction k arbitrary: n)
  case (Suc k)
  then have "n div 256 < 256 ^ k" by (simp add: less_mult_imp_div_less mult.commute)
  with Suc.IH[of "n div 256"] show ?case by simp
qed simp

interpretation little_endian: byte_order le_bytes le_value
  by unfold_locales (simp_all add: le_bytes_back)

interpretation big_endian: byte_order be_bytes be_value
  by unfold_locales (simp_all add: be_bytes_def be_value_def le_bytes_back)

lemma struct_pack_back: "struct_pack fmt ns = Inr bs \<Longrightarrow> struct_unpack fmt (bs @ rest) = Some (ns, rest)"
  by (cases fmt) (auto simp: big_endian.pack_back little_endian.pack_back)

lemma struct_pack_length: "struct_pack fmt ns = Inr bs \<Longrightarrow> length bs = sum_list (map format_width (tl fmt))"
  by (cases fmt) (auto simp: big_endian.pack_length little_endian.pack_length split: if_splits)

declare struct_pack.simps [simp del] struct_unpack.simps [simp del]

section \<open>The checksum\<close>

text \<open>\<^verbatim>\<open>binascii.crc32\<close>: the reflected polynomial, all bits set before and inverted after.\<close>

definition crc_step :: "32 word \<Rightarrow> 32 word" where
  "crc_step c = (if bit c 0 then drop_bit 1 c XOR 0xEDB88320 else drop_bit 1 c)"

definition crc_byte :: "32 word \<Rightarrow> char \<Rightarrow> 32 word" where
  "crc_byte c b = (crc_step ^^ 8) (c XOR of_nat (code b))"

definition crc32 :: "string \<Rightarrow> 32 word" where
  "crc32 s = NOT (foldl crc_byte (NOT 0) s)"

lemma crc_byte_steps:
  "crc_byte c b = crc_step (crc_step (crc_step (crc_step (crc_step (crc_step (crc_step (crc_step (c XOR of_nat (code b)))))))))"
  by (simp add: crc_byte_def eval_nat_numeral)

lemma crc32_known: "crc32 ''123456789'' = 0xCBF43926"
  by (simp add: crc32_def crc_byte_steps crc_step_def)

text \<open>
  No step loses anything: its highest bit says whether the polynomial was added. Two texts of the same
  length that differ in one byte therefore have different checksums.
\<close>

lemma crc_step_inj: "inj crc_step"
proof (rule injI)
  fix c d assume e: "crc_step c = crc_step d"
  have high: "bit (crc_step x) 31 = bit x 0" for x
    using bit_imp_le_length[of x 32] by (auto simp: crc_step_def bit_simps)
  have rest: "bit (crc_step x) n = (bit x (Suc n) \<noteq> (bit x 0 \<and> bit (0xEDB88320 :: 32 word) n))" for x n
    by (auto simp: crc_step_def bit_simps add.commute)
  have low: "bit c 0 = bit d 0" using high[of c] high[of d] e by simp
  have "bit c n = bit d n" for n
  proof (cases n)
    case (Suc m)
    then show ?thesis using rest[of c m] rest[of d m] e low by auto
  qed (use low in simp)
  then show "c = d" by (simp add: bit_eq_iff)
qed

lemma crc_byte_inj: "crc_byte c b = crc_byte d b' \<longleftrightarrow> c XOR of_nat (code b) = d XOR of_nat (code b')"
proof -
  have "inj (crc_step ^^ 8)" using crc_step_inj by (rule inj_fn)
  then show ?thesis by (simp add: crc_byte_def inj_eq)
qed

lemma xor_cancel: "x XOR a = x XOR b \<longleftrightarrow> a = (b :: 32 word)" "a XOR x = b XOR x \<longleftrightarrow> a = b"
proof -
  have "y = x XOR (x XOR y)" for x y :: "32 word" by (simp add: xor.assoc[symmetric])
  then show "x XOR a = x XOR b \<longleftrightarrow> a = b" by metis
  then show "a XOR x = b XOR x \<longleftrightarrow> a = b" by (simp add: xor.commute)
qed

lemma word_of_byte_inj: "(of_nat (code a) :: 32 word) = of_nat (code b) \<longleftrightarrow> a = b"
proof -
  have "unat (of_nat (code x) :: 32 word) = code x" for x :: char
  proof -
    have "code x < 2 ^ 32" using nat_of_char_less_256[of x] by (rule order_less_trans) simp
    then show ?thesis by (simp add: unat_of_nat del: nat_of_char_less_256)
  qed
  then show ?thesis by (metis of_char_eq_iff)
qed

lemma crc_fold_inj: "foldl crc_byte c s = foldl crc_byte d s \<longleftrightarrow> c = d"
  by (induction s arbitrary: c d) (auto simp: crc_byte_inj xor_cancel)

lemma crc32_damage:
  assumes "i < length s" "s ! i \<noteq> b" shows "crc32 (s[i := b]) \<noteq> crc32 s"
proof -
  let ?c = "foldl crc_byte (NOT 0) (take i s)"
  have "crc_byte ?c b \<noteq> crc_byte ?c (s ! i)"
    using assms(2) unfolding crc_byte_inj xor_cancel word_of_byte_inj by simp
  then have "foldl crc_byte (NOT 0) (take i s @ b # drop (Suc i) s) \<noteq> foldl crc_byte (NOT 0) (take i s @ s ! i # drop (Suc i) s)"
    by (simp add: crc_fold_inj)
  then show ?thesis
    unfolding crc32_def id_take_nth_drop[OF assms(1), symmetric] upd_conv_take_nth_drop[OF assms(1)] by simp
qed

section \<open>PNG\<close>

definition png_chunk :: "string \<Rightarrow> string \<Rightarrow> string result" where
  "png_chunk kind data =
     bindr (struct_pack ''>I'' [length data]) (\<lambda>size.
     bindr (struct_pack ''>I'' [unat (crc32 (kind @ data) AND 0xFFFFFFFF)]) (\<lambda>sum.
       Inr (size @ kind @ data @ sum)))"




text \<open>The reader: a chunk is kind, data and a checksum that must be right.\<close>

definition read_chunk :: "string \<Rightarrow> (string \<times> string \<times> string) option" where
  "read_chunk s =
     (case struct_unpack ''>I'' s of
        Some ([n], r) \<Rightarrow>
          if length r < 4 + n then None
          else (case struct_unpack ''>I'' (drop (4 + n) r) of
              Some ([c], rest) \<Rightarrow> if c = unat (crc32 (take (4 + n) r)) then Some (take 4 r, take n (drop 4 r), rest) else None
            | _ \<Rightarrow> None)
      | _ \<Rightarrow> None)"



lemma unat_crc_mask: "unat (c AND 0xFFFFFFFF :: 32 word) = unat c"
proof -
  have "(0xFFFFFFFF :: 32 word) = - 1" by simp
  then show ?thesis by (simp only: and.right_neutral)
qed


lemma low_byte_unique: "a < 256 \<Longrightarrow> b < 256 \<Longrightarrow> a + 256 * x = b + 256 * y \<Longrightarrow> a = b \<and> x = (y :: nat)"
proof -
  assume a: "a < 256" "b < 256" and e: "a + 256 * x = b + 256 * y"
  from a have "(a + 256 * x) mod 256 = a" "(b + 256 * y) mod 256 = b" by simp_all
  with e show ?thesis by simp
qed

lemma le_value_inj: "length s = length t \<Longrightarrow> le_value s = le_value t \<Longrightarrow> s = t"
proof (induction s t rule: list_induct2)
  case (Cons c s d t)
  have "code c < 256" "code d < 256" using nat_of_char_less_256 by blast+
  moreover have "code c + 256 * le_value s = code d + 256 * le_value t" using Cons.prems by simp
  ultimately have "code c = code d" "le_value s = le_value t" using low_byte_unique by blast+
  with Cons.IH show ?case by (simp add: of_char_eq_iff)
qed simp

text \<open>A chunk with one damaged byte behind the length is not read.\<close>

theorem chunk_damage_detected:
  assumes "png_chunk kind data = Inr c" "length kind = 4" "4 \<le> i" "i < length c" "c ! i \<noteq> b"
  shows "read_chunk (c[i := b]) = None"
proof -
  define p where "p = kind @ data"
  define j where "j = i - 4"
  from assms(1) obtain a s where c: "struct_pack ''>I'' [length data] = Inr a" "struct_pack ''>I'' [unat (crc32 p)] = Inr s" "c = a @ p @ s"
    unfolding png_chunk_def unat_crc_mask p_def[symmetric] bindr_eq_Inr by (auto simp: p_def)
  have len: "length a = 4" "length s = 4" "length p = 4 + length data"
    using struct_pack_length[OF c(1)] struct_pack_length[OF c(2)] assms(2) by (simp_all add: format_width_def p_def)
  have i: "i = 4 + j" "c ! i = (p @ s) ! j" "j < length p + 4"
    using assms(3,4) len c(3) by (simp_all add: j_def nth_append)
  have upd: "c[i := b] = a @ (p @ s)[j := b]" using c(3) len i(1) by (simp add: list_update_append)
  have first: "struct_unpack ''>I'' (a @ r) = Some ([length data], r)" for r using struct_pack_back[OF c(1)] .
  have sum: "struct_unpack ''>I'' s = Some ([unat (crc32 p)], [])" using struct_pack_back[OF c(2), of "[]"] by simp
  show ?thesis
  proof (cases "j < length p")
    case True
    then have "(p @ s)[j := b] = p[j := b] @ s" "unat (crc32 (p[j := b])) \<noteq> unat (crc32 p)"
      using assms(5) i crc32_damage[of j p b] by (auto simp: list_update_append nth_append dest: unsigned_word_eqI)
    then show ?thesis unfolding upd read_chunk_def first using sum len by (simp)
  next
    case False
    define k where "k = j - length p"
    have k: "(p @ s)[j := b] = p @ s[k := b]" "k < length s" "s ! k \<noteq> b"
      using False i assms(5) len by (simp_all add: k_def list_update_append nth_append)
    have "s[k := b] \<noteq> s" using k by (metis nth_list_update_eq)
    then have "be_value (s[k := b]) \<noteq> be_value s" unfolding be_value_def using le_value_inj[of "rev (s[k := b])" "rev s"] by auto
    moreover have "struct_unpack ''>I'' (s[k := b]) = Some ([be_value (s[k := b])], [])" "be_value s = unat (crc32 p)"
      using len sum by (simp_all add: format_width_def struct_unpack.simps)
    ultimately show ?thesis unfolding upd k(1) read_chunk_def first using len by (simp)
  qed
qed

lemma le_bytes_4: "le_bytes 4 n = map char_of [n mod 256, n div 256 mod 256, n div 65536 mod 256, n div 16777216 mod 256]"
proof -
  have four: "4 = Suc (Suc (Suc (Suc 0)))" by simp
  show ?thesis unfolding four le_bytes.simps by (simp flip: div_mult2_eq)
qed

lemma iend_chunk: "png_chunk ''IEND'' [] = Inr ([CHR 0x00, CHR 0x00, CHR 0x00, CHR 0x00] @ ''IEND'' @ [CHR 0xAE, CHR 0x42, CHR 0x60, CHR 0x82])"
proof -
  have "crc32 ''IEND'' = 0xAE426082" by (simp add: crc32_def crc_byte_steps crc_step_def)
  moreover have "(char_of (0 :: nat) :: char) = CHR 0x00" "(char_of (174 :: nat) :: char) = CHR 0xAE" "(char_of (66 :: nat) :: char) = CHR 0x42"
    "(char_of (96 :: nat) :: char) = CHR 0x60" "(char_of (130 :: nat) :: char) = CHR 0x82" by (simp_all add: char_of_def bit_0)
  ultimately show ?thesis
    unfolding png_chunk_def unat_crc_mask by (simp add: struct_pack.simps pack_field_def format_width_def be_bytes_def le_bytes_4)
qed

theorem chunk_damage_detected_witness:
  "\<exists>c. png_chunk ''IEND'' [] = Inr c \<and> read_chunk (c[5 := CHR ''X'']) = None"
  using chunk_damage_detected[OF iend_chunk, of 5 "CHR ''X''"] iend_chunk by simp









section \<open>The drawing\<close>

































section \<open>ICO\<close>








section \<open>The run\<close>













section \<open>Laws of the run\<close>


























end
