(* ===== verification/Access_Manifest.thy ===== *)
theory Access_Manifest
  imports Native_Scheduler Native_Sandbox Py_Floats "HOL-Library.Word"
begin

text \<open>
  The manifest of an agent in the C library (\<^verbatim>\<open>libbubble/access_policy.c\<close>): its records, the choice of
  the rule for a request, and its text, read and printed by hand. A C string is its bytes before the
  terminating zero; a pointer into a text is the rest of the text from there. The lemmas say what the printer
  writes and when the parser reads it back.
\<close>

section \<open>Characters and fields of the C structures\<close>

definition c_isspace :: "char \<Rightarrow> bool" where
  "c_isspace c \<longleftrightarrow> code c = 32 \<or> 9 \<le> code c \<and> code c \<le> 13"

definition c_tolower :: "char \<Rightarrow> char" where
  "c_tolower c = (if 65 \<le> code c \<and> code c \<le> 90 then char_of (code c + 32) else c)"

definition c_string :: "string \<Rightarrow> string" where
  "c_string s = takeWhile (\<lambda>c. c \<noteq> CHR 0x00) s"

text \<open>\<open>n\<close> is the size of the destination, its terminating zero included.\<close>

definition copy_field :: "nat \<Rightarrow> string \<Rightarrow> string" where
  "copy_field n s = take (n - 1) s"

definition normalize_token :: "nat \<Rightarrow> bool \<Rightarrow> string \<Rightarrow> string" where
  "normalize_token n lowercase s =
     (let s = dropWhile c_isspace s; s = rev (dropWhile c_isspace (rev s)); s = take (n - 1) s in
      if lowercase then map c_tolower s else s)"

definition kind_size :: nat where "kind_size = 32"
definition subject_size :: nat where "subject_size = 256"
definition method_size :: nat where "method_size = 64"
definition path_size :: nat where "path_size = 512"
definition policy_size :: nat where "policy_size = 16"
definition id_size :: nat where "id_size = 64"
definition agent_id_size :: nat where "agent_id_size = 64"
definition max_policies :: nat where "max_policies = 128"
definition max_pending :: nat where "max_pending = 128"
definition json_capacity :: nat where "json_capacity = 65536"

lemmas access_sizes = kind_size_def subject_size_def method_size_def path_size_def policy_size_def id_size_def agent_id_size_def
  max_policies_def max_pending_def json_capacity_def

definition normalize_request :: "access_request \<Rightarrow> access_request" where
  "normalize_request r =
     \<lparr>ar_kind = normalize_token kind_size True (ar_kind r), ar_subject = normalize_token subject_size True (ar_subject r),
      ar_method = normalize_token method_size False (ar_method r), ar_path = normalize_token path_size False (ar_path r)\<rparr>"

definition c_valid_agent_id :: "string \<Rightarrow> bool" where
  "c_valid_agent_id s \<longleftrightarrow> startswith ''agt-'' s \<and> 4 < length s \<and> length s < agent_id_size \<and> list_all is_id_char (drop 4 s)"

section \<open>The manifest\<close>

record policy_entry =
  pe_request :: access_request
  pe_policy :: string

record pending_entry =
  pn_id :: string
  pn_request :: access_request
  pn_created :: rat

record manifest =
  mf_agent :: string
  mf_policies :: "policy_entry list"
  mf_pending :: "pending_entry list"

definition manifest_init :: "string \<Rightarrow> manifest" where
  "manifest_init agent_id = \<lparr>mf_agent = copy_field agent_id_size agent_id, mf_policies = [], mf_pending = []\<rparr>"

definition is_policy_value :: "string \<Rightarrow> bool" where
  "is_policy_value p \<longleftrightarrow> p = ''always'' \<or> p = ''never'' \<or> p = ''ask''"

section \<open>Choosing a rule\<close>

definition subject_matches :: "string \<Rightarrow> string \<Rightarrow> bool" where
  "subject_matches policy_subject subject =
     (if policy_subject = subject \<or> policy_subject = ''*'' then True
      else if \<not> startswith ''*.'' policy_subject then False
      else let suffix = drop 1 policy_subject in length suffix < length subject \<and> drop (length subject - length suffix) subject = suffix)"

definition method_matches :: "string \<Rightarrow> string \<Rightarrow> bool" where
  "method_matches policy_method m \<longleftrightarrow> policy_method = [] \<or> policy_method = ''*'' \<or> policy_method = m"

definition path_matches :: "string \<Rightarrow> string \<Rightarrow> bool" where
  "path_matches policy_path p \<longleftrightarrow> policy_path = [] \<or> policy_path = ''*'' \<or> policy_path = p"

definition request_matches_rule :: "access_request \<Rightarrow> access_request \<Rightarrow> bool" where
  "request_matches_rule rule r \<longleftrightarrow>
     ar_kind rule = ar_kind r \<and> subject_matches (ar_subject rule) (ar_subject r) \<and> method_matches (ar_method rule) (ar_method r)
     \<and> path_matches (ar_path rule) (ar_path r)"

definition rule_score :: "access_request \<Rightarrow> access_request \<Rightarrow> int" where
  "rule_score rule r =
     (if ar_subject rule = ar_subject r then 4 else 0) + (if ar_method rule = ar_method r then 2 else 0)
     + (if ar_path rule = ar_path r then 1 else 0)"

text \<open>One pass with the best entry so far and its score, \<open>-1\<close> at first.\<close>

fun find_policy_loop :: "access_request \<Rightarrow> policy_entry option \<Rightarrow> int \<Rightarrow> policy_entry list \<Rightarrow> policy_entry option" where
  "find_policy_loop r best best_score [] = best"
| "find_policy_loop r best best_score (e # es) =
     (if \<not> request_matches_rule (pe_request e) r then find_policy_loop r best best_score es
      else let score = rule_score (pe_request e) r in
        if best_score < score then find_policy_loop r (Some e) score es else find_policy_loop r best best_score es)"

definition find_policy :: "manifest \<Rightarrow> access_request \<Rightarrow> policy_entry option" where
  "find_policy m r = find_policy_loop r None (- 1) (mf_policies m)"

definition remove_pending :: "access_request \<Rightarrow> manifest \<Rightarrow> manifest" where
  "remove_pending r m = m\<lparr>mf_pending := filter (\<lambda>p. \<not> (pn_request p = r \<or> request_matches_rule r (pn_request p))) (mf_pending m)\<rparr>"

text \<open>The hash of a request, in an \<^verbatim>\<open>unsigned long\<close>; its digits name a pending request.\<close>

definition hash_byte :: "64 word \<Rightarrow> char \<Rightarrow> 64 word" where
  "hash_byte h c = (push_bit 5 h + h) + of_nat (code c)"

definition request_hash :: "access_request \<Rightarrow> 64 word" where
  "request_hash r = fold (\<lambda>part h. hash_byte (fold (\<lambda>c h. hash_byte h c) part h) CHR ''|'') [ar_kind r, ar_subject r, ar_method r, ar_path r] 5381"

function hex_text :: "int \<Rightarrow> string" where
  "hex_text n = (if n < 16 then [hex_digit (nat n)] else hex_text (n div 16) @ [hex_digit (nat (n mod 16))])"
  by auto

termination by (relation "measure nat") auto

declare hex_text.simps [simp del]

text \<open>A result code is zero or a negative \<^verbatim>\<open>errno\<close>.\<close>

definition einval :: int where "einval = - 22"
definition enospc :: int where "enospc = - 28"

definition add_pending :: "int \<Rightarrow> access_request \<Rightarrow> manifest \<Rightarrow> int \<times> manifest" where
  "add_pending now r m =
     (if \<exists>p \<in> set (mf_pending m). pn_request p = r then (0, m)
      else if max_pending \<le> length (mf_pending m) then (enospc, m)
      else (0, m\<lparr>mf_pending := mf_pending m @ [\<lparr>pn_id = copy_field id_size (''req-'' @ hex_text (uint (request_hash r))), pn_request = r,
        pn_created = of_int now\<rparr>]\<rparr>))"

section \<open>Reading a manifest\<close>

fun strstr :: "string \<Rightarrow> string \<Rightarrow> string option" where
  "strstr needle s = (if startswith needle s then Some s else case s of [] \<Rightarrow> None | _ # t \<Rightarrow> strstr needle t)"

declare strstr.simps [simp del]

definition strchr :: "char \<Rightarrow> string \<Rightarrow> string option" where
  "strchr c s = (case dropWhile (\<lambda>x. x \<noteq> c) s of [] \<Rightarrow> None | t \<Rightarrow> Some t)"

definition ch_quote :: char where "ch_quote = CHR 0x22"
definition ch_backslash :: char where "ch_backslash = CHR 0x5C"

text \<open>What follows the colon behind the first text that looks like the key; the end of the object is not looked for.\<close>

definition json_value :: "string \<Rightarrow> string \<Rightarrow> string option" where
  "json_value obj key =
     (let needle = [ch_quote] @ key @ [ch_quote] in
      case strstr needle obj of None \<Rightarrow> None
      | Some p \<Rightarrow> (case strchr CHR '':'' (drop (length needle) p) of None \<Rightarrow> None
        | Some q \<Rightarrow> Some (dropWhile c_isspace (tl q))))"

text \<open>Copying up to the closing quote, as much as fits; a backslash makes the next character a plain one.\<close>

fun copy_quoted :: "nat \<Rightarrow> string \<Rightarrow> string \<Rightarrow> bool \<times> string" where
  "copy_quoted n out [] = (False, out)"
| "copy_quoted n out (c # s) =
     (if c = ch_quote then (True, out)
      else if \<not> length out + 1 < n then (False, out)
      else if c = ch_backslash \<and> s \<noteq> [] then copy_quoted n (out @ [hd s]) (tl s)
      else copy_quoted n (out @ [c]) s)"

text \<open>The result and the buffer: without a string at the key the buffer stays as it was.\<close>

definition json_get_string :: "string \<Rightarrow> string \<Rightarrow> nat \<Rightarrow> string \<Rightarrow> bool \<times> string" where
  "json_get_string obj key n buffer =
     (case json_value obj key of
        Some (c # s) \<Rightarrow> if c = ch_quote then copy_quoted n [] s else (False, buffer)
      | _ \<Rightarrow> (False, buffer))"

text \<open>\<^verbatim>\<open>strtod\<close> on the decimal numbers: sign, digits, fraction, exponent; anything else is zero.\<close>

definition c_strtod :: "string \<Rightarrow> rat" where
  "c_strtod s =
     (let neg = (s \<noteq> [] \<and> hd s = CHR ''-''); s = (if s \<noteq> [] \<and> hd s \<in> set ''+-'' then tl s else s);
          ip = takeWhile is_digit s; r = dropWhile is_digit s;
          fp = (if r \<noteq> [] \<and> hd r = CHR ''.'' then takeWhile is_digit (tl r) else []);
          r = (if r \<noteq> [] \<and> hd r = CHR ''.'' then dropWhile is_digit (tl r) else r);
          e = (if r \<noteq> [] \<and> hd r \<in> set ''eE'' then
                 (let t = tl r; en = (t \<noteq> [] \<and> hd t = CHR ''-''); t = (if t \<noteq> [] \<and> hd t \<in> set ''+-'' then tl t else t);
                      ds = takeWhile is_digit t in (if en then - 1 else 1) * int (digits_val ds)) else 0) in
      double ((if neg then - 1 else 1) * of_int (int (digits_val (ip @ fp))) * pow10 (e - int (length fp))))"

definition json_get_number :: "string \<Rightarrow> string \<Rightarrow> rat" where
  "json_get_number obj key = (case json_value obj key of None \<Rightarrow> 0 | Some s \<Rightarrow> c_strtod s)"

text \<open>
  The scan for the bracket that closes one: strings are skipped, an escaped quote does not end one. The
  result is the text from the closing bracket on.
\<close>

fun scan_close :: "char \<Rightarrow> char \<Rightarrow> int \<Rightarrow> bool \<Rightarrow> bool \<Rightarrow> string \<Rightarrow> string option" where
  "scan_close op cl depth in_string escaped [] = None"
| "scan_close op cl depth in_string escaped (c # s) =
     (if in_string then
        (if escaped then scan_close op cl depth True False s
         else if c = ch_backslash then scan_close op cl depth True True s
         else scan_close op cl depth (c \<noteq> ch_quote) False s)
      else if c = ch_quote then scan_close op cl depth True escaped s
      else if c = op then scan_close op cl (depth + 1) False escaped s
      else if c = cl then (if depth - 1 = 0 then Some (c # s) else scan_close op cl (depth - 1) False escaped s)
      else scan_close op cl depth False escaped s)"

text \<open>The inside of the array and the text from its end on.\<close>

definition find_array :: "string \<Rightarrow> string \<Rightarrow> (string \<times> string) option" where
  "find_array json name =
     (let needle = [ch_quote] @ name @ [ch_quote] in
      case strstr needle json of None \<Rightarrow> None
      | Some p \<Rightarrow> (case strchr CHR ''['' (drop (length needle) p) of None \<Rightarrow> None
        | Some q \<Rightarrow> (case scan_close CHR ''['' CHR '']'' 0 False False q of None \<Rightarrow> None
          | Some e \<Rightarrow> Some (take (length q - length e - 1) (tl q), e))))"

text \<open>The object from its brace on and what is left of the inside behind it.\<close>

definition next_object :: "string \<Rightarrow> (string \<times> string) option" where
  "next_object inside =
     (let obj = dropWhile (\<lambda>c. c \<noteq> CHR ''{'') inside in
      case scan_close CHR ''{'' CHR ''}'' 0 False False obj of None \<Rightarrow> None | Some e \<Rightarrow> Some (obj, tl e))"

lemma scan_close_shorter: "scan_close op cl depth in_string escaped s = Some e \<Longrightarrow> e \<noteq> [] \<and> length e \<le> length s"
  by (induction op cl depth in_string escaped s rule: scan_close.induct) (auto split: if_splits)

lemma next_object_shorter: "next_object inside = Some (obj, rest) \<Longrightarrow> length rest < length inside"
proof -
  assume "next_object inside = Some (obj, rest)"
  then obtain e where "scan_close CHR ''{'' CHR ''}'' 0 False False (dropWhile (\<lambda>c. c \<noteq> CHR ''{'') inside) = Some e" "rest = tl e"
    by (auto simp: next_object_def Let_def split: option.splits)
  moreover from scan_close_shorter[OF this(1)] have "length (tl e) < length e" "length e \<le> length (dropWhile (\<lambda>c. c \<noteq> CHR ''{'') inside)" by simp_all
  moreover have "length (dropWhile (\<lambda>c. c \<noteq> CHR ''{'') inside) \<le> length inside" by (rule length_dropWhile_le)
  ultimately show ?thesis by simp
qed

definition parsed_field :: "string \<Rightarrow> string \<Rightarrow> nat \<Rightarrow> string" where
  "parsed_field obj key n = (case json_get_string obj key path_size [] of (found, value) \<Rightarrow> if found then copy_field n value else [])"

definition parse_request_object :: "string \<Rightarrow> access_request" where
  "parse_request_object obj =
     normalize_request \<lparr>ar_kind = parsed_field obj ''kind'' kind_size, ar_subject = parsed_field obj ''subject'' subject_size,
       ar_method = parsed_field obj ''method'' method_size, ar_path = parsed_field obj ''path'' path_size\<rparr>"

text \<open>
  The entries of an array, at most as many as there is room for. \<open>stale\<close> is the field of the next free slot,
  which keeps what a rejected object left in it.
\<close>

function parse_policies_loop :: "string \<Rightarrow> string \<Rightarrow> string \<Rightarrow> policy_entry list \<Rightarrow> policy_entry list" where
  "parse_policies_loop inside json_end stale es =
     (if inside = [] \<or> max_policies \<le> length es then es
      else case next_object inside of None \<Rightarrow> es
      | Some (obj, rest) \<Rightarrow>
          let r = parse_request_object (obj @ json_end);
            policy = normalize_token policy_size True (snd (json_get_string (obj @ json_end) ''policy'' policy_size stale)) in
          if ar_kind r \<noteq> [] \<and> ar_subject r \<noteq> [] \<and> is_policy_value policy
          then parse_policies_loop rest json_end [] (es @ [\<lparr>pe_request = r, pe_policy = policy\<rparr>])
          else parse_policies_loop rest json_end policy es)"
  by pat_completeness auto

termination by (relation "measure (\<lambda>(inside, _). length inside)") (auto dest: next_object_shorter)

declare parse_policies_loop.simps [simp del]

function parse_pending_loop :: "string \<Rightarrow> string \<Rightarrow> string \<Rightarrow> pending_entry list \<Rightarrow> pending_entry list" where
  "parse_pending_loop inside json_end stale ps =
     (if inside = [] \<or> max_pending \<le> length ps then ps
      else case next_object inside of None \<Rightarrow> ps
      | Some (obj, rest) \<Rightarrow>
          let r = parse_request_object (obj @ json_end); i = snd (json_get_string (obj @ json_end) ''id'' id_size stale);
            t = json_get_number (obj @ json_end) ''created_at'' in
          if ar_kind r \<noteq> [] \<and> ar_subject r \<noteq> []
          then parse_pending_loop rest json_end [] (ps @ [\<lparr>pn_id = i, pn_request = r, pn_created = t\<rparr>])
          else parse_pending_loop rest json_end i ps)"
  by pat_completeness auto

termination by (relation "measure (\<lambda>(inside, _). length inside)") (auto dest: next_object_shorter)

declare parse_pending_loop.simps [simp del]

definition parse_policies :: "string \<Rightarrow> policy_entry list" where
  "parse_policies json = (case find_array json ''policies'' of None \<Rightarrow> [] | Some (inside, e) \<Rightarrow> parse_policies_loop inside e [] [])"

definition parse_pending :: "string \<Rightarrow> pending_entry list" where
  "parse_pending json = (case find_array json ''pending'' of None \<Rightarrow> [] | Some (inside, e) \<Rightarrow> parse_pending_loop inside e [] [])"

section \<open>Writing a manifest\<close>

text \<open>The builder fails for good when a piece does not fit with its terminating zero.\<close>

type_synonym builder = "string option"

definition json_append :: "string \<Rightarrow> builder \<Rightarrow> builder" where
  "json_append s b = (case b of None \<Rightarrow> None | Some t \<Rightarrow> if length s < json_capacity - length t then Some (t @ s) else None)"

definition escape_char :: "char \<Rightarrow> string" where
  "escape_char c =
     (if c = ch_quote \<or> c = ch_backslash then [ch_backslash, c]
      else if c = CHR 0x0A then [ch_backslash, CHR ''n'']
      else if c = CHR 0x0D then [ch_backslash, CHR ''r'']
      else if c = CHR 0x09 then [ch_backslash, CHR ''t'']
      else if code c < 32 then [ch_backslash] @ ''u00'' @ [hex_digit (code c div 16), hex_digit (code c mod 16)]
      else [c])"

definition json_append_escaped :: "string \<Rightarrow> builder \<Rightarrow> builder" where
  "json_append_escaped s b = json_append [ch_quote] (fold (\<lambda>c. json_append (escape_char c)) s (json_append [ch_quote] b))"

definition key_text :: "string \<Rightarrow> string" where
  "key_text k = [ch_quote] @ k @ [ch_quote] @ '':''"

definition json_append_request :: "access_request \<Rightarrow> builder \<Rightarrow> builder" where
  "json_append_request r b =
     (let b = json_append_escaped (ar_kind r) (json_append (key_text ''kind'') b);
          b = json_append_escaped (ar_subject r) (json_append ('','' @ key_text ''subject'') b);
          b = json_append_escaped (ar_method r) (json_append ('','' @ key_text ''method'') b) in
      json_append_escaped (ar_path r) (json_append ('','' @ key_text ''path'') b))"

definition append_policy :: "bool \<Rightarrow> policy_entry \<Rightarrow> builder \<Rightarrow> builder" where
  "append_policy first e b =
     (let b = json_append ((if first then [] else '','') @ [CHR 0x0A] @ ''    {'') b;
          b = json_append_request (pe_request e) b;
          b = json_append_escaped (pe_policy e) (json_append ('','' @ key_text ''policy'') b) in
      json_append ''}'' b)"

definition created_text :: "rat \<Rightarrow> string" where
  "created_text t = '','' @ key_text ''created_at'' @ show_int (round_half_even t) @ ''}''"

definition append_pending :: "bool \<Rightarrow> pending_entry \<Rightarrow> builder \<Rightarrow> builder" where
  "append_pending first p b =
     (let b = json_append ((if first then [] else '','') @ [CHR 0x0A] @ ''    {'' @ key_text ''id'') b;
          b = json_append '','' (json_append_escaped (pn_id p) b);
          b = json_append_request (pn_request p) b in
      json_append (created_text (pn_created p)) b)"

fun append_entries :: "(bool \<Rightarrow> 'e \<Rightarrow> builder \<Rightarrow> builder) \<Rightarrow> bool \<Rightarrow> 'e list \<Rightarrow> builder \<Rightarrow> builder" where
  "append_entries f first [] b = b"
| "append_entries f first (e # es) b = append_entries f False es (f first e b)"

definition manifest_head :: string where
  "manifest_head = ''{'' @ [CHR 0x0A] @ ''  '' @ key_text ''version'' @ '' 1,'' @ [CHR 0x0A] @ ''  '' @ key_text ''agent_id'' @ '' ''"

definition policies_head :: string where "policies_head = '','' @ [CHR 0x0A] @ ''  '' @ key_text ''policies'' @ '' [''"
definition pending_head :: string where "pending_head = [CHR 0x0A] @ ''  ],'' @ [CHR 0x0A] @ ''  '' @ key_text ''pending'' @ '' [''"
definition manifest_foot :: string where "manifest_foot = [CHR 0x0A] @ ''  ]'' @ [CHR 0x0A] @ ''}'' @ [CHR 0x0A]"

definition manifest_to_json :: "manifest \<Rightarrow> string option" where
  "manifest_to_json m =
     (let b = json_append_escaped (mf_agent m) (json_append manifest_head (Some []));
          b = append_entries append_policy True (mf_policies m) (json_append policies_head b);
          b = append_entries append_pending True (mf_pending m) (json_append pending_head b) in
      json_append manifest_foot b)"

section \<open>The text of a manifest\<close>

definition esc :: "string \<Rightarrow> string" where "esc s = concat (map escape_char s)"
definition quoted :: "string \<Rightarrow> string" where "quoted s = [ch_quote] @ esc s @ [ch_quote]"

definition request_json :: "access_request \<Rightarrow> string" where
  "request_json r =
     key_text ''kind'' @ quoted (ar_kind r) @ '','' @ key_text ''subject'' @ quoted (ar_subject r) @ '','' @ key_text ''method''
     @ quoted (ar_method r) @ '','' @ key_text ''path'' @ quoted (ar_path r)"

definition policy_text :: "policy_entry \<Rightarrow> string" where
  "policy_text e = ''{'' @ request_json (pe_request e) @ '','' @ key_text ''policy'' @ quoted (pe_policy e) @ ''}''"

definition pending_text :: "pending_entry \<Rightarrow> string" where
  "pending_text p = ''{'' @ key_text ''id'' @ quoted (pn_id p) @ '','' @ request_json (pn_request p) @ created_text (pn_created p)"

definition entry_lead :: "bool \<Rightarrow> string" where
  "entry_lead first = (if first then [] else '','') @ [CHR 0x0A] @ ''    ''"

fun entries_text :: "('e \<Rightarrow> string) \<Rightarrow> bool \<Rightarrow> 'e list \<Rightarrow> string" where
  "entries_text f first [] = []"
| "entries_text f first (e # es) = entry_lead first @ f e @ entries_text f False es"

definition manifest_text :: "manifest \<Rightarrow> string" where
  "manifest_text m =
     manifest_head @ quoted (mf_agent m) @ policies_head @ entries_text policy_text True (mf_policies m)
     @ pending_head @ entries_text pending_text True (mf_pending m) @ manifest_foot"

text \<open>Two pieces appended are one piece appended, so that the builder makes the text or fails as a whole.\<close>

named_theorems builder_simps \<open>steps of the builder as one piece\<close>

lemma json_append_twice [builder_simps]: "json_append u (json_append s b) = json_append (s @ u) b"
  by (auto simp: json_append_def split: option.splits)

lemma json_append_escaped_text [builder_simps]: "json_append_escaped s b = json_append (quoted s) b"
proof -
  have "fold (\<lambda>c. json_append (escape_char c)) s (json_append u b) = json_append (u @ esc s) b" for u
    by (induction s arbitrary: u) (simp_all add: builder_simps esc_def)
  then show ?thesis by (simp add: json_append_escaped_def quoted_def builder_simps)
qed

lemma json_append_request_text [builder_simps]: "json_append_request r b = json_append (request_json r) b"
  by (simp add: json_append_request_def request_json_def Let_def builder_simps)

lemma append_policy_text [builder_simps]: "append_policy first e b = json_append (entry_lead first @ policy_text e) b"
  by (simp add: append_policy_def entry_lead_def policy_text_def Let_def builder_simps)

lemma append_pending_text [builder_simps]: "append_pending first p b = json_append (entry_lead first @ pending_text p) b"
  by (simp add: append_pending_def entry_lead_def pending_text_def Let_def builder_simps)

lemma append_entries_text:
  "(\<And>first e b. f first e b = json_append (entry_lead first @ g e) b) \<Longrightarrow>
     append_entries f first es (json_append s b) = json_append (s @ entries_text g first es) b"
  by (induction es arbitrary: s first) (simp_all add: builder_simps)

lemma manifest_to_json_text:
  "manifest_to_json m = (if length (manifest_text m) < json_capacity then Some (manifest_text m) else None)"
proof -
  have "manifest_to_json m = json_append (manifest_text m) (Some [])"
    by (simp add: manifest_to_json_def manifest_text_def Let_def builder_simps append_entries_text[where g = policy_text]
        append_entries_text[where g = pending_text])
  then show ?thesis by (simp add: json_append_def)
qed

section \<open>Reading back what was written\<close>

text \<open>
  The keys are found by searching for a quoted text: a value must not be one of them, and must not hold a
  quote or a control character (see below for what happens then).
\<close>

definition manifest_keys :: "string list" where
  "manifest_keys = [''version'', ''agent_id'', ''policies'', ''pending'', ''id'', ''kind'', ''subject'', ''method'', ''path'', ''policy'', ''created_at'']"

definition plain :: "string \<Rightarrow> bool" where "plain s \<longleftrightarrow> (\<forall>c \<in> set s. 32 \<le> code c \<and> c \<noteq> ch_quote)"
definition safe_value :: "string \<Rightarrow> bool" where "safe_value s \<longleftrightarrow> plain s \<and> s \<notin> set manifest_keys"

lemma escape_plain: "32 \<le> code c \<Longrightarrow> c \<noteq> ch_quote \<Longrightarrow> escape_char c = (if c = ch_backslash then [ch_backslash, c] else [c])"
  by (auto simp: escape_char_def)

lemma esc_Nil [simp]: "esc [] = []" by (simp add: esc_def)

lemma esc_Cons: "plain (c # s) \<Longrightarrow> esc (c # s) = (if c = ch_backslash then [ch_backslash, c] else [c]) @ esc s"
  by (simp add: esc_def plain_def escape_plain)

lemma plain_Cons: "plain (c # s) \<longleftrightarrow> 32 \<le> code c \<and> c \<noteq> ch_quote \<and> plain s"
  by (auto simp: plain_def)

lemma esc_no_quote: "plain s \<Longrightarrow> ch_quote \<notin> set (esc s)"
  by (induction s) (auto simp: esc_Cons plain_Cons ch_quote_def ch_backslash_def)

lemma esc_same: "plain s \<Longrightarrow> ch_backslash \<notin> set (esc s) \<Longrightarrow> esc s = s"
  by (induction s) (auto simp: esc_Cons plain_Cons split: if_splits)

lemma keys_plain: "k \<in> set manifest_keys \<Longrightarrow> ch_backslash \<notin> set k \<and> ch_quote \<notin> set k"
  by (auto simp: manifest_keys_def ch_backslash_def ch_quote_def)

lemma esc_not_key: "safe_value s \<Longrightarrow> k \<in> set manifest_keys \<Longrightarrow> esc s \<noteq> k"
  using esc_same[of s] keys_plain[of k] by (auto simp: safe_value_def)

text \<open>
  A text is clear of a key when the search for the quoted key goes through it: a key begins with a letter,
  what follows a string never does.
\<close>

definition needle :: "string \<Rightarrow> string" where "needle key = ch_quote # key @ [ch_quote]"

definition no_letter :: "string \<Rightarrow> bool" where
  "no_letter w \<longleftrightarrow> w = [] \<or> \<not> (97 \<le> code (hd w) \<and> code (hd w) \<le> 122)"

definition clear_of :: "string \<Rightarrow> string \<Rightarrow> bool" where
  "clear_of key u \<longleftrightarrow> no_letter u \<and> (\<forall>w. no_letter w \<longrightarrow> strstr (needle key) (u @ w) = strstr (needle key) w)"

named_theorems clear_rules \<open>texts that are clear of a key\<close>

lemma strstr_skip: "ch_quote \<notin> set u \<Longrightarrow> strstr (ch_quote # k) (u @ t) = strstr (ch_quote # k) t"
  by (induction u) (auto simp: strstr.simps[of _ "_ # _"] startswith_def)

lemma startswith_quoted:
  assumes "ch_quote \<notin> set key" "ch_quote \<notin> set s"
  shows "startswith (ch_quote # key @ [ch_quote]) (ch_quote # s @ ch_quote # t) \<longleftrightarrow> s = key"
proof
  assume "startswith (ch_quote # key @ [ch_quote]) (ch_quote # s @ ch_quote # t)"
  then obtain z where "s @ ch_quote # t = key @ ch_quote # z" by (auto simp: startswith_iff)
  then have "takeWhile (\<lambda>c. c \<noteq> ch_quote) (s @ ch_quote # t) = takeWhile (\<lambda>c. c \<noteq> ch_quote) (key @ ch_quote # z)" by simp
  moreover have "takeWhile (\<lambda>c. c \<noteq> ch_quote) (u @ ch_quote # w) = u" if "ch_quote \<notin> set u" for u w using that by (induction u) auto
  ultimately show "s = key" using assms by simp
qed (simp add: startswith_iff)

lemma clear_append [clear_rules]: "clear_of key u \<Longrightarrow> clear_of key t \<Longrightarrow> clear_of key (u @ t)"
  by (cases u; cases t) (auto simp: clear_of_def no_letter_def)

lemma clear_raw: "list_all (\<lambda>c. c \<noteq> ch_quote) u \<Longrightarrow> no_letter u \<Longrightarrow> clear_of key u"
  using strstr_skip[of u] by (auto simp: clear_of_def needle_def list_all_iff)

lemma key_letter: "k \<in> set manifest_keys \<Longrightarrow> k \<noteq> [] \<and> 97 \<le> code (hd k) \<and> code (hd k) \<le> 122"
  by (auto simp: manifest_keys_def)

lemma clear_between:
  assumes "key \<in> set manifest_keys" "ch_quote \<notin> set v" "v \<noteq> key" shows "clear_of key (ch_quote # v @ [ch_quote])"
proof -
  have q: "no_letter (ch_quote # x)" for x by (simp add: no_letter_def ch_quote_def)
  have "strstr (needle key) (ch_quote # v @ ch_quote # w) = strstr (needle key) w" if "no_letter w" for w
  proof -
    have "\<not> startswith (needle key) (ch_quote # v @ ch_quote # w)"
      using startswith_quoted[of key v w] assms keys_plain[OF assms(1)] by (simp add: needle_def)
    then have "strstr (needle key) (ch_quote # v @ ch_quote # w) = strstr (needle key) (v @ ch_quote # w)"
      by (simp add: strstr.simps[of _ "_ # _"])
    also have "\<dots> = strstr (needle key) (ch_quote # w)" using strstr_skip[OF assms(2)] by (simp add: needle_def)
    also have "\<not> startswith (needle key) (ch_quote # w)"
      using that key_letter[OF assms(1)] by (cases key; cases w) (auto simp: startswith_def needle_def no_letter_def ch_quote_def)
    then have "strstr (needle key) (ch_quote # w) = strstr (needle key) w" by (simp add: strstr.simps[of _ "_ # _"])
    finally show ?thesis .
  qed
  then show ?thesis by (simp add: clear_of_def q)
qed

lemma clear_quoted [clear_rules]: "key \<in> set manifest_keys \<Longrightarrow> safe_value v \<Longrightarrow> clear_of key (quoted v)"
  using clear_between[of key "esc v"] esc_no_quote[of v] esc_not_key[of v key] by (auto simp: quoted_def safe_value_def)

lemma clear_key [clear_rules]: "key \<in> set manifest_keys \<Longrightarrow> k \<in> set manifest_keys \<Longrightarrow> k \<noteq> key \<Longrightarrow> clear_of key (key_text k)"
proof -
  assume k: "key \<in> set manifest_keys" "k \<in> set manifest_keys" "k \<noteq> key"
  have "clear_of key '':''" by (rule clear_raw) (simp_all add: ch_quote_def no_letter_def)
  with clear_append[OF clear_between[of key k]] k keys_plain[OF k(2)] show ?thesis by (simp add: key_text_def)
qed

lemma strstr_needle:
  assumes "clear_of key u" shows "strstr (needle key) (u @ needle key @ t) = Some (needle key @ t)"
proof -
  have "no_letter (needle key @ t)" by (simp add: no_letter_def needle_def ch_quote_def)
  with assms have "strstr (needle key) (u @ needle key @ t) = strstr (needle key) (needle key @ t)" by (simp add: clear_of_def)
  then show ?thesis by (simp add: strstr.simps[of _ "needle key @ t"])
qed

lemma json_value_key:
  assumes "clear_of key u" shows "json_value (u @ key_text key @ t) key = Some (dropWhile c_isspace t)"
  using strstr_needle[OF assms, of "'':'' @ t"] by (simp add: json_value_def Let_def key_text_def strchr_def needle_def)

lemma copy_quoted_esc: "plain s \<Longrightarrow> length out + length s < n \<Longrightarrow> copy_quoted n out (esc s @ ch_quote # t) = (True, out @ s)"
  by (induction s arbitrary: out) (auto simp: esc_Cons plain_Cons ch_quote_def ch_backslash_def)

lemma json_get_string_key:
  assumes "clear_of key u" "plain s" "length s < n" shows "json_get_string (u @ key_text key @ quoted s @ t) key n buffer = (True, s)"
proof -
  have "dropWhile c_isspace (quoted s @ t) = ch_quote # esc s @ ch_quote # t" by (simp add: quoted_def c_isspace_def ch_quote_def)
  then show ?thesis using assms(2,3) json_value_key[OF assms(1), of "quoted s @ t"]
    by (simp add: json_get_string_def copy_quoted_esc[of s "[]", simplified])
qed

text \<open>The scan for a closing bracket passes over texts that are balanced outside of their strings.\<close>

definition passes :: "char \<Rightarrow> char \<Rightarrow> string \<Rightarrow> bool" where
  "passes op cl u \<longleftrightarrow> (\<forall>depth s. 0 < depth \<longrightarrow> scan_close op cl depth False False (u @ s) = scan_close op cl depth False False s)"

named_theorems passes_rules \<open>texts the scan passes over\<close>

lemma passes_append [passes_rules]: "passes op cl u \<Longrightarrow> passes op cl t \<Longrightarrow> passes op cl (u @ t)"
  by (simp add: passes_def)

lemma passes_plain: "list_all (\<lambda>c. c \<noteq> op \<and> c \<noteq> cl \<and> c \<noteq> ch_quote) u \<Longrightarrow> passes op cl u"
  by (induction u) (auto simp: passes_def)

lemma scan_inside: "plain s \<Longrightarrow> scan_close op cl depth True False (esc s @ ch_quote # t) = scan_close op cl depth False False t"
  by (induction s) (auto simp: esc_Cons plain_Cons ch_quote_def ch_backslash_def)

lemma passes_quoted [passes_rules]: "plain s \<Longrightarrow> passes op cl (quoted s)"
  by (simp add: passes_def quoted_def scan_inside)

lemma keys_of_manifest: "k \<in> set manifest_keys \<Longrightarrow> plain k \<and> esc k = k"
proof -
  assume k: "k \<in> set manifest_keys"
  then have "plain k" by (auto simp: manifest_keys_def plain_def ch_quote_def)
  moreover have "esc k = k" using k by (auto simp: manifest_keys_def esc_def escape_char_def ch_quote_def ch_backslash_def)
  ultimately show ?thesis by simp
qed

lemma passes_key [passes_rules]:
  assumes "k \<in> set manifest_keys" "op \<noteq> CHR '':''" "cl \<noteq> CHR '':''" shows "passes op cl (key_text k)"
proof -
  have "key_text k = quoted k @ '':''" using keys_of_manifest[OF assms(1)] by (simp add: key_text_def quoted_def)
  moreover have "passes op cl '':''" using assms(2,3) by (intro passes_plain) (simp add: ch_quote_def)
  ultimately show ?thesis using keys_of_manifest[OF assms(1)] passes_rules by metis
qed

definition brackets :: "char \<Rightarrow> char \<Rightarrow> bool" where
  "brackets op cl \<longleftrightarrow> op = CHR ''['' \<and> cl = CHR '']'' \<or> op = CHR ''{'' \<and> cl = CHR ''}''"

lemma brackets_colon: "brackets op cl \<Longrightarrow> op \<noteq> CHR '':'' \<and> cl \<noteq> CHR '':'' \<and> passes op cl '','' \<and> op \<noteq> ch_quote \<and> cl \<noteq> ch_quote \<and> op \<noteq> cl"
  by (auto simp: brackets_def ch_quote_def intro!: passes_plain)

definition safe_request :: "access_request \<Rightarrow> bool" where
  "safe_request r \<longleftrightarrow> safe_value (ar_kind r) \<and> safe_value (ar_subject r) \<and> safe_value (ar_method r) \<and> safe_value (ar_path r)"

lemma safe_plain: "safe_value s \<Longrightarrow> plain s" by (simp add: safe_value_def)

lemma passes_request: "brackets op cl \<Longrightarrow> safe_request r \<Longrightarrow> passes op cl (request_json r)"
  unfolding request_json_def using brackets_colon[of op cl]
  by (intro passes_rules) (auto simp: safe_request_def safe_plain manifest_keys_def)

text \<open>The entries that can be stored and read back.\<close>

definition request_ok :: "access_request \<Rightarrow> bool" where
  "request_ok r \<longleftrightarrow> safe_request r \<and> normalize_request r = r \<and> ar_kind r \<noteq> [] \<and> ar_subject r \<noteq> []"

definition policy_ok :: "policy_entry \<Rightarrow> bool" where
  "policy_ok e \<longleftrightarrow> request_ok (pe_request e) \<and> is_policy_value (pe_policy e)"

definition pending_ok :: "pending_entry \<Rightarrow> bool" where
  "pending_ok p \<longleftrightarrow> request_ok (pn_request p) \<and> safe_value (pn_id p) \<and> length (pn_id p) < id_size
     \<and> (\<exists>n. pn_created p = of_int n \<and> 0 \<le> n \<and> n < 2 ^ 53)"

definition manifest_ok :: "manifest \<Rightarrow> bool" where
  "manifest_ok m \<longleftrightarrow> c_valid_agent_id (mf_agent m) \<and> list_all policy_ok (mf_policies m) \<and> list_all pending_ok (mf_pending m)
     \<and> length (mf_policies m) \<le> max_policies \<and> length (mf_pending m) \<le> max_pending"

lemma policy_value_safe: "is_policy_value p \<Longrightarrow> safe_value p \<and> length p < policy_size \<and> normalize_token policy_size True p = p"
  by (auto simp: is_policy_value_def safe_value_def plain_def manifest_keys_def ch_quote_def policy_size_def normalize_token_def c_isspace_def c_tolower_def)

lemma created_digits: "0 \<le> n \<Longrightarrow> n < 2 ^ 53 \<Longrightarrow> created_text (of_int n) = '','' @ key_text ''created_at'' @ show_nat (nat n) @ ''}''"
  by (simp add: created_text_def show_int_def)

lemma digits_pass: "brackets op cl \<Longrightarrow> passes op cl (show_nat n)"
  using show_nat_list[of n] by (intro passes_plain) (auto simp: list_all_iff brackets_def is_digit_def ch_quote_def)

text \<open>A whole object is passed by the scan for an array, and found by the scan for an object.\<close>

definition object_text :: "string \<Rightarrow> bool" where
  "object_text u \<longleftrightarrow> (\<exists>body. u = ''{'' @ body @ ''}'' \<and> passes CHR ''['' CHR '']'' body \<and> passes CHR ''{'' CHR ''}'' body)"

lemma policy_object: "policy_ok e \<Longrightarrow> object_text (policy_text e)"
proof -
  assume e: "policy_ok e"
  let ?body = "request_json (pe_request e) @ '','' @ key_text ''policy'' @ quoted (pe_policy e)"
  have "passes op cl ?body" if "brackets op cl" for op cl
    using that e brackets_colon[OF that] policy_value_safe[of "pe_policy e"]
    by (intro passes_rules passes_request) (auto simp: policy_ok_def request_ok_def manifest_keys_def safe_plain)
  then show ?thesis unfolding object_text_def by (intro exI[of _ ?body]) (simp add: policy_text_def brackets_def)
qed

lemma pending_object: "pending_ok p \<Longrightarrow> object_text (pending_text p)"
proof -
  assume p: "pending_ok p"
  then obtain n where n: "pn_created p = of_int n" "0 \<le> n" "n < 2 ^ 53" by (auto simp: pending_ok_def)
  let ?body = "key_text ''id'' @ quoted (pn_id p) @ '','' @ request_json (pn_request p) @ '','' @ key_text ''created_at'' @ show_nat (nat n)"
  have "passes op cl ?body" if "brackets op cl" for op cl
    using that p brackets_colon[OF that]
    by (intro passes_rules passes_request digits_pass) (auto simp: pending_ok_def request_ok_def manifest_keys_def safe_plain)
  then show ?thesis unfolding object_text_def by (intro exI[of _ ?body]) (simp add: pending_text_def n(1) created_digits[OF n(2,3)] brackets_def)
qed

lemma object_passes: "object_text u \<Longrightarrow> passes CHR ''['' CHR '']'' u"
proof -
  assume "object_text u"
  then obtain body where b: "u = ''{'' @ body @ ''}''" "passes CHR ''['' CHR '']'' body" by (auto simp: object_text_def)
  have "passes CHR ''['' CHR '']'' ''{''" "passes CHR ''['' CHR '']'' ''}''" by (auto intro!: passes_plain simp: ch_quote_def)
  then show ?thesis unfolding b(1) using b(2) by (intro passes_rules)
qed

lemma next_object_found:
  assumes "object_text u" "CHR ''{'' \<notin> set lead" shows "next_object (lead @ u @ s) = Some (u @ s, s)"
proof -
  from assms(1) obtain body where b: "u = ''{'' @ body @ ''}''" "passes CHR ''{'' CHR ''}'' body" by (auto simp: object_text_def)
  have "dropWhile (\<lambda>c. c \<noteq> CHR ''{'') (lead @ u @ s) = u @ s" using assms(2) by (induction lead) (auto simp: b(1))
  moreover have "scan_close CHR ''{'' CHR ''}'' 0 False False (u @ s) = Some (CHR ''}'' # s)"
    using b(2) by (simp add: b(1) passes_def ch_quote_def)
  ultimately show ?thesis by (simp add: next_object_def)
qed

lemma normalize_token_length: "0 < n \<Longrightarrow> length (normalize_token n l s) < n"
  by (auto simp: normalize_token_def Let_def)

lemma request_lengths:
  assumes "normalize_request r = r"
  shows "length (ar_kind r) < kind_size" "length (ar_subject r) < subject_size" "length (ar_method r) < method_size" "length (ar_path r) < path_size"
proof -
  have r: "ar_kind r = normalize_token kind_size True (ar_kind r)" "ar_subject r = normalize_token subject_size True (ar_subject r)"
    "ar_method r = normalize_token method_size False (ar_method r)" "ar_path r = normalize_token path_size False (ar_path r)"
    using assms by (metis normalize_request_def access_request.select_convs)+
  show "length (ar_kind r) < kind_size" "length (ar_subject r) < subject_size" "length (ar_method r) < method_size" "length (ar_path r) < path_size"
    by (subst r, rule normalize_token_length, simp add: access_sizes)+
qed

lemma parsed_field_key:
  assumes "clear_of key u" "safe_value v" "length v < n" "n \<le> path_size"
  shows "parsed_field (u @ key_text key @ quoted v @ t) key n = v"
  using json_get_string_key[OF assms(1), of v path_size t "[]"] assms(2-4) by (simp add: parsed_field_def copy_field_def safe_plain)

lemma clear_comma [clear_rules]: "clear_of key '',''"
  by (rule clear_raw) (simp_all add: ch_quote_def no_letter_def)

definition field_text :: "string \<Rightarrow> string \<Rightarrow> string" where "field_text k v = key_text k @ quoted v @ '',''"

lemma clear_field [clear_rules]:
  "key \<in> set manifest_keys \<Longrightarrow> k \<in> set manifest_keys \<Longrightarrow> k \<noteq> key \<Longrightarrow> safe_value v \<Longrightarrow> clear_of key (field_text k v)"
  unfolding field_text_def by (intro clear_rules)

lemma request_fields:
  "request_json r = field_text ''kind'' (ar_kind r) @ field_text ''subject'' (ar_subject r) @ field_text ''method'' (ar_method r)
     @ key_text ''path'' @ quoted (ar_path r)"
  by (simp add: request_json_def field_text_def)

lemma clear_request [clear_rules]:
  "safe_request r \<Longrightarrow> key \<in> set [''version'', ''agent_id'', ''policies'', ''pending'', ''id'', ''policy'', ''created_at''] \<Longrightarrow> clear_of key (request_json r)"
  unfolding request_fields by (intro clear_rules) (auto simp: safe_request_def manifest_keys_def)

lemma parse_request_at:
  assumes "\<And>k. k \<in> set [''kind'', ''subject'', ''method'', ''path''] \<Longrightarrow> clear_of k u" "request_ok r"
  shows "parse_request_object (u @ request_json r @ t) = r"
proof -
  have s: "safe_value (ar_kind r)" "safe_value (ar_subject r)" "safe_value (ar_method r)" "safe_value (ar_path r)" and n: "normalize_request r = r"
    using assms(2) by (auto simp: request_ok_def safe_request_def)
  note sizes = request_lengths[OF n]
  let ?k = "field_text ''kind'' (ar_kind r)" and ?s = "field_text ''subject'' (ar_subject r)" and ?m = "field_text ''method'' (ar_method r)"
  have keys: "x \<in> set manifest_keys" if "x \<in> set [''kind'', ''subject'', ''method'', ''path'']" for x using that by (auto simp: manifest_keys_def)
  have "clear_of ''kind'' u" "clear_of ''subject'' (u @ ?k)" "clear_of ''method'' (u @ ?k @ ?s)" "clear_of ''path'' (u @ ?k @ ?s @ ?m)"
    using s by (intro clear_rules assms(1) keys; simp)+
  note c = this[THEN parsed_field_key]
  let ?obj = "u @ request_json r @ t"
  have "parsed_field ?obj ''kind'' kind_size = ar_kind r" "parsed_field ?obj ''subject'' subject_size = ar_subject r"
    "parsed_field ?obj ''method'' method_size = ar_method r" "parsed_field ?obj ''path'' path_size = ar_path r"
    using c(1)[OF s(1) sizes(1)] c(2)[OF s(2) sizes(2)] c(3)[OF s(3) sizes(3)] c(4)[OF s(4) sizes(4)]
    by (simp_all add: request_fields field_text_def access_sizes)
  then show ?thesis unfolding parse_request_object_def using n by (cases r) simp
qed

text \<open>One entry, whatever follows it in the file.\<close>

lemma clear_brace: "clear_of key ''{''"
  by (rule clear_raw) (simp_all add: ch_quote_def no_letter_def)

lemma policy_read:
  assumes "policy_ok e"
  shows "parse_request_object (policy_text e @ t) = pe_request e"
    and "normalize_token policy_size True (snd (json_get_string (policy_text e @ t) ''policy'' policy_size buffer)) = pe_policy e"
proof -
  have r: "request_ok (pe_request e)" "safe_request (pe_request e)" and p: "is_policy_value (pe_policy e)"
    using assms by (auto simp: policy_ok_def request_ok_def)
  show "parse_request_object (policy_text e @ t) = pe_request e"
    using parse_request_at[OF clear_brace r(1), of "'','' @ key_text ''policy'' @ quoted (pe_policy e) @ ''}'' @ t"] by (simp add: policy_text_def)
  have c: "clear_of ''policy'' (''{'' @ request_json (pe_request e) @ '','')" using r(2) by (intro clear_rules clear_brace) auto
  have "json_get_string (policy_text e @ t) ''policy'' policy_size buffer = (True, pe_policy e)"
    using json_get_string_key[OF c, of "pe_policy e" policy_size "''}'' @ t" buffer] policy_value_safe[OF p] by (simp add: policy_text_def safe_plain)
  then show "normalize_token policy_size True (snd (json_get_string (policy_text e @ t) ''policy'' policy_size buffer)) = pe_policy e"
    using policy_value_safe[OF p] by simp
qed

lemma c_strtod_digits: "n < 2 ^ 53 \<Longrightarrow> c_strtod (show_nat n @ ''}'' @ t) = of_nat n"
proof -
  assume n: "n < 2 ^ 53"
  have d: "list_all is_digit (show_nat n)" by (rule show_nat_list)
  let ?s = "show_nat n @ ''}'' @ t"
  have hd: "?s \<noteq> []" "is_digit (hd ?s)" using d show_nat_not_Nil[of n] by (cases "show_nat n"; simp)+
  then have sign: "hd ?s \<noteq> CHR ''-''" "hd ?s \<notin> set ''+-''" by (auto simp: is_digit_def)
  have tw: "takeWhile is_digit ?s = show_nat n" "dropWhile is_digit ?s = ''}'' @ t"
    using d by (auto simp: takeWhile_append dropWhile_append list_all_iff is_digit_def)
  have "c_strtod ?s = double (of_nat n)"
    unfolding c_strtod_def Let_def using hd(1) sign tw by (simp only: if_False simp_thms) (simp add: digits_val_show_nat pow10_def)
  moreover have "\<bar>int n\<bar> < 2 ^ 53" using n by simp
  from double_of_int[OF this] have "double (of_nat n) = of_nat n" by simp
  ultimately show ?thesis by simp
qed

lemma pending_read:
  assumes "pending_ok p"
  shows "parse_request_object (pending_text p @ t) = pn_request p"
    and "json_get_string (pending_text p @ t) ''id'' id_size buffer = (True, pn_id p)"
    and "json_get_number (pending_text p @ t) ''created_at'' = pn_created p"
proof -
  from assms obtain n where n: "pn_created p = of_int n" "0 \<le> n" "n < 2 ^ 53" by (auto simp: pending_ok_def)
  have r: "request_ok (pn_request p)" "safe_request (pn_request p)" and i: "safe_value (pn_id p)" "length (pn_id p) < id_size"
    using assms by (auto simp: pending_ok_def request_ok_def)
  let ?lead = "''{'' @ field_text ''id'' (pn_id p)"
  let ?tail = "'','' @ key_text ''created_at'' @ show_nat (nat n) @ ''}''"
  have tx: "pending_text p = ?lead @ request_json (pn_request p) @ ?tail"
    by (simp add: pending_text_def field_text_def n(1) created_digits[OF n(2,3)])
  have "clear_of k ?lead" if "k \<in> set [''kind'', ''subject'', ''method'', ''path'']" for k
    using that i(1) by (intro clear_rules clear_brace) (auto simp: manifest_keys_def)
  from parse_request_at[OF this r(1), of "?tail @ t"] show "parse_request_object (pending_text p @ t) = pn_request p" by (simp add: tx)
  show "json_get_string (pending_text p @ t) ''id'' id_size buffer = (True, pn_id p)"
    using json_get_string_key[OF clear_brace, of "pn_id p" id_size] i by (simp add: pending_text_def safe_plain)
  have "clear_of ''created_at'' (?lead @ request_json (pn_request p) @ '','')"
    using i r(2) by (intro clear_rules clear_brace) (auto simp: manifest_keys_def)
  from json_value_key[OF this, of "show_nat (nat n) @ ''}'' @ t"]
  have "json_value (pending_text p @ t) ''created_at'' = Some (dropWhile c_isspace (show_nat (nat n) @ ''}'' @ t))" by (simp add: tx)
  moreover have "dropWhile c_isspace (show_nat (nat n) @ ''}'' @ t) = show_nat (nat n) @ ''}'' @ t"
    using show_nat_list[of "nat n"] show_nat_not_Nil[of "nat n"] by (cases "show_nat (nat n)") (auto simp: is_digit_def c_isspace_def)
  ultimately show "json_get_number (pending_text p @ t) ''created_at'' = pn_created p"
    using c_strtod_digits[of "nat n" t] n by (simp add: json_get_number_def)
qed

lemma entry_lead_brace: "CHR ''{'' \<notin> set (entry_lead first)"
  by (simp add: entry_lead_def)

lemma no_object: "CHR ''{'' \<notin> set u \<Longrightarrow> next_object u = None"
proof -
  assume "CHR ''{'' \<notin> set u"
  then have "dropWhile (\<lambda>c. c \<noteq> CHR ''{'') u = []" by auto
  then show ?thesis unfolding next_object_def Let_def by (simp only: scan_close.simps option.case)
qed

lemma parse_policies_entries:
  assumes "list_all policy_ok es" "length acc + length es \<le> max_policies" "CHR ''{'' \<notin> set foot"
  shows "parse_policies_loop (entries_text policy_text first es @ foot) json_end [] acc = acc @ es"
  using assms(1,2)
proof (induction es arbitrary: acc first)
  case Nil
  then show ?case using no_object[OF assms(3)] by (simp add: parse_policies_loop.simps[of foot])
next
  case (Cons e es)
  then have e: "policy_ok e" by simp
  let ?rest = "entries_text policy_text False es @ foot"
  have obj: "next_object (entry_lead first @ policy_text e @ ?rest) = Some (policy_text e @ ?rest, ?rest)"
    by (rule next_object_found[OF policy_object[OF e] entry_lead_brace])
  have ok: "ar_kind (pe_request e) \<noteq> []" "ar_subject (pe_request e) \<noteq> []" "is_policy_value (pe_policy e)"
    using e by (auto simp: policy_ok_def request_ok_def)
  have "parse_policies_loop (entry_lead first @ policy_text e @ ?rest) json_end [] acc
      = parse_policies_loop ?rest json_end [] (acc @ [\<lparr>pe_request = pe_request e, pe_policy = pe_policy e\<rparr>])"
    using Cons.prems(2) ok policy_read[OF e, of "?rest @ json_end"] obj
    by (subst parse_policies_loop.simps) (simp add: entry_lead_def Let_def)
  moreover have "\<lparr>pe_request = pe_request e, pe_policy = pe_policy e\<rparr> = e" by (cases e) simp
  ultimately show ?case using Cons.IH[of "acc @ [e]" False] Cons.prems by simp
qed

lemma parse_pending_entries:
  assumes "list_all pending_ok ps" "length acc + length ps \<le> max_pending" "CHR ''{'' \<notin> set foot"
  shows "parse_pending_loop (entries_text pending_text first ps @ foot) json_end [] acc = acc @ ps"
  using assms(1,2)
proof (induction ps arbitrary: acc first)
  case Nil
  then show ?case using no_object[OF assms(3)] by (simp add: parse_pending_loop.simps[of foot])
next
  case (Cons p ps)
  then have p: "pending_ok p" by simp
  let ?rest = "entries_text pending_text False ps @ foot"
  have obj: "next_object (entry_lead first @ pending_text p @ ?rest) = Some (pending_text p @ ?rest, ?rest)"
    by (rule next_object_found[OF pending_object[OF p] entry_lead_brace])
  have ok: "ar_kind (pn_request p) \<noteq> []" "ar_subject (pn_request p) \<noteq> []" using p by (auto simp: pending_ok_def request_ok_def)
  have "parse_pending_loop (entry_lead first @ pending_text p @ ?rest) json_end [] acc
      = parse_pending_loop ?rest json_end [] (acc @ [\<lparr>pn_id = pn_id p, pn_request = pn_request p, pn_created = pn_created p\<rparr>])"
    using Cons.prems(2) ok pending_read[OF p, of "?rest @ json_end"] obj
    by (subst parse_pending_loop.simps) (simp add: entry_lead_def Let_def)
  moreover have "\<lparr>pn_id = pn_id p, pn_request = pn_request p, pn_created = pn_created p\<rparr> = p" by (cases p) simp
  ultimately show ?case using Cons.IH[of "acc @ [p]" False] Cons.prems by simp
qed

section \<open>The whole file\<close>

lemma find_array_at:
  assumes "clear_of key u" "passes CHR ''['' CHR '']'' inside"
  shows "find_array (u @ key_text key @ '' ['' @ inside @ '']'' @ t) key = Some (inside, '']'' @ t)"
proof -
  let ?q = "''['' @ inside @ '']'' @ t"
  have "strstr (needle key) (u @ needle key @ '': '' @ ?q) = Some (needle key @ '': '' @ ?q)" by (rule strstr_needle[OF assms(1)])
  moreover have "strchr CHR ''['' ('': '' @ ?q) = Some ?q" by (simp add: strchr_def)
  moreover have "scan_close CHR ''['' CHR '']'' 0 False False ?q = Some ('']'' @ t)" using assms(2) by (simp add: passes_def ch_quote_def)
  ultimately show ?thesis by (simp add: find_array_def needle_def key_text_def Let_def)
qed

lemma agent_id_safe: "c_valid_agent_id a \<Longrightarrow> safe_value a \<and> length a < agent_id_size"
proof -
  assume a: "c_valid_agent_id a"
  then obtain b where b: "a = ''agt-'' @ b" "list_all is_id_char b" by (auto simp: c_valid_agent_id_def startswith_iff)
  have "plain b" using b(2) by (auto simp: plain_def list_all_iff is_id_char_def is_alnum_ascii_def Let_def ch_quote_def)
  then have "plain a" by (auto simp: b(1) plain_def ch_quote_def)
  moreover have "a \<notin> set manifest_keys" by (simp add: b(1) manifest_keys_def)
  ultimately show ?thesis using a by (simp add: safe_value_def c_valid_agent_id_def)
qed

lemma entries_pass: "(\<And>e. e \<in> set es \<Longrightarrow> passes CHR ''['' CHR '']'' (f e)) \<Longrightarrow> passes CHR ''['' CHR '']'' (entries_text f first es)"
proof (induction es arbitrary: first)
  case (Cons e es)
  have "passes CHR ''['' CHR '']'' (entry_lead first)" by (rule passes_plain) (simp add: entry_lead_def ch_quote_def)
  then show ?case using Cons by (simp add: passes_append)
qed (simp add: passes_def)

lemma entries_clear: "(\<And>e. e \<in> set es \<Longrightarrow> clear_of key (f e)) \<Longrightarrow> clear_of key (entries_text f first es)"
proof (induction es arbitrary: first)
  case (Cons e es)
  have "clear_of key (entry_lead first)" by (rule clear_raw) (simp_all add: entry_lead_def ch_quote_def no_letter_def)
  then show ?case using Cons by (simp add: clear_append)
qed (simp add: clear_of_def no_letter_def)

definition before_policies :: "manifest \<Rightarrow> string" where
  "before_policies m = manifest_head @ quoted (mf_agent m) @ '','' @ [CHR 0x0A] @ ''  ''"

definition inside_of :: "string \<Rightarrow> string" where "inside_of u = u @ [CHR 0x0A] @ ''  ''"

lemma manifest_text_arrays:
  "manifest_text m = before_policies m @ key_text ''policies'' @ '' ['' @ inside_of (entries_text policy_text True (mf_policies m)) @ '']'' @ '','' @ [CHR 0x0A] @ ''  ''
     @ key_text ''pending'' @ '' ['' @ inside_of (entries_text pending_text True (mf_pending m)) @ '']'' @ [CHR 0x0A] @ ''}'' @ [CHR 0x0A]"
  by (simp add: manifest_text_def before_policies_def inside_of_def policies_head_def pending_head_def manifest_foot_def)

lemma clear_before:
  assumes "c_valid_agent_id (mf_agent m)" "key \<in> set [''policies'', ''pending'']" shows "clear_of key (before_policies m)"
proof -
  have raw: "clear_of key u" if "u \<in> {''{'' @ [CHR 0x0A] @ ''  '', '' 1,'' @ [CHR 0x0A] @ ''  '', '' '', '','' @ [CHR 0x0A] @ ''  ''}" for u
    using that by (intro clear_raw) (auto simp: ch_quote_def no_letter_def)
  have "before_policies m = (''{'' @ [CHR 0x0A] @ ''  '') @ key_text ''version'' @ ('' 1,'' @ [CHR 0x0A] @ ''  '') @ key_text ''agent_id''
      @ '' '' @ quoted (mf_agent m) @ ('','' @ [CHR 0x0A] @ ''  '')" by (simp add: before_policies_def manifest_head_def)
  moreover have "safe_value (mf_agent m)" using agent_id_safe[OF assms(1)] by blast
  moreover have "key \<in> set manifest_keys" "''version'' \<in> set manifest_keys" "''agent_id'' \<in> set manifest_keys" "''version'' \<noteq> key" "''agent_id'' \<noteq> key"
    using assms(2) by (auto simp: manifest_keys_def)
  ultimately show ?thesis by (simp only:) (intro clear_append clear_key clear_quoted raw; blast)
qed

lemma inside_passes: "passes CHR ''['' CHR '']'' u \<Longrightarrow> passes CHR ''['' CHR '']'' (inside_of u)"
  unfolding inside_of_def by (rule passes_append, assumption, rule passes_append; rule passes_plain; simp add: ch_quote_def)

lemma parse_manifest_text:
  assumes "manifest_ok m"
  shows "parse_policies (manifest_text m) = mf_policies m" "parse_pending (manifest_text m) = mf_pending m"
proof -
  from assms have ok: "list_all policy_ok (mf_policies m)" "list_all pending_ok (mf_pending m)" "c_valid_agent_id (mf_agent m)"
    "length (mf_policies m) \<le> max_policies" "length (mf_pending m) \<le> max_pending" by (auto simp: manifest_ok_def)
  let ?in1 = "inside_of (entries_text policy_text True (mf_policies m))" and ?in2 = "inside_of (entries_text pending_text True (mf_pending m))"
  have p: "passes CHR ''['' CHR '']'' ?in1" "passes CHR ''['' CHR '']'' ?in2"
    using ok(1,2) by (intro inside_passes entries_pass object_passes policy_object pending_object; simp add: list_all_iff)+
  let ?tail2 = "'']'' @ [CHR 0x0A] @ ''}'' @ [CHR 0x0A]"
  let ?mid = "'','' @ [CHR 0x0A] @ ''  ''"
  have "find_array (manifest_text m) ''policies'' = Some (?in1, '']'' @ ?mid @ key_text ''pending'' @ '' ['' @ ?in2 @ ?tail2)"
    unfolding manifest_text_arrays append.assoc[symmetric, of "'']''"] using find_array_at[OF clear_before[OF ok(3)] p(1)] by simp
  then show "parse_policies (manifest_text m) = mf_policies m"
    using parse_policies_entries[OF ok(1), of "[]" "[CHR 0x0A] @ ''  ''" True] ok(4) by (simp add: parse_policies_def inside_of_def)
  have raw: "clear_of ''pending'' '' [''" "clear_of ''pending'' ('']'' @ ?mid)" "clear_of ''pending'' ([CHR 0x0A] @ ''  '')"
    by (rule clear_raw; simp add: ch_quote_def no_letter_def)+
  have "clear_of ''pending'' (policy_text e)" if "policy_ok e" for e
  proof -
    have "clear_of ''pending'' ''}''" by (rule clear_raw) (simp_all add: ch_quote_def no_letter_def)
    then show ?thesis using that policy_value_safe[of "pe_policy e"] unfolding policy_text_def
      by (intro clear_rules clear_brace) (auto simp: policy_ok_def request_ok_def manifest_keys_def)
  qed
  then have e: "clear_of ''pending'' (entries_text policy_text True (mf_policies m))" using ok(1) by (intro entries_clear) (auto simp: list_all_iff)
  have "clear_of ''pending'' (before_policies m @ key_text ''policies'' @ '' ['' @ ?in1 @ ('']'' @ ?mid))"
    unfolding inside_of_def
    by (intro clear_append[OF clear_before[OF ok(3)]] clear_append[OF clear_key] clear_append[OF raw(1)] clear_append[OF clear_append[OF e raw(3)] raw(2)])
      (simp_all add: manifest_keys_def)
  from find_array_at[OF this p(2)] have "find_array (manifest_text m) ''pending'' = Some (?in2, ?tail2)" by (simp add: manifest_text_arrays)
  then show "parse_pending (manifest_text m) = mf_pending m"
    using parse_pending_entries[OF ok(2), of "[]" "[CHR 0x0A] @ ''  ''" True] ok(5) by (simp add: parse_pending_def inside_of_def)
qed

lemma json_get_agent_id:
  assumes "c_valid_agent_id (mf_agent m)"
  shows "json_get_string (manifest_text m) ''agent_id'' agent_id_size buffer = (True, mf_agent m)"
proof -
  have raw: "clear_of ''agent_id'' ([CHR 0x0A] @ ''  '')" "clear_of ''agent_id'' ('' 1,'' @ [CHR 0x0A] @ ''  '')"
    by (rule clear_raw; simp add: ch_quote_def no_letter_def)+
  let ?t = "policies_head @ entries_text policy_text True (mf_policies m) @ pending_head @ entries_text pending_text True (mf_pending m) @ manifest_foot"
  let ?u = "''{'' @ ([CHR 0x0A] @ ''  '') @ key_text ''version'' @ ('' 1,'' @ [CHR 0x0A] @ ''  '')"
  have "clear_of ''agent_id'' ?u" by (intro clear_append clear_brace raw clear_key; simp add: manifest_keys_def)
  from json_value_key[OF this, of "'' '' @ quoted (mf_agent m) @ ?t"]
  have "json_value (manifest_text m) ''agent_id'' = Some (dropWhile c_isspace ('' '' @ quoted (mf_agent m) @ ?t))"
    by (simp add: manifest_text_def manifest_head_def)
  then have "json_value (manifest_text m) ''agent_id'' = Some (ch_quote # esc (mf_agent m) @ ch_quote # ?t)"
    by (simp add: quoted_def c_isspace_def ch_quote_def)
  then show ?thesis using copy_quoted_esc[of "mf_agent m" "[]" agent_id_size ?t] agent_id_safe[OF assms]
    by (simp add: json_get_string_def safe_plain)
qed

text \<open>No text the printer makes holds a zero, so the file is read to its end.\<close>

lemma hex_digit_code: "n < 16 \<Longrightarrow> 48 \<le> code (hex_digit n)"
  using code_of_hex_digit[of n] by (cases "n < 10") simp_all

lemma hex_digit_no_nul: "n < 16 \<Longrightarrow> hex_digit n \<noteq> CHR 0x00"
  using hex_digit_code[of n] by auto

lemma escape_no_nul: "CHR 0x00 \<notin> set (escape_char c)"
proof (cases "code c < 32")
  case True
  then have "hex_digit (code c div 16) \<noteq> CHR 0x00" "hex_digit (code c mod 16) \<noteq> CHR 0x00" by (intro hex_digit_no_nul; simp)+
  then show ?thesis by (auto simp: escape_char_def ch_backslash_def ch_quote_def)
qed (auto simp: escape_char_def ch_backslash_def ch_quote_def)

lemma quoted_no_nul: "CHR 0x00 \<notin> set (quoted s)"
  using escape_no_nul by (auto simp: quoted_def esc_def ch_quote_def)

lemma number_no_nul: "CHR 0x00 \<notin> set (show_int n)"
proof -
  have "CHR 0x00 \<notin> set (show_nat k)" for k using show_nat_list[of k] by (auto simp: list_all_iff is_digit_def)
  then show ?thesis by (simp add: show_int_def)
qed

lemma request_json_no_nul: "CHR 0x00 \<notin> set (request_json r)"
  using quoted_no_nul by (simp add: request_json_def key_text_def ch_quote_def)

lemma entries_no_nul: "(\<And>e. CHR 0x00 \<notin> set (f e)) \<Longrightarrow> CHR 0x00 \<notin> set (entries_text f first es)"
  by (induction es arbitrary: first) (auto simp: entry_lead_def)

lemma manifest_text_c_string: "c_string (manifest_text m) = manifest_text m"
proof -
  have "CHR 0x00 \<notin> set (policy_text e)" "CHR 0x00 \<notin> set (pending_text p)" for e p
    using quoted_no_nul request_json_no_nul number_no_nul
    by (simp_all add: policy_text_def pending_text_def created_text_def key_text_def ch_quote_def)
  then have "CHR 0x00 \<notin> set (manifest_text m)" using quoted_no_nul entries_no_nul[of policy_text] entries_no_nul[of pending_text]
    by (simp add: manifest_text_def manifest_head_def policies_head_def pending_head_def manifest_foot_def key_text_def ch_quote_def)
  then show ?thesis unfolding c_string_def by (intro takeWhile_eq_all_conv[THEN iffD2]) auto
qed

end
