(* ===== verification/Access_Policy.thy ===== *)
theory Access_Policy
  imports Access_Manifest
begin

text \<open>
  The operations of the access policy (\<^verbatim>\<open>libbubble/access_policy.c\<close>) over the manifests of all agents: loading and
  writing a manifest, giving a rule a policy, and the decision on a request, which the proxy asks for. The
  directories above a manifest are a result code per agent (\<open>aw_path\<close>), and so is the writing of the
  temporary file and its renaming (\<open>aw_write\<close>), which leaves the old file when it fails; the clock is \<open>aw_now\<close>.
\<close>

section \<open>The operations\<close>

record access_world =
  aw_path :: "string \<Rightarrow> int"
  aw_write :: "string \<Rightarrow> int"
  aw_now :: int

type_synonym manifests = "string \<rightharpoonup> string"

definition load_manifest :: "access_world \<Rightarrow> manifests \<Rightarrow> string \<Rightarrow> int \<times> manifest" where
  "load_manifest w files agent_id =
     (let m = manifest_init agent_id in
      if aw_path w agent_id \<noteq> 0 then (aw_path w agent_id, m)
      else case files agent_id of
        None \<Rightarrow> (0, m)
      | Some raw \<Rightarrow>
          if json_capacity * 4 < length raw then (0, m)
          else let json = c_string raw; (found, parsed) = json_get_string json ''agent_id'' agent_id_size [] in
            if found \<and> parsed \<noteq> agent_id then (einval, m)
            else (0, m\<lparr>mf_policies := parse_policies json, mf_pending := parse_pending json\<rparr>))"

definition write_manifest :: "access_world \<Rightarrow> manifest \<Rightarrow> manifests \<Rightarrow> int \<times> manifests" where
  "write_manifest w m files =
     (if aw_path w (mf_agent m) \<noteq> 0 then (aw_path w (mf_agent m), files)
      else case manifest_to_json m of
        None \<Rightarrow> (enospc, files)
      | Some json \<Rightarrow> if aw_write w (mf_agent m) \<noteq> 0 then (aw_write w (mf_agent m), files) else (0, files(mf_agent m \<mapsto> json)))"

fun set_policy :: "access_request \<Rightarrow> string \<Rightarrow> policy_entry list \<Rightarrow> policy_entry list option" where
  "set_policy r policy [] = None"
| "set_policy r policy (e # es) =
     (if pe_request e = r then Some (e\<lparr>pe_policy := policy\<rparr> # es) else map_option ((#) e) (set_policy r policy es))"

definition access_apply_policy :: "access_world \<Rightarrow> string \<Rightarrow> access_request \<Rightarrow> string \<Rightarrow> manifests \<Rightarrow> int \<times> manifests" where
  "access_apply_policy w agent_id request policy files =
     (let r = normalize_request request; policy = normalize_token policy_size True policy in
      if \<not> c_valid_agent_id agent_id \<or> ar_kind r = [] \<or> ar_subject r = [] \<or> \<not> is_policy_value policy then (einval, files)
      else case load_manifest w files agent_id of (rc, m) \<Rightarrow>
        if rc \<noteq> 0 then (rc, files)
        else case set_policy r policy (mf_policies m) of
          Some es \<Rightarrow> write_manifest w (remove_pending r (m\<lparr>mf_policies := es\<rparr>)) files
        | None \<Rightarrow>
            if max_policies \<le> length (mf_policies m) then (enospc, files)
            else write_manifest w (remove_pending r (m\<lparr>mf_policies := mf_policies m @ [\<lparr>pe_request = r, pe_policy = policy\<rparr>]\<rparr>)) files)"

datatype decision = Deny | Approve

definition access_evaluate :: "access_world \<Rightarrow> string \<Rightarrow> access_request \<Rightarrow> manifests \<Rightarrow> int \<times> decision \<times> manifests" where
  "access_evaluate w agent_id request files =
     (let r = normalize_request request in
      if \<not> c_valid_agent_id agent_id \<or> ar_kind r = [] \<or> ar_subject r = [] then (einval, Deny, files)
      else case load_manifest w files agent_id of (rc, m) \<Rightarrow>
        if rc \<noteq> 0 then (rc, Deny, files)
        else let entry = find_policy m r in
          if map_option pe_policy entry = Some ''always'' then (0, Approve, files)
          else if map_option pe_policy entry = Some ''never'' then (0, Deny, files)
          else case add_pending (aw_now w) r m of (rc, m') \<Rightarrow>
            if rc \<noteq> 0 then (rc, Deny, files)
            else (case write_manifest w m' files of (rc, files') \<Rightarrow> (rc, Deny, files')))"

definition access_needs_prompt :: "access_world \<Rightarrow> string \<Rightarrow> access_request \<Rightarrow> manifests \<Rightarrow> int \<times> bool" where
  "access_needs_prompt w agent_id request files =
     (let r = normalize_request request in
      if \<not> c_valid_agent_id agent_id \<or> ar_kind r = [] \<or> ar_subject r = [] then (einval, False)
      else case load_manifest w files agent_id of (rc, m) \<Rightarrow>
        if rc \<noteq> 0 then (rc, False)
        else (0, case find_policy m r of None \<Rightarrow> True | Some e \<Rightarrow> pe_policy e = ''ask''))"

text \<open>The pending requests of all agents, in the order the directory lists their names.\<close>

definition append_pending_entry :: "string \<Rightarrow> bool \<Rightarrow> pending_entry \<Rightarrow> builder \<Rightarrow> builder" where
  "append_pending_entry agent_id first p b =
     (let b = json_append_escaped agent_id (json_append ((if first then [] else '','') @ ''{'' @ key_text ''agent_id'') b);
          b = json_append_escaped (pn_id p) (json_append ('','' @ key_text ''id'') b);
          b = json_append_request (pn_request p) (json_append '','' b) in
      json_append (created_text (pn_created p)) b)"

definition listed_pending :: "access_world \<Rightarrow> manifests \<Rightarrow> string list \<Rightarrow> (string \<times> pending_entry) list" where
  "listed_pending w files names =
     concat (map (\<lambda>a. if \<not> c_valid_agent_id a then []
       else case load_manifest w files a of (rc, m) \<Rightarrow> if rc \<noteq> 0 then [] else map (Pair (mf_agent m)) (mf_pending m)) names)"

definition access_pending_json :: "access_world \<Rightarrow> manifests \<Rightarrow> string list \<Rightarrow> string option" where
  "access_pending_json w files names =
     json_append ('']'' @ [CHR 0x0A])
       (append_entries (\<lambda>first (a, p). append_pending_entry a first p) True (listed_pending w files names) (json_append ''['' (Some [])))"

definition access_manifest_json :: "access_world \<Rightarrow> string \<Rightarrow> manifests \<Rightarrow> string option" where
  "access_manifest_json w agent_id files =
     (if \<not> c_valid_agent_id agent_id then None
      else case load_manifest w files agent_id of (rc, m) \<Rightarrow> if rc \<noteq> 0 then None else manifest_to_json m)"

section \<open>Loading what was written\<close>

lemma load_agent [simp]: "mf_agent (snd (load_manifest w files a)) = copy_field agent_id_size a"
  by (auto simp: load_manifest_def manifest_init_def Let_def split: option.splits prod.splits)

lemma load_same: "files' a = files a \<Longrightarrow> load_manifest w files' a = load_manifest w files a"
  by (simp only: load_manifest_def)

lemma valid_agent_fits: "c_valid_agent_id a \<Longrightarrow> copy_field agent_id_size a = a"
  by (simp add: c_valid_agent_id_def copy_field_def agent_id_size_def)

lemma load_printed:
  assumes "manifest_ok m" "manifest_to_json m = Some t" "files (mf_agent m) = Some t" "aw_path w (mf_agent m) = 0"
  shows "load_manifest w files (mf_agent m) = (0, m)"
proof -
  from assms(2) have t: "t = manifest_text m" "length t < json_capacity" by (auto simp: manifest_to_json_text split: if_splits)
  have a: "c_valid_agent_id (mf_agent m)" using assms(1) by (simp add: manifest_ok_def)
  show ?thesis
    using assms(3,4) t json_get_agent_id[OF a, of "[]"] parse_manifest_text[OF assms(1)] valid_agent_fits[OF a]
    by (simp add: load_manifest_def Let_def manifest_text_c_string manifest_init_def)
qed

lemma write_manifest_ok:
  assumes "write_manifest w m files = (0, files')"
  obtains t where "manifest_to_json m = Some t" "files' = files(mf_agent m \<mapsto> t)" "aw_path w (mf_agent m) = 0"
  using assms by (auto simp: write_manifest_def enospc_def split: option.splits if_splits)

lemma load_written: "manifest_ok m \<Longrightarrow> write_manifest w m files = (0, files') \<Longrightarrow> load_manifest w files' (mf_agent m) = (0, m)"
  by (erule write_manifest_ok) (simp add: load_printed)

lemma write_only_own: "b \<noteq> mf_agent m \<Longrightarrow> snd (write_manifest w m files) b = files b"
  by (auto simp: write_manifest_def split: option.splits)

lemma write_failed: "fst (write_manifest w m files) \<noteq> 0 \<Longrightarrow> snd (write_manifest w m files) = files"
  by (auto simp: write_manifest_def split: option.splits)

section \<open>The chosen rule\<close>

definition matching :: "access_request \<Rightarrow> policy_entry list \<Rightarrow> policy_entry list" where
  "matching r es = filter (\<lambda>e. request_matches_rule (pe_request e) r) es"

definition score_of :: "access_request \<Rightarrow> policy_entry \<Rightarrow> int" where
  "score_of r e = rule_score (pe_request e) r"

lemma score_nonneg: "0 \<le> score_of r e" by (simp add: score_of_def rule_score_def)

lemma find_policy_loop_matching: "find_policy_loop r best n es = find_policy_loop r best n (matching r es)"
  by (induction r best n es rule: find_policy_loop.induct) (auto simp: matching_def Let_def)

lemma find_policy_loop_best:
  "find_policy_loop r (Some b) (score_of r b) es = Some e \<Longrightarrow>
     (e = b \<or> e \<in> set (matching r es)) \<and> score_of r b \<le> score_of r e \<and> (\<forall>e' \<in> set (matching r es). score_of r e' \<le> score_of r e)"
  by (induction es arbitrary: b) (fastforce simp: matching_def score_of_def Let_def split: if_splits)+

lemma find_policy_loop_Some: "find_policy_loop r (Some b) n es \<noteq> None"
  by (induction es arbitrary: b n) (auto simp: Let_def)

lemma find_policy_first:
  "matching r (mf_policies m) = e # es \<Longrightarrow> find_policy m r = find_policy_loop r (Some e) (score_of r e) es"
proof -
  assume h: "matching r (mf_policies m) = e # es"
  have "request_matches_rule (pe_request e) r" using arg_cong[OF h, of set] by (auto simp: matching_def)
  then show ?thesis using score_nonneg[of r e] by (simp add: find_policy_def find_policy_loop_matching[of r None] h Let_def score_of_def)
qed

text \<open>The rule that is chosen matches and none that matches has a greater score; without a rule none matches.\<close>

lemma find_policy_best:
  assumes "find_policy m r = Some e"
  shows "e \<in> set (mf_policies m)" "request_matches_rule (pe_request e) r"
    and "\<And>e'. e' \<in> set (mf_policies m) \<Longrightarrow> request_matches_rule (pe_request e') r \<Longrightarrow> score_of r e' \<le> score_of r e"
proof -
  have s: "set (matching r (mf_policies m)) = {e \<in> set (mf_policies m). request_matches_rule (pe_request e) r}" by (auto simp: matching_def)
  have again: "matching r (matching r es) = matching r es" for es by (simp add: matching_def)
  have *: "e \<in> set (matching r (mf_policies m)) \<and> (\<forall>e' \<in> set (matching r (mf_policies m)). score_of r e' \<le> score_of r e)"
  proof (cases "matching r (mf_policies m)")
    case Nil
    then show ?thesis using assms by (simp add: find_policy_def find_policy_loop_matching[of r None])
  next
    case (Cons f fs)
    then have "matching r (f # fs) = f # fs" using again[of "mf_policies m"] by simp
    then have "\<forall>x \<in> set (f # fs). request_matches_rule (pe_request x) r" by (simp only: matching_def filter_id_conv)
    then have "matching r fs = fs" by (simp add: matching_def filter_id_conv)
    then show ?thesis using assms find_policy_loop_best[of r f fs e] find_policy_first[OF Cons] Cons by auto
  qed
  then show "e \<in> set (mf_policies m)" "request_matches_rule (pe_request e) r"
    "\<And>e'. e' \<in> set (mf_policies m) \<Longrightarrow> request_matches_rule (pe_request e') r \<Longrightarrow> score_of r e' \<le> score_of r e"
    using s by auto
qed

lemma find_policy_None: "find_policy m r = None \<longleftrightarrow> matching r (mf_policies m) = []"
  by (cases "matching r (mf_policies m)")
    (simp_all add: find_policy_first find_policy_loop_Some, simp add: find_policy_def find_policy_loop_matching[of r None])

text \<open>A rule with the full score is the request itself, and then it stays the best.\<close>

lemma full_score: "request_matches_rule (pe_request e) r \<Longrightarrow> score_of r e = 7 \<longleftrightarrow> pe_request e = r"
  by (cases "pe_request e"; cases r) (auto simp: score_of_def rule_score_def request_matches_rule_def)

lemma score_bound: "score_of r e \<le> 7" by (simp add: score_of_def rule_score_def)

lemma matches_itself: "request_matches_rule r r"
  by (simp add: request_matches_rule_def subject_matches_def method_matches_def path_matches_def)

lemma full_score_stays: "find_policy_loop r (Some b) 7 es = Some b"
proof (induction es)
  case (Cons e es)
  then show ?case using score_bound[of r e] by (simp add: Let_def score_of_def)
qed simp

lemma exact_found:
  assumes "pe_request b = r" "\<forall>e \<in> set before. pe_request e \<noteq> r" "n < 7"
  shows "find_policy_loop r best n (before @ b # after) = Some b"
  using assms(2,3)
proof (induction before arbitrary: best n)
  case Nil
  have "score_of r b = 7" using full_score[of b r] matches_itself[of r] assms(1) by simp
  then show ?case using Nil assms(1) matches_itself[of r] full_score_stays[of r b after] by (simp add: Let_def score_of_def)
next
  case (Cons e es)
  have "request_matches_rule (pe_request e) r \<Longrightarrow> score_of r e < 7" using full_score[of e r] score_bound[of r e] Cons.prems(1) by fastforce
  then show ?case using Cons by (simp add: Let_def score_of_def)
qed

text \<open>Giving a rule a policy: the first entry of the request has it, everything else stays.\<close>

lemma set_policy_Some:
  "set_policy r p es = Some es' \<Longrightarrow>
     \<exists>before e after. es = before @ e # after \<and> es' = before @ e\<lparr>pe_policy := p\<rparr> # after \<and> pe_request e = r \<and> (\<forall>x \<in> set before. pe_request x \<noteq> r)"
proof (induction es arbitrary: es')
  case (Cons x xs)
  show ?case
  proof (cases "pe_request x = r")
    case True
    then show ?thesis using Cons.prems by (intro exI[of _ "[]"] exI[of _ x] exI[of _ xs]) simp
  next
    case False
    then obtain ys where ys: "set_policy r p xs = Some ys" "es' = x # ys" using Cons.prems by auto
    with Cons.IH obtain before e after where h: "xs = before @ e # after" "ys = before @ e\<lparr>pe_policy := p\<rparr> # after" "pe_request e = r"
      "\<forall>x \<in> set before. pe_request x \<noteq> r" by blast
    then show ?thesis using False ys(2) by (intro exI[of _ "x # before"] exI[of _ e] exI[of _ after]) simp
  qed
qed simp

lemma set_policy_None: "set_policy r p es = None \<longleftrightarrow> (\<forall>e \<in> set es. pe_request e \<noteq> r)"
  by (induction es) auto

definition with_policy :: "access_request \<Rightarrow> string \<Rightarrow> policy_entry list \<Rightarrow> policy_entry list" where
  "with_policy r p es = (case set_policy r p es of Some es' \<Rightarrow> es' | None \<Rightarrow> es @ [\<lparr>pe_request = r, pe_policy = p\<rparr>])"

lemma with_policy_shape:
  "\<exists>before after. with_policy r p es = before @ \<lparr>pe_request = r, pe_policy = p\<rparr> # after \<and> (\<forall>x \<in> set before. pe_request x \<noteq> r)"
proof (cases "set_policy r p es")
  case None
  then show ?thesis using set_policy_None[of r p es] by (intro exI[of _ es] exI[of _ "[]"]) (simp add: with_policy_def)
next
  case (Some es')
  from set_policy_Some[OF this] obtain before e after where "es' = before @ e\<lparr>pe_policy := p\<rparr> # after" "pe_request e = r"
    "\<forall>x \<in> set before. pe_request x \<noteq> r" by blast
  moreover have "e\<lparr>pe_policy := p\<rparr> = \<lparr>pe_request = r, pe_policy = p\<rparr>" using \<open>pe_request e = r\<close> by (cases e) simp
  ultimately show ?thesis using Some by (intro exI[of _ before] exI[of _ after]) (simp add: with_policy_def)
qed

lemma with_policy_found: "find_policy (m\<lparr>mf_policies := with_policy r p es\<rparr>) r = Some \<lparr>pe_request = r, pe_policy = p\<rparr>"
proof -
  obtain before after where "with_policy r p es = before @ \<lparr>pe_request = r, pe_policy = p\<rparr> # after" "\<forall>x \<in> set before. pe_request x \<noteq> r"
    using with_policy_shape[of r p es] by auto
  then show ?thesis by (simp add: find_policy_def exact_found)
qed

lemma with_policy_elements: "e \<in> set (with_policy r p es) \<Longrightarrow> e = \<lparr>pe_request = r, pe_policy = p\<rparr> \<or> e \<in> set es"
proof (cases "set_policy r p es")
  case (Some es')
  assume e: "e \<in> set (with_policy r p es)"
  from set_policy_Some[OF Some] obtain before x after where "es = before @ x # after" "es' = before @ x\<lparr>pe_policy := p\<rparr> # after" "pe_request x = r"
    by blast
  moreover have "x\<lparr>pe_policy := p\<rparr> = \<lparr>pe_request = r, pe_policy = p\<rparr>" using \<open>pe_request x = r\<close> by (cases x) simp
  ultimately show ?thesis using Some e by (auto simp: with_policy_def)
qed (auto simp: with_policy_def)

lemma with_policy_length: "length (with_policy r p es) \<le> length es + (if set_policy r p es = None then 1 else 0)"
  by (auto simp: with_policy_def split: option.splits dest!: set_policy_Some)

text \<open>A rule that does not match a request does not change the choice for it.\<close>

lemma with_policy_matching: "\<not> request_matches_rule r q \<Longrightarrow> matching q (with_policy r p es) = matching q es"
proof (cases "set_policy r p es")
  case (Some es')
  assume "\<not> request_matches_rule r q"
  with set_policy_Some[OF Some] Some show ?thesis by (auto simp: matching_def with_policy_def)
qed (simp add: matching_def with_policy_def)

lemma find_policy_by_matching: "find_policy m r = find_policy_loop r None (- 1) (matching r (mf_policies m))"
  unfolding find_policy_def by (rule find_policy_loop_matching)

lemma find_policy_matching: "matching r (mf_policies m) = matching r (mf_policies m') \<Longrightarrow> find_policy m r = find_policy m' r"
  by (simp add: find_policy_by_matching)

section \<open>The operations\<close>

definition askable :: "string \<Rightarrow> access_request \<Rightarrow> bool" where
  "askable a r \<longleftrightarrow> c_valid_agent_id a \<and> ar_kind (normalize_request r) \<noteq> [] \<and> ar_subject (normalize_request r) \<noteq> []"

text \<open>The policy of a rule is set, as one step over the loaded manifest.\<close>

definition applied :: "access_request \<Rightarrow> string \<Rightarrow> manifest \<Rightarrow> manifest" where
  "applied r p m = remove_pending r (m\<lparr>mf_policies := with_policy r p (mf_policies m)\<rparr>)"

lemma applied_select [simp]:
  "mf_agent (applied r p m) = mf_agent m" "mf_policies (applied r p m) = with_policy r p (mf_policies m)"
  by (simp_all add: applied_def remove_pending_def)

lemma applied_pending:
  "set (mf_pending (applied r p m)) \<subseteq> set (mf_pending m)" "length (mf_pending (applied r p m)) \<le> length (mf_pending m)"
  by (auto simp: applied_def remove_pending_def)

lemma apply_done:
  assumes "access_apply_policy w a r p files = (0, files')"
  defines "r' \<equiv> normalize_request r" and "p' \<equiv> normalize_token policy_size True p"
  obtains m where "askable a r" "is_policy_value p'" "load_manifest w files a = (0, m)"
    "length (with_policy r' p' (mf_policies m)) \<le> max max_policies (length (mf_policies m))"
    "write_manifest w (applied r' p' m) files = (0, files')"
proof -
  have g: "askable a r" "is_policy_value p'" using assms(1) unfolding r'_def p'_def
    by (auto simp: access_apply_policy_def askable_def Let_def einval_def split: if_splits)
  moreover obtain m where m: "load_manifest w files a = (0, m)" using assms(1) g unfolding r'_def p'_def
    by (cases "load_manifest w files a") (auto simp: access_apply_policy_def askable_def Let_def split: if_splits)
  moreover have "length (with_policy r' p' (mf_policies m)) \<le> max max_policies (length (mf_policies m)) \<and> write_manifest w (applied r' p' m) files = (0, files')"
  proof (cases "set_policy r' p' (mf_policies m)")
    case None
    then show ?thesis using assms(1) g m with_policy_length[of r' p' "mf_policies m"] unfolding r'_def p'_def
      by (auto simp: access_apply_policy_def askable_def applied_def with_policy_def Let_def enospc_def split: if_splits)
  next
    case (Some es)
    then show ?thesis using assms(1) g m with_policy_length[of r' p' "mf_policies m"] unfolding r'_def p'_def
      by (auto simp: access_apply_policy_def askable_def applied_def with_policy_def Let_def)
  qed
  ultimately show thesis using that by blast
qed

lemma apply_failed: "fst (access_apply_policy w a r p files) \<noteq> 0 \<Longrightarrow> snd (access_apply_policy w a r p files) = files"
  by (auto simp: access_apply_policy_def Let_def write_failed split: prod.splits option.splits if_splits)

lemma apply_only_own: "b \<noteq> a \<Longrightarrow> snd (access_apply_policy w a r p files) b = files b"
proof (cases "c_valid_agent_id a")
  case True
  assume "b \<noteq> a"
  moreover have "mf_agent (remove_pending q m) = mf_agent m" for q m by (simp add: remove_pending_def)
  moreover have "mf_agent m = a" if "load_manifest w files a = (rc, m)" for rc m
    using that load_agent[of w files a] valid_agent_fits[OF True] by simp
  ultimately show ?thesis by (auto simp: access_apply_policy_def Let_def write_only_own split: prod.splits option.splits)
qed (simp add: access_apply_policy_def)

lemma evaluate_decision:
  "fst (snd (access_evaluate w a r files)) = Approve \<longleftrightarrow>
     askable a r \<and> (\<exists>m. load_manifest w files a = (0, m) \<and> map_option pe_policy (find_policy m (normalize_request r)) = Some ''always'')"
  by (auto simp: access_evaluate_def askable_def Let_def split: prod.splits if_splits)

lemma evaluate_only_own: "b \<noteq> a \<Longrightarrow> snd (snd (access_evaluate w a r files)) b = files b"
proof (cases "c_valid_agent_id a")
  case True
  assume "b \<noteq> a"
  moreover have "mf_agent m' = mf_agent m" if "add_pending now q m = (rc, m')" for now q m rc m'
    using that by (auto simp: add_pending_def split: if_splits)
  moreover have "mf_agent m = a" if "load_manifest w files a = (rc, m)" for rc m
    using that load_agent[of w files a] valid_agent_fits[OF True] by simp
  ultimately show ?thesis by (auto simp: access_evaluate_def Let_def split: prod.splits) (metis snd_conv write_only_own)+
qed (simp add: access_evaluate_def)

text \<open>What an evaluation does to the manifests: nothing, or the pending request is added and the manifest written.\<close>

lemma evaluate_files:
  assumes "snd (snd (access_evaluate w a r files)) \<noteq> files"
  obtains m m' where "askable a r" "load_manifest w files a = (0, m)" "add_pending (aw_now w) (normalize_request r) m = (0, m')"
    "write_manifest w m' files = (0, snd (snd (access_evaluate w a r files)))"
proof -
  have g: "askable a r" using assms by (auto simp: access_evaluate_def askable_def Let_def split: if_splits)
  obtain rc m where m: "load_manifest w files a = (rc, m)" by fastforce
  with assms g have "rc = 0" by (auto simp: access_evaluate_def askable_def Let_def split: if_splits)
  obtain rc' m' where m': "add_pending (aw_now w) (normalize_request r) m = (rc', m')" by fastforce
  have rc': "rc' = 0" using assms g m m' \<open>rc = 0\<close> by (auto simp: access_evaluate_def askable_def Let_def split: if_splits)
  then have e: "snd (snd (access_evaluate w a r files)) = snd (write_manifest w m' files)"
    using assms g m m' \<open>rc = 0\<close> by (auto simp: access_evaluate_def askable_def Let_def split: if_splits prod.splits)
  with assms write_failed[of w m' files] have "fst (write_manifest w m' files) = 0" by metis
  with e have "write_manifest w m' files = (0, snd (snd (access_evaluate w a r files)))" by (metis prod.collapse)
  then show thesis using that g m m' \<open>rc = 0\<close> rc' by blast
qed

section \<open>Manifests that are read back\<close>

text \<open>Every stored manifest is one the printer wrote for its agent, of entries that can be read back.\<close>

definition store_ok :: "manifests \<Rightarrow> bool" where
  "store_ok files \<longleftrightarrow> (\<forall>a t. files a = Some t \<longrightarrow> (\<exists>m. manifest_ok m \<and> mf_agent m = a \<and> manifest_to_json m = Some t))"

definition storable :: "access_request \<Rightarrow> bool" where
  "storable r \<longleftrightarrow> request_ok (normalize_request r)"

lemma store_load:
  assumes "store_ok files" "c_valid_agent_id a" "load_manifest w files a = (0, m)"
  shows "manifest_ok m" "mf_agent m = a"
proof -
  show a: "mf_agent m = a" using load_agent[of w files a] assms(3) valid_agent_fits[OF assms(2)] by simp
  show "manifest_ok m"
  proof (cases "files a")
    case None
    then have "m = manifest_init a" using assms(3) by (auto simp: load_manifest_def Let_def split: if_splits)
    then show ?thesis using assms(2) valid_agent_fits[OF assms(2)] by (simp add: manifest_ok_def manifest_init_def)
  next
    case (Some t)
    with assms(1) obtain n where n: "manifest_ok n" "mf_agent n = a" "manifest_to_json n = Some t" by (auto simp: store_ok_def)
    moreover have "aw_path w a = 0" using assms(3) by (auto simp: load_manifest_def Let_def split: if_splits)
    ultimately show ?thesis using load_printed[of n t files w] Some assms(3) by simp
  qed
qed

lemma store_write: "store_ok files \<Longrightarrow> manifest_ok m \<Longrightarrow> write_manifest w m files = (0, files') \<Longrightarrow> store_ok files'"
  by (erule write_manifest_ok) (auto simp: store_ok_def)

lemma applied_ok:
  assumes "manifest_ok m" "request_ok r" "is_policy_value p" "length (with_policy r p (mf_policies m)) \<le> max max_policies (length (mf_policies m))"
  shows "manifest_ok (applied r p m)"
proof -
  have "policy_ok e" if "e \<in> set (with_policy r p (mf_policies m))" for e
    using with_policy_elements[OF that] assms(1-3) by (auto simp: manifest_ok_def policy_ok_def list_all_iff)
  moreover have "pending_ok q" if "q \<in> set (mf_pending (applied r p m))" for q
    using subsetD[OF applied_pending(1) that] assms(1) by (auto simp: manifest_ok_def list_all_iff)
  ultimately show ?thesis using assms(1,4) applied_pending(2)[of r p m] by (simp add: manifest_ok_def list_all_iff)
qed

lemma hex_text_plain: "0 \<le> n \<Longrightarrow> plain (hex_text n)"
proof (induction n rule: hex_text.induct)
  case (1 n)
  have d: "32 \<le> code (hex_digit k) \<and> hex_digit k \<noteq> ch_quote" if "k < 16" for k
    using that code_of_hex_digit[of k] by (cases "k < 10") (auto simp: ch_quote_def)
  show ?case using 1 d[of "nat n"] d[of "nat (n mod 16)"] by (subst hex_text.simps) (auto simp: plain_def)
qed

lemma added_ok:
  assumes "manifest_ok m" "request_ok r" "0 \<le> now" "now < 2 ^ 53" "add_pending now r m = (0, m')"
  shows "manifest_ok m'" "mf_policies m' = mf_policies m" "mf_agent m' = mf_agent m"
proof -
  let ?i = "copy_field id_size (''req-'' @ hex_text (uint (request_hash r)))"
  have "plain (''req-'' @ hex_text (uint (request_hash r)))" using hex_text_plain[of "uint (request_hash r)"] by (auto simp: plain_def ch_quote_def)
  then have "plain ?i" unfolding copy_field_def plain_def using set_take_subset by fast
  moreover have "?i \<notin> set manifest_keys" by (auto simp: copy_field_def id_size_def manifest_keys_def)
  moreover have "length ?i < id_size" by (simp add: copy_field_def id_size_def)
  ultimately have "pending_ok \<lparr>pn_id = ?i, pn_request = r, pn_created = of_int now\<rparr>" using assms(2-4) by (auto simp: pending_ok_def safe_value_def)
  then show "manifest_ok m'" "mf_policies m' = mf_policies m" "mf_agent m' = mf_agent m"
    using assms(1,5) by (auto simp: add_pending_def manifest_ok_def enospc_def split: if_splits)
qed

lemma apply_store:
  assumes "store_ok files" "storable r" "access_apply_policy w a r p files = (0, files')"
  shows "store_ok files'"
    and "\<exists>m. load_manifest w files a = (0, m) \<and> load_manifest w files' a = (0, applied (normalize_request r) (normalize_token policy_size True p) m)"
proof -
  let ?r = "normalize_request r" and ?p = "normalize_token policy_size True p"
  from apply_done[OF assms(3)] obtain m where m: "askable a r" "is_policy_value ?p" "load_manifest w files a = (0, m)"
    "length (with_policy ?r ?p (mf_policies m)) \<le> max max_policies (length (mf_policies m))" "write_manifest w (applied ?r ?p m) files = (0, files')"
    by blast
  have ok: "manifest_ok m" "mf_agent m = a" using store_load[OF assms(1) _ m(3)] m(1) by (simp_all add: askable_def)
  have "manifest_ok (applied ?r ?p m)" using applied_ok[OF ok(1) _ m(2,4)] assms(2) by (simp add: storable_def)
  with store_write[OF assms(1) _ m(5)] load_written[OF _ m(5)] ok(2) m(3)
  show "store_ok files'" "\<exists>m. load_manifest w files a = (0, m) \<and> load_manifest w files' a = (0, applied ?r ?p m)" by auto
qed

lemma evaluate_store:
  fixes a :: string
  assumes "store_ok files" "storable r" "0 \<le> aw_now w" "aw_now w < 2 ^ 53"
  defines "files' \<equiv> snd (snd (access_evaluate w a r files))"
  shows "store_ok files'"
    and "load_manifest w files b = (0, m) \<Longrightarrow> \<exists>m'. load_manifest w files' b = (0, m') \<and> mf_policies m' = mf_policies m"
proof -
  have "store_ok files' \<and> (load_manifest w files b = (0, m) \<longrightarrow> (\<exists>m'. load_manifest w files' b = (0, m') \<and> mf_policies m' = mf_policies m))"
  proof (cases "files' = files")
    case False
    then obtain n n' where n: "askable a r" "load_manifest w files a = (0, n)" "add_pending (aw_now w) (normalize_request r) n = (0, n')"
      "write_manifest w n' files = (0, files')" unfolding files'_def by (rule evaluate_files)
    have ok: "manifest_ok n" "mf_agent n = a" using store_load[OF assms(1) _ n(2)] n(1) by (simp_all add: askable_def)
    have "request_ok (normalize_request r)" using assms(2) by (simp add: storable_def)
    note added = added_ok[OF ok(1) this assms(3,4) n(3)]
    have "load_manifest w files' b = load_manifest w files b" if "b \<noteq> a"
      using that evaluate_only_own[of b a w r files] unfolding files'_def by (intro load_same)
    then show ?thesis using store_write[OF assms(1) added(1) n(4)] load_written[OF added(1) n(4)] added ok(2) n(2) by (cases "b = a") auto
  qed (use assms(1) in simp)
  then show "store_ok files'" "load_manifest w files b = (0, m) \<Longrightarrow> \<exists>m'. load_manifest w files' b = (0, m') \<and> mf_policies m' = mf_policies m"
    by blast+
qed

section \<open>Runs of operations\<close>

datatype access_op = Apply string access_request string | Evaluate string access_request

primrec access_step :: "access_world \<Rightarrow> access_op \<Rightarrow> manifests \<Rightarrow> manifests" where
  "access_step w (Apply a r p) files = snd (access_apply_policy w a r p files)"
| "access_step w (Evaluate a r) files = snd (snd (access_evaluate w a r files))"

definition access_run :: "access_world \<Rightarrow> access_op list \<Rightarrow> manifests \<Rightarrow> manifests" where
  "access_run w ops files = fold (access_step w) ops files"

primrec op_request :: "access_op \<Rightarrow> access_request" where
  "op_request (Apply a r p) = r"
| "op_request (Evaluate a r) = r"

text \<open>The operations that give a policy to a rule that matches the request of the agent.\<close>

primrec changes_rule :: "string \<Rightarrow> access_request \<Rightarrow> access_op \<Rightarrow> bool" where
  "changes_rule a r (Apply b q p) \<longleftrightarrow> b = a \<and> request_matches_rule (normalize_request q) (normalize_request r)"
| "changes_rule a r (Evaluate b q) \<longleftrightarrow> False"

definition rule_for :: "access_world \<Rightarrow> string \<Rightarrow> access_request \<Rightarrow> policy_entry option \<Rightarrow> manifests \<Rightarrow> bool" where
  "rule_for w a r entry files \<longleftrightarrow> (\<exists>m. load_manifest w files a = (0, m) \<and> find_policy m (normalize_request r) = entry)"

lemma step_keeps:
  assumes "store_ok files" "rule_for w a r entry files" "0 \<le> aw_now w" "aw_now w < 2 ^ 53" "storable (op_request op)" "\<not> changes_rule a r op"
  shows "store_ok (access_step w op files)" "rule_for w a r entry (access_step w op files)"
proof -
  from assms(2) obtain m where m: "load_manifest w files a = (0, m)" "find_policy m (normalize_request r) = entry" by (auto simp: rule_for_def)
  have "store_ok (access_step w op files) \<and> rule_for w a r entry (access_step w op files)"
  proof (cases op)
    case (Evaluate b q)
    have q: "storable q" using assms(5) Evaluate by simp
    from evaluate_store(2)[OF assms(1) q assms(3,4), where a = b and b = a and m = m] m(1) Evaluate obtain m' where
      "load_manifest w (access_step w op files) a = (0, m')" "mf_policies m' = mf_policies m" by auto
    then have "rule_for w a r entry (access_step w op files)" using find_policy_matching[of "normalize_request r" m' m] m(2) by (simp add: rule_for_def)
    then show ?thesis using evaluate_store(1)[OF assms(1) q assms(3,4), where a = b] Evaluate by simp
  next
    case (Apply b q p)
    have q: "storable q" using assms(5) Apply by simp
    show ?thesis
    proof (cases "fst (access_apply_policy w b q p files) = 0")
      case True
      then have d: "access_apply_policy w b q p files = (0, access_step w op files)" using Apply by (simp add: prod_eq_iff)
      note s = apply_store[OF assms(1) q d]
      have "rule_for w a r entry (access_step w op files)"
      proof (cases "b = a")
        case True
        then have "\<not> request_matches_rule (normalize_request q) (normalize_request r)" using assms(6) Apply by simp
        then have "find_policy (applied (normalize_request q) (normalize_token policy_size True p) m) (normalize_request r) = find_policy m (normalize_request r)"
          using with_policy_matching[of "normalize_request q" "normalize_request r"] by (intro find_policy_matching) simp
        then show ?thesis using s(2) m True by (auto simp: rule_for_def)
      next
        case False
        then have "load_manifest w (access_step w op files) a = load_manifest w files a"
          using apply_only_own[of a b w q p files] Apply by (intro load_same) simp
        then show ?thesis using m by (simp add: rule_for_def)
      qed
      then show ?thesis using s(1) by simp
    next
      case False
      then show ?thesis using apply_failed[of w b q p files] Apply assms(1,2) by simp
    qed
  qed
  then show "store_ok (access_step w op files)" "rule_for w a r entry (access_step w op files)" by blast+
qed

lemma run_keeps:
  assumes "0 \<le> aw_now w" "aw_now w < 2 ^ 53" "store_ok files" "rule_for w a r entry files" "list_all (\<lambda>op. storable (op_request op) \<and> \<not> changes_rule a r op) ops"
  shows "store_ok (access_run w ops files) \<and> rule_for w a r entry (access_run w ops files)"
  using assms(3-5)
proof (induction ops arbitrary: files)
  case (Cons op ops)
  then show ?case using step_keeps[OF Cons.prems(1,2) assms(1,2), of op] by (simp add: access_run_def)
qed (simp add: access_run_def)

section \<open>Properties\<close>

text \<open>The manifest of the examples: an approved host, a forbidden one and a pending request.\<close>

definition example_request :: "string \<Rightarrow> access_request" where
  "example_request host = \<lparr>ar_kind = ''http'', ar_subject = host, ar_method = ''GET'', ar_path = ''/a''\<rparr>"

definition example_manifest :: manifest where
  "example_manifest = \<lparr>mf_agent = ''agt-1'', mf_policies = [\<lparr>pe_request = example_request ''a.org'', pe_policy = ''always''\<rparr>,
     \<lparr>pe_request = example_request ''*.org'', pe_policy = ''never''\<rparr>],
     mf_pending = [\<lparr>pn_id = ''req-1f'', pn_request = example_request ''b.net'', pn_created = 7\<rparr>]\<rparr>"

definition example_access :: access_world where
  "example_access = \<lparr>aw_path = \<lambda>_. 0, aw_write = \<lambda>_. 0, aw_now = 1700000000\<rparr>"

lemma example_storable: "host \<in> set [''a.org'', ''*.org'', ''b.net''] \<Longrightarrow> request_ok (example_request host)"
  by (auto simp: request_ok_def safe_request_def safe_value_def plain_def manifest_keys_def example_request_def normalize_request_def
      normalize_token_def access_sizes c_isspace_def c_tolower_def ch_quote_def)

lemma example_normalized: "host \<in> set [''a.org'', ''*.org'', ''b.net''] \<Longrightarrow> normalize_request (example_request host) = example_request host"
  using example_storable[of host] by (simp add: request_ok_def)

lemma example_manifest_ok: "manifest_ok example_manifest"
proof -
  have "request_ok (example_request h)" if "h \<in> set [''a.org'', ''*.org'', ''b.net'']" for h by (rule example_storable[OF that])
  moreover have "c_valid_agent_id ''agt-1''" by code_simp
  moreover have "(7 :: rat) = of_int 7" by simp
  ultimately show ?thesis unfolding manifest_ok_def example_manifest_def
    by (auto simp: policy_ok_def pending_ok_def is_policy_value_def safe_value_def plain_def ch_quote_def manifest_keys_def access_sizes intro!: exI[of _ 7])
qed

lemma quoted_length: "plain s \<Longrightarrow> length (quoted s) \<le> 2 * length s + 2"
proof -
  have "plain s \<Longrightarrow> length (esc s) \<le> 2 * length s" by (induction s) (auto simp: esc_Cons plain_Cons)
  then show "plain s \<Longrightarrow> ?thesis" by (simp add: quoted_def)
qed

lemma request_length:
  "safe_request r \<Longrightarrow> length (request_json r) \<le> 2 * (length (ar_kind r) + length (ar_subject r) + length (ar_method r) + length (ar_path r)) + 44"
  using quoted_length[of "ar_kind r"] quoted_length[of "ar_subject r"] quoted_length[of "ar_method r"] quoted_length[of "ar_path r"]
  by (simp add: request_json_def key_text_def safe_request_def safe_plain)

lemma example_manifest_fits: "manifest_to_json example_manifest = Some (manifest_text example_manifest)"
proof -
  have r: "length (request_json (example_request h)) \<le> 2 * length h + 64" if "h \<in> set [''a.org'', ''*.org'', ''b.net'']" for h
    using request_length[of "example_request h"] example_storable[OF that] by (simp add: example_request_def request_ok_def)
  have q: "length (quoted s) \<le> 2 * length s + 2" if "s \<in> set [''agt-1'', ''always'', ''never'', ''req-1f'']" for s
    using that by (intro quoted_length) (auto simp: plain_def ch_quote_def)
  have "length (created_text 7) \<le> 20" using created_digits[of 7] by (simp add: key_text_def show_nat.simps)
  then have "length (manifest_text example_manifest) \<le> 600"
    using r[of "''a.org''"] r[of "''*.org''"] r[of "''b.net''"] q[of "''agt-1''"] q[of "''always''"] q[of "''never''"] q[of "''req-1f''"]
    by (simp add: manifest_text_def example_manifest_def manifest_head_def policies_head_def pending_head_def manifest_foot_def key_text_def
        entry_lead_def policy_text_def pending_text_def)
  then show ?thesis by (simp add: manifest_to_json_text json_capacity_def)
qed

text \<open>
  C37. A manifest that was written without an error is read back as it was, and no other file changes. This is for a
  manifest with a valid agent and entries that are normalised and not more than fit, whose values hold no quote and
  no control character and are no name of a key of the file, with times of creation that are whole numbers
  from 0 up to 2 to the 53. (C38 shows what happens to other values.)
\<close>

theorem access_manifest_round_trip:
  assumes "manifest_ok m" "write_manifest w m files = (0, files')"
  shows "load_manifest w files' (mf_agent m) = (0, m) \<and> (\<forall>b. b \<noteq> mf_agent m \<longrightarrow> files' b = files b)"
  using load_written[OF assms] write_only_own[of _ m w files] assms(2) by simp

lemma access_manifest_round_trip_witness:
  "\<exists>t. load_manifest example_access (Map.empty(''agt-1'' \<mapsto> t)) ''agt-1'' = (0, example_manifest)"
proof -
  have a: "mf_agent example_manifest = ''agt-1''" by (simp add: example_manifest_def)
  then have "write_manifest example_access example_manifest Map.empty = (0, Map.empty(''agt-1'' \<mapsto> manifest_text example_manifest))"
    by (simp add: write_manifest_def example_manifest_fits example_access_def a)
  from access_manifest_round_trip[OF example_manifest_ok this] show ?thesis unfolding a by blast
qed

text \<open>
  C3. The decision fails closed, whatever the file of the agent holds: it is yes only without an error, for a
  valid agent and a request with a kind and a subject, when the loaded manifest has a rule for it
  that says always, and no rule that matches has a greater score; then no file changes. In any case
  only the file of the agent changes.
\<close>

theorem access_fails_closed:
  "(fst (snd (access_evaluate w a r files)) = Approve \<longrightarrow>
      fst (access_evaluate w a r files) = 0 \<and> snd (snd (access_evaluate w a r files)) = files
      \<and> c_valid_agent_id a \<and> ar_kind (normalize_request r) \<noteq> [] \<and> ar_subject (normalize_request r) \<noteq> []
      \<and> (\<exists>m. load_manifest w files a = (0, m)
           \<and> (\<exists>e \<in> set (mf_policies m). pe_policy e = ''always'' \<and> request_matches_rule (pe_request e) (normalize_request r)
                \<and> (\<forall>e' \<in> set (mf_policies m). request_matches_rule (pe_request e') (normalize_request r) \<longrightarrow>
                     rule_score (pe_request e') (normalize_request r) \<le> rule_score (pe_request e) (normalize_request r)))))
   \<and> (\<forall>b. b \<noteq> a \<longrightarrow> snd (snd (access_evaluate w a r files)) b = files b)"
proof (intro conjI impI allI)
  assume yes: "fst (snd (access_evaluate w a r files)) = Approve"
  then obtain m where m: "askable a r" "load_manifest w files a = (0, m)"
    "map_option pe_policy (find_policy m (normalize_request r)) = Some ''always''" by (auto simp: evaluate_decision)
  then obtain e where e: "find_policy m (normalize_request r) = Some e" "pe_policy e = ''always''" by auto
  show "fst (access_evaluate w a r files) = 0" "snd (snd (access_evaluate w a r files)) = files"
    using m by (simp_all add: access_evaluate_def askable_def Let_def)
  show "c_valid_agent_id a" "ar_kind (normalize_request r) \<noteq> []" "ar_subject (normalize_request r) \<noteq> []" using m(1) by (simp_all add: askable_def)
  show "\<exists>m. load_manifest w files a = (0, m)
           \<and> (\<exists>e \<in> set (mf_policies m). pe_policy e = ''always'' \<and> request_matches_rule (pe_request e) (normalize_request r)
                \<and> (\<forall>e' \<in> set (mf_policies m). request_matches_rule (pe_request e') (normalize_request r) \<longrightarrow>
                     rule_score (pe_request e') (normalize_request r) \<le> rule_score (pe_request e) (normalize_request r)))"
    using m(2) e(2) find_policy_best[OF e(1), unfolded score_of_def] by blast
qed (rule evaluate_only_own)

lemma access_fails_closed_witness:
  "fst (snd (access_evaluate example_access ''agt-1'' (example_request ''a.org'') (Map.empty(''agt-1'' \<mapsto> manifest_text example_manifest)))) = Approve
   \<and> (\<exists>m. load_manifest example_access (Map.empty(''agt-1'' \<mapsto> manifest_text example_manifest)) ''agt-1'' = (0, m)
        \<and> (\<exists>e \<in> set (mf_policies m). pe_policy e = ''always''))"
proof -
  have a: "mf_agent example_manifest = ''agt-1''" by (simp add: example_manifest_def)
  from load_printed[OF example_manifest_ok example_manifest_fits, of "Map.empty(''agt-1'' \<mapsto> manifest_text example_manifest)" example_access]
  have l: "load_manifest example_access (Map.empty(''agt-1'' \<mapsto> manifest_text example_manifest)) ''agt-1'' = (0, example_manifest)"
    unfolding a by (simp add: example_access_def)
  have "askable ''agt-1'' (example_request ''a.org'')" by code_simp
  moreover have "map_option pe_policy (find_policy example_manifest (normalize_request (example_request ''a.org''))) = Some ''always''" by code_simp
  ultimately have "fst (snd (access_evaluate example_access ''agt-1'' (example_request ''a.org'') (Map.empty(''agt-1'' \<mapsto> manifest_text example_manifest)))) = Approve"
    using l by (auto simp: evaluate_decision)
  with access_fails_closed[of example_access "''agt-1''" "example_request ''a.org''" "Map.empty(''agt-1'' \<mapsto> manifest_text example_manifest)"]
  show ?thesis by auto
qed

text \<open>
  C4. What the user decided holds, for manifests that the printer wrote and requests it can print. Let every
  file hold a manifest the printer wrote (valid agent, values with no quote, no control character and no name
  of a key, entries within the limits of the file), let the requests decided or evaluated be such
  requests once they are normalised, and let the clock be between 0 and 2 to the 53. Once a rule has been given a
  policy without an error, and whatever is evaluated afterwards and decided about other requests and
  agents, the request is approved exactly when the policy is always, until a rule that matches it is given a
  policy again; and the manifests stay such as the printer wrote. (C38 shows what happens to other values.)
\<close>

theorem applied_policy_holds:
  assumes "store_ok files" "storable r" "access_apply_policy w a r p files = (0, files')" "0 \<le> aw_now w" "aw_now w < 2 ^ 53"
    "list_all (\<lambda>op. storable (op_request op) \<and> \<not> changes_rule a r op) ops"
  shows "fst (snd (access_evaluate w a r (access_run w ops files'))) = (if normalize_token policy_size True p = ''always'' then Approve else Deny)
     \<and> store_ok (access_run w ops files')"
proof -
  note s = apply_store[OF assms(1-3)]
  from s(2) have "rule_for w a r (Some \<lparr>pe_request = normalize_request r, pe_policy = normalize_token policy_size True p\<rparr>) files'"
    using with_policy_found by (auto simp: rule_for_def find_policy_def applied_def remove_pending_def)
  from run_keeps[OF assms(4,5) s(1) this assms(6)] have run: "store_ok (access_run w ops files')"
    "rule_for w a r (Some \<lparr>pe_request = normalize_request r, pe_policy = normalize_token policy_size True p\<rparr>) (access_run w ops files')" by simp_all
  from assms(3) have "askable a r" by (rule apply_done)
  with run(2) have "fst (snd (access_evaluate w a r (access_run w ops files'))) = Approve \<longleftrightarrow> normalize_token policy_size True p = ''always''"
    unfolding evaluate_decision rule_for_def by auto
  with run(1) show ?thesis by (cases "fst (snd (access_evaluate w a r (access_run w ops files')))") auto
qed

lemma applied_policy_holds_witness:
  "\<exists>files. fst (snd (access_evaluate example_access ''agt-1'' (example_request ''a.org'')
       (access_run example_access [Evaluate ''agt-1'' (example_request ''b.net'')] files))) = Approve"
proof -
  let ?r = "example_request ''a.org''" and ?w = example_access
  define m where "m = \<lparr>mf_agent = ''agt-1'', mf_policies = [\<lparr>pe_request = ?r, pe_policy = ''always''\<rparr>], mf_pending = []\<rparr>"
  have n: "normalize_request ?r = ?r" "normalize_request (example_request ''b.net'') = example_request ''b.net''" by (rule example_normalized; simp)+
  have fields: "ar_kind ?r \<noteq> []" "ar_subject ?r \<noteq> []" by (simp_all add: example_request_def)
  have store: "store_ok Map.empty" by (simp add: store_ok_def)
  have "length (request_json ?r) \<le> 74" using request_length[of ?r] example_storable[of "''a.org''"] by (simp add: example_request_def request_ok_def)
  moreover have "length (quoted s) \<le> 2 * length s + 2" if "s \<in> set [''agt-1'', ''always'']" for s
    using that by (intro quoted_length) (auto simp: plain_def ch_quote_def)
  note this[of "''agt-1''"] this[of "''always''"]
  ultimately have "length (manifest_text m) \<le> 500"
    by (simp add: manifest_text_def m_def manifest_head_def policies_head_def pending_head_def manifest_foot_def key_text_def entry_lead_def policy_text_def)
  then have "manifest_to_json m = Some (manifest_text m)" by (simp add: manifest_to_json_text json_capacity_def)
  then have "write_manifest ?w m Map.empty = (0, Map.empty(''agt-1'' \<mapsto> manifest_text m))"
    by (simp add: write_manifest_def example_access_def m_def)
  moreover have "load_manifest ?w Map.empty ''agt-1'' = (0, \<lparr>mf_agent = ''agt-1'', mf_policies = [], mf_pending = []\<rparr>)" by code_simp
  moreover have "c_valid_agent_id ''agt-1''" by code_simp
  moreover have always: "normalize_token policy_size True ''always'' = ''always''" by code_simp
  ultimately have "access_apply_policy ?w ''agt-1'' ?r ''always'' Map.empty = (0, Map.empty(''agt-1'' \<mapsto> manifest_text m))"
    using fields by (simp add: access_apply_policy_def n is_policy_value_def max_policies_def remove_pending_def m_def Let_def)
  moreover have "storable ?r" "storable (example_request ''b.net'')" unfolding storable_def n by (rule example_storable; simp)+
  ultimately show ?thesis
    using applied_policy_holds[OF store, of ?r ?w "''agt-1''" "''always''" _ "[Evaluate ''agt-1'' (example_request ''b.net'')]"] always
    by (intro exI[of _ "Map.empty(''agt-1'' \<mapsto> manifest_text m)"]) (simp add: example_access_def)
qed

definition confused :: "string \<Rightarrow> access_request" where
  "confused m = \<lparr>ar_kind = ''http'', ar_subject = ''policy'', ar_method = m, ar_path = ''/a''\<rparr>"

definition confused_manifest :: "string \<Rightarrow> string \<Rightarrow> manifest" where
  "confused_manifest m p = \<lparr>mf_agent = ''agt-1'', mf_policies = [\<lparr>pe_request = confused m, pe_policy = p\<rparr>], mf_pending = []\<rparr>"

lemma confused_read:
  "parse_policies (manifest_text (confused_manifest ''ALWAYS'' ''never'')) = [\<lparr>pe_request = confused ''ALWAYS'', pe_policy = ''always''\<rparr>]"
  by code_simp

lemma confused_lost:
  "parse_policies (manifest_text (confused_manifest ''GET'' ''always'')) = []"
  by code_simp

lemma confused_pending:
  "parse_pending (manifest_text (confused_manifest ''ALWAYS'' ''never'')) = []"
  "parse_pending (manifest_text (confused_manifest ''GET'' ''always'')) = []"
  by code_simp+

definition confused_files :: "string \<Rightarrow> string \<Rightarrow> manifests" where
  "confused_files m p = Map.empty(''agt-1'' \<mapsto> manifest_text (confused_manifest m p))"

lemma confused_applied:
  assumes "m = ''ALWAYS'' \<and> p = ''never'' \<or> m = ''GET'' \<and> p = ''always''"
  shows "access_apply_policy example_access ''agt-1'' (confused m) p Map.empty = (0, confused_files m p)"
    and "load_manifest example_access (confused_files m p) ''agt-1''
       = (0, \<lparr>mf_agent = ''agt-1'', mf_policies = parse_policies (manifest_text (confused_manifest m p)), mf_pending = []\<rparr>)"
proof -
  have a: "mf_agent (confused_manifest m p) = ''agt-1''" by (simp add: confused_manifest_def)
  have "length (manifest_text (confused_manifest ''ALWAYS'' ''never'')) < 400" "length (manifest_text (confused_manifest ''GET'' ''always'')) < 400"
    by code_simp+
  with assms have len: "length (manifest_text (confused_manifest m p)) < 400" by auto
  then have w: "write_manifest example_access (confused_manifest m p) Map.empty = (0, confused_files m p)"
    by (simp add: write_manifest_def manifest_to_json_text json_capacity_def example_access_def a confused_files_def)
  have n: "normalize_request (confused ''ALWAYS'') = confused ''ALWAYS''" "normalize_request (confused ''GET'') = confused ''GET''" by code_simp+
  have q: "normalize_token policy_size True ''never'' = ''never''" "normalize_token policy_size True ''always'' = ''always''" by code_simp+
  have l: "load_manifest example_access Map.empty ''agt-1'' = (0, \<lparr>mf_agent = ''agt-1'', mf_policies = [], mf_pending = []\<rparr>)" by code_simp
  have v: "c_valid_agent_id ''agt-1''" by code_simp
  have "ar_kind (confused m) \<noteq> []" "ar_subject (confused m) \<noteq> []" by (simp_all add: confused_def)
  then show "access_apply_policy example_access ''agt-1'' (confused m) p Map.empty = (0, confused_files m p)"
    using assms n q l v w by (auto simp: access_apply_policy_def is_policy_value_def max_policies_def remove_pending_def Let_def confused_manifest_def)
  have "parse_pending (manifest_text (confused_manifest m p)) = []" using assms confused_pending by auto
  then show "load_manifest example_access (confused_files m p) ''agt-1''
       = (0, \<lparr>mf_agent = ''agt-1'', mf_policies = parse_policies (manifest_text (confused_manifest m p)), mf_pending = []\<rparr>)"
    using len json_get_agent_id[of "confused_manifest m p" "[]"] v valid_agent_fits[OF v]
    by (simp add: load_manifest_def Let_def manifest_text_c_string manifest_init_def confused_files_def a json_capacity_def example_access_def)
qed

text \<open>
  C38. A value that reads like a key takes the place of it: the search for a key does not look where a value ends. An
  agent chooses the host and the method of its requests: one it was told never to is approved, as its method
  is read as the policy, and a request to a host named policy that was approved is not.
\<close>

theorem method_read_as_policy:
  "(let files = snd (access_apply_policy example_access ''agt-1'' (confused ''ALWAYS'') ''never'' Map.empty)
    in fst (snd (access_evaluate example_access ''agt-1'' (confused ''ALWAYS'') files))) = Approve
   \<and> (let files = snd (access_apply_policy example_access ''agt-1'' (confused ''GET'') ''always'' Map.empty)
    in fst (snd (access_evaluate example_access ''agt-1'' (confused ''GET'') files))) = Deny"
proof -
  have f: "askable ''agt-1'' (confused ''ALWAYS'')" by code_simp
  have n: "normalize_request (confused ''ALWAYS'') = confused ''ALWAYS''" by code_simp
  have "fst (snd (access_evaluate example_access ''agt-1'' (confused ''ALWAYS'') (confused_files ''ALWAYS'' ''never''))) = Approve"
    unfolding evaluate_decision using f confused_applied(2)[of "''ALWAYS''" "''never''"] n matches_itself[of "confused ''ALWAYS''"]
    by (simp add: confused_read find_policy_def Let_def rule_score_def)
  moreover have "fst (snd (access_evaluate example_access ''agt-1'' (confused ''GET'') (confused_files ''GET'' ''always''))) \<noteq> Approve"
    unfolding evaluate_decision using confused_applied(2)[of "''GET''" "''always''"] by (simp add: confused_lost find_policy_def)
  then have "fst (snd (access_evaluate example_access ''agt-1'' (confused ''GET'') (confused_files ''GET'' ''always''))) = Deny"
    by (cases "fst (snd (access_evaluate example_access ''agt-1'' (confused ''GET'') (confused_files ''GET'' ''always'')))") auto
  ultimately show ?thesis using confused_applied(1)[of "''ALWAYS''" "''never''"] confused_applied(1)[of "''GET''" "''always''"] by simp
qed

end
