(* ===== verification/Http_Proxy.thy ===== *)
theory Http_Proxy
  imports Access_Policy
begin

text \<open>
  The proxy of a sandbox (\<^verbatim>\<open>libbubble/http_proxy.c\<close>): reading the first request of a connection, asking the policy
  or the broker, and opening the connection or refusing it. The sockets are parameters (\<open>proxy_world\<close>): the result
  code of each write and of the connection, the line the broker sends back and how its stream ends, and
  the packets that both sides send afterwards. A pointer and a length are the text between.
\<close>

section \<open>Reading a request\<close>

definition copy_token :: "nat \<Rightarrow> string \<Rightarrow> string" where
  "copy_token n s = c_string (take (n - 1) s)"

definition is_eol :: "char \<Rightarrow> bool" where "is_eol c \<longleftrightarrow> c = CHR 0x0D \<or> c = CHR 0x0A"
definition is_blank :: "char \<Rightarrow> bool" where "is_blank c \<longleftrightarrow> c = CHR '' '' \<or> c = CHR 0x09"

text \<open>The line up to its newline or the end, without the carriage returns before it.\<close>

definition trim_line_end :: "string \<Rightarrow> string" where
  "trim_line_end l = rev (dropWhile is_eol (rev l))"

definition first_line :: "string \<Rightarrow> string" where
  "first_line s = takeWhile (\<lambda>c. c \<noteq> ch_nl) s"

definition same_ignoring_case :: "string \<Rightarrow> string \<Rightarrow> bool" where
  "same_ignoring_case s t \<longleftrightarrow> map c_tolower s = map c_tolower t"

definition starts_with_scheme :: "string \<Rightarrow> bool" where
  "starts_with_scheme target \<longleftrightarrow> same_ignoring_case (take 7 target) ''http://'' \<or> same_ignoring_case (take 8 target) ''https://''"

definition default_port_for_scheme :: "string \<Rightarrow> 32 word" where
  "default_port_for_scheme scheme = (if same_ignoring_case scheme ''https'' then 443 else 80)"

definition host_size :: nat where "host_size = 256"
definition verb_size :: nat where "verb_size = 16"
definition url_size :: nat where "url_size = 2048"
definition target_size :: nat where "target_size = 1024"

definition tcp_port_is_valid :: "32 word \<Rightarrow> bool" where
  "tcp_port_is_valid p \<longleftrightarrow> 0 < p \<and> p \<le> 65535"

text \<open>A port is the number \<^verbatim>\<open>strtoul\<close> reads, cut to 32 bits.\<close>

definition proxy_port :: "string \<Rightarrow> 32 word option" where
  "proxy_port s =
     (if 16 \<le> length s then None
      else case strtoull (c_string s) of (n, rest) \<Rightarrow>
        if rest = c_string s \<or> rest \<noteq> [] \<or> \<not> tcp_port_is_valid (ucast n) then None else Some (ucast n))"

text \<open>The host and the text behind the colon, which is missing without one: in brackets, or with exactly one colon.\<close>

definition host_and_port :: "string \<Rightarrow> string \<times> string option" where
  "host_and_port value =
     (if hd value = CHR ''['' then
        (if CHR '']'' \<notin> set value then (value, None)
         else let rest = tl (dropWhile (\<lambda>c. c \<noteq> CHR '']'') value) in
           (takeWhile (\<lambda>c. c \<noteq> CHR '']'') (tl value), if rest \<noteq> [] \<and> hd rest = CHR '':'' then Some (tl rest) else None))
      else if length (filter (\<lambda>c. c = CHR '':'') value) = 1 then
        (takeWhile (\<lambda>c. c \<noteq> CHR '':'') value, Some (tl (dropWhile (\<lambda>c. c \<noteq> CHR '':'') value)))
      else (value, None))"

definition split_host_port :: "string \<Rightarrow> 32 word \<Rightarrow> (string \<times> 32 word) option" where
  "split_host_port value default_port =
     (if value = [] then None
      else case host_and_port value of (host, port) \<Rightarrow>
        if host = [] then None
        else case port of
          Some (c # cs) \<Rightarrow> map_option (Pair (map c_tolower (copy_token host_size host))) (proxy_port (c # cs))
        | _ \<Rightarrow> Some (map c_tolower (copy_token host_size host), default_port))"

record proxy_request =
  pq_method :: string
  pq_url :: string
  pq_host :: string
  pq_path :: string
  pq_port :: "32 word"
  pq_connect :: bool

definition parse_absolute_url :: "proxy_request \<Rightarrow> string \<Rightarrow> proxy_request option" where
  "parse_absolute_url q target =
     (let scheme = takeWhile (\<lambda>c. c \<noteq> CHR '':'') target; rest = drop (length scheme) target in
      if length rest \<le> 2 \<or> take 3 rest \<noteq> ''://'' then None
      else let authority = takeWhile (\<lambda>c. c \<noteq> CHR ''/'') (drop 3 rest); p = drop (length authority) (drop 3 rest) in
        case split_host_port authority (default_port_for_scheme scheme) of None \<Rightarrow> None
        | Some (host, port) \<Rightarrow> Some (q\<lparr>pq_host := host, pq_port := port, pq_path := if p = [] then ''/'' else copy_token target_size p\<rparr>))"

lemma line_shorter: "s \<noteq> [] \<Longrightarrow> length (tl (dropWhile p s)) < length s"
  using length_dropWhile_le[of p s] by (cases s; cases "dropWhile p s") auto

text \<open>The value of the first line with the name, the lines of a body included.\<close>

function find_header_value :: "string \<Rightarrow> string \<Rightarrow> string option" where
  "find_header_value name s =
     (if s = [] then None
      else let line = trim_line_end (first_line s) in
        if length name < length line \<and> same_ignoring_case (take (length name) line) name \<and> line ! length name = CHR '':''
        then Some (dropWhile is_blank (drop (length name + 1) line))
        else find_header_value name (tl (dropWhile (\<lambda>c. c \<noteq> ch_nl) s)))"
  by auto

termination by (relation "measure (\<lambda>(_, s). length s)") (use line_shorter in auto)

declare find_header_value.simps [simp del]

definition build_origin_url :: "string \<Rightarrow> string \<Rightarrow> string option" where
  "build_origin_url target host =
     (if host = [] \<or> target = [] \<or> hd target \<noteq> CHR ''/'' then Some (copy_token url_size target)
      else let url = ''http://'' @ c_string host @ c_string target in if length url < url_size then Some url else None)"

definition proxy_parse_request :: "string \<Rightarrow> proxy_request option" where
  "proxy_parse_request s =
     (if ch_nl \<notin> set s then None
      else let line = trim_line_end (first_line s);
          verb = takeWhile (Not \<circ> is_blank) line;
          target_start = dropWhile is_blank (dropWhile (Not \<circ> is_blank) line);
          target = takeWhile (Not \<circ> is_blank) target_start;
          version = dropWhile is_blank (dropWhile (Not \<circ> is_blank) target_start);
          q = \<lparr>pq_method = copy_token verb_size verb, pq_url = copy_token url_size target, pq_host = [], pq_path = [], pq_port = 0, pq_connect = False\<rparr> in
        if verb = [] \<or> target = [] \<or> version = [] then None
        else if same_ignoring_case (pq_method q) ''CONNECT'' then
          (case split_host_port target 443 of None \<Rightarrow> None
           | Some (host, port) \<Rightarrow> Some (q\<lparr>pq_connect := True, pq_host := host, pq_port := port\<rparr>))
        else if starts_with_scheme target then parse_absolute_url q target
        else let headers = dropWhile is_eol (drop (length line) s);
            host = (case find_header_value ''Host'' headers of None \<Rightarrow> [] | Some v \<Rightarrow> v) in
          case build_origin_url target host of None \<Rightarrow> None
          | Some url \<Rightarrow> (case split_host_port host 80 of None \<Rightarrow> None
            | Some (h, port) \<Rightarrow> Some (q\<lparr>pq_url := url, pq_host := h, pq_port := port, pq_path := copy_token target_size target\<rparr>)))"

text \<open>What is decided on: the host, the method and the path as far as it fits; neither port nor scheme.\<close>

definition policy_request_from_http :: "proxy_request \<Rightarrow> access_request option" where
  "policy_request_from_http q =
     (if pq_host q = [] then None
      else Some \<lparr>ar_kind = ''http'', ar_subject = copy_field subject_size (pq_host q), ar_method = copy_field method_size (pq_method q),
        ar_path = copy_field path_size (pq_path q)\<rparr>)"

section \<open>Asking the broker\<close>

definition payload_size :: nat where "payload_size = 1400"

definition append_text :: "string \<Rightarrow> string option \<Rightarrow> string option" where
  "append_text s b = (case b of None \<Rightarrow> None | Some t \<Rightarrow> if payload_size \<le> length t + length s then None else Some (t @ s))"

definition payload_char :: "char \<Rightarrow> string" where
  "payload_char c =
     (if c = ch_quote \<or> c = ch_backslash then [ch_backslash, c]
      else if code c = 8 then [ch_backslash, CHR ''b'']
      else if code c = 12 then [ch_backslash, CHR ''f'']
      else if code c = 10 then [ch_backslash, CHR ''n'']
      else if code c = 13 then [ch_backslash, CHR ''r'']
      else if code c = 9 then [ch_backslash, CHR ''t'']
      else if code c < 32 then [ch_backslash] @ ''u00'' @ [hex_digit (code c div 16), hex_digit (code c mod 16)]
      else [c])"

definition append_json_string :: "string \<Rightarrow> string option \<Rightarrow> string option" where
  "append_json_string s b = append_text [ch_quote] (fold (\<lambda>c. append_text (payload_char c)) s (append_text [ch_quote] b))"

definition append_json_field :: "string \<Rightarrow> string \<Rightarrow> bool \<Rightarrow> string option \<Rightarrow> string option" where
  "append_json_field name value first b =
     append_json_string value (append_text '':'' (append_json_string name (if first then b else append_text '','' b)))"

definition broker_payload :: "string \<Rightarrow> access_request \<Rightarrow> string option" where
  "broker_payload agent_id r =
     (let b = append_json_field ''agent_id'' agent_id True (append_text ''{'' (Some []));
          b = append_json_field ''kind'' (ar_kind r) False b;
          b = append_json_field ''subject'' (ar_subject r) False b;
          b = append_json_field ''method'' (ar_method r) False b;
          b = append_json_field ''path'' (ar_path r) False b in
      append_text (''}'' @ [ch_nl]) b)"

text \<open>The line the broker sends, read byte by byte; \<open>ending\<close> is the \<^verbatim>\<open>errno\<close> behind the last byte, zero at the end of the stream.\<close>

definition epipe :: int where "epipe = - 32"
definition response_size :: nat where "response_size = 32"

fun read_broker_response :: "int \<Rightarrow> string \<Rightarrow> string \<Rightarrow> int \<times> string" where
  "read_broker_response ending out [] = (if ending = 0 then epipe else ending, out)"
| "read_broker_response ending out (c # s) =
     (if c = ch_nl then (0, out)
      else if c = CHR 0x0D then read_broker_response ending out s
      else if response_size \<le> length out + 1 then (enospc, out)
      else read_broker_response ending (out @ [c]) s)"

record proxy_world =
  pw_access :: access_world
  pw_broker_fd :: "32 word"
  pw_broker_write :: int
  pw_broker_reply :: "string \<Rightarrow> string \<times> int"
  pw_client_write :: int
  pw_connect :: "string \<Rightarrow> 32 word \<Rightarrow> int"
  pw_upstream_write :: int

text \<open>The result code and the decision, which stays a denial when there is an error.\<close>

definition request_broker_decision :: "proxy_world \<Rightarrow> string \<Rightarrow> access_request \<Rightarrow> int \<times> decision" where
  "request_broker_decision w agent_id r =
     (case broker_payload agent_id r of None \<Rightarrow> (enospc, Deny)
      | Some payload \<Rightarrow>
          if pw_broker_write w \<noteq> 0 then (pw_broker_write w, Deny)
          else case pw_broker_reply w payload of (reply, ending) \<Rightarrow>
            (case read_broker_response ending [] reply of (rc, response) \<Rightarrow>
              if rc \<noteq> 0 then (rc, Deny)
              else if c_string response \<in> set [''always'', ''approve'', ''ask''] then (0, Approve)
              else if c_string response \<in> set [''never'', ''deny''] then (0, Deny)
              else (einval, Deny)))"

section \<open>A connection\<close>

text \<open>The packets of both sides, and the end of either; everything the client sends goes to the other side.\<close>

datatype relay_event = FromClient string | FromUpstream string | RelayEnd

fun proxy_loop :: "relay_event list \<Rightarrow> string \<times> string" where
  "proxy_loop [] = ([], [])"
| "proxy_loop (RelayEnd # evs) = ([], [])"
| "proxy_loop (FromClient s # evs) = (case proxy_loop evs of (up, down) \<Rightarrow> (s @ up, down))"
| "proxy_loop (FromUpstream s # evs) = (case proxy_loop evs of (up, down) \<Rightarrow> (up, s @ down))"

text \<open>What a connection comes to: no request, a refusal, or a connection to a host and port with the bytes sent there.\<close>

datatype outcome = NoRequest int | Refused int | Connected string "32 word" string int

definition proxy_decision :: "proxy_world \<Rightarrow> string \<Rightarrow> access_request \<Rightarrow> manifests \<Rightarrow> decision \<times> manifests" where
  "proxy_decision w agent_id r files =
     (if 0 \<le> sint (pw_broker_fd w) \<and> access_needs_prompt (pw_access w) agent_id r files = (0, True)
      then (snd (request_broker_decision w agent_id r), files)
      else case access_evaluate (pw_access w) agent_id r files of (rc, d, files') \<Rightarrow> (if rc \<noteq> 0 then Deny else d, files'))"

definition handle_client :: "proxy_world \<Rightarrow> string \<Rightarrow> int + string \<Rightarrow> relay_event list \<Rightarrow> manifests \<Rightarrow> outcome \<times> manifests" where
  "handle_client w agent_id received evs files =
     (case received of Inl errno \<Rightarrow> (NoRequest (- errno), files)
      | Inr data \<Rightarrow>
          if data = [] then (NoRequest 0, files)
          else case proxy_parse_request data of None \<Rightarrow> (Refused (pw_client_write w), files)
          | Some q \<Rightarrow>
              if agent_id = [] then (Refused (pw_client_write w), files)
              else case policy_request_from_http q of None \<Rightarrow> (Refused (pw_client_write w), files)
              | Some r \<Rightarrow> (case proxy_decision w agent_id r files of (d, files') \<Rightarrow>
                  if d \<noteq> Approve then (Refused (pw_client_write w), files')
                  else if pw_connect w (pq_host q) (pq_port q) < 0 then (Refused (pw_client_write w), files')
                  else if pq_connect q then
                    (Connected (pq_host q) (pq_port q) (if pw_client_write w = 0 then fst (proxy_loop evs) else []) (pw_client_write w), files')
                  else (Connected (pq_host q) (pq_port q) (if pw_upstream_write w = 0 then data @ fst (proxy_loop evs) else []) (pw_upstream_write w), files')))"

section \<open>What the broker receives and what comes of its answer\<close>

definition payload_quoted :: "string \<Rightarrow> string" where
  "payload_quoted s = [ch_quote] @ concat (map payload_char s) @ [ch_quote]"

definition payload_field :: "string \<Rightarrow> string \<Rightarrow> string" where
  "payload_field name value = payload_quoted name @ '':'' @ payload_quoted value"

definition payload_line :: "string \<Rightarrow> access_request \<Rightarrow> string" where
  "payload_line agent_id r =
     ''{'' @ join '','' [payload_field ''agent_id'' agent_id, payload_field ''kind'' (ar_kind r), payload_field ''subject'' (ar_subject r),
       payload_field ''method'' (ar_method r), payload_field ''path'' (ar_path r)] @ ''}''"

named_theorems payload_simps \<open>steps of the payload as one piece\<close>

lemma append_text_twice [payload_simps]: "append_text u (append_text s b) = append_text (s @ u) b"
  by (auto simp: append_text_def split: option.splits)

lemma append_json_string_text [payload_simps]: "append_json_string s b = append_text (payload_quoted s) b"
proof -
  have "fold (\<lambda>c. append_text (payload_char c)) s (append_text u b) = append_text (u @ concat (map payload_char s)) b" for u
    by (induction s arbitrary: u) (simp_all add: payload_simps)
  then show ?thesis by (simp add: append_json_string_def payload_quoted_def payload_simps)
qed

lemma append_json_field_text [payload_simps]:
  "append_json_field name value first b = append_text ((if first then [] else '','') @ payload_field name value) b"
  by (simp add: append_json_field_def payload_field_def payload_simps)

lemma broker_payload_text:
  "broker_payload a r = (if length (payload_line a r) + 1 < payload_size then Some (payload_line a r @ [ch_nl]) else None)"
proof -
  have "broker_payload a r = append_text (payload_line a r @ [ch_nl]) (Some [])"
    by (simp add: broker_payload_def payload_line_def Let_def payload_simps)
  then show ?thesis by (auto simp: append_text_def)
qed

text \<open>The proxy prints the characters up to 126 as Python does.\<close>

definition ascii :: "string \<Rightarrow> bool" where "ascii s \<longleftrightarrow> list_all (\<lambda>c. code c < 127) s"

definition ascii_request :: "access_request \<Rightarrow> bool" where
  "ascii_request r \<longleftrightarrow> ascii (ar_kind r) \<and> ascii (ar_subject r) \<and> ascii (ar_method r) \<and> ascii (ar_path r)"

definition request_dict :: "string \<Rightarrow> access_request \<Rightarrow> pydict" where
  "request_dict a r = [(''agent_id'', PStr a), (''kind'', PStr (ar_kind r)), (''subject'', PStr (ar_subject r)),
     (''method'', PStr (ar_method r)), (''path'', PStr (ar_path r))]"

lemma code_iff: "c = char_of n \<longleftrightarrow> code c = n" if "n < 256" using that by auto

lemma payload_char_dump: "code c < 127 \<Longrightarrow> payload_char c = dump_char c"
  unfolding payload_char_def dump_char_def ch_quote_def ch_backslash_def Let_def
  using code_iff[of 34 c] code_iff[of 92 c] by auto

lemma payload_quoted_dump: "ascii s \<Longrightarrow> payload_quoted s = dump_string s"
proof -
  assume "ascii s"
  then have "map payload_char s = map dump_char s" by (auto simp: ascii_def list_all_iff payload_char_dump)
  then show ?thesis by (simp only: payload_quoted_def dump_string_def ch_quote_def)
qed

lemma payload_line_dump: "ascii a \<Longrightarrow> ascii_request r \<Longrightarrow> payload_line a r = json_dumps_compact (PDict (request_dict a r))"
proof -
  assume "ascii a" "ascii_request r"
  moreover have "ascii ''agent_id''" "ascii ''kind''" "ascii ''subject''" "ascii ''method''" "ascii ''path''" by (simp_all add: ascii_def)
  ultimately show ?thesis
    by (simp add: payload_line_def payload_field_def json_dumps_compact_def request_dict_def compact_style_def line_break_def
        payload_quoted_dump ascii_request_def)
qed

lemma payload_loads: "ascii a \<Longrightarrow> ascii_request r \<Longrightarrow> json_loads (payload_line a r) = Inr (PDict (request_dict a r))"
proof -
  have "json_clean (PDict (request_dict a r))" by (simp add: request_dict_def)
  then show "ascii a \<Longrightarrow> ascii_request r \<Longrightarrow> ?thesis" by (simp add: payload_line_dump json_loads_compact)
qed

lemma payload_char_line: "ch_nl \<notin> set (payload_char c)"
proof (cases "code c < 32")
  case True
  have "hex_digit n \<noteq> ch_nl" if "n < 16" for n using hex_digit_code[OF that] by (auto simp: ch_nl_def)
  then have "hex_digit (code c div 16) \<noteq> ch_nl" "hex_digit (code c mod 16) \<noteq> ch_nl" using True by simp_all
  then show ?thesis by (auto simp: payload_char_def ch_backslash_def ch_quote_def ch_nl_def)
qed (auto simp: payload_char_def ch_backslash_def ch_quote_def ch_nl_def)

lemma payload_one_line: "payload_line a r \<noteq> [] \<and> ch_nl \<notin> set (payload_line a r)"
proof -
  have "ch_nl \<notin> set (payload_quoted s)" for s using payload_char_line by (auto simp: payload_quoted_def ch_quote_def ch_nl_def)
  then show ?thesis by (simp add: payload_line_def payload_field_def ch_nl_def)
qed

text \<open>What the proxy relies on of the other side: one word for a line.\<close>

locale decision_peer =
  fixes answers :: "string \<Rightarrow> string list" and word :: "string \<Rightarrow> string"
  assumes one_word: "ch_nl \<notin> set line \<Longrightarrow> line \<noteq> [] \<Longrightarrow> answers (line @ [ch_nl]) = [word line @ [ch_nl]]"
    and known: "word line \<in> set [''approve'', ''deny'', ''ask'']"
begin

lemma word_read: "read_broker_response ending [] (word line @ [ch_nl]) = (0, word line)"
  using known[of line] by (auto simp: ch_nl_def response_size_def)

lemma decided:
  assumes "pw_broker_reply w = (\<lambda>sent. (concat (answers sent), ending))" "pw_broker_write w = 0" "broker_payload a r \<noteq> None"
  shows "request_broker_decision w a r = (0, if word (payload_line a r) = ''deny'' then Deny else Approve)"
proof -
  have "broker_payload a r = Some (payload_line a r @ [ch_nl])" using assms(3) by (auto simp: broker_payload_text split: if_splits)
  moreover have "answers (payload_line a r @ [ch_nl]) = [word (payload_line a r) @ [ch_nl]]" using payload_one_line one_word by blast
  ultimately show ?thesis using assms(1,2) known[of "payload_line a r"] word_read[of ending "payload_line a r"]
    by (auto simp: request_broker_decision_def c_string_def)
qed

end

interpretation python_peer: decision_peer "\<lambda>sent. fst (drain f sent)" "\<lambda>line. wire_response (broker_response f line)" for f
proof
  fix line :: string
  assume l: "ch_nl \<notin> set line" "line \<noteq> []"
  have "drain f (line @ [ch_nl]) = (answer_line f line, [])"
    using l(1) by (subst drain.simps, subst drain.simps)
      (auto simp: has_char_def before_char_def after_char_def takeWhile_append dropWhile_append takeWhile_eq_all_conv[THEN iffD2])
  then show "fst (drain f (line @ [ch_nl])) = [wire_response (broker_response f line) @ [ch_nl]]" using l(2) by (simp add: answer_line_def)
next
  show "wire_response (broker_response f line) \<in> set [''approve'', ''deny'', ''ask'']" for line using wire_response_range by auto
qed

section \<open>Properties\<close>

text \<open>A parsed request has a valid port.\<close>

lemma proxy_port_valid: "proxy_port s = Some p \<Longrightarrow> tcp_port_is_valid p"
  by (auto simp: proxy_port_def split: prod.splits if_splits)

lemma split_host_port_valid: "split_host_port v d = Some (h, p) \<Longrightarrow> tcp_port_is_valid d \<Longrightarrow> tcp_port_is_valid p"
  by (auto simp: split_host_port_def proxy_port_valid split: prod.splits if_splits option.splits list.splits)

lemma tcp_defaults: "tcp_port_is_valid 443" "tcp_port_is_valid 80" "tcp_port_is_valid (default_port_for_scheme s)"
  by (simp_all add: tcp_port_is_valid_def default_port_for_scheme_def)

lemma proxy_parse_valid: "proxy_parse_request s = Some q \<Longrightarrow> tcp_port_is_valid (pq_port q)"
  by (auto simp: proxy_parse_request_def parse_absolute_url_def Let_def tcp_defaults
      split: if_splits option.splits prod.splits dest!: split_host_port_valid)

lemma policy_request_fields:
  "policy_request_from_http q = Some r \<Longrightarrow> pq_host q \<noteq> [] \<and> ar_kind r = ''http'' \<and> ar_subject r = take 255 (pq_host q) \<and> ar_method r = take 63 (pq_method q)
     \<and> ar_path r = take 511 (pq_path q)"
  by (auto simp: policy_request_from_http_def copy_field_def access_sizes split: if_splits)

lemma proxy_decision_approve:
  assumes "proxy_decision w a r files = (Approve, files')"
  shows "files' = files \<and> (access_needs_prompt (pw_access w) a r files = (0, True) \<and> request_broker_decision w a r = (0, Approve)
     \<or> access_evaluate (pw_access w) a r files = (0, Approve, files))"
proof (cases "0 \<le> sint (pw_broker_fd w) \<and> access_needs_prompt (pw_access w) a r files = (0, True)")
  case True
  moreover have "snd (request_broker_decision w a r) = Approve \<Longrightarrow> fst (request_broker_decision w a r) = 0"
    by (auto simp: request_broker_decision_def split: option.splits prod.splits if_splits)
  ultimately show ?thesis using assms by (auto simp: proxy_decision_def prod_eq_iff)
next
  case False
  obtain rc d fs where e: "access_evaluate (pw_access w) a r files = (rc, d, fs)" by (metis prod_cases3)
  with False assms have d: "rc = 0" "d = Approve" "files' = fs" by (auto simp: proxy_decision_def split: if_splits)
  moreover have "askable a r" "\<exists>m. load_manifest (pw_access w) files a = (0, m) \<and> map_option pe_policy (find_policy m (normalize_request r)) = Some ''always''"
    using evaluate_decision[of "pw_access w" a r files] e d(2) by simp_all
  then have "access_evaluate (pw_access w) a r files = (0, Approve, files)" by (auto simp: access_evaluate_def askable_def Let_def)
  ultimately show ?thesis using e by simp
qed

text \<open>
  C2. The proxy connects only where it was told it may: to the host and port of the request it parsed, which
  are a name and a valid port, for an agent, and after the stored policy said always or, when the policy
  asks, the broker answered yes without an error; the manifests stay as they were.
\<close>

theorem proxy_connects_only_approved:
  assumes "handle_client w a received evs files = (Connected h p up rc, files')"
  shows "\<exists>data q r. received = Inr data \<and> proxy_parse_request data = Some q \<and> policy_request_from_http q = Some r
     \<and> a \<noteq> [] \<and> h = pq_host q \<and> h \<noteq> [] \<and> p = pq_port q \<and> 0 < p \<and> p \<le> 65535 \<and> files' = files
     \<and> (access_evaluate (pw_access w) a r files = (0, Approve, files)
        \<or> access_needs_prompt (pw_access w) a r files = (0, True) \<and> request_broker_decision w a r = (0, Approve))"
proof -
  from assms obtain data q r where s: "received = Inr data" "proxy_parse_request data = Some q" "policy_request_from_http q = Some r" "a \<noteq> []"
    by (auto simp: handle_client_def split: sum.splits option.splits if_splits)
  moreover obtain d fs where d: "proxy_decision w a r files = (d, fs)" by fastforce
  have "data \<noteq> []" using assms s(1) by (auto simp: handle_client_def)
  with assms s d have "d = Approve" "fs = files'" "h = pq_host q" "p = pq_port q" by (auto simp: handle_client_def split: if_splits)
  moreover have "files' = files \<and> (access_needs_prompt (pw_access w) a r files = (0, True) \<and> request_broker_decision w a r = (0, Approve)
     \<or> access_evaluate (pw_access w) a r files = (0, Approve, files))"
    using proxy_decision_approve[of w a r files] d calculation by simp
  ultimately show ?thesis using proxy_parse_valid[OF s(2)] policy_request_fields[OF s(3)] unfolding tcp_port_is_valid_def by blast
qed

text \<open>
  C5. The proxy asks the Python broker and does what it answers. Let the broker's loop be on the other end. When
  the request does not fit the buffer of 1400 bytes or cannot be written, the answer is no. When it
  fits and is written, and agent and request are of ASCII characters below 127, then the line the proxy sends
  is read as the request it is about: the answer is yes, without an error, exactly when the broker function
  returns always or ask for it; it is no for never, for any other text and for an exception.
\<close>

theorem proxy_obeys_broker:
  assumes "pw_broker_reply w = (\<lambda>sent. (concat (fst (drain f sent)), ending))"
  shows "(1400 \<le> length (payload_line a r) + 1 \<or> pw_broker_write w \<noteq> 0 \<longrightarrow> snd (request_broker_decision w a r) = Deny)
    \<and> (length (payload_line a r) + 1 < 1400 \<and> pw_broker_write w = 0 \<and> ascii a \<and> ascii_request r \<longrightarrow>
        request_broker_decision w a r = (0, case f (request_dict a r) of
          Inr policy \<Rightarrow> if policy \<in> set [''always'', ''ask''] then Approve else Deny | Inl e \<Rightarrow> Deny))"
proof (intro conjI impI)
  assume "1400 \<le> length (payload_line a r) + 1 \<or> pw_broker_write w \<noteq> 0"
  then show "snd (request_broker_decision w a r) = Deny"
    by (auto simp: request_broker_decision_def broker_payload_text payload_size_def)
next
  assume sent: "length (payload_line a r) + 1 < 1400 \<and> pw_broker_write w = 0 \<and> ascii a \<and> ascii_request r"
  then have "broker_payload a r \<noteq> None" "pw_broker_write w = 0" by (simp_all add: broker_payload_text payload_size_def)
  note decided = python_peer.decided[OF assms this(2,1)]
  have "broker_response f (payload_line a r) = (case f (request_dict a r) of Inl _ \<Rightarrow> ''never''
      | Inr response \<Rightarrow> if response \<in> set [''always'', ''never'', ''ask''] then response else ''never'')"
    using payload_loads[of a r] sent by (simp add: broker_response_def)
  then show "request_broker_decision w a r = (0, case f (request_dict a r) of
          Inr policy \<Rightarrow> if policy \<in> set [''always'', ''ask''] then Approve else Deny | Inl e \<Rightarrow> Deny)"
    unfolding decided by (auto simp: wire_response_def split: sum.splits)
qed

text \<open>The world of the examples: a broker that is not there, a connection that opens.\<close>

definition example_proxy :: proxy_world where
  "example_proxy = \<lparr>pw_access = example_access, pw_broker_fd = - 1, pw_broker_write = 0, pw_broker_reply = \<lambda>sent. (concat (fst (drain (\<lambda>_. Inr ''ask'') sent)), 0),
     pw_client_write = 0, pw_connect = \<lambda>_ _. 5, pw_upstream_write = 0\<rparr>"

lemma proxy_obeys_broker_witness:
  "request_broker_decision example_proxy ''agt-1'' (example_request ''a.org'') = (0, Approve)"
proof -
  have "length (payload_line ''agt-1'' (example_request ''a.org'')) < 200" by code_simp
  moreover have "ascii ''agt-1''" "ascii_request (example_request ''a.org'')" by code_simp+
  moreover have "pw_broker_reply example_proxy = (\<lambda>sent. (concat (fst (drain (\<lambda>_. Inr ''ask'') sent)), 0))"
      "pw_broker_write example_proxy = 0" by (simp_all add: example_proxy_def)
  ultimately show ?thesis using proxy_obeys_broker[of example_proxy "\<lambda>_. Inr ''ask''" 0 "''agt-1''" "example_request ''a.org''"] by simp
qed

definition crlf :: string where "crlf = [CHR 0x0D, CHR 0x0A]"
definition first_request :: string where "first_request = ''GET http://a.org/a HTTP/1.1'' @ crlf @ crlf"
definition second_request :: string where "second_request = ''POST http://a.org/secret HTTP/1.1'' @ crlf @ crlf"
definition example_files :: manifests where "example_files = Map.empty(''agt-1'' \<mapsto> manifest_text example_manifest)"

lemma example_load: "load_manifest example_access example_files ''agt-1'' = (0, example_manifest)"
  using load_printed[OF example_manifest_ok example_manifest_fits, of example_files example_access]
  by (simp add: example_manifest_def example_files_def example_access_def)

lemma first_parsed:
  "proxy_parse_request first_request = Some \<lparr>pq_method = ''GET'', pq_url = ''http://a.org/a'', pq_host = ''a.org'', pq_path = ''/a'', pq_port = 80, pq_connect = False\<rparr>"
  by code_simp

lemma second_parsed:
  "proxy_parse_request second_request = Some \<lparr>pq_method = ''POST'', pq_url = ''http://a.org/secret'', pq_host = ''a.org'', pq_path = ''/secret'', pq_port = 80, pq_connect = False\<rparr>"
  by code_simp

lemma no_prompt: "pw_broker_fd w = - 1 \<Longrightarrow> proxy_decision w a r files =
    (case access_evaluate (pw_access w) a r files of (rc, d, files') \<Rightarrow> (if rc \<noteq> 0 then Deny else d, files'))"
  by (simp add: proxy_decision_def)

lemma first_connected:
  "handle_client example_proxy ''agt-1'' (Inr first_request) evs example_files = (Connected ''a.org'' 80 (first_request @ fst (proxy_loop evs)) 0, example_files)"
proof -
  let ?r = "example_request ''a.org''"
  have "askable ''agt-1'' ?r" "map_option pe_policy (find_policy example_manifest (normalize_request ?r)) = Some ''always''" by code_simp+
  then have "access_evaluate example_access ''agt-1'' ?r example_files = (0, Approve, example_files)"
    using example_load by (auto simp: access_evaluate_def askable_def Let_def)
  moreover have "policy_request_from_http \<lparr>pq_method = ''GET'', pq_url = ''http://a.org/a'', pq_host = ''a.org'', pq_path = ''/a'', pq_port = 80, pq_connect = False\<rparr> = Some ?r"
    by (simp add: policy_request_from_http_def copy_field_def access_sizes example_request_def)
  moreover have "first_request \<noteq> []" by (simp add: first_request_def)
  ultimately show ?thesis unfolding handle_client_def
    by (simp add: first_parsed no_prompt example_proxy_def)
qed

lemma proxy_connects_only_approved_witness:
  "\<exists>q r. proxy_parse_request first_request = Some q \<and> policy_request_from_http q = Some r
     \<and> access_evaluate example_access ''agt-1'' r example_files = (0, Approve, example_files)"
proof -
  have "access_needs_prompt example_access ''agt-1'' (example_request ''a.org'') example_files \<noteq> (0, True)"
  proof -
    have "(case find_policy example_manifest (normalize_request (example_request ''a.org'')) of None \<Rightarrow> True | Some e \<Rightarrow> pe_policy e = ''ask'') = False" by code_simp
    then show ?thesis using example_load by (auto simp: access_needs_prompt_def Let_def)
  qed
  moreover have "policy_request_from_http q = Some r \<Longrightarrow> proxy_parse_request first_request = Some q \<Longrightarrow> r = example_request ''a.org''" for q r
    using first_parsed by (auto simp: policy_request_from_http_def copy_field_def access_sizes example_request_def)
  ultimately show ?thesis using proxy_connects_only_approved[OF first_connected[of "[]"]] by (auto simp: example_proxy_def)
qed

lemma relayed_up: "fst (proxy_loop evs) =
    concat (map (\<lambda>e. case e of FromClient s \<Rightarrow> s | _ \<Rightarrow> []) (takeWhile (\<lambda>e. e \<noteq> RelayEnd) evs))"
  by (induction evs rule: proxy_loop.induct) (auto split: prod.splits)

text \<open>
  C39. Only the first request of a connection is decided on. When it opens a connection, to whichever host and
  for whichever agent and manifests, then everything the client sends behind it, up to the end of the
  connection, goes to the same host unread: the requests in it are not parsed, no policy is asked, and no
  manifest changes because of them.
\<close>

theorem later_requests_pass:
  assumes "handle_client w a received [] files = (Connected h p up 0, files')"
  shows "handle_client w a received evs files = (Connected h p
    (up @ concat (map (\<lambda>e. case e of FromClient s \<Rightarrow> s | _ \<Rightarrow> []) (takeWhile (\<lambda>e. e \<noteq> RelayEnd) evs))) 0, files')"
  using assms unfolding relayed_up[symmetric] handle_client_def
  by (auto split: sum.splits option.splits prod.splits if_splits)

text \<open>
  The agent of the example may get one page of a host. Its request to post to another page is refused, and
  arrives at the host when it is sent behind the first one.
\<close>

lemma later_requests_pass_witness:
  "fst (handle_client example_proxy ''agt-1'' (Inr second_request) [] example_files) = Refused 0
   \<and> fst (handle_client example_proxy ''agt-1'' (Inr first_request) [FromClient second_request] example_files)
       = Connected ''a.org'' 80 (first_request @ second_request) 0"
proof -
  let ?r = "\<lparr>ar_kind = ''http'', ar_subject = ''a.org'', ar_method = ''POST'', ar_path = ''/secret''\<rparr>"
  have "map_option pe_policy (find_policy example_manifest (normalize_request ?r)) \<noteq> Some ''always''" by code_simp
  then have "fst (snd (access_evaluate example_access ''agt-1'' ?r example_files)) \<noteq> Approve" using example_load by (auto simp: evaluate_decision)
  moreover have "policy_request_from_http \<lparr>pq_method = ''POST'', pq_url = ''http://a.org/secret'', pq_host = ''a.org'', pq_path = ''/secret'', pq_port = 80, pq_connect = False\<rparr> = Some ?r"
    by (simp add: policy_request_from_http_def copy_field_def access_sizes)
  moreover have "second_request \<noteq> []" by (simp add: second_request_def)
  ultimately have "fst (handle_client example_proxy ''agt-1'' (Inr second_request) [] example_files) = Refused 0"
    unfolding handle_client_def by (auto simp: second_parsed no_prompt example_proxy_def split: prod.splits)
  moreover have "handle_client example_proxy ''agt-1'' (Inr first_request) [] example_files = (Connected ''a.org'' 80 first_request 0, example_files)"
    by (simp add: first_connected)
  note later_requests_pass[OF this, of "[FromClient second_request]"]
  ultimately show ?thesis by simp
qed

lemma show_nat_length: "k < 10 ^ j \<Longrightarrow> 0 < j \<Longrightarrow> length (show_nat k) \<le> j"
proof (induction k arbitrary: j rule: show_nat.induct)
  case (1 k)
  show ?case
  proof (cases "k < 10")
    case True
    then show ?thesis using 1(3) by (subst show_nat.simps) simp
  next
    case False
    then have "j \<noteq> 1" using 1(2) by auto
    with 1(3) obtain i where i: "j = Suc i" "0 < i" by (cases j) auto
    then have "k div 10 < 10 ^ i" using 1(2) by (simp add: less_mult_imp_div_less mult.commute)
    from 1(1)[OF False this i(2)] False i show ?thesis by (subst show_nat.simps) simp
  qed
qed

lemma strtoull_digits: "n < 2 ^ 64 \<Longrightarrow> strtoull (show_nat n) = (of_int (int n), [])"
proof -
  assume n: "n < 2 ^ 64"
  obtain d ds where d: "show_nat n = d # ds" using show_nat_not_Nil[of n] by (cases "show_nat n") auto
  have digits: "list_all is_digit (d # ds)" using show_nat_list[of n] by (simp add: d)
  then have sign: "d \<notin> set ''+-''" "code d \<notin> set [32, 9, 10, 11, 12, 13]" by (auto simp: is_digit_def)
  have all: "takeWhile is_digit (d # ds) = d # ds" "dropWhile is_digit (d # ds) = []"
    using digits by (auto simp: takeWhile_eq_all_conv list_all_iff)
  have "strto_parts (show_nat n) = (False, show_nat n, [])" unfolding strto_parts_def Let_def d using sign all by auto
  moreover have "int n < 2 ^ 64" using n by simp
  ultimately show ?thesis by (simp add: strtoull_def digits_val_show_nat)
qed

text \<open>C40. The number behind a host is cut to 32 bits before it is looked at, so that numbers far above the greatest port are ports.\<close>

theorem port_wraps_around:
  assumes "0 < p" "p \<le> 65535"
  shows "proxy_port (show_nat (unat p + 2 ^ 32)) = Some p"
proof -
  define n where "n = unat p + 2 ^ 32"
  have p: "unat p \<le> 65535" using assms(2) by (simp add: word_le_nat_alt)
  then have n: "n < 10 ^ 10" "n < 2 ^ 64" by (simp_all add: n_def)
  have c: "c_string (show_nat n) = show_nat n"
    using show_nat_list[of n] unfolding c_string_def by (intro takeWhile_eq_all_conv[THEN iffD2]) (auto simp: list_all_iff is_digit_def)
  have "take_bit 64 n = n" using n(2) by (simp add: take_bit_nat_eq_self_iff)
  then have "ucast (of_int (int n) :: 64 word) = (of_int (int n) :: 32 word)" by (simp add: unsigned_of_nat)
  also have "\<dots> = of_nat (unat p) + of_nat (2 ^ 32)" unfolding n_def of_int_of_nat_eq by (rule of_nat_add)
  also have "(of_nat (2 ^ 32) :: 32 word) = 0" by simp
  finally have "ucast (of_int (int n) :: 64 word) = p" by simp
  moreover have "length (show_nat n) < 16" using show_nat_length[OF n(1)] by simp
  ultimately show ?thesis unfolding n_def[symmetric]
    using assms c strtoull_digits[OF n(2)] show_nat_not_Nil[of n, symmetric] by (simp add: proxy_port_def tcp_port_is_valid_def)
qed

lemma port_wraps_around_witness: "proxy_port (show_nat (unat (443 :: 32 word) + 2 ^ 32)) = Some 443"
  by (rule port_wraps_around) (simp_all add: word_less_nat_alt word_le_nat_alt)

end
