(* ===== verification/Spec2Isabelle.thy ===== *)
theory Spec2Isabelle
  imports Desktop_App Example_Agents Gpu_Setup Windows_Icon Http_Proxy
begin

text \<open>
  \<^bold>\<open>BubbleHub\<close> runs agents (programs that talk to language models) in a sandbox on one machine and serves
  local models to them. This development models its Python code, \<^verbatim>\<open>bubblehub/\<close>, the example agents, and the part
  of its C library that decides what an agent may reach.

  \<^bold>\<open>The program.\<close> The command \<^verbatim>\<open>bubble\<close> (\<^verbatim>\<open>cli/\<close>) starts an agent: it checks the directories the agent may
  write to, registers the agent with the scheduler, makes sure that an inference server answers on the host,
  builds the agent's environment, starts the sandbox and, when the agent wants more than its manifest
  allows, asks the user. Inside, the client libraries (\<^verbatim>\<open>integrations/\<close>, \<^verbatim>\<open>engine/\<close>) send chats to that server
  (\<^verbatim>\<open>http_api.py\<close>), which opens a session on the host: it chooses a model for a specialty and hands the
  conversation to the scheduler. Scheduler, sandbox and access policy are a C library behind
  \<^verbatim>\<open>native.py\<close>; its proxy (\<^verbatim>\<open>libbubble/http_proxy.c\<close>) opens the connections of an agent after it looked at the
  agent's access manifest (\<^verbatim>\<open>libbubble/access_policy.c\<close>) or asked the broker of \<^verbatim>\<open>native.py\<close>. A desktop interface (\<^verbatim>\<open>app/\<close>) and a dashboard (\<^verbatim>\<open>tui/\<close>) show and change what runs.

  \<^bold>\<open>Theories and sources\<close>, in the order in which they build on each other:
  \<^item> \<open>BubbleHub_Prelude\<close>: exceptions as values (\<open>exn\<close>, \<open>result\<close>), programs on a state (\<open>prog\<close>, \<open>bindn\<close>,
    \<open>finallyn\<close>, the rule collections \<open>keeps_rules\<close> and \<open>yields_rules\<close>), values of JSON (\<open>pyval\<close>), strings.
    \<open>Json_Text\<close>: \<^verbatim>\<open>json\<close> and UTF-8. \<open>Py_Floats\<close>: doubles. \<open>Py_Paths\<close>: \<^verbatim>\<open>pathlib\<close> and a file system with links.
  \<^item> \<open>Model_Registry\<close>: \<^verbatim>\<open>engine/registry.py\<close>, \<^verbatim>\<open>engine/selector.py\<close>, the bundled \<^verbatim>\<open>config/models.yaml\<close>.
  \<^item> \<open>Chat_Messages\<close>: the message normalisation of \<^verbatim>\<open>http_api.py\<close>.
  \<^item> \<open>Native_Scheduler\<close>, \<open>Native_Hardware\<close>, \<open>Native_Sandbox\<close>: \<^verbatim>\<open>native.py\<close> with \<^verbatim>\<open>node/client.py\<close>,
    \<^verbatim>\<open>gpu_setup.py\<close> and the option parser of the sandbox helper. \<open>Gpu_Setup\<close>: the installer's whole run.
  \<^item> \<open>Engine_Session\<close>: \<^verbatim>\<open>engine/session.py\<close>, \<^verbatim>\<open>downloader.py\<close>, \<^verbatim>\<open>structured.py\<close>, \<^verbatim>\<open>integrations/\<close>.
    \<open>Http_Api\<close>: the rest of \<^verbatim>\<open>http_api.py\<close>.
  \<^item> \<open>Sandbox_Paths\<close>, \<open>Persistent_Agents\<close>, \<open>Interactive_Menu\<close>, \<open>Run_Agent\<close>: \<^verbatim>\<open>cli/run.py\<close> and
    \<^verbatim>\<open>cli/interactive.py\<close>. \<open>Inference_Config\<close>: \<^verbatim>\<open>inference.py\<close>. \<open>Bubble_Log\<close>: \<^verbatim>\<open>log.py\<close>.
  \<^item> \<open>Agent_Records\<close>, \<open>App_Models\<close>, \<open>Telemetry\<close>, \<open>Control_Api\<close>, \<open>Desktop_App\<close>: \<^verbatim>\<open>app/agents.py\<close>,
    \<^verbatim>\<open>models.py\<close>, \<^verbatim>\<open>telemetry.py\<close>, \<^verbatim>\<open>api.py\<close>, \<^verbatim>\<open>desktop.py\<close> (with \<^verbatim>\<open>cli/app.py\<close>).
  \<^item> \<open>Cli_Commands\<close>: the other commands of \<^verbatim>\<open>cli/\<close> and the daemons. \<open>Dashboard\<close>: \<^verbatim>\<open>tui/dashboard.py\<close>.
    \<open>Example_Agents\<close>: \<^verbatim>\<open>examples/\<close>. \<open>Windows_Icon\<close>: \<^verbatim>\<open>scripts/ci/write-windows-icon.py\<close>.
  \<^item> \<open>Access_Manifest\<close>, \<open>Access_Policy\<close>: \<^verbatim>\<open>libbubble/access_policy.c\<close>, its records, parser and printer, and the
    operations over the manifests of all agents. \<open>Http_Proxy\<close>: \<^verbatim>\<open>libbubble/http_proxy.c\<close>.

  \<^bold>\<open>State.\<close> A function that only reads is a HOL function with a \<open>result\<close>; one that changes something is a
  \<open>prog\<close> on a record. The records nest as the code's surroundings do: \<open>history\<close>, the calls to the C library
  and the strings freed; \<open>os_view\<close>, the file system, working directory and environment; \<open>host\<close>, these two and
  the signals sent; \<open>net\<close>, the daemons started and the clock; \<open>run_state\<close>, host and net; \<open>console\<close>, a
  terminal; \<open>cli_state\<close>, host, console and what was printed; \<open>log_state\<close>, the globals of the log module;
  \<open>desktop_state\<close>, the server and the programs run; \<open>manifests\<close>, the text of each agent's manifest, changed by functions that return a result code as the C
  code does. A raise is \<open>Inl\<close> with the state as it was left, so that
  \<^verbatim>\<open>finally\<close> and every early return are branches of the model.

  \<^bold>\<open>What is relied upon.\<close> The C library (\<open>native_lib\<close>), the sandbox and the programs that are run, the
  network (\<open>probe\<close>, \<open>hub\<close>, the request library with the texts of its exceptions), YAML (\<open>yaml\<close>), rich's questions (\<open>cl_ask\<close>), removal of
  trees (\<open>disk\<close>) and the hardware are arguments of the definitions. Where a property needs a law of one of
  them, it is a hypothesis by name: \<open>tree_removal\<close> (removing a tree touches nothing outside it, interpreted
  for a removal that succeeds and one that is refused some files), \<open>decision_peer\<close> (the other end of the proxy answers a
  line with one word, interpreted for the Python broker), \<open>request_errors_only\<close> (a probe fails with
  the errors of the request library), \<open>asks_choices\<close> (an answer is a choice or the default).

  \<^bold>\<open>What is shown.\<close>
  \<^item> Models: the candidates of a specialty are exactly the registered models that fit, in order, the selected
    one is best, a session stays within the limits of scheduler and machine, and a model that was chosen is
    the one that is loaded afterwards. The order is the locale \<open>ranked_selection\<close>.
  \<^item> Chats: a conversation is accepted only in the normal form, which is stable; a request reaches the engine
    only when all of it is valid, is always answered, and its content arrives in both forms of stream. A chat
    inside the sandbox is, through JSON and HTTP, the chat of the host (this theory).
  \<^item> The sandbox: root directories, overlay directories and log files stay where they may be; the environment the
    helper gets is closed; what the broker answers is fixed line by line, and does not depend on how a stream is cut
    whose chunks decode; the helper reads the options it is given, integers at the width of the C structure.
  \<^item> Access: a request is approved only by a stored rule that says so, a decision holds until it is made again, the
    manifest is read back as it was written, the proxy connects only where it was told it may, and it obeys the
    Python broker; each for the values and texts the theorem names. Where the C code falls short (a value that reads like a key, later requests
    of a connection, the number of a port) the theorem says what it does.
  \<^item> Ends: the environment is restored, the terminal given back, the desktop's server closed and every string of the
    library freed, whatever happens in between; an agent that was launched is deregistered when its temporary
    directories can be removed.
  \<^item> Effects: what deleting, discarding, stopping, editing a manifest, deciding requests, installing and each
    HTTP method may change, and that they change nothing else; the commands for the host refuse inside.
  \<^item> Liveness and round trips: a server that answers in time is found, a menu always returns, the example's
    client is always answered by its tools; log options, options of the helper and models are read back; the
    icon that was drawn is read back as its images, and a damaged chunk of it is noticed.

  \<^bold>\<open>Bounds.\<close> A path follows at most 40 links (\<open>max_links\<close>, the limit of the kernel), more are the symlink loop
  Python reports. Waiting for the server takes steps of a quarter of a second until thirty seconds are over,
  and ends for every server. A discarded agent has a thousand names for its remains. Loops that only an
  interrupt ends take their number of rounds, and a menu reads the characters that were typed, behind which
  the input has ended. Every other recursion ends by its argument; nothing is cut off by fuel.

  \<^bold>\<open>Deviations.\<close> A string has the characters up to 255, any other is the question mark. A fraction read from
  JSON is the rational of its digits, rounded when it is used; the sum of floats is the one before Python
  3.12, and minus zero is zero. Messages of a \<^verbatim>\<open>TypeError\<close> are without the name of the type, and log
  messages are left out of the functions that log. One view of \<^verbatim>\<open>/proc\<close> stands for a whole snapshot.

  \<^bold>\<open>Not modelled.\<close> The scheduler, the sandbox and the file system of the C library with their namespaces, cgroups
  and filters, of which the source here has the calls; the paths and owners of manifests and the system
  calls of the proxy, which are result codes; sockets and threads, so that requests are handled one after
  the other; the declarations of commands by typer and argparse; the layout of rich; the text of YAML. The
  application in Rust, its web page, the installers, the shell scripts of the build and the tests do not
  belong to the runtime of the Python package.
\<close>

section \<open>A sandboxed session and the server on the host\<close>

text \<open>
  The request library inside the sandbox and the HTTP server outside, put together: what is posted is
  answered by \<open>do_POST\<close> on the host. The texts of the library's own exceptions are parameters: the one of
  \<^verbatim>\<open>raise_for_status\<close>, raised for a status from 400 to 599, by status and address, and the one of a body that
  is no JSON.
\<close>

record http_client =
  hc_status_message :: "int \<Rightarrow> string \<Rightarrow> string"
  hc_json_message :: "string \<Rightarrow> string"

definition http_exchange ::
  "http_client \<Rightarrow> engine_world \<Rightarrow> api_config \<Rightarrow> stamps \<Rightarrow> history \<Rightarrow> string \<Rightarrow> string \<Rightarrow> pyval \<Rightarrow> pyval result" where
  "http_exchange client host cfg st h server_url url payload =
     (let raw = utf8_encode (json_dumps payload);
          request = \<lparr>rq_path = drop (length server_url) url,
            rq_content_length = Some (show_int (int (length raw))), rq_body = raw\<rparr>;
          response = fst (do_POST host cfg st request h) in
      if 400 \<le> rs_status response \<and> rs_status response < 600
      then Inl (RequestException (hc_status_message client (rs_status response) url))
      else (case response_json response of
          Inl _ \<Rightarrow> Inl (RequestException (hc_json_message client (rs_body response)))
        | Inr reply \<Rightarrow> Inr reply))"

lemma http_exchange_object: "http_exchange client host cfg st h server_url (server_url @ p) (PDict body) =
   (let response = fst (do_POST host cfg st (json_request p body) h) in
    if 400 \<le> rs_status response \<and> rs_status response < 600
    then Inl (RequestException (hc_status_message client (rs_status response) (server_url @ p)))
    else (case response_json response of
        Inl _ \<Rightarrow> Inl (RequestException (hc_json_message client (rs_body response)))
      | Inr reply \<Rightarrow> Inr reply))"
  by (simp add: http_exchange_def json_request_def Let_def)

lemma completion_text_payload:
  "completion_text (PDict (chat_completion_payload st model content i c)) = Inr content"
  by (simp add: completion_text_def chat_completion_payload_def)

lemma json_message_encode: "map json_message ms = map encode_message ms"
  by (simp add: json_message_def encode_message_def)

lemma known_specialty:
  assumes "map_of (reg_specialties reg) s \<noteq> None"
    "map_of body ''bubblehub_specialty'' = Some (PStr s)" "map_of body ''bubblehub_speciality'' = None"
    "map_of body ''model'' = Some (PStr s)"
  shows "specialty_from_body (Inr reg) body d = Inr s"
  using assms by (auto simp: specialty_from_body_def resolve_specialty_alias_def py_or_def dget_def dget_or_def Let_def)

lemma host_answers_sandbox_chat:
  assumes reg: "ew_registry host = Inr reg" "map_of (reg_specialties reg) specialty \<noteq> None"
    and ms: "well_formed ms" "ms \<noteq> []" "0 < n"
  shows "http_exchange client host cfg st h server_url (server_url @ ''/v1/chat/completions'') (sandbox_chat_payload specialty ms n)
    = (case fst (with_session_chat host specialty (ac_niceness cfg) ms (Some n) h) of
         Inr content \<Rightarrow> Inr (PDict (chat_completion_payload st
           specialty content None None))
       | Inl e \<Rightarrow> Inl (RequestException (hc_status_message client (if is_value_error e then 400 else 502)
           (server_url @ ''/v1/chat/completions''))))"
proof -
  let ?body = "[(''model'', PStr specialty), (''bubblehub_specialty'', PStr specialty),
       (''messages'', PList (map json_message ms)), (''max_tokens'', PInt n), (''stream'', PBool False)]"
  let ?req = "json_request ''/v1/chat/completions'' ?body"
  have "json_clean (PDict ?body)" using json_messages_clean[of ms] by simp
  then have read: "read_json ?req = Inr ?body" by (rule read_json_request)
  have path: "rq_path ?req = ''/v1/chat/completions''" by (simp add: json_request_def Let_def)
  obtain m ms' where cons: "map json_message ms = m # ms'" using ms(2) by (cases ms) auto
  have norm: "normalize_chat_messages (m # ms') = Inr ms"
    using well_formed_reread[OF ms(1,2)] cons by (simp add: json_message_encode)
  have spec: "specialty_from_body (Inr reg) ?body (ac_default_specialty cfg) = Inr specialty"
    by (rule known_specialty[OF reg(2)]) simp_all
  have tokens: "max_output_tokens (ew_env host) ?body [''max_tokens'', ''max_completion_tokens''] = Inr n"
    using ms(3) by (simp add: dget_def)
  have model: "response_model_name ?body specialty = specialty"
    by (simp add: response_model_name_def dget_def)
  have get: "dget ?body ''messages'' = PList (m # ms')" "\<not> truthy (dget ?body ''stream'')"
    using cons by (simp_all add: dget_def)
  have "handle_chat_completions host cfg st ?body h
      = (case with_session_chat host specialty (ac_niceness cfg) ms (Some n) h of
          (Inl e, h') \<Rightarrow> (Inl e, h')
        | (Inr content, h') \<Rightarrow> (Inr (send_json (chat_completion_payload st specialty content None None) 200), h'))"
    unfolding handle_chat_completions_def get(1) reg(1)
    using norm spec tokens model get(2)
    by (simp add: native_simps server_chat_def split: prod.splits sum.splits)
  then show ?thesis
    by (auto simp: http_exchange_object sandbox_chat_payload_def do_POST_def native_simps read path post_route_def Let_def
        response_json_send[OF chat_payload_clean] split: prod.splits sum.splits)
qed

text \<open>
  C10. A chat from inside the sandbox is the chat of the host. Let the guest be sandboxed with a usable
  address of the server, let its POSTs be answered by the server of the host at that address, and let the
  host's registry have the specialty and the conversation be accepted, with a positive number of tokens. Then
  the request goes out as JSON, through the HTTP server into a session of the host, and comes back with the
  same content. A failure on the host is a RuntimeError inside, with the text the request library gives a
  status of 400 for a ValueError and of 502 for any other exception.
\<close>

theorem sandboxed_chat_is_host_chat:
  assumes guest: "is_env_sandboxed (ew_env guest)" "sandbox_inference_base_url (ew_env guest) = Inr server_url"
      "ew_http_post guest = http_exchange client host cfg st h server_url"
    and host: "ew_registry host = Inr reg" "map_of (reg_specialties reg) specialty \<noteq> None"
    and conversation: "well_formed ms" "ms \<noteq> []" "0 < n"
  shows "fst (with_session_chat guest specialty niceness ms (Some n) h') =
    (case fst (with_session_chat host specialty (ac_niceness cfg) ms (Some n) h) of
       Inr content \<Rightarrow> Inr content
     | Inl e \<Rightarrow> Inl (RuntimeError (''sandbox inference request failed: ''
         @ hc_status_message client (if is_value_error e then 400 else 502) (server_url @ ''/v1/chat/completions''))))"
proof -
  have "sandbox_chat guest server_url specialty ms n =
    (case fst (with_session_chat host specialty (ac_niceness cfg) ms (Some n) h) of
       Inr content \<Rightarrow> Inr content
     | Inl e \<Rightarrow> Inl (RuntimeError (''sandbox inference request failed: ''
         @ hc_status_message client (if is_value_error e then 400 else 502) (server_url @ ''/v1/chat/completions''))))"
    unfolding sandbox_chat_def post_sandbox_json_def guest(3) host_answers_sandbox_chat[OF host conversation]
    by (cases "fst (with_session_chat host specialty (ac_niceness cfg) ms (Some n) h)")
      (simp_all add: completion_text_payload)
  moreover have "fst (with_session_chat guest specialty niceness ms (Some n) h') = sandbox_chat guest server_url specialty ms n"
    using guest(1,2) conversation(3)
    by (simp add: with_session_chat_def session_enter_def session_chat_def native_simps new_session_def)
  ultimately show ?thesis by simp
qed

definition hello_reply :: string where
  "hello_reply = ''{'' @ dump_string ''content'' @ '':'' @ dump_string ''hello'' @ ''}''"

definition demo_host :: engine_world where
  "demo_host = demo_world\<lparr>ew_lib := \<lparr>nl_status = (\<lambda>_ _. 0),
     nl_text = (\<lambda>_ c. if c = SnapshotJson then Some ''{}'' else Some hello_reply),
     nl_admission = (\<lambda>_ _. (1, '''', ''''))\<rparr>\<rparr>"

lemma demo_host_answers: "fst (with_session_chat demo_host ''chat'' 0 ms (Some 5) []) = Inr ''hello''"
proof -
  have "map_sum (\<lambda>_. ()) (\<lambda>_. ()) (fst (session_enter demo_host (new_session ''chat'' 0 None None) [])) = Inr ()"
    by code_simp
  then obtain s' h1 where e: "session_enter demo_host (new_session ''chat'' 0 None None) [] = (Inr s', h1)"
    by (cases "session_enter demo_host (new_session ''chat'' 0 None None) []") (auto dest: map_sum_InrD)
  have "\<not> is_env_sandboxed (ew_env demo_host)" by (simp add: demo_host_def demo_world_def is_env_sandboxed_def)
  from session_enter_local[OF this e] obtain m path where
    s': "s' = (new_session ''chat'' 0 None None)\<lparr>es_resolved := Some (m, path)\<rparr>" by blast
  then have s: "es_sandbox_base_url s' = None" "es_resolved s' = Some (m, path)" by (simp_all add: new_session_def)
  have reply: "nl_text (ew_lib demo_host) h (InferenceChatJson r) = Some hello_reply" for h r
    by (simp add: demo_host_def)
  have "bindr (decode_utf8 hello_reply) (\<lambda>raw. bindr (json_loads raw) chat_reply) = Inr [(''content'', PStr ''hello'')]"
    by code_simp
  then show ?thesis
    by (simp add: with_session_chat_def native_simps e s session_chat_def inference_chat_def
        text_call_def reply)
qed

definition demo_guest_env :: env where
  "demo_guest_env = map_of [(''BUBBLEHUB_SANDBOX'', ''1''), (''BUBBLEHUB_SANDBOX_INFERENCE_HOST'', ''127.0.0.1''),
     (''BUBBLEHUB_SANDBOX_INFERENCE_PORT'', ''8'')]"

definition demo_client :: http_client where
  "demo_client = \<lparr>hc_status_message = (\<lambda>n url. if n = 400 then ''400 Client Error: Bad Request for url: '' @ url
       else show_int n @ '' Server Error: Bad Gateway for url: '' @ url),
     hc_json_message = (\<lambda>_. ''Expecting value: line 1 column 1 (char 0)'')\<rparr>"

definition demo_guest :: engine_world where
  "demo_guest = demo_world\<lparr>ew_env := demo_guest_env,
     ew_http_post := http_exchange demo_client demo_host demo_config demo_stamps [] ''http://127.0.0.1:8''\<rparr>"

lemma sandboxed_chat_is_host_chat_witness:
  "fst (with_session_chat demo_guest ''chat'' 0 [chat_msg ''user'' ''hi''] (Some 5) []) = Inr ''hello''"
proof -
  have env: "ew_env demo_guest = demo_guest_env" by (simp add: demo_guest_def)
  have sandboxed: "is_env_sandboxed (ew_env demo_guest)" unfolding env by code_simp
  have base: "sandbox_inference_base_url (ew_env demo_guest) = Inr ''http://127.0.0.1:8''" unfolding env by code_simp
  have post: "ew_http_post demo_guest = http_exchange demo_client demo_host demo_config demo_stamps [] ''http://127.0.0.1:8''"
    by (simp add: demo_guest_def)
  have reg: "ew_registry demo_host = Inr demo_registry" by (simp add: demo_host_def demo_world_def)
  have known: "map_of (reg_specialties demo_registry) ''chat'' \<noteq> None" by (simp add: demo_registry_def)
  have wf: "well_formed [chat_msg ''user'' ''hi'']" by code_simp
  have n: "ac_niceness demo_config = 0" by (simp add: demo_config_def)
  show ?thesis
    unfolding sandboxed_chat_is_host_chat[OF sandboxed base post reg known wf list.distinct(2) zero_less_numeral]
    by (simp only: n demo_host_answers sum.case)
qed

end
